(* ===== verification/Prelude.thy ===== *)
theory Prelude
  imports "HOL-Library.Word" "HOL-Library.Signed_Division" "HOL-Library.Multiset" "HOL-Library.Sublist"
    "HOL-Library.Code_Target_Nat" "HOL-Library.List_Lexorder" "HOL-Library.Char_ord"
    "HOL-Library.Product_Lexorder" "HOL-Library.Monad_Syntax"
begin

text \<open>
  What the component theories share: the integer types of the Go code, the decimal
  printing and parsing of the standard library's \<open>strconv\<close>, channels, and generic
  facts on lists that more than one component uses.

  Go's \<open>int64\<close> and \<open>uint64\<close> are 64-bit words: addition wraps, and a signed value is
  compared through \<^const>\<open>sint\<close>. Go's \<open>/\<close> truncates towards zero, as
  \<^const>\<open>signed_divide\<close> does. Go strings are byte sequences, here \<^typ>\<open>string\<close>.
\<close>

type_synonym i64 = "64 word"
type_synonym u64 = "64 word"

named_theorems go_defs \<open>definitions that translate one small Go function\<close>
named_theorems hub_inv \<open>preservation of the hub invariant, one fact per operation\<close>

lemma unat_lt64 [simp]: "unat (n :: u64) < 2 ^ 64"
  using unsigned_less [of n, where ?'a = nat] by simp

lemma unat_lt64_numeral [simp]: "unat (n :: u64) < 18446744073709551616"
  using unat_lt64 [of n] by simp

section \<open>Decimal numbers: strconv.Itoa, FormatUint and ParseUint\<close>

definition digit_char :: "nat \<Rightarrow> char" where
  "digit_char d = char_of (48 + d)"

definition is_digit :: "char \<Rightarrow> bool" where
  "is_digit c \<longleftrightarrow> 48 \<le> (of_char c :: nat) \<and> (of_char c :: nat) \<le> 57"

fun itoa_nat :: "nat \<Rightarrow> string" where
  "itoa_nat n = (if n < 10 then [digit_char n] else itoa_nat (n div 10) @ [digit_char (n mod 10)])"

declare itoa_nat.simps [simp del]

definition digits_value :: "string \<Rightarrow> nat" where
  "digits_value s = foldl (\<lambda>a c. 10 * a + (of_char c - 48)) 0 s"

definition parse_nat :: "string \<Rightarrow> nat option" where
  "parse_nat s = (if s \<noteq> [] \<and> list_all is_digit s then Some (digits_value s) else None)"

definition itoa :: "int \<Rightarrow> string" where
  "itoa i = (if i < 0 then CHR ''-'' # itoa_nat (nat (- i)) else itoa_nat (nat i))"

lemma of_char_digit_char [simp]: "d < 10 \<Longrightarrow> of_char (digit_char d) = 48 + d"
  by (simp add: digit_char_def)

lemma is_digit_digit_char [simp]: "d < 10 \<Longrightarrow> is_digit (digit_char d)"
  by (simp add: is_digit_def)

lemma itoa_nat_ne [simp]: "itoa_nat n \<noteq> []"
  by (subst itoa_nat.simps) simp

lemma itoa_nat_digits [simp]: "list_all is_digit (itoa_nat n)"
proof (induction n rule: itoa_nat.induct)
  case (1 n)
  then show ?case by (subst itoa_nat.simps) auto
qed

lemma digits_value_snoc [simp]: "digits_value (s @ [c]) = 10 * digits_value s + (of_char c - 48)"
  by (simp add: digits_value_def)

lemma digits_value_itoa_nat [simp]: "digits_value (itoa_nat n) = n"
proof (induction n rule: itoa_nat.induct)
  case (1 n)
  show ?case
  proof (cases "n < 10")
    case True
    then show ?thesis
      by (subst itoa_nat.simps) (simp add: digits_value_def)
  next
    case False
    with 1 show ?thesis by (subst itoa_nat.simps) simp
  qed
qed

lemma parse_itoa_nat [simp]: "parse_nat (itoa_nat n) = Some n"
  by (simp add: parse_nat_def)

lemma itoa_nat_inject [simp]: "itoa_nat m = itoa_nat n \<longleftrightarrow> m = n"
  by (metis digits_value_itoa_nat)

lemma minus_not_digit: "\<not> is_digit (CHR ''-'')"
  by (simp add: is_digit_def)

lemma colon_not_digit [simp]: "\<not> is_digit (CHR '':'')"
  by (simp add: is_digit_def)

lemma itoa_nat_not_minus: "itoa_nat n \<noteq> CHR ''-'' # s"
  using itoa_nat_digits [of n] minus_not_digit by (auto simp del: itoa_nat_digits)

lemma itoa_inject [simp]: "itoa i = itoa j \<longleftrightarrow> i = j"
  using itoa_nat_not_minus by (auto simp: itoa_def split: if_splits) metis+

section \<open>Characters\<close>

definition char_code :: "char \<Rightarrow> nat" where "char_code c = of_char c"

definition lower_char :: "char \<Rightarrow> char" where
  "lower_char c = (if 65 \<le> char_code c \<and> char_code c \<le> 90 then char_of (char_code c + 32) else c)"

text \<open>\<open>strings.ToLower\<close>: byte-wise on ASCII strings, the parameter \<open>uni\<close> on others.\<close>

definition isASCII :: "string \<Rightarrow> bool" where
  "isASCII s \<longleftrightarrow> list_all (\<lambda>c. char_code c < 128) s"

definition ToLower :: "(string \<Rightarrow> string) \<Rightarrow> string \<Rightarrow> string" where
  "ToLower uni s = (if isASCII s then map lower_char s else uni s)"

definition upper_char :: "char \<Rightarrow> char" where
  "upper_char c = (if 97 \<le> char_code c \<and> char_code c \<le> 122 then char_of (char_code c - 32) else c)"

text \<open>\<open>strings.TrimSpace\<close> on ASCII strings.\<close>

definition is_space :: "char \<Rightarrow> bool" where
  "is_space c \<longleftrightarrow> char_code c \<in> {9, 10, 11, 12, 13, 32}"

definition TrimSpace :: "string \<Rightarrow> string" where
  "TrimSpace s = rev (dropWhile is_space (rev (dropWhile is_space s)))"

text \<open>
  The verb \<open>%q\<close>: the quotes, and the escapes of the ASCII characters that have one. Bytes
  outside ASCII are kept, as in a printable UTF-8 string.
\<close>

definition hex_char :: "nat \<Rightarrow> char" where
  "hex_char d = (if d < 10 then digit_char d else char_of (87 + d))"

definition quote_char :: "char \<Rightarrow> string" where
  "quote_char c =
     (let n = char_code c in
      if n = 34 then [CHR 0x5C, CHR 0x22] else if n = 92 then [CHR 0x5C, CHR 0x5C]
      else if n = 7 then [CHR 0x5C, CHR ''a''] else if n = 8 then [CHR 0x5C, CHR ''b'']
      else if n = 9 then [CHR 0x5C, CHR ''t''] else if n = 10 then [CHR 0x5C, CHR ''n'']
      else if n = 11 then [CHR 0x5C, CHR ''v''] else if n = 12 then [CHR 0x5C, CHR ''f'']
      else if n = 13 then [CHR 0x5C, CHR ''r'']
      else if n < 32 \<or> n = 127 then [CHR 0x5C, CHR ''x'', hex_char (n div 16), hex_char (n mod 16)]
      else [c])"

definition go_quote :: "string \<Rightarrow> string" where
  "go_quote s = CHR 0x22 # concat (map quote_char s) @ [CHR 0x22]"

section \<open>Channels\<close>

text \<open>
  A Go channel with its buffer and whether it has been closed. Sending on or closing a
  closed channel panics, which is the value \<open>None\<close>.
\<close>

record 'e chan =
  ch_buf :: "'e list"
  ch_cap :: nat
  ch_closed :: bool

definition make_chan :: "nat \<Rightarrow> 'e chan" where
  "make_chan n = \<lparr>ch_buf = [], ch_cap = n, ch_closed = False\<rparr>"

definition close_chan :: "'e chan \<Rightarrow> 'e chan option" where
  "close_chan c = (if ch_closed c then None else Some (c\<lparr>ch_closed := True\<rparr>))"

section \<open>Interruption and loops\<close>

text \<open>
  What can interrupt a run (a cancelled context at a poll, a failing SQL statement) is a
  budget of successful polls and statements, \<open>None\<close> for unlimited. The step that finds
  the budget used up fails, which is the value \<open>None\<close> of the step.
\<close>

type_synonym budget = "nat option"

definition tick :: "budget \<Rightarrow> budget option" where
  "tick b = (case b of None \<Rightarrow> Some None | Some 0 \<Rightarrow> None | Some (Suc n) \<Rightarrow> Some (Some n))"

lemma tick_None [simp]: "tick None = Some None"
  by (simp add: tick_def)

text \<open>A Go \<open>for\<close> loop whose body may return an error.\<close>

fun for_range :: "(nat \<Rightarrow> 'a \<Rightarrow> 's \<Rightarrow> 's option) \<Rightarrow> nat \<Rightarrow> 'a list \<Rightarrow> 's \<Rightarrow> 's option" where
  "for_range f i [] s = Some s"
| "for_range f i (x # xs) s = do { s \<leftarrow> f i x s; for_range f (Suc i) xs s }"

section \<open>Lists\<close>

lemma mod_shift_inj:
  assumes "i < (n::nat)" "j < n" "(h + i) mod n = (h + j) mod n"
  shows "i = j"
proof -
  have *: "a = b" if "a < n" "b < n" "a \<le> b" "(h + a) mod n = (h + b) mod n" for a b
  proof -
    have "n dvd (h + b) - (h + a)"
      using that mod_eq_dvd_iff_nat [of "h + a" "h + b" n] by simp
    then have "n dvd b - a" by simp
    then show ?thesis using that by (metis diff_is_0_eq dvd_imp_le le_antisym less_imp_diff_less not_less not_gr_zero)
  qed
  show ?thesis using * [of i j] * [of j i] assms by (cases "i \<le> j") auto
qed

text \<open>Keeping the newest \<open>c\<close> entries of a list.\<close>

definition keep_last :: "nat \<Rightarrow> 'e list \<Rightarrow> 'e list" where
  "keep_last c xs = drop (length xs - c) xs"

lemma keep_last_short [simp]: "length xs \<le> c \<Longrightarrow> keep_last c xs = xs"
  by (simp add: keep_last_def)

lemma length_keep_last [simp]: "length (keep_last c xs) = min c (length xs)"
  by (simp add: keep_last_def)

lemma keep_last_0 [simp]: "keep_last 0 xs = []"
  by (simp add: keep_last_def)

lemma keep_last_snoc: "keep_last c (keep_last c xs @ [x]) = keep_last c (xs @ [x])"
proof (cases "length xs < c")
  case True
  then show ?thesis by simp
next
  case False
  then have "length (keep_last c xs @ [x]) - c = 1 \<or> c = 0" by auto
  then show ?thesis
    using False by (auto simp: keep_last_def Suc_diff_le not_less)
qed

lemma keep_last_snoc_full:
  "c \<le> length h \<Longrightarrow> 0 < c \<Longrightarrow> keep_last c (h @ [x]) = tl (keep_last c h) @ [x]"
  by (simp add: keep_last_def Suc_diff_le drop_Suc tl_drop)

lemma set_keep_last: "set (keep_last c xs) \<subseteq> set xs"
  by (simp add: keep_last_def set_drop_subset)

lemma filter_drop_sorted:
  assumes "sorted_wrt (\<lambda>x y. f x < (f y :: nat)) xs" and "drop k xs \<noteq> []"
    and "f (hd (drop k xs)) \<le> n"
  shows "filter (\<lambda>x. n < f x) (drop k xs) = filter (\<lambda>x. n < f x) xs"
proof -
  have sw: "sorted_wrt (\<lambda>x y. f x < f y) (take k xs @ drop k xs)"
    using assms(1) by simp
  have "hd (drop k xs) \<in> set (drop k xs)" using assms(2) by simp
  then have "\<forall>x\<in>set (take k xs). f x < f (hd (drop k xs))"
    using sw by (auto simp: sorted_wrt_append simp del: append_take_drop_id)
  then have "filter (\<lambda>x. n < f x) (take k xs) = []"
    using assms(3) by (auto simp: filter_empty_conv)
  then show ?thesis
    by (metis append_Nil append_take_drop_id filter_append)
qed

section \<open>Go integer division\<close>

text \<open>Go's \<open>/\<close> and \<open>%\<close> on \<open>int64\<close> truncate towards zero.\<close>

definition go_quo :: "i64 \<Rightarrow> i64 \<Rightarrow> i64" where
  "go_quo a b = word_of_int (sint a sdiv sint b)"

definition go_rem :: "i64 \<Rightarrow> i64 \<Rightarrow> i64" where
  "go_rem a b = word_of_int (sint a smod sint b)"

abbreviation i64_less :: "i64 \<Rightarrow> i64 \<Rightarrow> bool" where
  "i64_less a b \<equiv> sint a < sint b"

lemma sint_bounds64: "- (2 ^ 63) \<le> sint (a :: i64)" "sint (a :: i64) < 2 ^ 63"
  using sint_ge [of a] sint_lt [of a] by simp_all

lemma sint_eq_iff [simp]: "sint (a :: i64) = sint b \<longleftrightarrow> a = b"
  by (rule word_eq_iff_signed [symmetric])

lemma sint_word_of_int_64: "- (2 ^ 63) \<le> x \<Longrightarrow> x < 2 ^ 63 \<Longrightarrow> sint (word_of_int x :: i64) = x"
  by (simp add: signed_of_int signed_take_bit_int_eq_self)

lemma floor_of_trunc:
  fixes t s :: int
  assumes "0 < s"
  shows "t div s = (if t smod s \<noteq> 0 \<and> t < 0 then t sdiv s - 1 else t sdiv s)"
proof -
  have t: "t div s * s + t mod s = t" "0 \<le> t mod s" "t mod s < s"
    using assms by (simp_all add: div_mult_mod_eq)
  have q: "t sdiv s * s + t smod s = t" by (rule sdiv_mult_smod_eq)
  have r: "0 \<le> t \<Longrightarrow> 0 \<le> t smod s" "t \<le> 0 \<Longrightarrow> t smod s \<le> 0" "\<bar>t smod s\<bar> < s"
    using assms pos_mod_bound [of s "\<bar>t\<bar>"] pos_mod_sign [of s "\<bar>t\<bar>"]
    unfolding smod_int_alt_def by (cases "t < 0"; cases "t = 0"; simp)+
  have u: "t div s = a" if "a * s + b = t" "0 \<le> b" "b < s" for a b
    using that by (metis add.commute div_mult_self1 div_pos_pos_trivial add_0 less_irrefl assms)
  show ?thesis
  proof (cases "t smod s \<noteq> 0 \<and> t < 0")
    case True
    then have "t smod s < 0" "0 \<le> t smod s + s" using r by auto
    moreover have "(t sdiv s - 1) * s + (t smod s + s) = t" using q by (simp add: left_diff_distrib)
    ultimately have "t div s = t sdiv s - 1" using u [of "t sdiv s - 1" "t smod s + s"] by simp
    then show ?thesis using True by simp
  next
    case False
    then have "0 \<le> t smod s" "t smod s < s" using r by auto
    then have "t div s = t sdiv s" using u [OF q] by simp
    then show ?thesis using False by auto
  qed
qed

lemma word64_of_int_eq_0:
  assumes "\<bar>x\<bar> < 2 ^ 63" shows "(word_of_int x :: i64) = 0 \<longleftrightarrow> x = 0"
  using sint_word_of_int_64 [of x] assms by (metis abs_less_iff less_le minus_less_iff of_int_0 signed_0)

section \<open>Sorting and association lists\<close>

text \<open>
  \<open>sort.Slice\<close> with a comparison function. Go's sort is not stable; the order of
  elements that compare equal is unspecified there, and theorems about a sorted result
  are stated where no two elements compare equal, or up to the order of equals.
\<close>

fun insert_by :: "('a \<Rightarrow> 'a \<Rightarrow> bool) \<Rightarrow> 'a \<Rightarrow> 'a list \<Rightarrow> 'a list" where
  "insert_by lt x [] = [x]"
| "insert_by lt x (y # ys) = (if lt y x then y # insert_by lt x ys else x # y # ys)"

definition sort_by :: "('a \<Rightarrow> 'a \<Rightarrow> bool) \<Rightarrow> 'a list \<Rightarrow> 'a list" where
  "sort_by lt xs = foldr (insert_by lt) xs []"

lemma sort_by_key:
  fixes f :: "'a \<Rightarrow> 'k :: linorder"
  assumes "\<And>a b. lt a b \<longleftrightarrow> f a < f b"
  shows "sort_by lt xs = sort_key f xs"
proof -
  have "insert_by lt x ys = insort_key f x ys" for x ys
    by (induction ys) (auto simp: assms)
  then have "insert_by lt = insort_key f" by blast
  then show ?thesis by (simp add: sort_by_def sort_key_def)
qed

lemma mset_insert_by [simp]: "mset (insert_by lt x xs) = add_mset x (mset xs)"
  by (induction xs) auto

lemma mset_sort_by [simp]: "mset (sort_by lt xs) = mset xs"
  by (induction xs) (simp_all add: sort_by_def)

lemma set_sort_by [simp]: "set (sort_by lt xs) = set xs"
  by (metis mset_sort_by set_mset_mset)

lemma length_sort_by [simp]: "length (sort_by lt xs) = length xs"
  by (metis mset_sort_by size_mset)

text \<open>A Go map as an association list in insertion order; storing replaces in place.\<close>

fun alist_put :: "'k \<Rightarrow> 'v \<Rightarrow> ('k \<times> 'v) list \<Rightarrow> ('k \<times> 'v) list" where
  "alist_put k v [] = [(k, v)]"
| "alist_put k v ((k', v') # xs) = (if k = k' then (k, v) # xs else (k', v') # alist_put k v xs)"

lemma map_of_alist_put [simp]: "map_of (alist_put k v xs) = (map_of xs)(k \<mapsto> v)"
  by (induction xs) auto

lemma keys_alist_put:
  "map fst (alist_put k v xs) = (if k \<in> fst ` set xs then map fst xs else map fst xs @ [k])"
  by (induction xs) (auto simp: rev_image_eqI)

lemma fst_alist_put: "fst ` set (alist_put k v xs) = insert k (fst ` set xs)"
  using arg_cong [OF keys_alist_put, of set k v xs] by (auto split: if_splits)

lemma set_alist_put: "set (alist_put k v xs) \<subseteq> insert (k, v) (set xs)"
  by (induction xs) (auto split: if_splits)

lemma distinct_alist_put [simp]: "distinct (map fst xs) \<Longrightarrow> distinct (map fst (alist_put k v xs))"
  by (simp add: keys_alist_put)

text \<open>The iteration order of a Go map is unspecified: some permutation of its entries.\<close>

definition iteration :: "('a list \<Rightarrow> 'a list) \<Rightarrow> bool" where
  "iteration it \<longleftrightarrow> (\<forall>xs. mset (it xs) = mset xs)"

lemma iteration_id [simp]: "iteration (\<lambda>xs. xs)"
  by (simp add: iteration_def)

lemma iteration_rev [simp]: "iteration rev"
  by (simp add: iteration_def)

lemma iterationD: "iteration it \<Longrightarrow> mset (it xs) = mset xs"
  by (simp add: iteration_def)

lemma iteration_set [simp]: "iteration it \<Longrightarrow> set (it xs) = set xs"
  by (metis iterationD set_mset_mset)

text \<open>Splitting a list into the groups of a key and joining them again.\<close>

lemma mset_concat_groups:
  assumes "distinct ks" "f ` set xs \<subseteq> set ks"
  shows "mset (concat (map (\<lambda>k. filter (\<lambda>x. f x = k) xs) ks)) = mset xs"
  using assms(2)
proof (induction xs)
  case Nil
  then show ?case by (induction ks) auto
next
  case (Cons x xs)
  have "mset (concat (map (\<lambda>k. filter (\<lambda>y. f y = k) (x # xs)) ks')) =
      (if f x \<in> set ks' then {#x#} else {#}) + mset (concat (map (\<lambda>k. filter (\<lambda>y. f y = k) xs) ks'))"
    if "distinct ks'" for ks'
    using that by (induction ks') auto
  then show ?case using Cons assms(1) by simp
qed

lemma sum_list_perm:
  fixes f :: "'a \<Rightarrow> 'm :: comm_monoid_add"
  assumes "mset xs = mset ys" shows "(\<Sum>x\<leftarrow>xs. f x) = (\<Sum>x\<leftarrow>ys. f x)"
proof -
  have "sum_mset (mset (map f xs)) = sum_mset (mset (map f ys))" using assms by simp
  then show ?thesis by (simp only: sum_mset_sum_list)
qed

text \<open>Changing the values of an association list.\<close>

lemma map_of_map_val: "map_of (map (\<lambda>(k, r). (k, f k r)) tab) k = map_option (f k) (map_of tab k)"
  by (induction tab) auto

lemma filter_map_val:
  assumes "\<And>k r. P (g k r) = P r"
  shows "map fst (filter (\<lambda>e. P (snd e)) (map (\<lambda>(k, r). (k, g k r)) tab)) = map fst (filter (\<lambda>e. P (snd e)) tab)"
  using assms by (induction tab) (auto split: prod.splits)

end
