(* ===== verification/Notify_Ring.thy ===== *)
theory Notify_Ring
  imports Prelude
begin

text \<open>
  The per-subscription half of the SSE notification hub: the event, the decimal event
  ids (\<open>internal/notify/id.go\<close>), the replay ring buffer and the subscription with its
  drop-oldest delivery channel and its Last-Event-ID replay
  (\<open>internal/notify/subscription.go\<close>).

  The ring keeps the Go representation (a pre-allocated slice, the index of the oldest
  entry and the number of valid entries); \<open>ringReplay_list\<close> is its abstraction, the
  list of the retained events from oldest to newest, and the operations are shown to
  implement a bounded list. The interface the subscription relies on is the locale
  \<open>bounded_log\<close>, interpreted here on the ring.
\<close>

section \<open>Events and their ids\<close>

record Event =
  ev_ID :: string
  ev_Kind :: string
  ev_SessionID :: string
  ev_RootSessionID :: string
  ev_SourceID :: string
  ev_TS :: i64

definition zero_Event :: Event where
  "zero_Event = \<lparr>ev_ID = [], ev_Kind = [], ev_SessionID = [], ev_RootSessionID = [],
     ev_SourceID = [], ev_TS = 0\<rparr>"

definition formatID :: "u64 \<Rightarrow> string" where
  "formatID n = itoa_nat (unat n)"

definition parseID :: "string \<Rightarrow> u64 option" where
  "parseID s =
     (if s = [] then None
      else case parse_nat s of
        None \<Rightarrow> None
      | Some n \<Rightarrow> if n < 2 ^ 64 then Some (of_nat n) else None)"

lemma parseID_formatID [simp]: "parseID (formatID n) = Some n"
proof -
  show ?thesis by (simp add: parseID_def formatID_def del: unat_lt64)
qed

lemma parseID_Nil [simp]: "parseID [] = None"
  by (simp add: parseID_def)

lemma formatID_not_Nil [simp]: "formatID n \<noteq> []"
  by (simp add: formatID_def)

section \<open>The replay ring\<close>

record 'e ringReplay =
  rr_buf :: "'e list"
  rr_head :: nat
  rr_size :: nat

definition newRingReplay :: "'e \<Rightarrow> int \<Rightarrow> 'e ringReplay" where
  "newRingReplay zero capacity =
     (if capacity \<le> 0 then \<lparr>rr_buf = [], rr_head = 0, rr_size = 0\<rparr>
      else \<lparr>rr_buf = replicate (nat capacity) zero, rr_head = 0, rr_size = 0\<rparr>)"

definition ringReplay_append :: "'e ringReplay \<Rightarrow> 'e \<Rightarrow> 'e ringReplay" where
  "ringReplay_append r ev =
     (let n = length (rr_buf r) in
      if n = 0 then r
      else if rr_size r < n then
        r\<lparr>rr_buf := (rr_buf r)[(rr_head r + rr_size r) mod n := ev], rr_size := rr_size r + 1\<rparr>
      else
        r\<lparr>rr_buf := (rr_buf r)[rr_head r := ev], rr_head := (rr_head r + 1) mod n\<rparr>)"

definition ringReplay_oldest :: "'e ringReplay \<Rightarrow> 'e option" where
  "ringReplay_oldest r = (if rr_size r = 0 then None else Some (rr_buf r ! rr_head r))"

definition ringReplay_newest :: "'e ringReplay \<Rightarrow> 'e option" where
  "ringReplay_newest r =
     (if rr_size r = 0 then None
      else let n = length (rr_buf r) in Some (rr_buf r ! ((rr_head r + rr_size r - 1) mod n)))"

definition ringReplay_ordered :: "'e ringReplay \<Rightarrow> 'e list" where
  "ringReplay_ordered r =
     (if rr_size r = 0 then []
      else let n = length (rr_buf r) in
        map (\<lambda>i. rr_buf r ! ((rr_head r + i) mod n)) [0..<rr_size r])"

subsection \<open>The ring implements a bounded log\<close>

definition ringReplay_inv :: "'e ringReplay \<Rightarrow> bool" where
  "ringReplay_inv r \<longleftrightarrow>
     rr_size r \<le> length (rr_buf r) \<and> (rr_buf r \<noteq> [] \<longrightarrow> rr_head r < length (rr_buf r))"

abbreviation ringReplay_list :: "'e ringReplay \<Rightarrow> 'e list" where
  "ringReplay_list \<equiv> ringReplay_ordered"

abbreviation ringReplay_cap :: "'e ringReplay \<Rightarrow> nat" where
  "ringReplay_cap r \<equiv> length (rr_buf r)"

lemma ordered_eq:
  "ringReplay_ordered r = map (\<lambda>i. rr_buf r ! ((rr_head r + i) mod length (rr_buf r))) [0..<rr_size r]"
  by (simp add: ringReplay_ordered_def Let_def)

lemma length_ordered [simp]: "length (ringReplay_ordered r) = rr_size r"
  by (simp add: ordered_eq)

lemma nth_ordered:
  "i < rr_size r \<Longrightarrow> ringReplay_ordered r ! i = rr_buf r ! ((rr_head r + i) mod length (rr_buf r))"
  by (simp add: ordered_eq)

lemma ring_append_inv: "ringReplay_inv r \<Longrightarrow> ringReplay_inv (ringReplay_append r e)"
  by (auto simp: ringReplay_inv_def ringReplay_append_def Let_def)

lemma ring_append_cap [simp]: "ringReplay_cap (ringReplay_append r e) = ringReplay_cap r"
  by (simp add: ringReplay_append_def Let_def)

lemma ring_append_growing:
  assumes "ringReplay_inv r" "rr_size r < length (rr_buf r)"
  shows "ringReplay_ordered (ringReplay_append r e) = ringReplay_ordered r @ [e]"
proof (rule nth_equalityI)
  let ?n = "length (rr_buf r)"
  show "length (ringReplay_ordered (ringReplay_append r e)) = length (ringReplay_ordered r @ [e])"
    using assms by (auto simp: ringReplay_append_def Let_def)
  fix i assume "i < length (ringReplay_ordered (ringReplay_append r e))"
  then have i: "i < Suc (rr_size r)"
    using assms by (auto simp: ringReplay_append_def Let_def split: if_splits)
  have pos: "0 < ?n" using assms(2) by linarith
  have *: "(rr_head r + i) mod ?n = (rr_head r + rr_size r) mod ?n \<longleftrightarrow> i = rr_size r"
    using mod_shift_inj [of i ?n "rr_size r" "rr_head r"] i assms(2) by auto
  show "ringReplay_ordered (ringReplay_append r e) ! i = (ringReplay_ordered r @ [e]) ! i"
    using assms i pos *
    by (auto simp: ordered_eq ringReplay_append_def Let_def nth_append nth_list_update
        simp del: upt_Suc)
qed

lemma ring_append_full:
  assumes "ringReplay_inv r" "rr_size r = length (rr_buf r)" "0 < length (rr_buf r)"
  shows "ringReplay_ordered (ringReplay_append r e) = tl (ringReplay_ordered r) @ [e]"
proof (rule nth_equalityI)
  let ?n = "length (rr_buf r)"
  have app: "ringReplay_append r e =
      r\<lparr>rr_buf := (rr_buf r)[rr_head r := e], rr_head := (rr_head r + 1) mod ?n\<rparr>"
    using assms by (simp add: ringReplay_append_def Let_def)
  have h: "rr_head r < ?n" using assms by (auto simp: ringReplay_inv_def)
  show len: "length (ringReplay_ordered (ringReplay_append r e)) = length (tl (ringReplay_ordered r) @ [e])"
    using assms by (simp add: app)
  fix i assume "i < length (ringReplay_ordered (ringReplay_append r e))"
  then have i: "i < ?n" using assms by (simp add: app)
  have idx: "((rr_head r + 1) mod ?n + i) mod ?n = (rr_head r + Suc i) mod ?n"
    by (simp add: mod_add_left_eq)
  have *: "(rr_head r + Suc i) mod ?n = rr_head r \<longleftrightarrow> Suc i = ?n"
  proof
    assume "(rr_head r + Suc i) mod ?n = rr_head r"
    then have "(rr_head r + Suc i) mod ?n = (rr_head r + 0) mod ?n" using h by simp
    then show "Suc i = ?n" using mod_shift_inj [of "Suc i" ?n 0 "rr_head r"] i by linarith
  qed (use h in simp)
  show "ringReplay_ordered (ringReplay_append r e) ! i = (tl (ringReplay_ordered r) @ [e]) ! i"
  proof (cases "Suc i = ?n")
    case True
    then have "i = length (tl (ringReplay_ordered r))" using assms(2) by simp
    moreover have "ringReplay_ordered (ringReplay_append r e) ! i = e"
      using i h True * idx assms(2) by (simp add: nth_ordered app)
    ultimately show ?thesis by (simp add: nth_append)
  next
    case False
    then have "Suc i < ?n" using i by simp
    moreover from this have "i < ?n - 1" by simp
    ultimately show ?thesis
      using i h * idx assms(2) by (simp add: nth_ordered app nth_append nth_tl)
  qed
qed

lemma ring_append_list:
  assumes "ringReplay_inv r"
  shows "ringReplay_ordered (ringReplay_append r e) =
    keep_last (ringReplay_cap r) (ringReplay_ordered r @ [e])"
proof (cases "rr_size r < length (rr_buf r)")
  case True
  then show ?thesis using assms by (simp add: ring_append_growing)
next
  case False
  then have full: "rr_size r = length (rr_buf r)" using assms by (simp add: ringReplay_inv_def)
  show ?thesis
  proof (cases "length (rr_buf r) = 0")
    case True
    then show ?thesis using full by (simp add: ringReplay_append_def ringReplay_ordered_def)
  next
    case False
    then have "ringReplay_ordered r \<noteq> []" using full length_ordered [of r] by fastforce
    then show ?thesis
      using full False assms
      by (cases "ringReplay_ordered r") (auto simp: ring_append_full keep_last_def full [symmetric]
          simp flip: length_ordered)
  qed
qed

lemma ring_oldest_hd:
  assumes "ringReplay_inv r"
  shows "ringReplay_oldest r = (case ringReplay_ordered r of [] \<Rightarrow> None | x # _ \<Rightarrow> Some x)"
proof (cases "rr_size r = 0")
  case True
  then show ?thesis by (simp add: ringReplay_oldest_def ringReplay_ordered_def)
next
  case False
  then have "rr_head r < length (rr_buf r)" using assms by (auto simp: ringReplay_inv_def)
  moreover have "ringReplay_ordered r \<noteq> []" using False length_ordered [of r] by fastforce
  moreover have "ringReplay_ordered r ! 0 = rr_buf r ! rr_head r"
    using False calculation(1) by (simp add: nth_ordered)
  ultimately show ?thesis
    using False by (cases "ringReplay_ordered r") (auto simp: ringReplay_oldest_def)
qed

lemma ring_newest_last:
  assumes "ringReplay_inv r"
  shows "ringReplay_newest r = (if ringReplay_ordered r = [] then None else Some (last (ringReplay_ordered r)))"
proof (cases "rr_size r = 0")
  case True
  then show ?thesis by (simp add: ringReplay_newest_def ringReplay_ordered_def)
next
  case False
  then have "ringReplay_ordered r \<noteq> []" using length_ordered [of r] by fastforce
  then show ?thesis
    using False by (auto simp: ringReplay_newest_def Let_def last_conv_nth nth_ordered)
qed

lemma newRing_inv [simp]: "ringReplay_inv (newRingReplay z n)"
  by (simp add: newRingReplay_def ringReplay_inv_def)

lemma newRing_list [simp]: "ringReplay_ordered (newRingReplay z n) = []"
  by (simp add: newRingReplay_def ringReplay_ordered_def)

lemma newRing_cap [simp]: "ringReplay_cap (newRingReplay z n) = nat n"
  by (simp add: newRingReplay_def)


section \<open>The interface: a bounded log of events\<close>

text \<open>
  What a subscription needs of its replay buffer: an append that keeps the newest
  \<open>cap\<close> entries, access to the oldest and the newest entry, and the entries in order.
\<close>

locale bounded_log =
  fixes append1 :: "'l \<Rightarrow> 'e \<Rightarrow> 'l"
    and oldest :: "'l \<Rightarrow> 'e option"
    and newest :: "'l \<Rightarrow> 'e option"
    and ordered :: "'l \<Rightarrow> 'e list"
    and capacity :: "'l \<Rightarrow> nat"
    and valid :: "'l \<Rightarrow> bool"
  assumes valid_append: "valid l \<Longrightarrow> valid (append1 l e)"
    and capacity_append: "capacity (append1 l e) = capacity l"
    and ordered_append: "valid l \<Longrightarrow> ordered (append1 l e) = keep_last (capacity l) (ordered l @ [e])"
    and oldest_hd: "valid l \<Longrightarrow> oldest l = (case ordered l of [] \<Rightarrow> None | x # _ \<Rightarrow> Some x)"
    and newest_last: "valid l \<Longrightarrow> newest l = (if ordered l = [] then None else Some (last (ordered l)))"
begin

text \<open>\<open>holds l h\<close>: the log retains the newest entries of the history \<open>h\<close>.\<close>

definition holds :: "'l \<Rightarrow> 'e list \<Rightarrow> bool" where
  "holds l h \<longleftrightarrow> valid l \<and> ordered l = keep_last (capacity l) h"

lemma holds_append: "holds l h \<Longrightarrow> holds (append1 l e) (h @ [e])"
  by (simp add: holds_def valid_append capacity_append ordered_append keep_last_snoc)

lemma holds_set: "holds l h \<Longrightarrow> set (ordered l) \<subseteq> set h"
  using set_keep_last by (fastforce simp: holds_def)

text \<open>
  Coverage: once the oldest retained entry is at or below the cursor, nothing after the
  cursor has been evicted.
\<close>

lemma covered_suffix:
  assumes h: "holds l h" and inc: "sorted_wrt (\<lambda>x y. f x < (f y :: nat)) h"
    and old: "oldest l = Some x" "f x \<le> n"
  shows "filter (\<lambda>y. n < f y) (ordered l) = filter (\<lambda>y. n < f y) h"
proof -
  have "ordered l = drop (length h - capacity l) h"
    using h by (simp add: holds_def keep_last_def)
  moreover have "ordered l \<noteq> []" "hd (ordered l) = x"
    using h old(1) oldest_hd by (auto simp: holds_def split: list.splits)
  ultimately show ?thesis
    using filter_drop_sorted [OF inc] old(2) by metis
qed

text \<open>Conversely, a cursor inside the retained window is never reported as uncovered.\<close>

lemma window_bounds:
  assumes h: "holds l h" and inc: "sorted_wrt (\<lambda>x y. f x < (f y :: nat)) h"
    and z: "z \<in> set (ordered l)"
  shows "\<exists>x y. oldest l = Some x \<and> newest l = Some y \<and> f x \<le> f z \<and> f z \<le> f y"
proof -
  have ne: "ordered l \<noteq> []" using z by auto
  have v: "valid l" using h by (simp add: holds_def)
  have s: "sorted_wrt (\<lambda>x y. f x < f y) (ordered l)"
    using inc h by (simp add: holds_def keep_last_def sorted_wrt_drop)
  obtain i where i: "i < length (ordered l)" "z = ordered l ! i"
    using z by (auto simp: in_set_conv_nth)
  have "f (ordered l ! 0) \<le> f z"
    using s i by (cases "i = 0") (auto simp: sorted_wrt_iff_nth_less less_imp_le)
  moreover have "f z \<le> f (last (ordered l))"
    using s i ne by (cases "i = length (ordered l) - 1")
      (auto simp: sorted_wrt_iff_nth_less last_conv_nth less_imp_le)
  ultimately show ?thesis
    using v ne by (cases "ordered l") (auto simp: oldest_hd newest_last)
qed

end

interpretation ring: bounded_log ringReplay_append ringReplay_oldest ringReplay_newest
  ringReplay_ordered "\<lambda>r. length (rr_buf r)" ringReplay_inv
  by unfold_locales
    (simp_all add: ring_append_inv ring_append_list ring_oldest_hd ring_newest_last)

lemma ring_holds_new: "ring.holds (newRingReplay z n) []"
  by (simp add: ring.holds_def)

section \<open>The drop-oldest send\<close>

text \<open>
  The send loop of \<open>enqueue\<close>. The hub mutex excludes other senders, but the client's
  stream goroutine may receive at any time: \<open>drains\<close> lists how many events it takes
  between a failed send and the following receive, one number per iteration. The result
  is the final buffer, the events the reader took and the events that were dropped.
  \<open>None\<close> is a loop that never ends (an unbuffered channel nobody reads).
\<close>

partial_function (option) send_drop_oldest ::
    "nat list \<Rightarrow> nat \<Rightarrow> 'e list \<Rightarrow> 'e \<Rightarrow> 'e list \<Rightarrow> 'e list \<Rightarrow> ('e list \<times> 'e list \<times> 'e list) option" where
  "send_drop_oldest drains cap q ev rd dr =
     (if length q < cap then Some (q @ [ev], rd, dr)
      else let k = (case drains of [] \<Rightarrow> 0 | k # _ \<Rightarrow> k) in
        (case drop k q of
           [] \<Rightarrow> send_drop_oldest (tl drains) cap [] ev (rd @ q) dr
         | x # q' \<Rightarrow> send_drop_oldest (tl drains) cap q' ev (rd @ take k q) (dr @ [x])))"

declare send_drop_oldest.simps [code]

lemma send_drop_oldest_eq:
  assumes "0 < cap" "length q \<le> cap"
  shows "send_drop_oldest drains cap q ev rd dr =
    (if length q < cap then Some (q @ [ev], rd, dr)
     else let k = (case drains of [] \<Rightarrow> 0 | k # _ \<Rightarrow> k) in
       (case drop k q of
          [] \<Rightarrow> Some ([ev], rd @ q, dr)
        | x # q' \<Rightarrow> Some (q' @ [ev], rd @ take k q, dr @ [x])))"
proof (cases "length q < cap")
  case True
  then show ?thesis by (subst send_drop_oldest.simps) simp
next
  case False
  define k where "k = (case drains of [] \<Rightarrow> 0 | k # _ \<Rightarrow> k)"
  show ?thesis
  proof (cases "drop k q")
    case Nil
    have "send_drop_oldest (tl drains) cap [] ev (rd @ q) dr = Some ([ev], rd @ q, dr)"
      using assms(1) by (subst send_drop_oldest.simps) simp
    then show ?thesis
      using False Nil by (subst send_drop_oldest.simps) (simp add: k_def [symmetric])
  next
    case (Cons x q')
    then have "length q' < length q" by (metis length_Cons length_drop diff_le_self Suc_le_lessD)
    then have "send_drop_oldest (tl drains) cap q' ev (rd @ take k q) (dr @ [x]) =
        Some (q' @ [ev], rd @ take k q, dr @ [x])"
      using assms(2) by (subst send_drop_oldest.simps) simp
    then show ?thesis
      using False Cons by (subst send_drop_oldest.simps) (simp add: k_def [symmetric])
  qed
qed

lemma send_drop_oldest_returns:
  assumes "0 < cap" "length q \<le> cap"
  obtains q' rd' dr' where "send_drop_oldest drains cap q ev rd dr = Some (q', rd', dr')"
    and "length q' \<le> cap" and "q' = drop (length q + 1 - length q') q @ [ev]"
    and "length dr' \<le> length dr + 1"
    and "mset rd' + mset dr' + mset q' = mset rd + mset dr + mset q + {#ev#}"
proof (cases "length q < cap")
  case True
  show ?thesis
    by (rule that [of "q @ [ev]" rd dr]) (use True assms in \<open>auto simp: send_drop_oldest_eq\<close>)
next
  case False
  define k where "k = (case drains of [] \<Rightarrow> 0 | k # _ \<Rightarrow> k)"
  show ?thesis
  proof (cases "drop k q")
    case Nil
    show ?thesis
      by (rule that [of "[ev]" "rd @ q" dr])
        (use False assms Nil in \<open>auto simp: send_drop_oldest_eq k_def [symmetric]\<close>)
  next
    case (Cons x q')
    have q: "q = take k q @ x # q'" by (subst append_take_drop_id [of k q, symmetric]) (simp only: Cons)
    have kl: "k < length q" using Cons by (cases "k < length q") auto
    have q': "q' = drop (Suc k) q" using Cons by (metis drop_Suc list.sel(3) tl_drop)
    then have l: "length q = k + 1 + length q'" using kl by simp
    have m: "mset q = mset (take k q) + {#x#} + mset q'"
      using arg_cong [OF q, of mset] by simp
    show ?thesis
    proof (rule that [of "q' @ [ev]" "rd @ take k q" "dr @ [x]"])
      show "send_drop_oldest drains cap q ev rd dr = Some (q' @ [ev], rd @ take k q, dr @ [x])"
        using False assms Cons by (simp add: send_drop_oldest_eq k_def [symmetric])
      show "length (q' @ [ev]) \<le> cap" using l assms(2) by simp
      show "q' @ [ev] = drop (length q + 1 - length (q' @ [ev])) q @ [ev]"
        using l q' by simp
      show "mset (rd @ take k q) + mset (dr @ [x]) + mset (q' @ [ev]) = mset rd + mset dr + mset q + {#ev#}"
        by (simp add: m)
    qed simp
  qed
qed

end
