(* ===== verification/Notify_Sub.thy ===== *)
theory Notify_Sub
  imports Notify_Ring
begin

text \<open>
  One SSE subscription of \<open>internal/notify/subscription.go\<close>: its delivery channel, its
  replay ring, the drop counter and the retention state, with \<open>enqueue\<close> and the
  Last-Event-ID replay. The lemmas relate a subscription to the history of the events
  enqueued on it: which events the replay returns and which the channel still holds.
\<close>

record subscription =
  s_ch :: "Event chan"
  s_ring :: "Event ringReplay"
  s_dropped :: u64
  s_attached :: bool
  s_retentionTimer :: "u64 option"
  s_gen :: u64

text \<open>
  The timer field is the generation the armed timer captured; \<open>None\<close> is Go's nil timer.
  \<open>make(chan Event, n)\<close> panics for a negative size; \<open>withDefaults\<close> never passes one.
\<close>

definition newSubscription :: "nat \<Rightarrow> int \<Rightarrow> subscription" where
  "newSubscription channelCap replayCap =
     \<lparr>s_ch = make_chan channelCap, s_ring = newRingReplay zero_Event replayCap,
      s_dropped = 0, s_attached = False, s_retentionTimer = None, s_gen = 0\<rparr>"

definition appendReplay :: "subscription \<Rightarrow> Event \<Rightarrow> subscription" where
  "appendReplay s ev = s\<lparr>s_ring := ringReplay_append (s_ring s) ev\<rparr>"

text \<open>
  \<open>enqueue\<close>: record the event in the ring, then the send loop. The second component is
  what the stream goroutine received meanwhile. Sending on a closed channel panics
  (\<open>None\<close>).
\<close>

definition sub_enqueue :: "nat list \<Rightarrow> subscription \<Rightarrow> Event \<Rightarrow> (subscription \<times> Event list) option" where
  "sub_enqueue drains s ev =
     (let s = s\<lparr>s_ring := ringReplay_append (s_ring s) ev\<rparr> in
      if ch_closed (s_ch s) then None
      else case send_drop_oldest drains (ch_cap (s_ch s)) (ch_buf (s_ch s)) ev [] [] of
        None \<Rightarrow> None
      | Some (q, rd, dr) \<Rightarrow>
          Some (s\<lparr>s_ch := (s_ch s)\<lparr>ch_buf := q\<rparr>, s_dropped := s_dropped s + of_nat (length dr)\<rparr>, rd))"

definition parseAndValidateBounds :: "subscription \<Rightarrow> string \<Rightarrow> u64 option" where
  "parseAndValidateBounds s lastEventID =
     (case parseID lastEventID of None \<Rightarrow> None | Some l \<Rightarrow>
      case ringReplay_oldest (s_ring s) of None \<Rightarrow> None | Some oldestEv \<Rightarrow>
      case parseID (ev_ID oldestEv) of None \<Rightarrow> None | Some oldest \<Rightarrow>
      if oldest > l then None else
      case ringReplay_newest (s_ring s) of None \<Rightarrow> None | Some newestEv \<Rightarrow>
      case parseID (ev_ID newestEv) of None \<Rightarrow> None | Some newest \<Rightarrow>
      if l > newest then None else Some l)"

definition replaySince :: "subscription \<Rightarrow> string \<Rightarrow> Event list \<times> bool" where
  "replaySince s lastEventID =
     (if lastEventID = [] then ([], True)
      else case parseAndValidateBounds s lastEventID of
        None \<Rightarrow> ([], False)
      | Some l \<Rightarrow>
          (filter (\<lambda>ev. case parseID (ev_ID ev) of None \<Rightarrow> False | Some i \<Rightarrow> i > l)
             (ringReplay_ordered (s_ring s)), True))"

section \<open>Subscriptions and their history\<close>

text \<open>The number of an event's id, and histories whose ids the hub minted in order.\<close>

definition ev_num :: "Event \<Rightarrow> nat" where
  "ev_num ev = (case parseID (ev_ID ev) of None \<Rightarrow> 0 | Some i \<Rightarrow> unat i)"

definition minted :: "Event list \<Rightarrow> bool" where
  "minted h \<longleftrightarrow> (\<forall>ev\<in>set h. parseID (ev_ID ev) \<noteq> None) \<and> sorted_wrt (\<lambda>x y. ev_num x < ev_num y) h"

lemma minted_Nil [simp]: "minted []"
  by (simp add: minted_def)

lemma minted_snoc:
  "minted (h @ [ev]) \<longleftrightarrow> minted h \<and> parseID (ev_ID ev) \<noteq> None \<and> (\<forall>x\<in>set h. ev_num x < ev_num ev)"
  by (auto simp: minted_def sorted_wrt_append)

text \<open>
  The invariant of a subscription with history \<open>h\<close>: an open channel within its capacity
  whose content is a suffix of the history, and a ring that holds the newest events.
\<close>

definition sub_inv :: "subscription \<Rightarrow> Event list \<Rightarrow> bool" where
  "sub_inv s h \<longleftrightarrow>
     0 < ch_cap (s_ch s) \<and> length (ch_buf (s_ch s)) \<le> ch_cap (s_ch s) \<and>
     suffix (ch_buf (s_ch s)) h \<and>
     ring.holds (s_ring s) h"

lemma sub_inv_new [simp]: "0 < c \<Longrightarrow> sub_inv (newSubscription c r) []"
  by (simp add: sub_inv_def newSubscription_def make_chan_def ring_holds_new)

text \<open>
  Every enqueue returns, keeps the invariant, puts the new event last, and drops at most
  one event; what was queued before is delivered, dropped or still queued.
\<close>

lemma sub_enqueue_returns:
  assumes inv: "sub_inv s h" and opn: "\<not> ch_closed (s_ch s)"
  obtains s' rd where "sub_enqueue drains s ev = Some (s', rd)" and "sub_inv s' (h @ [ev])"
    and "\<not> ch_closed (s_ch s')" and "ch_cap (s_ch s') = ch_cap (s_ch s)"
    and "s_attached s' = s_attached s" and "s_retentionTimer s' = s_retentionTimer s"
    and "s_gen s' = s_gen s" and "length (rr_buf (s_ring s')) = length (rr_buf (s_ring s))"
proof -
  let ?q = "ch_buf (s_ch s)" and ?c = "ch_cap (s_ch s)"
  have "0 < ?c" "length ?q \<le> ?c" using inv by (simp_all add: sub_inv_def)
  then obtain q' rd dr where snd: "send_drop_oldest drains ?c ?q ev [] [] = Some (q', rd, dr)"
    and q': "length q' \<le> ?c" "q' = drop (length ?q + 1 - length q') ?q @ [ev]"
    by (rule send_drop_oldest_returns)
  have "suffix q' (h @ [ev])"
    using q'(2) inv suffix_drop [of _ ?q] suffix_order.trans [of _ ?q h]
    by (metis sub_inv_def same_suffix_suffix)
  with snd q' inv opn show thesis
    by (intro that [of "s\<lparr>s_ring := ringReplay_append (s_ring s) ev,
        s_ch := (s_ch s)\<lparr>ch_buf := q'\<rparr>, s_dropped := s_dropped s + of_nat (length dr)\<rparr>" rd])
      (auto simp: sub_enqueue_def sub_inv_def ring.holds_append)
qed

text \<open>With no concurrent reader the channel keeps exactly the newest events.\<close>

lemma sub_enqueue_no_reader:
  assumes "0 < ch_cap (s_ch s)" "\<not> ch_closed (s_ch s)"
    and "ch_buf (s_ch s) = keep_last (ch_cap (s_ch s)) h"
    and "unat (s_dropped s) + 1 < 2 ^ 64" "unat (s_dropped s) = length h - ch_cap (s_ch s)"
  obtains s' where "sub_enqueue [] s ev = Some (s', [])"
    and "ch_buf (s_ch s') = keep_last (ch_cap (s_ch s)) (h @ [ev])"
    and "ch_cap (s_ch s') = ch_cap (s_ch s)" and "\<not> ch_closed (s_ch s')"
    and "unat (s_dropped s') = length (h @ [ev]) - ch_cap (s_ch s)"
proof (cases "length h < ch_cap (s_ch s)")
  case True
  then show ?thesis
    using assms
    by (intro that [of "s\<lparr>s_ring := ringReplay_append (s_ring s) ev,
        s_ch := (s_ch s)\<lparr>ch_buf := h @ [ev]\<rparr>\<rparr>"])
      (auto simp: sub_enqueue_def send_drop_oldest_eq)
next
  case False
  let ?c = "ch_cap (s_ch s)" and ?q = "ch_buf (s_ch s)"
  have len: "length ?q = ?c" using False assms(3) by simp
  then obtain x q where q: "?q = x # q" using assms(1) by (cases ?q) auto
  have "keep_last ?c (h @ [ev]) = q @ [ev]"
    using False assms(1,3) q by (metis keep_last_snoc_full list.sel(3) not_less)
  moreover have "send_drop_oldest [] ?c ?q ev [] [] = Some (q @ [ev], [], [x])"
    using assms(1) len q by (simp add: send_drop_oldest_eq)
  moreover have "unat (s_dropped s + 1) = length (h @ [ev]) - ?c"
    using assms(4,5) False by (simp add: unat_word_ariths)
  ultimately show ?thesis
    using assms(2)
    by (intro that [of "s\<lparr>s_ring := ringReplay_append (s_ring s) ev,
        s_ch := (s_ch s)\<lparr>ch_buf := q @ [ev]\<rparr>, s_dropped := s_dropped s + 1\<rparr>"])
      (auto simp: sub_enqueue_def)
qed

section \<open>Replay\<close>

lemma ev_num_less_iff: "parseID (ev_ID ev) = Some i \<Longrightarrow> ev_num ev > unat l \<longleftrightarrow> i > l"
  by (simp add: ev_num_def word_less_nat_alt)

lemma bounds_Some:
  "parseAndValidateBounds s lastID = Some l \<longleftrightarrow>
     parseID lastID = Some l \<and>
     (\<exists>x y i j. ringReplay_oldest (s_ring s) = Some x \<and> parseID (ev_ID x) = Some i \<and> i \<le> l \<and>
        ringReplay_newest (s_ring s) = Some y \<and> parseID (ev_ID y) = Some j \<and> l \<le> j)"
  by (auto simp: parseAndValidateBounds_def split: option.splits)

lemma replay_filter_eq:
  assumes "\<forall>ev\<in>set xs. parseID (ev_ID ev) \<noteq> None"
  shows "filter (\<lambda>ev. case parseID (ev_ID ev) of None \<Rightarrow> False | Some i \<Rightarrow> i > l) xs =
    filter (\<lambda>ev. unat l < ev_num ev) xs"
  using assms by (intro filter_cong) (auto simp: ev_num_less_iff split: option.splits)

text \<open>
  Replay is exact: a covered replay returns every event of the history after the cursor.
\<close>

lemma replaySince_exact:
  assumes inv: "sub_inv s h" and m: "minted h"
    and rep: "replaySince s lastID = (evs, True)" and ne: "lastID \<noteq> []"
  shows "\<exists>l. parseID lastID = Some l \<and> evs = filter (\<lambda>ev. unat l < ev_num ev) h"
proof -
  obtain l where l: "parseAndValidateBounds s lastID = Some l"
    and evs: "evs = filter (\<lambda>ev. case parseID (ev_ID ev) of None \<Rightarrow> False | Some i \<Rightarrow> i > l)
      (ringReplay_ordered (s_ring s))"
    using rep ne by (auto simp: replaySince_def split: option.splits)
  obtain x i where x: "ringReplay_oldest (s_ring s) = Some x" "parseID (ev_ID x) = Some i" "i \<le> l"
    using l by (auto simp: bounds_Some)
  have h: "ring.holds (s_ring s) h" using inv by (simp add: sub_inv_def)
  have "\<forall>ev\<in>set (ringReplay_ordered (s_ring s)). parseID (ev_ID ev) \<noteq> None"
    using m ring.holds_set [OF h] by (auto simp: minted_def)
  then have "evs = filter (\<lambda>ev. unat l < ev_num ev) (ringReplay_ordered (s_ring s))"
    using evs by (simp add: replay_filter_eq)
  also have "\<dots> = filter (\<lambda>ev. unat l < ev_num ev) h"
    using m x by (intro ring.covered_suffix [OF h _ x(1)])
      (auto simp: minted_def ev_num_def word_le_nat_alt)
  finally show ?thesis using l by (auto simp: bounds_Some)
qed

text \<open>
  Replay is available: a client whose last event is still in the ring is always covered.
\<close>

lemma replaySince_covered:
  assumes inv: "sub_inv s h" and m: "minted h"
    and z: "z \<in> set (ringReplay_ordered (s_ring s))"
  shows "snd (replaySince s (ev_ID z))"
proof (cases "ev_ID z = []")
  case True
  then show ?thesis by (simp add: replaySince_def)
next
  case False
  have h: "ring.holds (s_ring s) h" using inv by (simp add: sub_inv_def)
  then have sub: "set (ringReplay_ordered (s_ring s)) \<subseteq> set h" by (rule ring.holds_set)
  obtain x y where xy: "ringReplay_oldest (s_ring s) = Some x" "ringReplay_newest (s_ring s) = Some y"
    "ev_num x \<le> ev_num z" "ev_num z \<le> ev_num y"
    using ring.window_bounds [OF h _ z, of ev_num] m by (auto simp: minted_def)
  have "x \<in> set h" "y \<in> set h" "z \<in> set h"
    using xy(1,2) z sub h
    by (auto simp: ring.oldest_hd ring.newest_last ring.holds_def subset_iff split: list.splits if_splits)
  then obtain i j l where "parseID (ev_ID x) = Some i" "parseID (ev_ID y) = Some j"
    "parseID (ev_ID z) = Some l"
    using m by (fastforce simp: minted_def)
  then have "parseAndValidateBounds s (ev_ID z) = Some l"
    using xy by (auto simp: bounds_Some ev_num_def word_le_nat_alt)
  then show ?thesis using False by (simp add: replaySince_def)
qed

end
