(* ===== verification/Notify_Hub.thy ===== *)
theory Notify_Hub
  imports Notify_Sub
begin

text \<open>
  The SSE fan-out hub of \<open>internal/notify/hub.go\<close>: the registry of subscriptions, event
  id minting, single-consumer attachment, retention after a disconnect and shutdown.

  Go holds subscriptions by pointer: a retention-timer callback and a stream goroutine
  may still refer to an object that has left the registry, and \<open>expire\<close> compares object
  identities. The model keeps an explicit heap: the registry maps ids to references.
  Every method runs under the hub mutex, so a method is one step; timer callbacks and
  client receives are steps of their own, in any order. \<open>time.Timer.Stop\<close> may lose the
  race against a callback that has already started, so every callback ever armed
  (\<open>h_timers\<close>) stays able to run.

  \<open>None\<close> is a panic (closing or sending on a closed channel) or a loop that does not end.
\<close>

section \<open>State\<close>

record Options =
  o_ChannelCap :: int
  o_ReplayBuffer :: int
  o_Retention :: int
  o_OnRemove :: bool

definition Options_withDefaults :: "Options \<Rightarrow> Options" where
  "Options_withDefaults opts =
     opts\<lparr>o_ChannelCap := (if o_ChannelCap opts \<le> 0 then 256 else o_ChannelCap opts),
       o_ReplayBuffer := (if o_ReplayBuffer opts \<le> 0 then 100 else o_ReplayBuffer opts),
       o_Retention := (if o_Retention opts \<le> 0 then 60 * 1000000000 else o_Retention opts)\<rparr>"

datatype AttachStatus = AttachUnknown | AttachOK | AttachBusy

record Hub =
  h_opts :: Options
  h_subs :: "(string \<times> nat) list"
  h_heap :: "nat \<Rightarrow> subscription"
  h_next :: nat
  h_shutdown :: bool
  h_seq :: u64
  h_timers :: "(string \<times> nat \<times> u64) list"

abbreviation hub_cap :: "Hub \<Rightarrow> nat" where
  "hub_cap h \<equiv> nat (o_ChannelCap (h_opts h))"

abbreviation hub_sub :: "Hub \<Rightarrow> string \<Rightarrow> nat option" where
  "hub_sub h i \<equiv> map_of (h_subs h) i"

definition del_key :: "'k \<Rightarrow> ('k \<times> 'v) list \<Rightarrow> ('k \<times> 'v) list" where
  "del_key k xs = filter (\<lambda>p. fst p \<noteq> k) xs"

definition set_obj :: "nat \<Rightarrow> subscription \<Rightarrow> Hub \<Rightarrow> Hub" where
  "set_obj r s h = h\<lparr>h_heap := (h_heap h)(r := s)\<rparr>"

section \<open>Operations\<close>

definition Hub_New :: "Options \<Rightarrow> Hub" where
  "Hub_New opts =
     \<lparr>h_opts = Options_withDefaults opts, h_subs = [], h_heap = (\<lambda>_. newSubscription 1 0),
      h_next = 0, h_shutdown = False, h_seq = 0, h_timers = []\<rparr>"

definition Hub_SetOnRemove :: "Hub \<Rightarrow> bool \<Rightarrow> Hub" where
  "Hub_SetOnRemove h hook = h\<lparr>h_opts := (h_opts h)\<lparr>o_OnRemove := hook\<rparr>\<rparr>"

definition Hub_Add :: "Hub \<Rightarrow> string \<Rightarrow> Hub" where
  "Hub_Add h i =
     (if h_shutdown h then h
      else if hub_sub h i \<noteq> None then h
      else h\<lparr>h_heap := (h_heap h)(h_next h := newSubscription (hub_cap h) (o_ReplayBuffer (h_opts h))),
             h_subs := h_subs h @ [(i, h_next h)], h_next := h_next h + 1\<rparr>)"

definition Hub_removeLocked :: "Hub \<Rightarrow> string \<Rightarrow> (Hub \<times> bool) option" where
  "Hub_removeLocked h i =
     (case hub_sub h i of
        None \<Rightarrow> Some (h, False)
      | Some r \<Rightarrow>
          let s = (h_heap h r)\<lparr>s_retentionTimer := None\<rparr> in
          (case close_chan (s_ch s) of
             None \<Rightarrow> None
           | Some c \<Rightarrow> Some ((set_obj r (s\<lparr>s_ch := c\<rparr>) h)\<lparr>h_subs := del_key i (h_subs h)\<rparr>, True)))"

text \<open>The second component lists the ids the \<open>OnRemove\<close> hook is called with.\<close>

definition Hub_Remove :: "Hub \<Rightarrow> string \<Rightarrow> (Hub \<times> string list) option" where
  "Hub_Remove h i =
     (case Hub_removeLocked h i of
        None \<Rightarrow> None
      | Some (h', removed) \<Rightarrow> Some (h', if removed \<and> o_OnRemove (h_opts h') then [i] else []))"

definition Hub_Has :: "Hub \<Rightarrow> string \<Rightarrow> bool" where
  "Hub_Has h i \<longleftrightarrow> hub_sub h i \<noteq> None"

definition Hub_IDs :: "Hub \<Rightarrow> string list" where
  "Hub_IDs h = map fst (h_subs h)"

definition Hub_nextID :: "Hub \<Rightarrow> string \<times> Hub" where
  "Hub_nextID h = (let n = h_seq h + 1 in (formatID n, h\<lparr>h_seq := n\<rparr>))"

definition Hub_Deliver :: "nat list \<Rightarrow> Hub \<Rightarrow> string \<Rightarrow> Event \<Rightarrow> (Hub \<times> bool) option" where
  "Hub_Deliver drains h i ev =
     (if h_shutdown h then Some (h, False)
      else case hub_sub h i of
        None \<Rightarrow> Some (h, False)
      | Some r \<Rightarrow>
          let (ev, h) = (if ev_ID ev = [] then let (n, h') = Hub_nextID h in (ev\<lparr>ev_ID := n\<rparr>, h')
                         else (ev, h)) in
          (case sub_enqueue drains (h_heap h r) ev of
             None \<Rightarrow> None
           | Some (s, rd) \<Rightarrow> Some (set_obj r s h, True)))"

text \<open>The channel is returned as the reference of the subscription that owns it.\<close>

definition Hub_Attach ::
    "Hub \<Rightarrow> string \<Rightarrow> string \<Rightarrow> Hub \<times> nat option \<times> Event list \<times> bool \<times> AttachStatus" where
  "Hub_Attach h i lastEventID =
     (case (if h_shutdown h then None else hub_sub h i) of
        None \<Rightarrow> (h, None, [], False, AttachUnknown)
      | Some r \<Rightarrow>
          let s = h_heap h r in
          if s_attached s then (h, None, [], False, AttachBusy)
          else
            let s = s\<lparr>s_retentionTimer := None, s_attached := True\<rparr>;
                (events, cov) = replaySince s lastEventID
            in (set_obj r s h, Some r, events, cov, AttachOK))"

definition Hub_Detach :: "Hub \<Rightarrow> string \<Rightarrow> Hub" where
  "Hub_Detach h i =
     (case (if h_shutdown h then None else hub_sub h i) of
        None \<Rightarrow> h
      | Some r \<Rightarrow>
          let s = h_heap h r in
          if \<not> s_attached s then h
          else
            let gen = s_gen s + 1;
                s = s\<lparr>s_attached := False, s_gen := gen, s_retentionTimer := Some gen\<rparr>
            in (set_obj r s h)\<lparr>h_timers := (i, r, gen) # h_timers h\<rparr>)"

definition Hub_expire :: "Hub \<Rightarrow> string \<Rightarrow> nat \<Rightarrow> u64 \<Rightarrow> (Hub \<times> string list) option" where
  "Hub_expire h i r gen =
     (case hub_sub h i of
        None \<Rightarrow> Some (h, [])
      | Some cur \<Rightarrow>
          if cur \<noteq> r then Some (h, [])
          else if s_attached (h_heap h r) \<or> s_gen (h_heap h r) \<noteq> gen then Some (h, [])
          else case Hub_removeLocked h i of
            None \<Rightarrow> None
          | Some (h', removed) \<Rightarrow> Some (h', if removed \<and> o_OnRemove (h_opts h') then [i] else []))"

definition Hub_Dropped :: "Hub \<Rightarrow> string \<Rightarrow> u64" where
  "Hub_Dropped h i = (case hub_sub h i of None \<Rightarrow> 0 | Some r \<Rightarrow> s_dropped (h_heap h r))"

fun shutdown_loop :: "(string \<times> nat) list \<Rightarrow> Hub \<Rightarrow> Hub option" where
  "shutdown_loop [] h = Some h"
| "shutdown_loop ((i, r) # rest) h =
     (let s = (h_heap h r)\<lparr>s_retentionTimer := None\<rparr> in
      case close_chan (s_ch s) of
        None \<Rightarrow> None
      | Some c \<Rightarrow> shutdown_loop rest ((set_obj r (s\<lparr>s_ch := c\<rparr>) h)\<lparr>h_subs := del_key i (h_subs h)\<rparr>))"

definition Hub_Shutdown :: "Hub \<Rightarrow> Hub option" where
  "Hub_Shutdown h =
     (if h_shutdown h then Some h else shutdown_loop (h_subs h) (h\<lparr>h_shutdown := True\<rparr>))"

text \<open>A stream goroutine receives one event from the channel it holds.\<close>

definition chan_recv :: "Hub \<Rightarrow> nat \<Rightarrow> Hub \<times> Event option" where
  "chan_recv h r =
     (let s = h_heap h r in
      case ch_buf (s_ch s) of
        [] \<Rightarrow> (h, None)
      | ev # q \<Rightarrow> (set_obj r (s\<lparr>s_ch := (s_ch s)\<lparr>ch_buf := q\<rparr>\<rparr>) h, Some ev))"

text \<open>Operations that leave the registry alone.\<close>

lemma set_obj_simps [simp]:
  "h_subs (set_obj r s h) = h_subs h" "h_opts (set_obj r s h) = h_opts h"
  "h_shutdown (set_obj r s h) = h_shutdown h" "h_seq (set_obj r s h) = h_seq h"
  "h_next (set_obj r s h) = h_next h" "h_timers (set_obj r s h) = h_timers h"
  by (simp_all add: set_obj_def)

lemma Attach_subs [simp]: "h_subs (fst (Hub_Attach h i lastID)) = h_subs h"
  by (simp add: Hub_Attach_def Let_def split_def split: option.splits)

lemma Detach_subs [simp]: "h_subs (Hub_Detach h i) = h_subs h"
  by (simp add: Hub_Detach_def Let_def split: option.splits)

lemma recv_subs [simp]: "h_subs (fst (chan_recv h r)) = h_subs h"
  by (simp add: chan_recv_def Let_def split: list.splits)

lemma Deliver_subs: "Hub_Deliver drains h i ev = Some (h', b) \<Longrightarrow> h_subs h' = h_subs h"
  by (auto simp: Hub_Deliver_def Hub_nextID_def Let_def split: option.splits if_splits)

lemma Add_sub: "hub_sub (Hub_Add h j) i =
    (if \<not> h_shutdown h \<and> j = i \<and> hub_sub h i = None then Some (h_next h) else hub_sub h i)"
  by (auto simp: Hub_Add_def map_add_def split: option.splits)

section \<open>Steps and reachable states\<close>

datatype hub_op =
    Add string | Remove string | Deliver "nat list" string Event | Attach string string
  | Detach string | Expire string nat u64 | Recv nat | SetOnRemove bool | Shutdown

text \<open>One step: the next state and the hook calls.\<close>

fun hub_step :: "Hub \<Rightarrow> hub_op \<Rightarrow> (Hub \<times> string list) option" where
  "hub_step h (Add i) = Some (Hub_Add h i, [])"
| "hub_step h (Remove i) = Hub_Remove h i"
| "hub_step h (Deliver drains i ev) = map_option (\<lambda>(h', _). (h', [])) (Hub_Deliver drains h i ev)"
| "hub_step h (Attach i lastID) = Some (fst (Hub_Attach h i lastID), [])"
| "hub_step h (Detach i) = Some (Hub_Detach h i, [])"
| "hub_step h (Expire i r g) = Hub_expire h i r g"
| "hub_step h (Recv r) = Some (fst (chan_recv h r), [])"
| "hub_step h (SetOnRemove b) = Some (Hub_SetOnRemove h b, [])"
| "hub_step h Shutdown = map_option (\<lambda>h'. (h', [])) (Hub_Shutdown h)"

text \<open>
  What the environment may do: a retention callback runs only if some \<open>Detach\<close> armed it
  (whether or not its timer has been stopped since), the callers leave the event id to the
  hub, as the presenter does, and a stream only receives from a channel that was made.
\<close>

fun hub_allowed :: "Hub \<Rightarrow> hub_op \<Rightarrow> bool" where
  "hub_allowed h (Expire i r g) \<longleftrightarrow> (i, r, g) \<in> set (h_timers h)"
| "hub_allowed h (Deliver drains i ev) \<longleftrightarrow> ev_ID ev = []"
| "hub_allowed h (Recv r) \<longleftrightarrow> r < h_next h"
| "hub_allowed h _ \<longleftrightarrow> True"

text \<open>The history of a subscription object: the events delivered to it, ids included.\<close>

fun hub_log :: "Hub \<Rightarrow> hub_op \<Rightarrow> (nat \<Rightarrow> Event list) \<Rightarrow> (nat \<Rightarrow> Event list)" where
  "hub_log h (Deliver drains i ev) L =
     (case (if h_shutdown h then None else hub_sub h i) of
        None \<Rightarrow> L
      | Some r \<Rightarrow> L(r := L r @ [ev\<lparr>ev_ID := formatID (h_seq h + 1)\<rparr>]))"
| "hub_log h _ L = L"

text \<open>\<open>hub_reach n L h\<close>: \<open>h\<close> is reached after \<open>n\<close> steps, with histories \<open>L\<close>.\<close>

inductive hub_reach :: "nat \<Rightarrow> (nat \<Rightarrow> Event list) \<Rightarrow> Hub \<Rightarrow> bool" where
  init: "hub_reach 0 (\<lambda>_. []) (Hub_New opts)"
| step: "hub_reach n L h \<Longrightarrow> hub_allowed h x \<Longrightarrow> hub_step h x = Some (h', hooks) \<Longrightarrow>
     hub_reach (Suc n) (hub_log h x L) h'"

end
