(* ===== verification/Notify.thy ===== *)
theory Notify
  imports Notify_Inv
begin

text \<open>
  The properties of the notification hub, each a few steps over the invariant of
  \<open>Notify_Inv\<close>: no step panics, single consumer, retention, removal hook, backpressure
  and replay. \<open>sse_hub\<close> is the part of the hub's contract the subscription registry
  of the presenter relies on.
\<close>

lemma hub_step_total:
  assumes "hub_reach n L h" and "Suc n < 2 ^ 64" and "hub_allowed h x"
  shows "\<exists>h' hooks. hub_step h x = Some (h', hooks)"
proof -
  have inv: "hub_inv n L h" using hub_reach_inv [OF assms(1)] assms(2) by simp
  have rem: "Hub_removeLocked h i \<noteq> None" for i
    using removeLocked_Some [OF inv, of i] by (cases "hub_sub h i") (auto simp: Hub_removeLocked_def)
  show ?thesis
  proof (cases x)
    case (Deliver drains i ev)
    have "ev_ID ev = []" using assms(3) Deliver by simp
    show ?thesis
      by (rule Deliver_returns [OF inv assms(2) \<open>ev_ID ev = []\<close>, of drains i]) (simp add: Deliver)
  next
    case Shutdown
    show ?thesis by (rule Shutdown_returns [OF inv]) (simp add: Shutdown)
  next
    case (Remove i)
    then show ?thesis using rem [of i] by (auto simp: Hub_Remove_def split: option.splits)
  next
    case (Expire i r g)
    then show ?thesis using rem [of i] by (auto simp: Hub_expire_def split: option.splits)
  qed simp_all
qed

text \<open>
  C1. No step of the hub panics or blocks for ever: in every reachable state, every
  method the environment may call returns. In particular no event is sent on a closed
  channel, no channel is closed twice, and the drop-oldest send loop ends, whatever the
  reader does meanwhile.
\<close>

theorem hub_no_panic:
  assumes "hub_reach n L h" and "Suc n < 2 ^ 64" and "hub_allowed h x"
  shows "\<exists>h' hooks. hub_step h x = Some (h', hooks)"
  by (rule hub_step_total [OF assms])

text \<open>Concrete runs for the witnesses: a hub with a two-event channel and a three-event ring.\<close>

definition demo_opts :: Options where
  "demo_opts = \<lparr>o_ChannelCap = 2, o_ReplayBuffer = 3, o_Retention = 0, o_OnRemove = True\<rparr>"

definition demo_ev :: "string \<Rightarrow> Event" where
  "demo_ev k = zero_Event\<lparr>ev_Kind := k\<rparr>"

definition demo_ok :: "hub_op list \<Rightarrow> bool" where
  "demo_ok xs \<longleftrightarrow> (case hub_run (\<lambda>_. []) (Hub_New demo_opts) xs of None \<Rightarrow> False | Some _ \<Rightarrow> True)"

definition demo_log :: "hub_op list \<Rightarrow> nat \<Rightarrow> Event list" where
  "demo_log xs = fst (the (hub_run (\<lambda>_. []) (Hub_New demo_opts) xs))"

definition demo_hub :: "hub_op list \<Rightarrow> Hub" where
  "demo_hub xs = snd (the (hub_run (\<lambda>_. []) (Hub_New demo_opts) xs))"

lemma demo_reach: "demo_ok xs \<Longrightarrow> hub_reach (length xs) (demo_log xs) (demo_hub xs)"
  using hub_run_reach [OF hub_reach.init, of demo_opts xs]
  by (auto simp: demo_ok_def demo_log_def demo_hub_def split: option.splits)

lemma demo_run_append:
  assumes "demo_ok (xs @ ys)"
  shows "\<exists>L h. hub_run (demo_log xs) (demo_hub xs) ys = Some (L, h)"
  using assms
  by (auto simp: demo_ok_def demo_log_def demo_hub_def hub_run_append split: option.splits)

lemma hub_run_first:
  "hub_run L h (x # xs) = Some s \<Longrightarrow> hub_step h x = Some (k, hooks) \<Longrightarrow> hub_run (hub_log h x L) k xs = Some s"
  by (simp split: if_splits)

text \<open>A client connects, reads one event and disconnects; two more events arrive.\<close>

definition away :: "hub_op list" where
  "away = [Add ''a'', Attach ''a'' [], Deliver [] ''a'' (demo_ev ''k''), Recv 0, Detach ''a'',
     Deliver [] ''a'' (demo_ev ''l''), Deliver [] ''a'' (demo_ev ''m'')]"

lemma away_reach: "hub_reach 7 (demo_log away) (demo_hub away)"
proof -
  have "demo_ok away" "length away = 7" by code_simp+
  then show ?thesis using demo_reach [of away] by simp
qed

theorem hub_no_panic_witness:
  "\<exists>h' hooks. hub_step (demo_hub away) (Deliver [1] ''a'' (demo_ev ''n'')) = Some (h', hooks)"
proof (rule hub_no_panic [OF away_reach])
  show "hub_allowed (demo_hub away) (Deliver [1] ''a'' (demo_ev ''n''))"
    by (simp add: demo_ev_def zero_Event_def)
qed simp

section \<open>Attachment and retention\<close>

text \<open>
  The other objects are untouched by an operation on one subscription id, and the
  registry keeps its reference.
\<close>

lemma attached_step:
  assumes inv: "hub_inv n L h" and at: "hub_sub h i = Some r" "s_attached (h_heap h r)"
    and x: "x \<noteq> Detach i" "x \<noteq> Remove i" "x \<noteq> Shutdown" and step: "hub_step h x = Some (h', hooks)"
  shows "hub_sub h' i = Some r \<and> s_attached (h_heap h' r)"
proof -
  have other: "r' \<noteq> r" if "hub_sub h j = Some r'" "j \<noteq> i" for j r'
    using hub_inv_other [OF inv at(1)] that by auto
  show ?thesis
  proof (cases x)
    case (Add j)
    have "r < h_next h" using hub_inv_subD(2) [OF inv at(1)] .
    then show ?thesis using step at Add by (auto simp: Hub_Add_def map_add_def)
  next
    case (Remove j)
    then have "j \<noteq> i" using x by simp
    then show ?thesis
      using step at Remove other
      by (auto simp: Hub_Remove_def Hub_removeLocked_def Let_def set_obj_def split: option.splits)
  next
    case (Deliver drains j ev)
    obtain s' rd where "hub_sub h j = Some r \<Longrightarrow>
        sub_enqueue drains (h_heap h r) (if ev_ID ev = [] then ev\<lparr>ev_ID := formatID (h_seq h + 1)\<rparr> else ev)
          = Some (s', rd) \<and> s_attached s'"
      using sub_enqueue_returns [OF hub_inv_subD(3,4) [OF inv at(1)]] at(2) by metis
    then show ?thesis
      using step at Deliver other
      by (auto simp: Hub_Deliver_def Hub_nextID_def Let_def set_obj_def split: option.splits if_splits)
  next
    case (Attach j lastID)
    then show ?thesis
      using step at other
      by (auto simp: Hub_Attach_def Let_def set_obj_def split_def split: option.splits if_splits)
  next
    case (Detach j)
    then have "j \<noteq> i" using x by simp
    then show ?thesis
      using step at Detach other [of j r]
      by (auto simp: Hub_Detach_def Let_def set_obj_def split: option.splits if_splits)
  next
    case (Expire j r' g)
    then show ?thesis
      using step at other [of j]
      by (cases "j = i")
        (auto simp: Hub_expire_def Hub_removeLocked_def Let_def set_obj_def split: option.splits if_splits)
  qed (use step at x in \<open>auto simp: chan_recv_def Let_def set_obj_def Hub_SetOnRemove_def split: list.splits\<close>)
qed

lemma attached_run:
  assumes "hub_reach n L h" "n + length xs < 2 ^ 64" "hub_sub h i = Some r" "s_attached (h_heap h r)"
    and "hub_run L h xs = Some (L', h')" "Detach i \<notin> set xs" "Remove i \<notin> set xs" "Shutdown \<notin> set xs"
  shows "hub_sub h' i = Some r \<and> s_attached (h_heap h' r)"
  using assms
proof (induction xs arbitrary: n L h)
  case Nil
  then show ?case by simp
next
  case (Cons x xs)
  then obtain k hooks where k: "hub_allowed h x" "hub_step h x = Some (k, hooks)"
    "hub_run (hub_log h x L) k xs = Some (L', h')"
    by (auto split: if_splits option.splits)
  have inv: "hub_inv n L h" using hub_reach_inv [OF Cons.prems(1)] Cons.prems(2) by simp
  have "hub_sub k i = Some r \<and> s_attached (h_heap k r)"
    by (rule attached_step [OF inv Cons.prems(3,4) _ _ _ k(2)]) (use Cons.prems in auto)
  then show ?case
    using Cons.IH [OF hub_reach.step [OF Cons.prems(1) k(1,2)]] Cons.prems k(3) by auto
qed

text \<open>
  C2. A subscription has a single consumer: once a client has attached, and until it
  detaches, the subscription is removed or the hub shuts down, every other attach to it is
  refused as busy, whatever else happens meanwhile (deliveries, other clients, stale
  retention callbacks).
\<close>

theorem hub_single_consumer:
  assumes "hub_reach n L h" and "Suc n + length xs < 2 ^ 64"
    and "Hub_Attach h i lastID = (h1, Some r, evs, cov, AttachOK)"
    and "hub_run L h1 xs = Some (L', h2)"
    and "Detach i \<notin> set xs" and "Remove i \<notin> set xs" and "Shutdown \<notin> set xs"
  shows "Hub_Attach h2 i lastID' = (h2, None, [], False, AttachBusy)"
proof -
  have r: "hub_sub h i = Some r" "\<not> h_shutdown h" "s_attached (h_heap h1 r)" "hub_sub h1 i = Some r"
    using assms(3)
    by (auto simp: Hub_Attach_def Let_def set_obj_def split_def split: option.splits if_splits)
  have "hub_reach (Suc n) (hub_log h (Attach i lastID) L) h1"
    by (rule hub_reach.step [OF assms(1), where hooks = "[]"]) (simp_all add: assms(3))
  then have h1: "hub_reach (Suc n) L h1" by simp
  have at: "hub_sub h2 i = Some r" "s_attached (h_heap h2 r)"
    using attached_run [OF h1 assms(2) r(4,3) assms(4-7)] by simp_all
  have "hub_inv (Suc n + length xs) L' h2"
    using hub_reach_inv [OF hub_run_reach [OF h1 assms(4)] assms(2)] .
  then have "\<not> h_shutdown h2" using at(1) by (auto simp: hub_inv_def)
  then show ?thesis using at by (simp add: Hub_Attach_def)
qed


theorem hub_single_consumer_witness:
  "\<exists>h1 evs cov. Hub_Attach (demo_hub away) ''a'' ''1'' = (h1, Some 0, evs, cov, AttachOK) \<and>
     (\<exists>L' h2. hub_run (demo_log away) h1 [Expire ''a'' 0 1] = Some (L', h2) \<and>
        Hub_Attach h2 ''a'' [] = (h2, None, [], False, AttachBusy))"
proof -
  let ?p = "Hub_Attach (demo_hub away) ''a'' ''1''"
  have c: "fst (snd ?p) = Some 0" "snd (snd (snd (snd ?p))) = AttachOK"
    by code_simp+
  obtain h1 r evs cov st where q: "?p = (h1, r, evs, cov, st)" by (rule prod_cases5)
  then have p: "?p = (h1, Some 0, evs, cov, AttachOK)" using c(1,2) by simp
  have "demo_ok (away @ [Attach ''a'' ''1'', Expire ''a'' 0 1])" by code_simp
  then obtain L' h2 where run0: "hub_run (demo_log away) (demo_hub away)
      [Attach ''a'' ''1'', Expire ''a'' 0 1] = Some (L', h2)"
    using demo_run_append [of away "[Attach ''a'' ''1'', Expire ''a'' 0 1]"] by blast
  have run: "hub_run (demo_log away) h1 [Expire ''a'' 0 1] = Some (L', h2)"
    using hub_run_first [OF run0, of h1 "[]"] q by simp
  have "Hub_Attach h2 ''a'' [] = (h2, None, [], False, AttachBusy)"
    by (rule hub_single_consumer [OF away_reach _ p run]) simp_all
  then show ?thesis using p run by blast
qed

text \<open>
  C3. Only the live retention timer expires a subscription: if a timer callback removes a
  subscription, it is the callback of the timer that is armed now, on the object that is
  registered now, and no client is attached. A callback of an earlier disconnect, or of an
  earlier subscription with the same id, never removes anything, although stopping its
  timer may have come too late.
\<close>

theorem hub_expire_live:
  assumes "hub_reach n L h" and "n < 2 ^ 64" and "hub_allowed h (Expire i r g)"
    and "hub_step h (Expire i r g) = Some (h', hooks)"
    and "hub_sub h j \<noteq> None" and "hub_sub h' j = None"
  shows "j = i \<and> hub_sub h i = Some r \<and> \<not> s_attached (h_heap h r) \<and>
    s_retentionTimer (h_heap h r) = Some g"
proof -
  have inv: "hub_inv n L h" by (rule hub_reach_inv [OF assms(1,2)])
  have "hub_sub h i = Some r" "\<not> s_attached (h_heap h r)" "s_gen (h_heap h r) = g"
    using assms(4-6) by (auto simp: Hub_expire_def split: option.splits if_splits)
  moreover from this have "s_retentionTimer (h_heap h r) = Some g"
    using hub_inv_subD(1) [OF inv] assms(3) by (auto simp: sub_ok_def)
  moreover have "j = i"
    using assms(4-6) by (auto simp: Hub_expire_def Hub_removeLocked_def Let_def set_obj_def
        split: option.splits if_splits)
  ultimately show ?thesis by blast
qed

theorem hub_expire_live_witness:
  "\<exists>h' hooks. hub_step (demo_hub away) (Expire ''a'' 0 1) = Some (h', hooks) \<and>
     hub_sub h' ''a'' = None \<and> s_retentionTimer (h_heap (demo_hub away) 0) = Some 1"
proof -
  have al: "hub_allowed (demo_hub away) (Expire ''a'' 0 1)" by code_simp
  have st: "case hub_step (demo_hub away) (Expire ''a'' 0 1) of None \<Rightarrow> False
      | Some (h', _) \<Rightarrow> hub_sub h' ''a'' = None"
    by code_simp
  then obtain h' hooks where h': "hub_step (demo_hub away) (Expire ''a'' 0 1) = Some (h', hooks)"
    "hub_sub h' ''a'' = None"
    by (auto split: option.splits prod.splits)
  have "hub_sub (demo_hub away) ''a'' \<noteq> None" by code_simp
  from hub_expire_live [OF away_reach _ al h'(1) this h'(2)] h' show ?thesis by auto
qed

text \<open>
  The removal hook runs exactly for the subscriptions a step removes: every step other
  than a shutdown removes at most one subscription, and calls the hook, if one is
  installed, once for it and for no other.
\<close>

theorem hub_hook_exact:
  assumes "hub_step h x = Some (h', hooks)" and "x \<noteq> Shutdown"
  shows "distinct hooks \<and>
    set hooks = (if o_OnRemove (h_opts h) then {i. hub_sub h i \<noteq> None \<and> hub_sub h' i = None} else {})"
proof -
  have rem: "h_opts h'' = h_opts h \<and> (b \<longleftrightarrow> hub_sub h i \<noteq> None) \<and>
      (\<forall>j. hub_sub h'' j = (if j = i then None else hub_sub h j))"
    if "Hub_removeLocked h i = Some (h'', b)" for i h'' b
    using that by (auto simp: Hub_removeLocked_def Let_def set_obj_def split: option.splits)
  show ?thesis
  proof (cases x)
    case (Remove i)
    then show ?thesis using assms(1) by (auto simp: Hub_Remove_def dest!: rem split: option.splits if_splits)
  next
    case (Expire i r g)
    then show ?thesis
      using assms(1) by (auto simp: Hub_expire_def dest!: rem split: option.splits if_splits)
  next
    case (Deliver drains i ev)
    then show ?thesis using assms(1) by (auto dest!: Deliver_subs)
  qed (use assms in \<open>auto simp: Add_sub Hub_SetOnRemove_def split: if_splits\<close>)
qed

theorem hub_hook_exact_witness:
  "\<exists>h' hooks. hub_step (demo_hub away) (Remove ''a'') = Some (h', hooks) \<and> set hooks = {''a''}"
proof -
  have "case hub_step (demo_hub away) (Remove ''a'') of None \<Rightarrow> False
      | Some (h', hooks) \<Rightarrow> hub_sub h' ''a'' = None \<and> h_subs h' = []"
    by code_simp
  then obtain h' hooks where h': "hub_step (demo_hub away) (Remove ''a'') = Some (h', hooks)"
    "h_subs h' = []"
    by (auto split: option.splits prod.splits)
  have "o_OnRemove (h_opts (demo_hub away))" "h_subs (demo_hub away) = [(''a'', 0)]" by code_simp+
  then have "set hooks = {''a''}" using hub_hook_exact [OF h'(1)] h'(2) by auto
  then show ?thesis using h'(1) by blast
qed

section \<open>Replay and backpressure\<close>

lemma Attach_OK:
  assumes "Hub_Attach h i lastID = (h', Some r, evs, cov, AttachOK)"
  shows "hub_sub h i = Some r" "replaySince (h_heap h r) lastID = (evs, cov)"
    "ch_buf (s_ch (h_heap h' r)) = ch_buf (s_ch (h_heap h r))"
  using assms
  by (auto simp: Hub_Attach_def Let_def set_obj_def split_def replaySince_def parseAndValidateBounds_def
      split: option.splits if_splits)

lemma hub_replay_exact_aux:
  assumes "hub_reach n L h" "n < 2 ^ 64"
    and "Hub_Attach h i lastID = (h', Some r, evs, True, AttachOK)" and "lastID \<noteq> []"
  shows "\<exists>l. parseID lastID = Some l \<and> evs = filter (\<lambda>ev. unat l < ev_num ev) (L r)"
proof -
  have inv: "hub_inv n L h" by (rule hub_reach_inv [OF assms(1,2)])
  note at = Attach_OK [OF assms(3)]
  have "minted (L r)" using inv by (simp add: hub_inv_def hist_ok_def)
  then show ?thesis
    using replaySince_exact [OF hub_inv_subD(3) [OF inv at(1)] _ at(2) assms(4)] by simp
qed

text \<open>
  C4. Reconnecting loses nothing that the hub claims to cover: when an attach with a
  Last-Event-ID reports the gap as covered, the replayed events are exactly the events
  delivered to this subscription, in its whole life, with a larger id, in their order.
\<close>

theorem hub_replay_exact:
  assumes "hub_reach n L h" and "n < 2 ^ 64"
    and "Hub_Attach h i lastID = (h', Some r, evs, True, AttachOK)" and "lastID \<noteq> []"
  shows "\<exists>l. parseID lastID = Some l \<and> evs = filter (\<lambda>ev. unat l < ev_num ev) (L r)"
  by (rule hub_replay_exact_aux [OF assms])

theorem hub_replay_exact_witness:
  "\<exists>h' evs. Hub_Attach (demo_hub away) ''a'' ''1'' = (h', Some 0, evs, True, AttachOK) \<and>
     (\<exists>l. parseID ''1'' = Some l \<and> evs = filter (\<lambda>ev. unat l < ev_num ev) (demo_log away 0)) \<and>
     length evs = 2"
proof -
  let ?p = "Hub_Attach (demo_hub away) ''a'' ''1''"
  have c: "fst (snd ?p) = Some 0" "snd (snd (snd (snd ?p))) = AttachOK"
    "fst (snd (snd (snd ?p)))" "length (fst (snd (snd ?p))) = 2"
    by code_simp+
  obtain h1 r evs cov st where "?p = (h1, r, evs, cov, st)" by (rule prod_cases5)
  then have p: "?p = (h1, Some 0, evs, True, AttachOK)" and "length evs = 2" using c by simp_all
  then show ?thesis using hub_replay_exact [OF away_reach _ p] by simp
qed

text \<open>
  C5. Backpressure keeps the newest events: in every reachable state the channel of a
  registered subscription holds at most its capacity, what it holds is the end of the
  sequence of the events delivered to it, and after a successful delivery the delivered
  event is in it, whatever the reader takes meanwhile.
\<close>

theorem hub_backpressure:
  assumes "hub_reach n L h" and "Suc n < 2 ^ 64" and "ev_ID ev = []"
    and "Hub_Deliver drains h i ev = Some (h', True)"
  shows "\<exists>r e. hub_sub h' i = Some r \<and> e = ev\<lparr>ev_ID := formatID (h_seq h + 1)\<rparr> \<and>
    length (ch_buf (s_ch (h_heap h' r))) \<le> ch_cap (s_ch (h_heap h' r)) \<and>
    suffix (ch_buf (s_ch (h_heap h' r))) (L r @ [e]) \<and> e \<in> set (ch_buf (s_ch (h_heap h' r)))"
proof -
  have inv: "hub_inv n L h" using hub_reach_inv [OF assms(1)] assms(2) by simp
  obtain r where r: "hub_sub h i = Some r" "\<not> h_shutdown h"
    using assms(4) by (auto simp: Hub_Deliver_def split: if_splits option.splits)
  let ?e = "ev\<lparr>ev_ID := formatID (h_seq h + 1)\<rparr>"
  obtain s' rd where enq: "sub_enqueue drains (h_heap h r) ?e = Some (s', rd)"
    and s': "sub_inv s' (L r @ [?e])"
    by (rule sub_enqueue_returns [OF hub_inv_subD(3,4) [OF inv r(1)]])
  have "0 < ch_cap (s_ch (h_heap h r))" "length (ch_buf (s_ch (h_heap h r))) \<le> ch_cap (s_ch (h_heap h r))"
    using hub_inv_subD(3) [OF inv r(1)] by (simp_all add: sub_inv_def)
  then have "?e \<in> set (ch_buf (s_ch s'))"
    using enq by (auto simp: sub_enqueue_def send_drop_oldest_eq Let_def split: option.splits if_splits list.splits)
  moreover have "h_heap h' r = s'" "hub_sub h' i = Some r"
    using assms(3,4) r enq by (auto simp: Hub_Deliver_def Hub_nextID_def Let_def set_obj_def)
  ultimately show ?thesis using s' by (auto simp: sub_inv_def)
qed

theorem hub_backpressure_witness:
  "\<exists>h' e. Hub_Deliver [] (demo_hub away) ''a'' (demo_ev ''n'') = Some (h', True) \<and>
     e \<in> set (ch_buf (s_ch (h_heap h' 0))) \<and> ch_cap (s_ch (h_heap h' 0)) = 2"
proof -
  let ?d = "Hub_Deliver [] (demo_hub away) ''a'' (demo_ev ''n'')"
  have "case ?d of None \<Rightarrow> False
      | Some (h', b) \<Rightarrow> b \<and> hub_sub h' ''a'' = Some 0 \<and> ch_cap (s_ch (h_heap h' 0)) = 2"
    by code_simp
  then obtain h' where d: "?d = Some (h', True)" "hub_sub h' ''a'' = Some 0" "ch_cap (s_ch (h_heap h' 0)) = 2"
    by (auto split: option.splits prod.splits)
  have "ev_ID (demo_ev ''n'') = []" by (simp add: demo_ev_def zero_Event_def)
  from hub_backpressure [OF away_reach _ this d(1)] d show ?thesis by auto
qed

text \<open>
  A reconnecting client receives twice what arrived while it was away: attaching does
  not drain the delivery channel, so every event still queued there that is newer than the
  client's Last-Event-ID is also among the replayed events, which the stream handler
  writes before it goes on with the channel.
\<close>

theorem hub_reconnect_duplicates:
  assumes "hub_reach n L h" and "n < 2 ^ 64"
    and "Hub_Attach h i lastID = (h', Some r, evs, True, AttachOK)" and "parseID lastID = Some l"
  shows "suffix (filter (\<lambda>ev. unat l < ev_num ev) (ch_buf (s_ch (h_heap h' r)))) evs"
proof -
  have inv: "hub_inv n L h" by (rule hub_reach_inv [OF assms(1,2)])
  note at = Attach_OK [OF assms(3)]
  have "lastID \<noteq> []" using assms(4) by (auto simp: parseID_def)
  then have "evs = filter (\<lambda>ev. unat l < ev_num ev) (L r)"
    using hub_replay_exact_aux [OF assms(1-3)] assms(4) by auto
  moreover have "suffix (ch_buf (s_ch (h_heap h' r))) (L r)"
    using hub_inv_subD(3) [OF inv at(1)] at(3) by (simp add: sub_inv_def)
  ultimately show ?thesis by (auto simp: suffix_def)
qed

theorem hub_reconnect_duplicates_witness:
  "\<exists>h' evs. Hub_Attach (demo_hub away) ''a'' ''1'' = (h', Some 0, evs, True, AttachOK) \<and>
     length (filter (\<lambda>ev. 1 < ev_num ev) (ch_buf (s_ch (h_heap h' 0)))) = 2 \<and>
     suffix (filter (\<lambda>ev. 1 < ev_num ev) (ch_buf (s_ch (h_heap h' 0)))) evs"
proof -
  let ?p = "Hub_Attach (demo_hub away) ''a'' ''1''"
  have c: "fst (snd ?p) = Some 0" "snd (snd (snd (snd ?p))) = AttachOK" "fst (snd (snd (snd ?p)))"
    "length (filter (\<lambda>ev. 1 < ev_num ev) (ch_buf (s_ch (h_heap (fst ?p) 0)))) = 2"
    by code_simp+
  obtain h1 r evs cov st where "?p = (h1, r, evs, cov, st)" by (rule prod_cases5)
  then have p: "?p = (h1, Some 0, evs, True, AttachOK)"
    and len: "length (filter (\<lambda>ev. 1 < ev_num ev) (ch_buf (s_ch (h_heap h1 0)))) = 2"
    using c by simp_all
  have "parseID ''1'' = Some 1" by code_simp
  from hub_reconnect_duplicates [OF away_reach _ p this] len
  have "suffix (filter (\<lambda>ev. 1 < ev_num ev) (ch_buf (s_ch (h_heap h1 0)))) evs" by force
  then show ?thesis using p len by blast
qed

section \<open>The contract the subscription registry uses\<close>

locale sse_hub =
  fixes add :: "'h \<Rightarrow> string \<Rightarrow> 'h"
    and remove :: "'h \<Rightarrow> string \<Rightarrow> ('h \<times> string list) option"
    and has :: "'h \<Rightarrow> string \<Rightarrow> bool"
    and down :: "'h \<Rightarrow> bool"
    and hooked :: "'h \<Rightarrow> bool"
  assumes has_add: "has (add h i) j \<longleftrightarrow> has h j \<or> \<not> down h \<and> i = j"
    and has_remove: "remove h i = Some (h', hooks) \<Longrightarrow> has h' j \<longleftrightarrow> has h j \<and> j \<noteq> i"
    and hooks_remove: "remove h i = Some (h', hooks) \<Longrightarrow> hooked h \<Longrightarrow> hooks = (if has h i then [i] else [])"
    and down_add: "down (add h i) = down h"
    and down_remove: "remove h i = Some (h', hooks) \<Longrightarrow> down h' = down h"
    and hooked_add: "hooked (add h i) = hooked h"
    and hooked_remove: "remove h i = Some (h', hooks) \<Longrightarrow> hooked h' = hooked h"

interpretation hub: sse_hub Hub_Add Hub_Remove Hub_Has h_shutdown "\<lambda>h. o_OnRemove (h_opts h)"
proof (unfold_locales, goal_cases)
  case (1 h i j)
  then show ?case by (auto simp: Hub_Has_def Add_sub)
next
  case (2 h i h' hooks j)
  then show ?case
    by (auto simp: Hub_Has_def Hub_Remove_def Hub_removeLocked_def Let_def split: option.splits if_splits)
next
  case (3 h i h' hooks)
  then show ?case
    by (auto simp: Hub_Has_def Hub_Remove_def Hub_removeLocked_def Let_def split: option.splits if_splits)
qed (auto simp: Hub_Add_def Hub_Remove_def Hub_removeLocked_def Let_def split: option.splits)

end
