(* ===== verification/Rollups.thy ===== *)
theory Rollups
  imports Prelude
begin

text \<open>
  The rollup engine of \<open>internal/rollups\<close>: time buckets, the per-operation fan-out into
  dimension rows (\<open>rollups.go\<close>) and the tail collapse that bounds the rows of a group
  (\<open>collapse.go\<close>).

  Counters are \<open>int64\<close> and add modulo \<open>2 ^ 64\<close>, so their additivity is exact. Costs are
  \<open>float64\<close> in Go; the model keeps their type abstract (\<open>'c\<close>, any type with an
  addition) and states cost additivity for exact addition only. The iteration orders of
  the two Go maps are parameters (\<open>it\<close> and \<open>itg\<close>), any permutation.
\<close>

section \<open>Rows\<close>

datatype Bucket = Hourly | Daily

definition hourSpanUS :: i64 where "hourSpanUS = 3600000000"
definition daySpanUS :: i64 where "daySpanUS = 86400000000"
definition otherValue :: string where "otherValue = ''__other__''"
definition defaultMaxRowsPerBucketDimension :: int where "defaultMaxRowsPerBucketDimension = 2000"

record 'c OpRow =
  o_StartTS :: i64
  o_EndTS :: "i64 option"
  o_DurationUS :: i64
  o_SourceFormat :: string
  o_Kind :: string
  o_Model :: string
  o_Provider :: string
  o_ToolNamespace :: string
  o_ToolName :: string
  o_AgentName :: string
  o_Cwd :: string
  o_CostUSD :: 'c
  o_TokensIn :: i64
  o_TokensOut :: i64
  o_TokensCacheRead :: i64
  o_TokensCacheWrite :: i64
  o_Failed :: bool

record SessionStart =
  ss_StartTS :: i64
  ss_SourceFormat :: string
  ss_AgentName :: string
  ss_Cwd :: string

record 'c RollupRow =
  r_BucketTS :: i64
  r_SourceFormat :: string
  r_Dimension :: string
  r_DimensionValue :: string
  r_OpCount :: i64
  r_TokensIn :: i64
  r_TokensOut :: i64
  r_TokensCacheRead :: i64
  r_TokensCacheWrite :: i64
  r_CostUSD :: 'c
  r_Failures :: i64
  r_DurationUS :: i64
  r_SessionStarts :: i64

type_synonym rowKey = "i64 \<times> string \<times> string \<times> string"
type_synonym groupKey = "i64 \<times> string \<times> string"
type_synonym 'c acc = "(rowKey \<times> 'c RollupRow) list"

section \<open>Folding operations into rows\<close>

definition BucketTS :: "i64 \<Rightarrow> Bucket \<Rightarrow> i64" where
  "BucketTS tsUS bucket =
     (let span = (if bucket = Daily then daySpanUS else hourSpanUS);
          q = go_quo tsUS span;
          q = (if go_rem tsUS span \<noteq> 0 \<and> i64_less tsUS 0 then q - 1 else q)
      in q * span)"

definition running :: "'c OpRow \<Rightarrow> bool" where
  "running op \<longleftrightarrow> (case o_EndTS op of None \<Rightarrow> True | Some e \<Rightarrow> \<not> i64_less (o_StartTS op) e)"

definition toolID :: "string \<Rightarrow> string \<Rightarrow> string" where
  "toolID namespace name =
     (if name = [] then [] else if namespace = [] then name else namespace @ ''.'' @ name)"

definition empty_row :: "rowKey \<Rightarrow> ('c :: zero) RollupRow" where
  "empty_row key = (case key of (b, f, d, v) \<Rightarrow>
     \<lparr>r_BucketTS = b, r_SourceFormat = f, r_Dimension = d, r_DimensionValue = v,
      r_OpCount = 0, r_TokensIn = 0, r_TokensOut = 0, r_TokensCacheRead = 0,
      r_TokensCacheWrite = 0, r_CostUSD = 0, r_Failures = 0, r_DurationUS = 0,
      r_SessionStarts = 0\<rparr>)"

text \<open>The row a map lookup finds, or the fresh row of its key.\<close>

definition rowAt :: "('c :: zero) acc \<Rightarrow> rowKey \<Rightarrow> 'c RollupRow" where
  "rowAt acc key = (case map_of acc key of Some r \<Rightarrow> r | None \<Rightarrow> empty_row key)"

definition row_add_op :: "'c OpRow \<Rightarrow> ('c :: {zero,plus}) RollupRow \<Rightarrow> 'c RollupRow" where
  "row_add_op op r =
     (let r = r\<lparr>r_OpCount := r_OpCount r + 1,
                r_TokensIn := r_TokensIn r + o_TokensIn op,
                r_TokensOut := r_TokensOut r + o_TokensOut op,
                r_TokensCacheRead := r_TokensCacheRead r + o_TokensCacheRead op,
                r_TokensCacheWrite := r_TokensCacheWrite r + o_TokensCacheWrite op,
                r_CostUSD := r_CostUSD r + o_CostUSD op\<rparr>;
          r = (if o_Failed op then r\<lparr>r_Failures := r_Failures r + 1\<rparr> else r)
      in if running op then r else r\<lparr>r_DurationUS := r_DurationUS r + o_DurationUS op\<rparr>)"

definition addOpMetrics :: "('c :: {zero,plus}) acc \<Rightarrow> rowKey \<Rightarrow> 'c OpRow \<Rightarrow> 'c acc" where
  "addOpMetrics acc key op = alist_put key (row_add_op op (rowAt acc key)) acc"

definition foldOp :: "Bucket \<Rightarrow> 'c OpRow \<Rightarrow> ('c :: {zero,plus}) acc \<Rightarrow> 'c acc" where
  "foldOp bucket op acc =
     (let b = BucketTS (o_StartTS op) bucket;
          f = o_SourceFormat op;
          acc = addOpMetrics acc (b, f, ''total'', []) op;
          acc = (if o_Kind op = ''llm'' \<and> o_Model op \<noteq> []
                 then addOpMetrics acc (b, f, ''model'', o_Model op) op else acc);
          acc = (if o_Provider op \<noteq> []
                 then addOpMetrics acc (b, f, ''provider'', o_Provider op) op else acc);
          acc = (if o_Kind op = ''tool'' \<and> toolID (o_ToolNamespace op) (o_ToolName op) \<noteq> []
                 then addOpMetrics acc (b, f, ''tool'', toolID (o_ToolNamespace op) (o_ToolName op)) op
                 else acc);
          acc = (if o_AgentName op \<noteq> []
                 then addOpMetrics acc (b, f, ''agent'', o_AgentName op) op else acc)
      in if o_Cwd op \<noteq> [] then addOpMetrics acc (b, f, ''cwd'', o_Cwd op) op else acc)"

definition row_add_start :: "'c RollupRow \<Rightarrow> 'c RollupRow" where
  "row_add_start r = r\<lparr>r_SessionStarts := r_SessionStarts r + 1\<rparr>"

definition addSessionStart :: "('c :: zero) acc \<Rightarrow> rowKey \<Rightarrow> 'c acc" where
  "addSessionStart acc key =
     alist_put key (row_add_start (rowAt acc key)) acc"

definition foldSessionStart :: "Bucket \<Rightarrow> SessionStart \<Rightarrow> ('c :: zero) acc \<Rightarrow> 'c acc" where
  "foldSessionStart bucket s acc =
     (let b = BucketTS (ss_StartTS s) bucket;
          f = ss_SourceFormat s;
          acc = addSessionStart acc (b, f, ''total'', []);
          acc = (if ss_AgentName s \<noteq> [] then addSessionStart acc (b, f, ''agent'', ss_AgentName s) else acc)
      in if ss_Cwd s \<noteq> [] then addSessionStart acc (b, f, ''cwd'', ss_Cwd s) else acc)"

section \<open>Order\<close>

definition less_row :: "'c RollupRow \<Rightarrow> 'c RollupRow \<Rightarrow> bool" where
  "less_row a b \<longleftrightarrow>
     (if r_BucketTS a \<noteq> r_BucketTS b then i64_less (r_BucketTS a) (r_BucketTS b)
      else if r_SourceFormat a \<noteq> r_SourceFormat b then r_SourceFormat a < r_SourceFormat b
      else if r_Dimension a \<noteq> r_Dimension b then r_Dimension a < r_Dimension b
      else r_DimensionValue a < r_DimensionValue b)"

definition sortRows :: "'c RollupRow list \<Rightarrow> 'c RollupRow list" where
  "sortRows rows = sort_by less_row rows"

section \<open>The tail collapse\<close>

definition rankLess :: "'c RollupRow \<Rightarrow> 'c RollupRow \<Rightarrow> bool" where
  "rankLess a b \<longleftrightarrow>
     (if r_OpCount a \<noteq> r_OpCount b then i64_less (r_OpCount b) (r_OpCount a)
      else r_DimensionValue a < r_DimensionValue b)"

definition zeroMetrics :: "('c :: zero) RollupRow \<Rightarrow> 'c RollupRow" where
  "zeroMetrics r = r\<lparr>r_OpCount := 0, r_TokensIn := 0, r_TokensOut := 0, r_TokensCacheRead := 0,
     r_TokensCacheWrite := 0, r_CostUSD := 0, r_Failures := 0, r_DurationUS := 0,
     r_SessionStarts := 0\<rparr>"

definition addMetrics :: "('c :: plus) RollupRow \<Rightarrow> 'c RollupRow \<Rightarrow> 'c RollupRow" where
  "addMetrics dst src = dst\<lparr>
     r_OpCount := r_OpCount dst + r_OpCount src,
     r_TokensIn := r_TokensIn dst + r_TokensIn src,
     r_TokensOut := r_TokensOut dst + r_TokensOut src,
     r_TokensCacheRead := r_TokensCacheRead dst + r_TokensCacheRead src,
     r_TokensCacheWrite := r_TokensCacheWrite dst + r_TokensCacheWrite src,
     r_CostUSD := r_CostUSD dst + r_CostUSD src,
     r_Failures := r_Failures dst + r_Failures src,
     r_DurationUS := r_DurationUS dst + r_DurationUS src,
     r_SessionStarts := r_SessionStarts dst + r_SessionStarts src\<rparr>"

definition group_key :: "'c RollupRow \<Rightarrow> groupKey" where
  "group_key r = (r_BucketTS r, r_SourceFormat r, r_Dimension r)"

text \<open>The group map: the indices of the rows of each group, in input order.\<close>

definition groupByBucketSourceDimension :: "'c RollupRow list \<Rightarrow> (groupKey \<times> nat list) list" where
  "groupByBucketSourceDimension rows =
     fold (\<lambda>i groups. let k = group_key (rows ! i) in
         alist_put k ((case map_of groups k of None \<Rightarrow> [] | Some idxs \<Rightarrow> idxs) @ [i]) groups)
       [0..<length rows] []"

definition anyGroupExceeds :: "(groupKey \<times> nat list) list \<Rightarrow> int \<Rightarrow> bool" where
  "anyGroupExceeds groups maxRows \<longleftrightarrow> list_ex (\<lambda>(_, idxs). int (length idxs) > maxRows) groups"

definition collapseGroup :: "('c :: {zero,plus}) RollupRow list \<Rightarrow> nat list \<Rightarrow> int \<Rightarrow> 'c RollupRow list" where
  "collapseGroup rows idxs maxRows =
     (if int (length idxs) \<le> maxRows then map (\<lambda>i. rows ! i) idxs
      else
        let ranked = sort_by (\<lambda>a b. rankLess (rows ! a) (rows ! b)) idxs;
            keep = nat (maxRows - 1);
            other = zeroMetrics ((rows ! (ranked ! keep))\<lparr>r_DimensionValue := otherValue\<rparr>)
        in map (\<lambda>i. rows ! i) (take keep ranked) @
           [fold (\<lambda>i dst. addMetrics dst (rows ! i)) (drop keep ranked) other])"

definition collapse ::
    "((groupKey \<times> nat list) list \<Rightarrow> (groupKey \<times> nat list) list) \<Rightarrow>
     ('c :: {zero,plus}) RollupRow list \<Rightarrow> int \<Rightarrow> 'c RollupRow list" where
  "collapse itg rows maxRows =
     (let groups = groupByBucketSourceDimension rows in
      if \<not> anyGroupExceeds groups maxRows then rows
      else concat (map (\<lambda>(_, g). collapseGroup rows g maxRows) (itg groups)))"

definition capOrDefault :: "int \<Rightarrow> int" where
  "capOrDefault maxRows = (if maxRows > 0 then maxRows else defaultMaxRowsPerBucketDimension)"

definition Rollup ::
    "('c acc \<Rightarrow> 'c acc) \<Rightarrow> ((groupKey \<times> nat list) list \<Rightarrow> (groupKey \<times> nat list) list) \<Rightarrow>
     ('c :: {zero,plus}) OpRow list \<Rightarrow> SessionStart list \<Rightarrow> Bucket \<Rightarrow> int \<Rightarrow> 'c RollupRow list" where
  "Rollup it itg ops starts bucket maxRows =
     (let acc = fold (foldOp bucket) ops [];
          acc = fold (foldSessionStart bucket) starts acc;
          rows = map snd (it acc);
          rows = collapse itg rows (capOrDefault maxRows)
      in sortRows rows)"

end
