(* ===== verification/Rollup_Facts.thy ===== *)
theory Rollup_Facts
  imports Rollups
begin

text \<open>
  Facts on the rollup engine: the keys an operation contributes to, the identity of the
  accumulated rows, the groups of the collapse as sublists, and the locale
  \<open>additive_metric\<close>, what a counter of a row has to satisfy for the whole pipeline (fold,
  collapse, sort) to preserve its sums.
\<close>

section \<open>Keys\<close>

definition row_key :: "'c RollupRow \<Rightarrow> rowKey" where
  "row_key r = (r_BucketTS r, r_SourceFormat r, r_Dimension r, r_DimensionValue r)"

definition key_group :: "rowKey \<Rightarrow> groupKey" where
  "key_group k = (case k of (b, f, d, v) \<Rightarrow> (b, f, d))"

text \<open>The rows an operation and a session start are counted in.\<close>

definition op_keys :: "Bucket \<Rightarrow> 'c OpRow \<Rightarrow> rowKey list" where
  "op_keys bucket op =
     (let b = BucketTS (o_StartTS op) bucket; f = o_SourceFormat op; t = toolID (o_ToolNamespace op) (o_ToolName op)
      in [(b, f, ''total'', [])]
         @ (if o_Kind op = ''llm'' \<and> o_Model op \<noteq> [] then [(b, f, ''model'', o_Model op)] else [])
         @ (if o_Provider op \<noteq> [] then [(b, f, ''provider'', o_Provider op)] else [])
         @ (if o_Kind op = ''tool'' \<and> t \<noteq> [] then [(b, f, ''tool'', t)] else [])
         @ (if o_AgentName op \<noteq> [] then [(b, f, ''agent'', o_AgentName op)] else [])
         @ (if o_Cwd op \<noteq> [] then [(b, f, ''cwd'', o_Cwd op)] else []))"

definition start_keys :: "Bucket \<Rightarrow> SessionStart \<Rightarrow> rowKey list" where
  "start_keys bucket s =
     (let b = BucketTS (ss_StartTS s) bucket; f = ss_SourceFormat s
      in [(b, f, ''total'', [])]
         @ (if ss_AgentName s \<noteq> [] then [(b, f, ''agent'', ss_AgentName s)] else [])
         @ (if ss_Cwd s \<noteq> [] then [(b, f, ''cwd'', ss_Cwd s)] else []))"

lemma foldOp_keys: "foldOp bucket op acc = fold (\<lambda>k acc. addOpMetrics acc k op) (op_keys bucket op) acc"
  by (simp add: foldOp_def op_keys_def Let_def)

lemma foldSessionStart_keys:
  "foldSessionStart bucket s acc = fold (\<lambda>k acc. addSessionStart acc k) (start_keys bucket s) acc"
  by (simp add: foldSessionStart_def start_keys_def Let_def)

lemma op_groups_distinct: "distinct (map key_group (op_keys bucket op))"
  by (auto simp: op_keys_def key_group_def Let_def)

lemma start_groups_distinct: "distinct (map key_group (start_keys bucket s))"
  by (auto simp: start_keys_def key_group_def Let_def)

lemma row_key_empty [simp]: "row_key (empty_row k) = k"
  by (simp add: row_key_def empty_row_def split: prod.splits)

lemma row_key_add_op [simp]: "row_key (row_add_op op r) = row_key r"
  by (simp add: row_key_def row_add_op_def Let_def)

lemma row_key_add_start [simp]: "row_key (row_add_start r) = row_key r"
  by (simp add: row_key_def row_add_start_def)

lemma row_key_zero [simp]: "row_key (zeroMetrics r) = row_key r"
  by (simp add: row_key_def zeroMetrics_def)

lemma row_key_addMetrics [simp]: "row_key (addMetrics r s) = row_key r"
  by (simp add: row_key_def addMetrics_def)

lemma group_key_row: "group_key r = key_group (row_key r)"
  by (simp add: group_key_def row_key_def key_group_def)

text \<open>The accumulator: distinct keys, and every row under its own key.\<close>

definition acc_ok :: "'c acc \<Rightarrow> bool" where
  "acc_ok acc \<longleftrightarrow> distinct (map fst acc) \<and> (\<forall>(k, r)\<in>set acc. row_key r = k)"

lemma acc_ok_Nil [simp]: "acc_ok []"
  by (simp add: acc_ok_def)

lemma rowAt_key: "acc_ok acc \<Longrightarrow> row_key (rowAt acc k) = k"
  by (auto simp: acc_ok_def rowAt_def dest: map_of_SomeD split: option.splits)

lemma acc_ok_put: "acc_ok acc \<Longrightarrow> row_key r = k \<Longrightarrow> acc_ok (alist_put k r acc)"
  using set_alist_put [of k r acc] by (auto simp: acc_ok_def)

lemma acc_ok_addOp: "acc_ok acc \<Longrightarrow> acc_ok (addOpMetrics acc k op)"
  by (simp add: addOpMetrics_def acc_ok_put rowAt_key)

lemma acc_ok_addStart: "acc_ok acc \<Longrightarrow> acc_ok (addSessionStart acc k)"
  by (simp add: addSessionStart_def acc_ok_put rowAt_key)

lemma acc_ok_keys_op: "acc_ok acc \<Longrightarrow> acc_ok (fold (\<lambda>k acc. addOpMetrics acc k op) ks acc)"
  by (induction ks arbitrary: acc) (auto simp: acc_ok_addOp)

lemma acc_ok_keys_start: "acc_ok acc \<Longrightarrow> acc_ok (fold (\<lambda>k acc. addSessionStart acc k) ks acc)"
  by (induction ks arbitrary: acc) (auto simp: acc_ok_addStart)

lemma acc_ok_ops: "acc_ok acc \<Longrightarrow> acc_ok (fold (foldOp bucket) ops acc)"
  by (induction ops arbitrary: acc) (auto simp: foldOp_keys acc_ok_keys_op)

lemma acc_ok_starts: "acc_ok acc \<Longrightarrow> acc_ok (fold (foldSessionStart bucket) starts acc)"
  by (induction starts arbitrary: acc) (auto simp: foldSessionStart_keys acc_ok_keys_start)

definition rollup_acc :: "Bucket \<Rightarrow> ('c :: {zero,plus}) OpRow list \<Rightarrow> SessionStart list \<Rightarrow> 'c acc" where
  "rollup_acc bucket ops starts = fold (foldSessionStart bucket) starts (fold (foldOp bucket) ops [])"

lemma rollup_acc_ok: "acc_ok (rollup_acc bucket ops starts)"
  by (simp add: rollup_acc_def acc_ok_ops acc_ok_starts)

lemma keys_addOps: "fst ` set (fold (\<lambda>k acc. addOpMetrics acc k op) ks acc) = set ks \<union> fst ` set acc"
  by (induction ks arbitrary: acc) (auto simp: addOpMetrics_def fst_alist_put)

lemma keys_addStarts: "fst ` set (fold (\<lambda>k acc. addSessionStart acc k) ks acc) = set ks \<union> fst ` set acc"
  by (induction ks arbitrary: acc) (auto simp: addSessionStart_def fst_alist_put)

lemma keys_ops: "fst ` set (fold (foldOp bucket) ops acc) = (\<Union>op\<in>set ops. set (op_keys bucket op)) \<union> fst ` set acc"
  by (induction ops arbitrary: acc) (auto simp: foldOp_keys keys_addOps)

lemma keys_starts:
  "fst ` set (fold (foldSessionStart bucket) starts acc) =
     (\<Union>s\<in>set starts. set (start_keys bucket s)) \<union> fst ` set acc"
  by (induction starts arbitrary: acc) (auto simp: foldSessionStart_keys keys_addStarts)

lemma rollup_acc_keys:
  "fst ` set (rollup_acc bucket ops starts) =
     (\<Union>op\<in>set ops. set (op_keys bucket op)) \<union> (\<Union>s\<in>set starts. set (start_keys bucket s))"
  by (auto simp: rollup_acc_def keys_ops keys_starts)

lemma acc_ok_row_keys: "acc_ok acc \<Longrightarrow> map row_key (map snd acc) = map fst acc"
  by (auto simp: acc_ok_def)

section \<open>Order\<close>

definition sort_row_key :: "'c RollupRow \<Rightarrow> int \<times> string \<times> string \<times> string" where
  "sort_row_key r = (sint (r_BucketTS r), r_SourceFormat r, r_Dimension r, r_DimensionValue r)"

definition rank_key :: "'c RollupRow \<Rightarrow> int \<times> string" where
  "rank_key r = (- sint (r_OpCount r), r_DimensionValue r)"

lemma less_row_key: "less_row a b \<longleftrightarrow> sort_row_key a < sort_row_key b"
  by (auto simp: less_row_def sort_row_key_def less_prod_def')

lemma rankLess_key: "rankLess a b \<longleftrightarrow> rank_key a < rank_key b"
  by (auto simp: rankLess_def rank_key_def less_prod_def')

lemma sortRows_key: "sortRows rows = sort_key sort_row_key rows"
  by (simp add: sortRows_def sort_by_key less_row_key)

lemma sort_rank_key: "sort_by rankLess rows = sort_key rank_key rows"
  by (simp add: sort_by_key rankLess_key)

lemma sort_row_key_inj: "sort_row_key a = sort_row_key b \<longleftrightarrow> row_key a = row_key b"
  by (auto simp: sort_row_key_def row_key_def)

lemma sort_key_perm:
  assumes "mset xs = mset ys" "inj_on f (set xs)"
  shows "sort_key f xs = sort_key f ys"
  using assms by (intro sort_key_inj_key_eq) (simp_all add: sorted_sort_key)

lemma distinct_key_inj: "distinct (map f xs) \<Longrightarrow> inj_on f (set xs)"
  by (simp add: distinct_map)


section \<open>Groups as sublists\<close>

text \<open>The rows of a group, and the collapse of one group on rows instead of indices.\<close>

definition group_rows :: "groupKey \<Rightarrow> 'c RollupRow list \<Rightarrow> 'c RollupRow list" where
  "group_rows g rows = filter (\<lambda>r. group_key r = g) rows"

definition collapse_rows :: "int \<Rightarrow> ('c :: {zero,plus}) RollupRow list \<Rightarrow> 'c RollupRow list" where
  "collapse_rows maxRows rs =
     (if int (length rs) \<le> maxRows then rs
      else
        let ranked = sort_by rankLess rs; keep = nat (maxRows - 1)
        in take keep ranked @
           [fold (\<lambda>r dst. addMetrics dst r) (drop keep ranked)
             (zeroMetrics ((ranked ! keep)\<lparr>r_DimensionValue := otherValue\<rparr>))])"

lemma groups_step:
  assumes "distinct (map fst gs)" "\<forall>(k, idxs)\<in>set gs. idxs = filter (\<lambda>i. f i = k) [0..<n]"
    and "fst ` set gs = f ` {0..<n}"
  defines "gs' \<equiv> alist_put (f n) ((case map_of gs (f n) of None \<Rightarrow> [] | Some idxs \<Rightarrow> idxs) @ [n]) gs"
  shows "distinct (map fst gs')" "\<forall>(k, idxs)\<in>set gs'. idxs = filter (\<lambda>i. f i = k) [0..<Suc n]"
    "fst ` set gs' = f ` {0..<Suc n}"
proof -
  show d: "distinct (map fst gs')" using assms(1) by (simp add: gs'_def)
  show "fst ` set gs' = f ` {0..<Suc n}"
    using assms(3) by (auto simp: gs'_def fst_alist_put atLeast0_lessThan_Suc)
  have new: "(case map_of gs (f n) of None \<Rightarrow> [] | Some idxs \<Rightarrow> idxs) = filter (\<lambda>i. f i = f n) [0..<n]"
  proof (cases "map_of gs (f n)")
    case None
    then have "f n \<notin> f ` {0..<n}" using assms(3) by (simp add: map_of_eq_None_iff)
    then have "filter (\<lambda>i. f i = f n) [0..<n] = []"
      by (auto simp: filter_empty_conv image_iff)
    then show ?thesis using None by simp
  next
    case (Some idxs)
    then show ?thesis using assms(2) by (auto dest!: map_of_SomeD)
  qed
  have "idxs = filter (\<lambda>i. f i = k) [0..<Suc n]" if "(k, idxs) \<in> set gs'" for k idxs
  proof -
    have m: "map_of gs' k = Some idxs" using d that by simp
    show ?thesis
    proof (cases "k = f n")
      case True
      then show ?thesis using m new by (simp add: gs'_def)
    next
      case False
      then have "map_of gs k = Some idxs" using m by (simp add: gs'_def)
      then show ?thesis using assms(2) False by (auto dest!: map_of_SomeD)
    qed
  qed
  then show "\<forall>(k, idxs)\<in>set gs'. idxs = filter (\<lambda>i. f i = k) [0..<Suc n]" by blast
qed

lemma groups_prefix:
  fixes f :: "nat \<Rightarrow> 'k"
  defines "G n \<equiv> fold (\<lambda>i gs. alist_put (f i) ((case map_of gs (f i) of None \<Rightarrow> [] | Some idxs \<Rightarrow> idxs) @ [i]) gs) [0..<n] []"
  shows "distinct (map fst (G n)) \<and> (\<forall>(k, idxs)\<in>set (G n). idxs = filter (\<lambda>i. f i = k) [0..<n]) \<and>
    fst ` set (G n) = f ` {0..<n}"
proof (induction n)
  case 0
  then show ?case by (simp add: G_def)
next
  case (Suc n)
  have "G (Suc n) = alist_put (f n) ((case map_of (G n) (f n) of None \<Rightarrow> [] | Some idxs \<Rightarrow> idxs) @ [n]) (G n)"
    by (simp add: G_def)
  then show ?case using groups_step [of "G n" f n] Suc by auto
qed

lemma groups_spec:
  "distinct (map fst (groupByBucketSourceDimension rows))"
  "(k, idxs) \<in> set (groupByBucketSourceDimension rows) \<Longrightarrow> map (\<lambda>i. rows ! i) idxs = group_rows k rows"
  "fst ` set (groupByBucketSourceDimension rows) = group_key ` set rows"
proof -
  note G = groups_prefix [of "\<lambda>i. group_key (rows ! i)" "length rows"]
  have eq: "groupByBucketSourceDimension rows = fold (\<lambda>i gs. alist_put (group_key (rows ! i))
      ((case map_of gs (group_key (rows ! i)) of None \<Rightarrow> [] | Some idxs \<Rightarrow> idxs) @ [i]) gs) [0..<length rows] []"
    by (simp add: groupByBucketSourceDimension_def Let_def)
  show "distinct (map fst (groupByBucketSourceDimension rows))" using G by (simp add: eq)
  have "fst ` set (groupByBucketSourceDimension rows) = (\<lambda>i. group_key (rows ! i)) ` {0..<length rows}"
    using G by (simp add: eq)
  also have "\<dots> = group_key ` set rows" by (force simp: in_set_conv_nth)
  finally show "fst ` set (groupByBucketSourceDimension rows) = group_key ` set rows" .
  assume "(k, idxs) \<in> set (groupByBucketSourceDimension rows)"
  then have "idxs = filter (\<lambda>i. group_key (rows ! i) = k) [0..<length rows]"
    using G unfolding eq by blast
  then have "map (\<lambda>i. rows ! i) idxs = filter (\<lambda>r. group_key r = k) (map (\<lambda>i. rows ! i) [0..<length rows])"
    by (simp add: filter_map comp_def)
  then show "map (\<lambda>i. rows ! i) idxs = group_rows k rows"
    by (simp add: map_nth group_rows_def)
qed

lemma map_sort_by: "map f (sort_by (\<lambda>a b. lt (f a) (f b)) xs) = sort_by lt (map f xs)"
proof -
  have "map f (insert_by (\<lambda>a b. lt (f a) (f b)) x ys) = insert_by lt (f x) (map f ys)" for x ys
    by (induction ys) auto
  then show ?thesis by (induction xs) (simp_all add: sort_by_def)
qed

lemma collapseGroup_rows:
  assumes "1 \<le> m"
  shows "collapseGroup rows idxs m = collapse_rows m (map (\<lambda>i. rows ! i) idxs)"
proof (cases "int (length idxs) \<le> m")
  case True
  then show ?thesis by (simp add: collapseGroup_def collapse_rows_def)
next
  case False
  let ?r = "sort_by (\<lambda>a b. rankLess (rows ! a) (rows ! b)) idxs"
  have "nat (m - 1) < length ?r" using False assms by simp
  moreover have "sort_by rankLess (map (\<lambda>i. rows ! i) idxs) = map (\<lambda>i. rows ! i) ?r"
    by (simp add: map_sort_by)
  moreover have "fold (\<lambda>i dst. addMetrics dst (rows ! i)) xs z = fold (\<lambda>r dst. addMetrics dst r) (map (\<lambda>i. rows ! i) xs) z" for xs z
    by (induction xs arbitrary: z) auto
  ultimately show ?thesis
    using False by (simp add: collapseGroup_def collapse_rows_def Let_def take_map drop_map)
qed

text \<open>The keys of the groups, in the order the map iteration yields them.\<close>

lemma collapse_groups:
  assumes "iteration itg" "1 \<le> m"
  obtains ks where "distinct ks" "set ks = group_key ` set rows"
    and "mset (collapse itg rows m) = mset (concat (map (\<lambda>k. collapse_rows m (group_rows k rows)) ks))"
    and "\<forall>k\<in>set ks. int (length (group_rows k rows)) \<le> m \<Longrightarrow> collapse itg rows m = rows"
proof -
  let ?G = "groupByBucketSourceDimension rows"
  let ?ks = "map fst (itg ?G)"
  have m: "mset (itg ?G) = mset ?G" using assms(1) by (rule iterationD)
  then have ks: "distinct ?ks" "set ?ks = group_key ` set rows"
    using groups_spec(1,3) [of rows] by (metis mset_map mset_eq_imp_distinct_iff, metis m groups_spec(3) set_map set_mset_mset)
  have cg: "map (\<lambda>(_, g). collapseGroup rows g m) (itg ?G) =
      map (\<lambda>k. collapse_rows m (group_rows k rows)) ?ks"
  proof -
    have "(case p of (_, g) \<Rightarrow> collapseGroup rows g m) = collapse_rows m (group_rows (fst p) rows)"
      if "p \<in> set (itg ?G)" for p
      using that assms groups_spec(2) [of "fst p" "snd p" rows]
      by (simp add: collapseGroup_rows split_def)
    then show ?thesis by simp
  qed
  have len: "int (length idxs) = int (length (group_rows k rows))" if "(k, idxs) \<in> set ?G" for k idxs
    using arg_cong [OF groups_spec(2) [OF that], of length] by simp
  have ex: "anyGroupExceeds ?G m \<longleftrightarrow> (\<exists>k\<in>set ?ks. int (length (group_rows k rows)) > m)"
    using len assms(1) by (force simp: anyGroupExceeds_def list_ex_iff)
  show thesis
  proof (rule that [OF ks])
    show "collapse itg rows m = rows" if "\<forall>k\<in>set ?ks. int (length (group_rows k rows)) \<le> m"
      using that ex by (auto simp: collapse_def Let_def)
    show "mset (collapse itg rows m) = mset (concat (map (\<lambda>k. collapse_rows m (group_rows k rows)) ?ks))"
    proof (cases "anyGroupExceeds ?G m")
      case True
      then have "collapse itg rows m = concat (map (\<lambda>(_, g). collapseGroup rows g m) (itg ?G))"
        by (simp add: collapse_def Let_def)
      then show ?thesis by (simp only: cg)
    next
      case False
      then have "map (\<lambda>k. collapse_rows m (group_rows k rows)) ?ks = map (\<lambda>k. group_rows k rows) ?ks"
        using ex by (auto simp: collapse_rows_def)
      then have "mset (concat (map (\<lambda>k. collapse_rows m (group_rows k rows)) ?ks)) =
          mset (concat (map (\<lambda>k. group_rows k rows) ?ks))"
        by (simp only:)
      also have "\<dots> = mset rows"
        unfolding group_rows_def by (rule mset_concat_groups) (use ks in auto)
      finally show ?thesis using False by (simp add: collapse_def Let_def)
    qed
  qed
qed


section \<open>The collapse of one group\<close>

lemma fold_merge_group: "group_key (fold (\<lambda>r dst. addMetrics dst r) xs y) = group_key y"
  by (induction xs arbitrary: y) (simp_all add: group_key_row)

lemma fold_merge_value: "r_DimensionValue (fold (\<lambda>r dst. addMetrics dst r) xs y) = r_DimensionValue y"
  by (induction xs arbitrary: y) (simp_all add: addMetrics_def)

lemma collapse_rows_group:
  assumes "1 \<le> m" "\<forall>r\<in>set rs. group_key r = g" "r \<in> set (collapse_rows m rs)"
  shows "group_key r = g"
proof (cases "int (length rs) \<le> m")
  case True
  then show ?thesis using assms(2,3) by (simp add: collapse_rows_def)
next
  case False
  let ?z = "zeroMetrics ((sort_by rankLess rs ! nat (m - 1))\<lparr>r_DimensionValue := otherValue\<rparr>)"
  have "nat (m - 1) < length (sort_by rankLess rs)" using False assms(1) by simp
  then have "sort_by rankLess rs ! nat (m - 1) \<in> set rs" by (metis nth_mem set_sort_by)
  then have z: "group_key ?z = g"
    using assms(2) by (simp add: group_key_def zeroMetrics_def)
  then show ?thesis
    using assms(2,3) False by (auto simp: collapse_rows_def Let_def fold_merge_group dest: in_set_takeD)
qed

lemma length_collapse_rows: "1 \<le> m \<Longrightarrow> int (length (collapse_rows m rs)) \<le> m"
  by (auto simp: collapse_rows_def Let_def min_def)

lemma collapse_rows_mset:
  assumes "mset rs = mset rs'" "inj_on rank_key (set rs)"
  shows "mset (collapse_rows m rs) = mset (collapse_rows m rs')"
  using assms mset_eq_length [OF assms(1)] sort_key_perm [OF assms]
  by (simp add: collapse_rows_def sort_rank_key)

text \<open>Distinct dimension values survive the collapse if none of them is the reserved one.\<close>

lemma collapse_rows_distinct:
  assumes "distinct (map r_DimensionValue rs)" "otherValue \<notin> r_DimensionValue ` set rs"
  shows "distinct (map r_DimensionValue (collapse_rows m rs))"
proof (cases "int (length rs) \<le> m")
  case True
  then show ?thesis using assms by (simp add: collapse_rows_def)
next
  case False
  let ?s = "sort_by rankLess rs" and ?k = "nat (m - 1)"
  have "mset (map r_DimensionValue ?s) = mset (map r_DimensionValue rs)" by simp
  then have "distinct (map r_DimensionValue ?s)" using assms(1) mset_eq_imp_distinct_iff by blast
  then have "distinct (map r_DimensionValue (take ?k ?s))" by (simp add: take_map [symmetric])
  moreover have "otherValue \<notin> r_DimensionValue ` set (take ?k ?s)"
    using assms(2) by (auto dest: in_set_takeD)
  ultimately show ?thesis using False by (simp add: collapse_rows_def Let_def zeroMetrics_def fold_merge_value)
qed

section \<open>Additive metrics\<close>

text \<open>
  What a metric of a row has to satisfy for the pipeline to preserve its sums: an
  operation adds its contribution, a session start adds \<open>stc\<close>, merging two rows adds,
  a cleared row counts nothing, and renaming the dimension value changes nothing.
\<close>

locale additive_metric =
  fixes get :: "('c :: {zero,plus}) RollupRow \<Rightarrow> 'm :: comm_monoid_add"
    and opc :: "'c OpRow \<Rightarrow> 'm"
    and stc :: 'm
  assumes get_add_op: "get (row_add_op op r) = get r + opc op"
    and get_add_start: "get (row_add_start r) = get r + stc"
    and get_merge: "get (addMetrics r s) = get r + get s"
    and get_zero: "get (zeroMetrics r) = 0"
    and get_empty: "get (empty_row k) = 0"
begin

definition row_sum :: "groupKey \<Rightarrow> 'c RollupRow list \<Rightarrow> 'm" where
  "row_sum g rows = (\<Sum>r\<leftarrow>rows. if group_key r = g then get r else 0)"

lemma row_sum_mset: "mset xs = mset ys \<Longrightarrow> row_sum g xs = row_sum g ys"
  unfolding row_sum_def by (rule sum_list_perm)

lemma row_sum_append: "row_sum g (xs @ ys) = row_sum g xs + row_sum g ys"
  by (simp add: row_sum_def)

lemma row_sum_put:
  assumes "acc_ok acc" "row_key r = k" "get r = get (rowAt acc k) + d"
  shows "row_sum g (map snd (alist_put k r acc)) =
    row_sum g (map snd acc) + (if key_group k = g then d else 0)"
  using assms
proof (induction acc)
  case Nil
  then show ?case by (simp add: row_sum_def rowAt_def get_empty group_key_row)
next
  case (Cons p acc)
  obtain k' r' where p: "p = (k', r')" by (cases p)
  have ok: "acc_ok acc" "row_key r' = k'" using Cons.prems(1) by (simp_all add: acc_ok_def p)
  show ?case
  proof (cases "k = k'")
    case True
    then show ?thesis
      using Cons.prems(2,3) ok p by (simp add: row_sum_def rowAt_def group_key_row ac_simps)
  next
    case False
    then have "get r = get (rowAt acc k) + d" using Cons.prems(3) by (simp add: rowAt_def p)
    from Cons.IH [OF ok(1) Cons.prems(2) this] False show ?thesis
      by (simp add: row_sum_def p ac_simps)
  qed
qed

lemma row_sum_addOps:
  "acc_ok acc \<Longrightarrow> row_sum g (map snd (fold (\<lambda>k acc. addOpMetrics acc k op) ks acc)) =
     row_sum g (map snd acc) + (\<Sum>k\<leftarrow>ks. if key_group k = g then opc op else 0)"
proof (induction ks arbitrary: acc)
  case (Cons k ks)
  have "row_sum g (map snd (addOpMetrics acc k op)) =
      row_sum g (map snd acc) + (if key_group k = g then opc op else 0)"
    unfolding addOpMetrics_def
    by (rule row_sum_put) (simp_all add: Cons.prems rowAt_key get_add_op)
  then show ?case using Cons by (simp add: acc_ok_addOp add.assoc)
qed simp

lemma row_sum_addStarts:
  "acc_ok acc \<Longrightarrow> row_sum g (map snd (fold (\<lambda>k acc. addSessionStart acc k) ks acc)) =
     row_sum g (map snd acc) + (\<Sum>k\<leftarrow>ks. if key_group k = g then stc else 0)"
proof (induction ks arbitrary: acc)
  case (Cons k ks)
  have "row_sum g (map snd (addSessionStart acc k)) =
      row_sum g (map snd acc) + (if key_group k = g then stc else 0)"
    unfolding addSessionStart_def
    by (rule row_sum_put) (simp_all add: Cons.prems rowAt_key get_add_start)
  then show ?case using Cons by (simp add: acc_ok_addStart add.assoc)
qed simp

lemma sum_one_group:
  "distinct (map key_group ks) \<Longrightarrow>
     (\<Sum>k\<leftarrow>ks. if key_group k = g then x else (0 :: 'm)) = (if g \<in> key_group ` set ks then x else 0)"
  by (induction ks) auto

lemma row_sum_ops:
  "acc_ok acc \<Longrightarrow> row_sum g (map snd (fold (foldOp bucket) ops acc)) =
     row_sum g (map snd acc) + (\<Sum>op\<leftarrow>ops. if g \<in> key_group ` set (op_keys bucket op) then opc op else 0)"
proof (induction ops arbitrary: acc)
  case (Cons op ops)
  have "acc_ok (foldOp bucket op acc)" by (simp add: foldOp_keys acc_ok_keys_op Cons.prems)
  then show ?case
    using Cons.IH [of "foldOp bucket op acc"]
    by (simp add: foldOp_keys row_sum_addOps [OF Cons.prems] sum_one_group op_groups_distinct add.assoc)
qed simp

lemma row_sum_starts:
  "acc_ok acc \<Longrightarrow> row_sum g (map snd (fold (foldSessionStart bucket) starts acc)) =
     row_sum g (map snd acc) + (\<Sum>s\<leftarrow>starts. if g \<in> key_group ` set (start_keys bucket s) then stc else 0)"
proof (induction starts arbitrary: acc)
  case (Cons s starts)
  have "acc_ok (foldSessionStart bucket s acc)" by (simp add: foldSessionStart_keys acc_ok_keys_start Cons.prems)
  then show ?case
    using Cons.IH [of "foldSessionStart bucket s acc"]
    by (simp add: foldSessionStart_keys row_sum_addStarts [OF Cons.prems] sum_one_group
        start_groups_distinct add.assoc)
qed simp

lemma get_fold_merge: "get (fold (\<lambda>r dst. addMetrics dst r) xs z) = get z + (\<Sum>r\<leftarrow>xs. get r)"
  by (induction xs arbitrary: z) (simp_all add: get_merge add.assoc)

lemma sum_collapse_rows: "(\<Sum>r\<leftarrow>collapse_rows m rs. get r) = (\<Sum>r\<leftarrow>rs. get r)"
proof (cases "int (length rs) \<le> m")
  case True
  then show ?thesis by (simp add: collapse_rows_def)
next
  case False
  let ?s = "sort_by rankLess rs" and ?k = "nat (m - 1)"
  have "(\<Sum>r\<leftarrow>collapse_rows m rs. get r) = (\<Sum>r\<leftarrow>take ?k ?s. get r) + (\<Sum>r\<leftarrow>drop ?k ?s. get r)"
    using False by (simp add: collapse_rows_def Let_def get_fold_merge get_zero)
  also have "\<dots> = (\<Sum>r\<leftarrow>?s. get r)"
    by (metis append_take_drop_id map_append sum_list.append)
  also have "\<dots> = (\<Sum>r\<leftarrow>rs. get r)"
    by (rule sum_list_perm) simp
  finally show ?thesis .
qed

lemma row_sum_group:
  "\<forall>r\<in>set rs. group_key r = k \<Longrightarrow> row_sum g rs = (if k = g then (\<Sum>r\<leftarrow>rs. get r) else 0)"
  by (induction rs) (auto simp: row_sum_def)

lemma row_sum_collapse:
  assumes "iteration itg" "1 \<le> m"
  shows "row_sum g (collapse itg rows m) = row_sum g rows"
proof -
  obtain ks where ks: "distinct ks" "set ks = group_key ` set rows"
    and c: "mset (collapse itg rows m) = mset (concat (map (\<lambda>k. collapse_rows m (group_rows k rows)) ks))"
    by (rule collapse_groups [OF assms, of rows])
  have "row_sum g (collapse_rows m (group_rows k rows)) = row_sum g (group_rows k rows)" for k
  proof -
    have gr: "\<forall>r\<in>set (group_rows k rows). group_key r = k" by (simp add: group_rows_def)
    have gr': "\<forall>r\<in>set (collapse_rows m (group_rows k rows)). group_key r = k"
      using collapse_rows_group [OF assms(2) gr] by blast
    show ?thesis by (simp only: row_sum_group [OF gr] row_sum_group [OF gr'] sum_collapse_rows)
  qed
  then have "row_sum g (concat (map (\<lambda>k. collapse_rows m (group_rows k rows)) ks')) =
      row_sum g (concat (map (\<lambda>k. group_rows k rows) ks'))" for ks'
    by (induction ks') (simp_all add: row_sum_append)
  then have "row_sum g (collapse itg rows m) = row_sum g (concat (map (\<lambda>k. group_rows k rows) ks))"
    using row_sum_mset [OF c] by simp
  also have "\<dots> = row_sum g rows"
    using mset_concat_groups [of ks group_key rows] ks by (intro row_sum_mset) (simp add: group_rows_def)
  finally show ?thesis .
qed

lemma row_sum_Rollup:
  assumes "iteration it" "iteration itg"
  shows "row_sum g (Rollup it itg ops starts bucket maxRows) =
    (\<Sum>op\<leftarrow>ops. if g \<in> key_group ` set (op_keys bucket op) then opc op else 0) +
    (\<Sum>s\<leftarrow>starts. if g \<in> key_group ` set (start_keys bucket s) then stc else 0)"
proof -
  let ?a = "rollup_acc bucket ops starts"
  have cap: "1 \<le> capOrDefault maxRows" by (simp add: capOrDefault_def defaultMaxRowsPerBucketDimension_def)
  have "row_sum g (Rollup it itg ops starts bucket maxRows) =
      row_sum g (collapse itg (map snd (it ?a)) (capOrDefault maxRows))"
    by (rule row_sum_mset) (simp add: Rollup_def Let_def rollup_acc_def sortRows_def)
  also have "\<dots> = row_sum g (map snd (it ?a))" by (rule row_sum_collapse [OF assms(2) cap])
  also have "\<dots> = row_sum g (map snd ?a)" using assms(1) by (intro row_sum_mset) (simp add: iterationD)
  finally show ?thesis
    by (simp add: rollup_acc_def row_sum_starts acc_ok_ops row_sum_ops) (simp add: row_sum_def)
qed

end

end
