(* ===== verification/Rollup_Props.thy ===== *)
theory Rollup_Props
  imports Rollup_Facts
begin

text \<open>
  The properties of the rollup engine: its buckets, the additivity of every metric through
  fold, collapse and sort, the bound on the rows of a group, and the uniqueness and
  determinism of the sorted result whatever the iteration order of Go's maps.
\<close>

section \<open>Every counter is additive\<close>

interpretation op_count: additive_metric r_OpCount "\<lambda>_. 1" 0
  by unfold_locales (simp_all add: row_add_op_def row_add_start_def addMetrics_def zeroMetrics_def
      empty_row_def Let_def split: prod.splits)

interpretation tokens_in: additive_metric r_TokensIn o_TokensIn 0
  by unfold_locales (simp_all add: row_add_op_def row_add_start_def addMetrics_def zeroMetrics_def
      empty_row_def Let_def split: prod.splits)

interpretation tokens_out: additive_metric r_TokensOut o_TokensOut 0
  by unfold_locales (simp_all add: row_add_op_def row_add_start_def addMetrics_def zeroMetrics_def
      empty_row_def Let_def split: prod.splits)

interpretation cache_read: additive_metric r_TokensCacheRead o_TokensCacheRead 0
  by unfold_locales (simp_all add: row_add_op_def row_add_start_def addMetrics_def zeroMetrics_def
      empty_row_def Let_def split: prod.splits)

interpretation cache_write: additive_metric r_TokensCacheWrite o_TokensCacheWrite 0
  by unfold_locales (simp_all add: row_add_op_def row_add_start_def addMetrics_def zeroMetrics_def
      empty_row_def Let_def split: prod.splits)

interpretation cost: additive_metric "r_CostUSD :: ('c :: comm_monoid_add) RollupRow \<Rightarrow> 'c" o_CostUSD 0
  by unfold_locales (simp_all add: row_add_op_def row_add_start_def addMetrics_def zeroMetrics_def
      empty_row_def Let_def split: prod.splits)

interpretation failures: additive_metric r_Failures "\<lambda>op. if o_Failed op then 1 else 0" 0
  by unfold_locales (simp_all add: row_add_op_def row_add_start_def addMetrics_def zeroMetrics_def
      empty_row_def Let_def split: prod.splits)

interpretation duration: additive_metric r_DurationUS "\<lambda>op. if running op then 0 else o_DurationUS op" 0
  by unfold_locales (simp_all add: row_add_op_def row_add_start_def addMetrics_def zeroMetrics_def
      empty_row_def Let_def split: prod.splits)

interpretation session_starts: additive_metric r_SessionStarts "\<lambda>_. 0" 1
  by unfold_locales (simp_all add: row_add_op_def row_add_start_def addMetrics_def zeroMetrics_def
      empty_row_def Let_def split: prod.splits)

definition group_sum :: "('c RollupRow \<Rightarrow> 'm :: comm_monoid_add) \<Rightarrow> groupKey \<Rightarrow> 'c RollupRow list \<Rightarrow> 'm" where
  "group_sum f g rows = (\<Sum>r\<leftarrow>rows. if group_key r = g then f r else 0)"

definition op_in :: "Bucket \<Rightarrow> groupKey \<Rightarrow> 'c OpRow \<Rightarrow> bool" where
  "op_in bucket g op \<longleftrightarrow> g \<in> key_group ` set (op_keys bucket op)"

definition start_in :: "Bucket \<Rightarrow> groupKey \<Rightarrow> SessionStart \<Rightarrow> bool" where
  "start_in bucket g s \<longleftrightarrow> g \<in> key_group ` set (start_keys bucket s)"

lemmas rollup_sums = op_count.row_sum_Rollup tokens_in.row_sum_Rollup tokens_out.row_sum_Rollup
  cache_read.row_sum_Rollup cache_write.row_sum_Rollup cost.row_sum_Rollup failures.row_sum_Rollup
  duration.row_sum_Rollup session_starts.row_sum_Rollup

lemmas row_sum_defs = op_count.row_sum_def tokens_in.row_sum_def tokens_out.row_sum_def
  cache_read.row_sum_def cache_write.row_sum_def cost.row_sum_def failures.row_sum_def
  duration.row_sum_def session_starts.row_sum_def

text \<open>
  C6. Rollups are additive: for every group (bucket, source format, dimension) each metric
  summed over the rows of the result is the sum of what the operations counted in that
  group contribute, whatever was collapsed into the reserved row: their number, their four
  token counts, their cost, their failures, and the duration of those that have ended; and
  \<open>session_starts\<close> counts the sessions started in the group.
\<close>

theorem rollup_additive:
  fixes ops :: "('c :: comm_monoid_add) OpRow list"
  assumes "iteration it" and "iteration itg"
    and rows: "rows = Rollup it itg ops starts bucket maxRows"
  shows "group_sum r_OpCount g rows = (\<Sum>op\<leftarrow>ops. if op_in bucket g op then 1 else 0) \<and>
    group_sum r_TokensIn g rows = (\<Sum>op\<leftarrow>ops. if op_in bucket g op then o_TokensIn op else 0) \<and>
    group_sum r_TokensOut g rows = (\<Sum>op\<leftarrow>ops. if op_in bucket g op then o_TokensOut op else 0) \<and>
    group_sum r_TokensCacheRead g rows = (\<Sum>op\<leftarrow>ops. if op_in bucket g op then o_TokensCacheRead op else 0) \<and>
    group_sum r_TokensCacheWrite g rows = (\<Sum>op\<leftarrow>ops. if op_in bucket g op then o_TokensCacheWrite op else 0) \<and>
    group_sum r_CostUSD g rows = (\<Sum>op\<leftarrow>ops. if op_in bucket g op then o_CostUSD op else 0) \<and>
    group_sum r_Failures g rows = (\<Sum>op\<leftarrow>ops. if op_in bucket g op \<and> o_Failed op then 1 else 0) \<and>
    group_sum r_DurationUS g rows = (\<Sum>op\<leftarrow>ops. if op_in bucket g op \<and> \<not> running op then o_DurationUS op else 0) \<and>
    group_sum r_SessionStarts g rows = (\<Sum>s\<leftarrow>starts. if start_in bucket g s then 1 else 0)"
proof -
  have z: "(\<Sum>x\<leftarrow>xs. if P x then 0 else 0) = (0 :: 'm :: comm_monoid_add)" for xs :: "'z list" and P
    by (induction xs) auto
  note s = rollup_sums [OF assms(1,2), of g ops starts bucket maxRows,
      unfolded row_sum_defs, folded group_sum_def rows op_in_def start_in_def]
  have if2: "(if a then (if b then 1 else 0) else 0) = (if a \<and> b then 1 else (0 :: i64))"
    "(if a then (if b then 0 else x) else 0) = (if a \<and> \<not> b then x else (0 :: i64))" for a b x
    by simp_all
  show ?thesis using s unfolding if2 by (simp add: z)
qed

text \<open>Three operations in one hour bucket on two models, two of them with a tool call, and two sessions.\<close>

definition demo_op :: "string \<Rightarrow> string \<Rightarrow> i64 \<Rightarrow> i64 \<Rightarrow> bool \<Rightarrow> int OpRow" where
  "demo_op kind name dur tokens failed =
     \<lparr>o_StartTS = 3600000001, o_EndTS = Some (3600000001 + dur), o_DurationUS = dur,
      o_SourceFormat = ''codex'', o_Kind = kind, o_Model = name, o_Provider = [],
      o_ToolNamespace = ''fs'', o_ToolName = name, o_AgentName = [], o_Cwd = name,
      o_CostUSD = 3, o_TokensIn = tokens, o_TokensOut = 1, o_TokensCacheRead = 0,
      o_TokensCacheWrite = 0, o_Failed = failed\<rparr>"

definition demo_ops :: "int OpRow list" where
  "demo_ops = [demo_op ''llm'' ''a'' 5 10 False, demo_op ''tool'' ''b'' 0 20 True,
     demo_op ''llm'' ''c'' 7 30 False, demo_op ''llm'' ''a'' 9 40 False]"

definition demo_starts :: "SessionStart list" where
  "demo_starts = [\<lparr>ss_StartTS = 3600000001, ss_SourceFormat = ''codex'', ss_AgentName = [], ss_Cwd = ''a''\<rparr>]"

text \<open>With a cap of two rows the directories \<open>b\<close> and \<open>c\<close> share the reserved row; the sums agree.\<close>

theorem rollup_additive_witness:
  "group_sum r_TokensIn (3600000000, ''codex'', ''cwd'') (Rollup rev (\<lambda>xs. xs) demo_ops demo_starts Hourly 2) = 100"
proof -
  have "(\<Sum>op\<leftarrow>demo_ops. if op_in Hourly (3600000000, ''codex'', ''cwd'') op then o_TokensIn op else 0) = 100"
    by code_simp
  then show ?thesis
    using rollup_additive [OF iteration_rev iteration_id refl,
        of "(3600000000, ''codex'', ''cwd'')" demo_ops demo_starts Hourly 2] by (simp only:)
qed

section \<open>The rows of the result\<close>

lemma distinct_concat_groups:
  assumes "distinct ks" "\<And>k. k \<in> set ks \<Longrightarrow> distinct (map f (c k))"
    and "\<And>k r. k \<in> set ks \<Longrightarrow> r \<in> set (c k) \<Longrightarrow> h (f r) = k"
  shows "distinct (map f (concat (map c ks)))"
  using assms
proof (induction ks)
  case (Cons k ks)
  have "f ` set (c k) \<inter> f ` set (concat (map c ks)) = {}"
  proof (intro equals0I)
    fix x assume "x \<in> f ` set (c k) \<inter> f ` set (concat (map c ks))"
    then obtain r k' r' where "r \<in> set (c k)" "x = f r" "k' \<in> set ks" "r' \<in> set (c k')" "x = f r'" by auto
    then have "k = k'" using Cons.prems(3) [of k r] Cons.prems(3) [of k' r'] by simp
    then show False using Cons.prems(1) \<open>k' \<in> set ks\<close> by simp
  qed
  then show ?case using Cons by (auto simp: image_Un)
qed simp

lemma row_key_split: "row_key r = row_key s \<longleftrightarrow> group_key r = group_key s \<and> r_DimensionValue r = r_DimensionValue s"
  by (auto simp: row_key_def group_key_def)

lemma distinct_values_in_group:
  assumes "distinct (map row_key rows)"
  shows "distinct (map r_DimensionValue (group_rows k rows))"
proof -
  have "distinct (map row_key (group_rows k rows))"
    using assms by (simp add: group_rows_def distinct_map_filter)
  then show ?thesis
    by (auto simp: distinct_map group_rows_def inj_on_def row_key_split)
qed

lemma rank_key_inj_group:
  "distinct (map row_key rows) \<Longrightarrow> inj_on rank_key (set (group_rows k rows))"
  using distinct_values_in_group [of rows k] by (auto simp: distinct_map inj_on_def rank_key_def)

lemma collapse_distinct:
  assumes "iteration itg" "1 \<le> m" "distinct (map row_key rows)" "otherValue \<notin> r_DimensionValue ` set rows"
  shows "distinct (map row_key (collapse itg rows m))"
proof -
  obtain ks where ks: "distinct ks"
    and c: "mset (collapse itg rows m) = mset (concat (map (\<lambda>k. collapse_rows m (group_rows k rows)) ks))"
    by (rule collapse_groups [OF assms(1,2), of rows])
  have gr: "\<forall>r\<in>set (group_rows k rows). group_key r = k" for k by (simp add: group_rows_def)
  have "distinct (map row_key (collapse_rows m (group_rows k rows)))" for k
  proof -
    have "distinct (map r_DimensionValue (collapse_rows m (group_rows k rows)))"
      using assms(4) by (intro collapse_rows_distinct distinct_values_in_group assms(3))
        (auto simp: group_rows_def)
    then show ?thesis by (auto simp: distinct_map inj_on_def row_key_split)
  qed
  then have "distinct (map row_key (concat (map (\<lambda>k. collapse_rows m (group_rows k rows)) ks)))"
    using collapse_rows_group [OF assms(2) gr]
    by (intro distinct_concat_groups [OF ks, where h = key_group]) (auto simp flip: group_key_row)
  moreover have "mset (map row_key (collapse itg rows m)) =
      mset (map row_key (concat (map (\<lambda>k. collapse_rows m (group_rows k rows)) ks)))"
    using c by (simp only: mset_map)
  ultimately show ?thesis using mset_eq_imp_distinct_iff by blast
qed

text \<open>No operation or session names the dimension value that is reserved for the tail.\<close>

definition no_other :: "Bucket \<Rightarrow> 'c OpRow list \<Rightarrow> SessionStart list \<Rightarrow> bool" where
  "no_other bucket ops starts \<longleftrightarrow>
     (\<forall>op\<in>set ops. \<forall>(_, _, _, v)\<in>set (op_keys bucket op). v \<noteq> otherValue) \<and>
     (\<forall>s\<in>set starts. \<forall>(_, _, _, v)\<in>set (start_keys bucket s). v \<noteq> otherValue)"

lemma rollup_rows:
  fixes bucket ops starts
  assumes "iteration it"
  defines "rows \<equiv> map snd (it (rollup_acc bucket ops starts))"
  shows "mset rows = mset (map snd (rollup_acc bucket ops starts))" "distinct (map row_key rows)"
    "no_other bucket ops starts \<Longrightarrow> otherValue \<notin> r_DimensionValue ` set rows"
proof -
  let ?a = "rollup_acc bucket ops starts"
  show m: "mset rows = mset (map snd ?a)" using assms(1) by (simp add: rows_def iterationD)
  have "mset (map row_key rows) = mset (map row_key (map snd ?a))" using m by (simp only: mset_map)
  also have "\<dots> = mset (map fst ?a)" by (simp only: acc_ok_row_keys [OF rollup_acc_ok])
  finally have k: "mset (map row_key rows) = mset (map fst ?a)" .
  have "distinct (map fst ?a)" using rollup_acc_ok [of bucket ops starts] by (simp add: acc_ok_def)
  with mset_eq_imp_distinct_iff [OF k] show "distinct (map row_key rows)" by blast
  assume no: "no_other bucket ops starts"
  have "row_key ` set rows = fst ` set ?a" using k by (metis set_map set_mset_mset)
  then have "\<forall>r\<in>set rows. row_key r \<in> fst ` set ?a" by blast
  then show "otherValue \<notin> r_DimensionValue ` set rows"
    using no unfolding rollup_acc_keys no_other_def by (fastforce simp: row_key_def)
qed

lemma Rollup_eq:
  "Rollup it itg ops starts bucket maxRows =
     sortRows (collapse itg (map snd (it (rollup_acc bucket ops starts))) (capOrDefault maxRows))"
  by (simp add: Rollup_def rollup_acc_def Let_def)

lemma less_row_abs: "less_row = (\<lambda>a b. sort_row_key a < sort_row_key b)"
  by (intro ext less_row_key)

lemma cap_pos: "1 \<le> capOrDefault maxRows"
  by (simp add: capOrDefault_def defaultMaxRowsPerBucketDimension_def)

lemma Rollup_keys:
  assumes "iteration it" and "iteration itg" and "no_other bucket ops starts"
  shows "distinct (map row_key (Rollup it itg ops starts bucket maxRows)) \<and>
    sorted_wrt less_row (Rollup it itg ops starts bucket maxRows)"
proof -
  let ?rows = "map snd (it (rollup_acc bucket ops starts))"
  let ?c = "collapse itg ?rows (capOrDefault maxRows)"
  have d: "distinct (map row_key ?c)"
    by (rule collapse_distinct [OF assms(2) cap_pos rollup_rows(2,3)]) (use assms in auto)
  have eq: "Rollup it itg ops starts bucket maxRows = sort_key sort_row_key ?c"
    by (simp add: Rollup_eq sortRows_key)
  have "mset (map row_key (sort_key sort_row_key ?c)) = mset (map row_key ?c)" by simp
  then have d': "distinct (map row_key (sort_key sort_row_key ?c))"
    using d mset_eq_imp_distinct_iff by blast
  then have "distinct (map sort_row_key (sort_key sort_row_key ?c))"
    by (auto simp: distinct_map inj_on_def sort_row_key_inj)
  then have "sorted_wrt (<) (map sort_row_key (sort_key sort_row_key ?c))"
    by (simp add: strict_sorted_iff)
  then show ?thesis using d' unfolding eq less_row_abs by (simp add: sorted_wrt_map)
qed

text \<open>
  C7. The rows of a rollup have distinct primary keys (bucket, source format, dimension,
  value) and come in strictly ascending key order, provided no dimension value of the
  input is the reserved value of the collapsed tail.
\<close>

theorem rollup_keys_sorted:
  assumes "iteration it" and "iteration itg" and "no_other bucket ops starts"
  shows "distinct (map row_key (Rollup it itg ops starts bucket maxRows)) \<and>
    sorted_wrt less_row (Rollup it itg ops starts bucket maxRows)"
  by (rule Rollup_keys [OF assms])

section \<open>A part of the buckets and formats\<close>

text \<open>
  The rows of some cells, a cell being a bucket and a format, depend on the operations and
  session starts of these cells alone, not on the order of the starts nor on that of the maps.
\<close>

definition in_cells :: "(i64 \<times> string \<Rightarrow> bool) \<Rightarrow> rowKey \<Rightarrow> bool" where
  "in_cells Q k \<longleftrightarrow> Q (fst k, fst (snd k))"

definition op_cell :: "Bucket \<Rightarrow> 'c OpRow \<Rightarrow> i64 \<times> string" where
  "op_cell bucket op = (BucketTS (o_StartTS op) bucket, o_SourceFormat op)"

definition start_cell :: "Bucket \<Rightarrow> SessionStart \<Rightarrow> i64 \<times> string" where
  "start_cell bucket s = (BucketTS (ss_StartTS s) bucket, ss_SourceFormat s)"

lemma op_keys_cell: "k \<in> set (op_keys bucket op) \<Longrightarrow> in_cells Q k = Q (op_cell bucket op)"
  by (auto simp: op_keys_def in_cells_def op_cell_def Let_def split: if_splits)

lemma start_keys_cell: "k \<in> set (start_keys bucket s) \<Longrightarrow> in_cells Q k = Q (start_cell bucket s)"
  by (auto simp: start_keys_def in_cells_def start_cell_def Let_def split: if_splits)

lemma rowAt_put: "rowAt (alist_put k' r acc) k = (if k = k' then r else rowAt acc k)"
  by (simp add: rowAt_def)

lemma rowAt_addOps:
  "distinct ks \<Longrightarrow> rowAt (fold (\<lambda>k acc. addOpMetrics acc k op) ks acc) k =
     (if k \<in> set ks then row_add_op op (rowAt acc k) else rowAt acc k)"
  by (induction ks arbitrary: acc) (auto simp: addOpMetrics_def rowAt_put)

lemma rowAt_addStarts:
  "distinct ks \<Longrightarrow> rowAt (fold (\<lambda>k acc. addSessionStart acc k) ks acc) k =
     (if k \<in> set ks then row_add_start (rowAt acc k) else rowAt acc k)"
  by (induction ks arbitrary: acc) (auto simp: addSessionStart_def rowAt_put)

lemma op_keys_distinct: "distinct (op_keys bucket op)"
  using op_groups_distinct [of bucket op] by (simp add: distinct_map)

lemma start_keys_distinct: "distinct (start_keys bucket s)"
  using start_groups_distinct [of bucket s] by (simp add: distinct_map)

lemma rowAt_ops:
  "rowAt (fold (foldOp bucket) ops acc) k =
     fold row_add_op (filter (\<lambda>op. k \<in> set (op_keys bucket op)) ops) (rowAt acc k)"
  by (induction ops arbitrary: acc) (simp_all add: foldOp_keys rowAt_addOps op_keys_distinct)

lemma rowAt_starts:
  "rowAt (fold (foldSessionStart bucket) starts acc) k =
     (row_add_start ^^ length (filter (\<lambda>s. k \<in> set (start_keys bucket s)) starts)) (rowAt acc k)"
  by (induction starts arbitrary: acc)
    (simp_all add: foldSessionStart_keys rowAt_addStarts start_keys_distinct funpow_swap1)

lemma map_of_rowAt: "map_of acc k = (if k \<in> fst ` set acc then Some (rowAt acc k) else None)"
  by (cases "map_of acc k") (auto simp: rowAt_def map_of_eq_None_iff, force dest: map_of_SomeD)

lemma filter_keys_select:
  assumes "\<And>x. x \<in> set xs \<Longrightarrow> k \<in> K x \<Longrightarrow> P x"
  shows "filter (\<lambda>x. k \<in> K x) (filter P xs) = filter (\<lambda>x. k \<in> K x) xs"
  using assms by (induction xs) auto

lemma rollup_acc_select:
  fixes ops :: "('c :: {zero,plus}) OpRow list"
  assumes starts': "mset starts' = mset (filter (\<lambda>s. Q (start_cell bucket s)) starts)"
  defines "ops' \<equiv> filter (\<lambda>op. Q (op_cell bucket op)) ops"
  shows "mset (rollup_acc bucket ops' starts') = filter_mset (\<lambda>e. in_cells Q (fst e)) (mset (rollup_acc bucket ops starts))"
proof -
  let ?a = "rollup_acc bucket ops starts" and ?a' = "rollup_acc bucket ops' starts'"
  have d: "distinct (map fst ?a)" "distinct (map fst ?a')"
    using rollup_acc_ok [of bucket ops starts] rollup_acc_ok [of bucket ops' starts'] by (simp_all add: acc_ok_def)
  have ss: "set starts' = {s \<in> set starts. Q (start_cell bucket s)}"
    using starts' by (metis set_mset_mset set_filter)
  have keys: "k \<in> fst ` set ?a' \<longleftrightarrow> k \<in> fst ` set ?a \<and> in_cells Q k" for k
    unfolding rollup_acc_keys by (auto simp: ops'_def ss op_keys_cell start_keys_cell)
  have row: "rowAt ?a' k = rowAt ?a k" if "in_cells Q k" for k
  proof -
    have 1: "filter (\<lambda>op. k \<in> set (op_keys bucket op)) ops' = filter (\<lambda>op. k \<in> set (op_keys bucket op)) ops"
      unfolding ops'_def using that by (intro filter_keys_select) (simp add: op_keys_cell)
    have "mset (filter (\<lambda>s. k \<in> set (start_keys bucket s)) starts') =
        mset (filter (\<lambda>s. k \<in> set (start_keys bucket s)) (filter (\<lambda>s. Q (start_cell bucket s)) starts))"
      by (simp only: mset_filter starts')
    also have "filter (\<lambda>s. k \<in> set (start_keys bucket s)) (filter (\<lambda>s. Q (start_cell bucket s)) starts) =
        filter (\<lambda>s. k \<in> set (start_keys bucket s)) starts"
      using that by (intro filter_keys_select) (simp add: start_keys_cell)
    finally have "length (filter (\<lambda>s. k \<in> set (start_keys bucket s)) starts') =
        length (filter (\<lambda>s. k \<in> set (start_keys bucket s)) starts)"
      by (rule mset_eq_length)
    then show ?thesis by (simp only: rollup_acc_def rowAt_starts rowAt_ops 1)
  qed
  have "map_of ?a' k = (if in_cells Q k then map_of ?a k else None)" for k
    using keys [of k] row [of k] by (simp add: map_of_rowAt)
  then have "(k, r) \<in> set ?a' \<longleftrightarrow> (k, r) \<in> set ?a \<and> in_cells Q k" for k r
    unfolding map_of_eq_Some_iff [OF d(1), symmetric] map_of_eq_Some_iff [OF d(2), symmetric] by auto
  then have "set ?a' = set (filter (\<lambda>e. in_cells Q (fst e)) ?a)" by auto
  moreover have "distinct ?a'" "distinct (filter (\<lambda>e. in_cells Q (fst e)) ?a)"
    using d [THEN distinct_map [THEN iffD1, THEN conjunct1]] by simp_all
  ultimately have "mset ?a' = mset (filter (\<lambda>e. in_cells Q (fst e)) ?a)"
    using set_eq_iff_mset_eq_distinct by blast
  then show ?thesis by simp
qed

lemma no_other_select:
  assumes "no_other bucket ops starts" "set ops' \<subseteq> set ops" "set starts' \<subseteq> set starts"
  shows "no_other bucket ops' starts'"
  using assms unfolding no_other_def by blast

text \<open>Before the sort: the collapsed rows of the selected cells.\<close>

lemma collapse_select:
  assumes it: "iteration itg" "iteration itg'" "1 \<le> m" and d: "distinct (map row_key rows)"
    and sel: "mset rows' = filter_mset (\<lambda>r. in_cells Q (row_key r)) (mset rows)"
  shows "mset (collapse itg' rows' m) = filter_mset (\<lambda>r. in_cells Q (row_key r)) (mset (collapse itg rows m))"
proof -
  let ?P = "\<lambda>g :: groupKey. Q (fst g, fst (snd g))"
  have cell: "in_cells Q (row_key r) = ?P (group_key r)" for r by (simp add: in_cells_def row_key_def group_key_def)
  obtain ks where ks: "distinct ks" "set ks = group_key ` set rows"
    and c: "mset (collapse itg rows m) = mset (concat (map (\<lambda>k. collapse_rows m (group_rows k rows)) ks))"
    by (rule collapse_groups [OF it(1,3), of rows])
  obtain ks' where ks': "distinct ks'" "set ks' = group_key ` set rows'"
    and c': "mset (collapse itg' rows' m) = mset (concat (map (\<lambda>k. collapse_rows m (group_rows k rows')) ks'))"
    by (rule collapse_groups [OF it(2,3), of rows'])
  have gr: "\<forall>r\<in>set (group_rows k rows). group_key r = k" for k by (simp add: group_rows_def)
  have same: "mset (group_rows k rows') = mset (group_rows k rows)" if "?P k" for k
    using that by (simp add: group_rows_def sel filter_filter_mset cell) (rule filter_mset_cong, auto)
  have part: "mset (collapse_rows m (group_rows k rows')) = mset (collapse_rows m (group_rows k rows))" if "?P k" for k
    using collapse_rows_mset [OF same [OF that, symmetric] rank_key_inj_group [OF d]] by simp
  have "set rows' = {r \<in> set rows. in_cells Q (row_key r)}"
    using arg_cong [OF sel, of set_mset] by simp
  then have "set ks' = set (filter ?P ks)" by (auto simp: ks' ks cell)
  then have mk: "mset ks' = mset (filter ?P ks)"
    using set_eq_iff_mset_eq_distinct [OF ks'(1) distinct_filter [OF ks(1)]] by blast
  have keep: "filter_mset (\<lambda>r. in_cells Q (row_key r)) (mset (collapse_rows m (group_rows k rows))) =
      (if ?P k then mset (collapse_rows m (group_rows k rows)) else {#})" for k
  proof -
    have "filter_mset (\<lambda>r. in_cells Q (row_key r)) (mset (collapse_rows m (group_rows k rows))) =
        filter_mset (\<lambda>_. ?P k) (mset (collapse_rows m (group_rows k rows)))"
      using collapse_rows_group [OF it(3) gr] by (intro filter_mset_cong refl) (simp add: cell)
    then show ?thesis by simp
  qed
  have "filter_mset (\<lambda>r. in_cells Q (row_key r)) (mset (concat (map (\<lambda>k. collapse_rows m (group_rows k rows)) ks'')))
      = (\<Sum>k\<leftarrow>filter ?P ks''. mset (collapse_rows m (group_rows k rows)))" for ks''
    by (induction ks'') (simp_all add: keep)
  moreover have "(\<Sum>k\<leftarrow>filter ?P ks. mset (collapse_rows m (group_rows k rows))) =
      (\<Sum>k\<leftarrow>ks'. mset (collapse_rows m (group_rows k rows)))"
    by (rule sum_list_perm) (simp add: mk)
  moreover have "(\<Sum>k\<leftarrow>ks'. mset (collapse_rows m (group_rows k rows))) =
      (\<Sum>k\<leftarrow>ks'. mset (collapse_rows m (group_rows k rows')))"
    using \<open>set ks' = set (filter ?P ks)\<close> by (intro arg_cong [where f = sum_list] map_cong refl) (simp add: part)
  ultimately show ?thesis using c c' by (simp add: mset_concat comp_def)
qed

lemma Rollup_select:
  fixes ops :: "('c :: {zero,plus}) OpRow list"
  assumes it: "iteration it" "iteration itg" "iteration it'" "iteration itg'" and no: "no_other bucket ops starts"
    and starts': "mset starts' = mset (filter (\<lambda>s. Q (start_cell bucket s)) starts)"
  shows "Rollup it' itg' (filter (\<lambda>op. Q (op_cell bucket op)) ops) starts' bucket maxRows =
    filter (\<lambda>r. in_cells Q (row_key r)) (Rollup it itg ops starts bucket maxRows)"
proof -
  let ?ops' = "filter (\<lambda>op. Q (op_cell bucket op)) ops" and ?m = "capOrDefault maxRows"
  let ?rows = "map snd (it (rollup_acc bucket ops starts))"
    and ?rows' = "map snd (it' (rollup_acc bucket ?ops' starts'))"
  have "set starts' \<subseteq> set starts" using starts' by (metis filter_is_subset set_mset_mset)
  then have no': "no_other bucket ?ops' starts'" by (intro no_other_select [OF no]) simp_all
  have ok: "row_key (snd e) = fst e" if "e \<in> set (rollup_acc bucket ops starts)" for e
    using that rollup_acc_ok [of bucket ops starts] by (auto simp: acc_ok_def)
  have "mset ?rows' = image_mset snd (filter_mset (\<lambda>e. in_cells Q (fst e)) (mset (rollup_acc bucket ops starts)))"
    using rollup_rows(1) [OF it(3)] rollup_acc_select [OF starts', of ops] by simp
  also have "\<dots> = image_mset snd (filter_mset (\<lambda>e. in_cells Q (row_key (snd e))) (mset (rollup_acc bucket ops starts)))"
    by (rule arg_cong [where f = "image_mset snd"], rule filter_mset_cong) (simp_all add: ok)
  also have "\<dots> = filter_mset (\<lambda>r. in_cells Q (row_key r)) (mset ?rows)"
    using rollup_rows(1) [OF it(1), of bucket ops starts] by (simp add: filter_mset_image_mset)
  finally have sel: "mset ?rows' = filter_mset (\<lambda>r. in_cells Q (row_key r)) (mset ?rows)" .
  note cs = collapse_select [OF it(2,4) cap_pos rollup_rows(2) [OF it(1)] sel, of maxRows]
  have "distinct (map row_key (collapse itg' ?rows' ?m))"
    by (rule collapse_distinct [OF it(4) cap_pos rollup_rows(2,3)]) (use it no' in auto)
  then have "inj_on sort_row_key (set (collapse itg' ?rows' ?m))"
    by (auto simp: distinct_map inj_on_def sort_row_key_inj)
  moreover have "filter (\<lambda>r. in_cells Q (row_key r)) (sort_key sort_row_key xs) =
      sort_key sort_row_key (filter (\<lambda>r. in_cells Q (row_key r)) xs)" for xs :: "'c RollupRow list"
    by (simp add: filter_sort)
  moreover have "sort_key sort_row_key (collapse itg' ?rows' ?m) =
      sort_key sort_row_key (filter (\<lambda>r. in_cells Q (row_key r)) (collapse itg ?rows ?m))"
    by (rule sort_key_perm) (use cs calculation(1) in \<open>simp_all only: mset_filter\<close>)
  ultimately show ?thesis by (simp only: Rollup_eq sortRows_key)
qed

text \<open>Without reservation on the input, the rows are the same and come in the same order of keys.\<close>

lemma map_sort_key_eq:
  assumes "mset xs = mset ys"
  shows "map k (sort_key k xs) = map k (sort_key k ys)"
proof -
  have "map k (sort_key k xs) = sort (map k xs)" for xs :: "'a list"
    by (rule sym, rule properties_for_sort) simp_all
  moreover have "sort (map k xs) = sort (map k ys)"
    by (rule properties_for_sort) (use assms in simp_all)
  ultimately show ?thesis by simp
qed

lemma Rollup_orders:
  fixes ops :: "('c :: {zero,plus}) OpRow list"
  assumes it: "iteration it" "iteration itg" "iteration it'" "iteration itg'"
  shows "mset (Rollup it itg ops starts bucket maxRows) = mset (Rollup it' itg' ops starts bucket maxRows)"
    and "map row_key (Rollup it itg ops starts bucket maxRows) = map row_key (Rollup it' itg' ops starts bucket maxRows)"
proof -
  let ?m = "capOrDefault maxRows"
  let ?rows = "map snd (it (rollup_acc bucket ops starts))"
    and ?rows' = "map snd (it' (rollup_acc bucket ops starts))"
  have "mset ?rows' = filter_mset (\<lambda>r. in_cells (\<lambda>_. True) (row_key r)) (mset ?rows)"
    using rollup_rows(1) [OF it(1), of bucket ops starts] rollup_rows(1) [OF it(3), of bucket ops starts]
    by (simp add: in_cells_def)
  from collapse_select [OF it(2,4) cap_pos rollup_rows(2) [OF it(1)] this]
  have same: "mset (collapse itg ?rows ?m) = mset (collapse itg' ?rows' ?m)" by (simp add: in_cells_def)
  show "mset (Rollup it itg ops starts bucket maxRows) = mset (Rollup it' itg' ops starts bucket maxRows)"
    using same by (simp add: Rollup_eq sortRows_key)
  have "map sort_row_key (Rollup it itg ops starts bucket maxRows) = map sort_row_key (Rollup it' itg' ops starts bucket maxRows)"
    unfolding Rollup_eq sortRows_key by (rule map_sort_key_eq [OF same])
  then have "list_all2 (\<lambda>r s. sort_row_key r = sort_row_key s) (Rollup it itg ops starts bucket maxRows)
      (Rollup it' itg' ops starts bucket maxRows)"
    by (simp add: list_all2_conv_all_nth list_eq_iff_nth_eq)
  then have "list_all2 (\<lambda>r s. row_key r = row_key s) (Rollup it itg ops starts bucket maxRows)
      (Rollup it' itg' ops starts bucket maxRows)"
    by (rule list_all2_mono) (simp add: sort_row_key_inj)
  then show "map row_key (Rollup it itg ops starts bucket maxRows) = map row_key (Rollup it' itg' ops starts bucket maxRows)"
    by (simp add: list_all2_conv_all_nth list_eq_iff_nth_eq)
qed

text \<open>
  C8. The result does not depend on the unspecified iteration order of the two Go maps: any two
  orders of the row map and of the group map give the same rows, each as often, and the same
  sequence of keys. If no dimension value of the input is the reserved \<open>__other__\<close>, the keys are
  distinct and the two lists are equal; otherwise two rows with one key may change places.
\<close>

theorem rollup_deterministic:
  assumes "iteration it" and "iteration itg" and "iteration it'" and "iteration itg'"
  shows "mset (Rollup it itg ops starts bucket maxRows) = mset (Rollup it' itg' ops starts bucket maxRows) \<and>
    map row_key (Rollup it itg ops starts bucket maxRows) = map row_key (Rollup it' itg' ops starts bucket maxRows) \<and>
    (no_other bucket ops starts \<longrightarrow>
       Rollup it itg ops starts bucket maxRows = Rollup it' itg' ops starts bucket maxRows)"
proof -
  have "Rollup it itg ops starts bucket maxRows = Rollup it' itg' ops starts bucket maxRows" if "no_other bucket ops starts"
    using Rollup_select [OF assms(3,4,1,2) that, of starts "\<lambda>_. True"] by (simp add: in_cells_def)
  then show ?thesis using Rollup_orders [OF assms, where ?ops = ops] by blast
qed

text \<open>
  The tail collapse bounds the table: in the result no group (bucket, source format,
  dimension) has more rows than the cap, the given one or the default.
\<close>

theorem rollup_row_cap:
  assumes "iteration it" and "iteration itg"
  shows "int (length (group_rows g (Rollup it itg ops starts bucket maxRows))) \<le> capOrDefault maxRows"
proof -
  let ?rows = "map snd (it (rollup_acc bucket ops starts))" and ?m = "capOrDefault maxRows"
  obtain ks where ks: "distinct ks"
    and c: "mset (collapse itg ?rows ?m) = mset (concat (map (\<lambda>k. collapse_rows ?m (group_rows k ?rows)) ks))"
    by (rule collapse_groups [OF assms(2) cap_pos, of ?rows])
  have gr: "\<forall>r\<in>set (group_rows k ?rows). group_key r = k" for k by (simp add: group_rows_def)
  have "group_rows g (collapse_rows ?m (group_rows k ?rows)) =
      (if k = g then collapse_rows ?m (group_rows k ?rows) else [])" for k
    using collapse_rows_group [OF cap_pos gr]
    unfolding group_rows_def [of g "collapse_rows ?m (group_rows k ?rows)"]
    by (auto simp: filter_id_conv filter_empty_conv)
  then have "length (group_rows g (concat (map (\<lambda>k. collapse_rows ?m (group_rows k ?rows)) ks'))) =
      (if g \<in> set ks' then length (collapse_rows ?m (group_rows g ?rows)) else 0)" if "distinct ks'" for ks'
    using that by (induction ks') (auto simp: group_rows_def)
  then have "int (length (group_rows g (concat (map (\<lambda>k. collapse_rows ?m (group_rows k ?rows)) ks)))) \<le> ?m"
    using ks cap_pos [of maxRows] length_collapse_rows [OF cap_pos [of maxRows], of "group_rows g ?rows"] by simp
  moreover have "mset (group_rows g (Rollup it itg ops starts bucket maxRows)) =
      mset (group_rows g (concat (map (\<lambda>k. collapse_rows ?m (group_rows k ?rows)) ks)))"
    using c by (simp add: Rollup_eq sortRows_def group_rows_def)
  ultimately show ?thesis by (metis mset_eq_length)
qed

section \<open>Buckets\<close>

lemma span_pos: "0 < sint (if bucket = Daily then daySpanUS else hourSpanUS)"
  "sint (if bucket = Daily then daySpanUS else hourSpanUS) \<le> 86400000000"
  by (auto simp: daySpanUS_def hourSpanUS_def)

lemma BucketTS_bounds:
  assumes "- (2 ^ 63) + 86400000000 \<le> sint ts"
    and span_def: "span = sint (if bucket = Daily then daySpanUS else hourSpanUS)"
  shows "sint (BucketTS ts bucket) = sint ts div span * span \<and>
    sint (BucketTS ts bucket) \<le> sint ts \<and> sint ts < sint (BucketTS ts bucket) + span"
proof -
  let ?w = "if bucket = Daily then daySpanUS else hourSpanUS" and ?t = "sint ts"
  have sp: "0 < span" "span \<le> 86400000000" using span_pos [of bucket] by (simp_all add: span_def)
  have q: "?t div span = (if ?t smod span \<noteq> 0 \<and> ?t < 0 then ?t sdiv span - 1 else ?t sdiv span)"
    using sp(1) floor_of_trunc by simp
  have b: "- (2 ^ 63) \<le> ?t div span * span" "?t div span * span < 2 ^ 63"
    using assms(1) sp sint_bounds64 [of ts] div_mult_mod_eq [of ?t span] pos_mod_bound [OF sp(1), of ?t]
      pos_mod_sign [OF sp(1), of ?t] by linarith+
  have z: "go_rem ts ?w \<noteq> 0 \<longleftrightarrow> ?t smod span \<noteq> 0"
  proof -
    have "\<bar>?t smod span\<bar> < 2 ^ 63" using smod_int_range [of span ?t] sp by auto
    from word64_of_int_eq_0 [OF this] show ?thesis by (simp add: go_rem_def span_def)
  qed
  have "BucketTS ts bucket = word_of_int (?t div span) * word_of_int span"
    using q z by (auto simp: BucketTS_def Let_def go_quo_def span_def)
  then have "BucketTS ts bucket = word_of_int (?t div span * span)" by simp
  then have "sint (BucketTS ts bucket) = ?t div span * span" using sint_word_of_int_64 [OF b] by simp
  then show ?thesis
    using div_mult_mod_eq [of ?t span] pos_mod_bound [OF sp(1), of ?t] pos_mod_sign [OF sp(1), of ?t] by linarith
qed

text \<open>
  \<open>BucketTS\<close> is the start of the bucket that holds the timestamp, also before 1970:
  a multiple of the span, at most the timestamp, and less than one span below it, for
  every timestamp that is at least one day above the smallest \<open>int64\<close>.
\<close>

theorem BucketTS_floor:
  assumes "- (2 ^ 63) + 86400000000 \<le> sint ts"
    and "span = sint (if bucket = Daily then daySpanUS else hourSpanUS)"
  shows "sint (BucketTS ts bucket) = sint ts div span * span \<and>
    sint (BucketTS ts bucket) \<le> sint ts \<and> sint ts < sint (BucketTS ts bucket) + span"
  by (rule BucketTS_bounds [OF assms])

text \<open>The demonstration operations, with the cap of two rows per group.\<close>

lemma demo_no_other: "no_other Hourly demo_ops demo_starts"
  by code_simp

theorem rollup_keys_sorted_witness:
  "distinct (map row_key (Rollup rev rev demo_ops demo_starts Hourly 2)) \<and>
   sorted_wrt less_row (Rollup rev rev demo_ops demo_starts Hourly 2)"
  by (rule rollup_keys_sorted [OF iteration_rev iteration_rev demo_no_other])

text \<open>Two orders on an input without, and on one with, the reserved value.\<close>

definition demo_reserved :: "int OpRow list" where
  "demo_reserved = map (\<lambda>op. op\<lparr>o_Cwd := otherValue\<rparr>) demo_ops @ demo_ops"

theorem rollup_deterministic_witness:
  "Rollup rev rev demo_ops demo_starts Hourly 2 = Rollup (\<lambda>xs. xs) (\<lambda>xs. xs) demo_ops demo_starts Hourly 2 \<and>
   \<not> no_other Hourly demo_reserved demo_starts \<and>
   mset (Rollup rev rev demo_reserved demo_starts Hourly 2) = mset (Rollup (\<lambda>xs. xs) (\<lambda>xs. xs) demo_reserved demo_starts Hourly 2)"
proof (intro conjI)
  show "Rollup rev rev demo_ops demo_starts Hourly 2 = Rollup (\<lambda>xs. xs) (\<lambda>xs. xs) demo_ops demo_starts Hourly 2"
    using rollup_deterministic [OF iteration_rev iteration_rev iteration_id iteration_id] demo_no_other by blast
  show "mset (Rollup rev rev demo_reserved demo_starts Hourly 2) = mset (Rollup (\<lambda>xs. xs) (\<lambda>xs. xs) demo_reserved demo_starts Hourly 2)"
    using rollup_deterministic [OF iteration_rev iteration_rev iteration_id iteration_id] by blast
  show "\<not> no_other Hourly demo_reserved demo_starts" by code_simp
qed

theorem rollup_row_cap_witness:
  "int (length (group_rows (3600000000, ''codex'', ''cwd'') (Rollup rev rev demo_ops demo_starts Hourly 2))) \<le> 2 \<and>
   map r_DimensionValue (group_rows (3600000000, ''codex'', ''cwd'') (Rollup rev rev demo_ops demo_starts Hourly 2))
     = [''__other__'', ''a'']"
proof -
  have "capOrDefault 2 = 2" by code_simp
  moreover have "map r_DimensionValue (group_rows (3600000000, ''codex'', ''cwd'')
      (Rollup rev rev demo_ops demo_starts Hourly 2)) = [''__other__'', ''a'']"
    by code_simp
  ultimately show ?thesis
    using rollup_row_cap [OF iteration_rev iteration_rev, of "(3600000000, ''codex'', ''cwd'')" demo_ops demo_starts Hourly 2]
    by simp
qed

text \<open>One microsecond before 1970 lies in the last hour of 1969.\<close>

theorem BucketTS_floor_witness:
  "sint (BucketTS (- 1) Hourly) = - 3600000000"
proof -
  have "- (2 ^ 63) + 86400000000 \<le> sint (- 1 :: i64)" "sint hourSpanUS = 3600000000" by code_simp+
  then show ?thesis
    using BucketTS_floor [of "- 1" "sint hourSpanUS" Hourly] by simp
qed

end
