(* ===== verification/Pricing.thy ===== *)
theory Pricing
  imports Prelude
begin

text \<open>
  The pricing table of \<open>internal/pricing\<close>: the loader that validates the embedded document
  and builds the lookup map (\<open>loader.go\<close>, \<open>loader_null_check.go\<close>), the temporal resolver
  (\<open>resolver.go\<close>) and the counting entry points (\<open>pricing.go\<close>).

  An error is a constructor of \<open>perr\<close> with the context the message prints; a Go \<open>error\<close>
  that may be nil is an option. A \<open>time.Time\<close> is its UNIX time in seconds (every date
  used here is a whole second in UTC). Prices are \<open>float64\<close> in Go; here they are of an
  abstract ordered field \<open>'f\<close>, so what is proved of costs is proved for exact arithmetic.
  The reflective decoding of \<open>encoding/json\<close> into the raw structs is a parameter
  (\<open>decode\<close>), as is \<open>strings.ToLower\<close> on strings that are not ASCII (\<open>uni\<close>).
\<close>

section \<open>Strings and dates\<close>

definition is_alnum :: "char \<Rightarrow> bool" where
  "is_alnum c \<longleftrightarrow> is_digit c \<or> 65 \<le> char_code c \<and> char_code c \<le> 90 \<or> 97 \<le> char_code c \<and> char_code c \<le> 122"

text \<open>The regular expression \<open>^[a-zA-Z0-9][a-zA-Z0-9._/-]*$\<close>.\<close>

fun namePattern :: "string \<Rightarrow> bool" where
  "namePattern [] = False"
| "namePattern (c # cs) \<longleftrightarrow> is_alnum c \<and> list_all (\<lambda>c. is_alnum c \<or> c \<in> set ''._/-'') cs"

definition leap :: "nat \<Rightarrow> bool" where
  "leap y \<longleftrightarrow> 4 dvd y \<and> (\<not> 100 dvd y \<or> 400 dvd y)"

definition daysIn :: "nat \<Rightarrow> nat \<Rightarrow> nat" where
  "daysIn y m = (if m = 2 then (if leap y then 29 else 28) else if m \<in> {4, 6, 9, 11} then 30 else 31)"

definition days_before_year :: "nat \<Rightarrow> nat" where
  "days_before_year y = 365 * y + (y + 3) div 4 - (y + 99) div 100 + (y + 399) div 400"

definition days_before_month :: "nat \<Rightarrow> nat \<Rightarrow> nat" where
  "days_before_month y m = sum_list (map (daysIn y) [1..<m])"

text \<open>Days since 1970-01-01 of a date of the proleptic Gregorian calendar.\<close>

definition civil_days :: "nat \<Rightarrow> nat \<Rightarrow> nat \<Rightarrow> int" where
  "civil_days y m d = int (days_before_year y + days_before_month y m + d) - 719529"

definition valid_date :: "nat \<Rightarrow> nat \<Rightarrow> nat \<Rightarrow> bool" where
  "valid_date y m d \<longleftrightarrow> 1 \<le> m \<and> m \<le> 12 \<and> 1 \<le> d \<and> d \<le> daysIn y m"

definition all_digits :: "string \<Rightarrow> bool" where "all_digits s \<longleftrightarrow> list_all is_digit s"

text \<open>The date part of \<open>time.Parse\<close>: exactly four, two and two digits.\<close>

fun date_fields :: "string \<Rightarrow> ((nat \<times> nat \<times> nat) \<times> string) option" where
  "date_fields (y1 # y2 # y3 # y4 # s1 # m1 # m2 # s2 # d1 # d2 # rest) =
     (let y = digits_value [y1, y2, y3, y4]; m = digits_value [m1, m2]; d = digits_value [d1, d2] in
      if all_digits [y1, y2, y3, y4, m1, m2, d1, d2] \<and> s1 = CHR ''-'' \<and> s2 = CHR ''-'' \<and> valid_date y m d
      then Some ((y, m, d), rest) else None)"
| "date_fields _ = None"

text \<open>\<open>time.Parse(dateLayout, s)\<close>.\<close>

definition parse_date :: "string \<Rightarrow> int option" where
  "parse_date s = (case date_fields s of
       Some ((y, m, d), []) \<Rightarrow> Some (86400 * civil_days y m d)
     | _ \<Rightarrow> None)"

text \<open>
  \<open>time.Parse(time.RFC3339, s)\<close> as a recognizer: the hour may have one digit, a fraction
  may follow the seconds, and the zone is \<open>Z\<close> or an offset of at most 24:60.
\<close>

fun rfc3339_zone :: "string \<Rightarrow> bool" where
  "rfc3339_zone [z] \<longleftrightarrow> z = CHR ''Z''"
| "rfc3339_zone [s, h1, h2, c, m1, m2] \<longleftrightarrow>
     s \<in> set ''+-'' \<and> c = CHR '':'' \<and> all_digits [h1, h2, m1, m2] \<and>
     digits_value [h1, h2] \<le> 24 \<and> digits_value [m1, m2] \<le> 60"
| "rfc3339_zone _ = False"

fun rfc3339_fraction :: "string \<Rightarrow> string" where
  "rfc3339_fraction (p # c # cs) =
     (if p \<in> set ''.,'' \<and> is_digit c then dropWhile is_digit cs else p # c # cs)"
| "rfc3339_fraction s = s"

fun rfc3339_seconds :: "string \<Rightarrow> bool" where
  "rfc3339_seconds (c1 # m1 # m2 # c2 # s1 # s2 # rest) \<longleftrightarrow>
     c1 = CHR '':'' \<and> c2 = CHR '':'' \<and> all_digits [m1, m2, s1, s2] \<and>
     digits_value [m1, m2] < 60 \<and> digits_value [s1, s2] < 60 \<and> rfc3339_zone (rfc3339_fraction rest)"
| "rfc3339_seconds _ = False"

fun rfc3339_hour :: "string \<Rightarrow> bool" where
  "rfc3339_hour (t # h1 # h2 # rest) \<longleftrightarrow> t = CHR ''T'' \<and> is_digit h1 \<and>
     (if is_digit h2 then digits_value [h1, h2] < 24 \<and> rfc3339_seconds rest
      else rfc3339_seconds (h2 # rest))"
| "rfc3339_hour _ = False"

definition is_rfc3339 :: "string \<Rightarrow> bool" where
  "is_rfc3339 s = (case date_fields s of Some (_, rest) \<Rightarrow> rfc3339_hour rest | None \<Rightarrow> False)"

section \<open>The document\<close>

record 'f rawPrices =
  InputPerMillion :: "'f option"
  OutputPerMillion :: "'f option"
  CacheReadPerMillion :: 'f
  CacheWritePerMillion :: 'f
  CacheWrite5mPerMillion :: 'f
  CacheWrite1hPerMillion :: 'f
  ReasoningPerMillion :: 'f

record 'f rawTier =
  EffectiveDate :: string
  CitationURL :: string
  Source :: string
  Prices :: "'f rawPrices"

record 'f rawModel =
  m_Name :: string
  m_Aliases :: "string list"
  m_CtxMax :: i64
  m_Tiers :: "'f rawTier list"

record 'f rawProvider =
  p_Name :: string
  p_Aliases :: "string list"
  p_Models :: "'f rawModel list"

record 'f rawDoc =
  Version :: int
  SchemaURL :: string
  GeneratedAt :: string
  GeneratedBy :: string
  Currency :: string
  Providers :: "'f rawProvider list"

record 'f resolvedPrices =
  rp_Input :: 'f
  rp_Output :: 'f
  rp_CacheRead :: 'f
  rp_CacheWrite :: 'f
  rp_CacheWrite5m :: 'f
  rp_CacheWrite1h :: 'f
  rp_Reasoning :: 'f

record 'f tier =
  effectiveDate :: string
  effectiveAt :: int
  citationURL :: string
  t_source :: string
  prices :: "'f resolvedPrices"

record 'f modelEntry =
  e_provider :: string
  e_model :: string
  e_ctxMax :: i64
  e_tiers :: "'f tier list"

type_synonym modelKey = "string \<times> string"
type_synonym 'f lookup = "modelKey \<rightharpoonup> 'f modelEntry"

datatype nameCtx = Named string | Index nat

datatype perr =
    UnsupportedVersion int | SchemaURLRequired | CurrencyRequired | OnlyUSD string | ProvidersEmpty
  | GeneratedAtRequired | GeneratedAtNotRFC3339 string | GeneratedByRequired
  | ProviderNameEmpty nat | InvalidProviderName string | InvalidProviderAlias string nat string
  | DuplicateProvider string | NoModels string
  | ModelNameEmpty string nat | InvalidModelName string string | InvalidModelAlias string string nat string
  | NegativeCtxMax string string i64 | DuplicateModel string string | NoTiers string string
  | DateEmpty string string nat | DateMalformed string string nat string | DuplicateDate string string string
  | MissingCitation string string string | MissingSource string string string
  | MissingPrice string string string string | NegativePrice string string string string
  | AliasCollision modelKey modelKey modelKey
  | NullField nameCtx "nameCtx option" "nat option" string
  | ParseJSON | TrailingContent | VerifyEOF

definition schemaVersion :: int where "schemaVersion = 2"

section \<open>Rejecting null\<close>

datatype json = JNull | JBool bool | JNum string | JStr string | JArr "json list"
  | JObj "(string \<times> json) list"

type_synonym jobj = "(string \<times> json) list"

text \<open>\<open>json.Unmarshal\<close> into a map, where the last of two equal keys wins, and into a list of maps.\<close>

definition field :: "jobj \<Rightarrow> string \<Rightarrow> json option" where
  "field obj key = map_of (rev obj) key"

fun to_map :: "json \<Rightarrow> jobj option" where
  "to_map (JObj kvs) = Some kvs"
| "to_map JNull = Some []"
| "to_map _ = None"

fun to_maps :: "json \<Rightarrow> jobj list option" where
  "to_maps (JArr xs) = those (map to_map xs)"
| "to_maps JNull = Some []"
| "to_maps _ = None"

definition isJSONNull :: "json \<Rightarrow> bool" where
  "isJSONNull raw \<longleftrightarrow> raw = JNull"

definition stringOrIndex :: "jobj \<Rightarrow> string \<Rightarrow> nat \<Rightarrow> nameCtx" where
  "stringOrIndex obj key idx = (case field obj key of
       Some (JStr s) \<Rightarrow> if s \<noteq> [] then Named s else Index idx
     | _ \<Rightarrow> Index idx)"

definition rejectNullField :: "jobj \<Rightarrow> string \<Rightarrow> (string \<Rightarrow> perr) \<Rightarrow> perr option" where
  "rejectNullField obj key context = (case field obj key of
       None \<Rightarrow> None
     | Some v \<Rightarrow> if isJSONNull v then Some (context key) else None)"

definition nullableRejectedFields :: "string list" where
  "nullableRejectedFields = [''aliases'', ''ctx_max'']"

definition optionalPriceFields :: "string list" where
  "optionalPriceFields = [''cache_read_per_million'', ''cache_write_per_million'',
     ''cache_write_5m_per_million'', ''cache_write_1h_per_million'', ''reasoning_per_million'']"

text \<open>A loop that returns at the first error.\<close>

fun first_error :: "(nat \<Rightarrow> 'a \<Rightarrow> 'e option) \<Rightarrow> nat \<Rightarrow> 'a list \<Rightarrow> 'e option" where
  "first_error f i [] = None"
| "first_error f i (x # xs) = (case f i x of Some e \<Rightarrow> Some e | None \<Rightarrow> first_error f (Suc i) xs)"

definition rejectNullsInPrices :: "json option \<Rightarrow> (string \<Rightarrow> perr) \<Rightarrow> perr option" where
  "rejectNullsInPrices pricesRaw ctx = (case pricesRaw of
       None \<Rightarrow> None
     | Some raw \<Rightarrow>
         if isJSONNull raw then None
         else (case to_map raw of
             None \<Rightarrow> None
           | Some ps \<Rightarrow> first_error (\<lambda>_ f. rejectNullField ps f ctx) 0 optionalPriceFields))"

definition rejectNullsInTiers :: "json option \<Rightarrow> (nat option \<Rightarrow> string \<Rightarrow> perr) \<Rightarrow> perr option" where
  "rejectNullsInTiers tiersRaw modelCtx = (case tiersRaw of
       None \<Rightarrow> None
     | Some raw \<Rightarrow>
         if isJSONNull raw then None
         else (case to_maps raw of
             None \<Rightarrow> None
           | Some ts \<Rightarrow>
               first_error (\<lambda>ti t. rejectNullsInPrices (field t ''prices'') (modelCtx (Some ti))) 0 ts))"

definition walkModels :: "json option \<Rightarrow> nameCtx \<Rightarrow> perr option" where
  "walkModels modelsRaw pName = (case modelsRaw of
       None \<Rightarrow> None
     | Some raw \<Rightarrow>
         if isJSONNull raw then None
         else (case to_maps raw of
             None \<Rightarrow> None
           | Some models \<Rightarrow>
               first_error (\<lambda>mi m.
                 let ctx = NullField pName (Some (stringOrIndex m ''name'' mi)) in
                 (case first_error (\<lambda>_ f. rejectNullField m f (ctx None)) 0 nullableRejectedFields of
                    Some e \<Rightarrow> Some e
                  | None \<Rightarrow> rejectNullsInTiers (field m ''tiers'') ctx)) 0 models))"

definition walkProviders :: "json \<Rightarrow> perr option" where
  "walkProviders provRaw =
     (if isJSONNull provRaw then None
      else (case to_maps provRaw of
          None \<Rightarrow> None
        | Some providers \<Rightarrow>
            first_error (\<lambda>i p.
              let pName = stringOrIndex p ''name'' i in
              (case rejectNullField p ''aliases'' (NullField pName None None) of
                 Some e \<Rightarrow> Some e
               | None \<Rightarrow> walkModels (field p ''models'') pName)) 0 providers))"

text \<open>
  The input of the loader is the sequence of top-level values in the bytes; \<open>None\<close> is a
  place where the syntax is broken.
\<close>

definition rejectNullsInOptionals :: "json option list \<Rightarrow> perr option" where
  "rejectNullsInOptionals input = (case input of
       [Some doc] \<Rightarrow>
         (case to_map doc of
            None \<Rightarrow> None
          | Some raw \<Rightarrow>
              (case field raw ''providers'' of
                 None \<Rightarrow> None
               | Some provRaw \<Rightarrow> walkProviders provRaw))
     | _ \<Rightarrow> None)"

section \<open>Validation\<close>

definition validatePrices :: "string \<Rightarrow> string \<Rightarrow> string \<Rightarrow> ('f :: {zero,ord}) rawPrices \<Rightarrow> perr option" where
  "validatePrices provider model date p = (case (InputPerMillion p, OutputPerMillion p) of
       (None, _) \<Rightarrow> Some (MissingPrice provider model date ''input_per_million'')
     | (_, None) \<Rightarrow> Some (MissingPrice provider model date ''output_per_million'')
     | (Some i, Some out) \<Rightarrow>
         first_error (\<lambda>_ (name, v). if v < 0 then Some (NegativePrice provider model date name) else None) 0
           [(''input_per_million'', i), (''output_per_million'', out),
            (''cache_read_per_million'', CacheReadPerMillion p),
            (''cache_write_per_million'', CacheWritePerMillion p),
            (''cache_write_5m_per_million'', CacheWrite5mPerMillion p),
            (''cache_write_1h_per_million'', CacheWrite1hPerMillion p),
            (''reasoning_per_million'', ReasoningPerMillion p)])"

text \<open>The loop over the tiers of a model, with the set of dates seen so far.\<close>

fun validateTiers ::
    "string \<Rightarrow> string \<Rightarrow> nat \<Rightarrow> string list \<Rightarrow> ('f :: {zero,ord}) rawTier list \<Rightarrow> perr option" where
  "validateTiers prov model ti seen [] = None"
| "validateTiers prov model ti seen (t # ts) =
     (let d = EffectiveDate t in
      if d = [] then Some (DateEmpty prov model ti)
      else if parse_date d = None then Some (DateMalformed prov model ti d)
      else if d \<in> set seen then Some (DuplicateDate prov model d)
      else if CitationURL t = [] then Some (MissingCitation prov model d)
      else if Source t = [] then Some (MissingSource prov model d)
      else case validatePrices prov model d (Prices t) of
          Some e \<Rightarrow> Some e
        | None \<Rightarrow> validateTiers prov model (Suc ti) (d # seen) ts)"

text \<open>\<open>validateModel\<close> updates the set of model names seen: the result is the error or the new set.\<close>

definition validateModel ::
    "(string \<Rightarrow> string) \<Rightarrow> string \<Rightarrow> ('f :: {zero,ord}) rawModel \<Rightarrow> nat \<Rightarrow> string list \<Rightarrow> perr + string list" where
  "validateModel uni prov m mi seen =
     (let n = m_Name m; mn = ToLower uni n in
      if n = [] then Inl (ModelNameEmpty prov mi)
      else if \<not> namePattern n then Inl (InvalidModelName prov n)
      else case first_error (\<lambda>ai a. if namePattern a then None else Some (InvalidModelAlias prov n ai a)) 0
             (m_Aliases m) of
        Some e \<Rightarrow> Inl e
      | None \<Rightarrow>
          if i64_less (m_CtxMax m) 0 then Inl (NegativeCtxMax prov n (m_CtxMax m))
          else if mn \<in> set seen then Inl (DuplicateModel prov n)
          else if m_Tiers m = [] then Inl (NoTiers prov n)
          else case validateTiers prov n 0 [] (m_Tiers m) of
              Some e \<Rightarrow> Inl e
            | None \<Rightarrow> Inr (mn # seen))"

fun validateModels ::
    "(string \<Rightarrow> string) \<Rightarrow> string \<Rightarrow> nat \<Rightarrow> string list \<Rightarrow> ('f :: {zero,ord}) rawModel list \<Rightarrow> perr option" where
  "validateModels uni prov mi seen [] = None"
| "validateModels uni prov mi seen (m # ms) = (case validateModel uni prov m mi seen of
       Inl e \<Rightarrow> Some e
     | Inr seen' \<Rightarrow> validateModels uni prov (Suc mi) seen' ms)"

definition validateProvider ::
    "(string \<Rightarrow> string) \<Rightarrow> ('f :: {zero,ord}) rawProvider \<Rightarrow> nat \<Rightarrow> string list \<Rightarrow> perr + string list" where
  "validateProvider uni p pi seen =
     (let n = p_Name p; pn = ToLower uni n in
      if n = [] then Inl (ProviderNameEmpty pi)
      else if \<not> namePattern n then Inl (InvalidProviderName n)
      else case first_error (\<lambda>ai a. if namePattern a then None else Some (InvalidProviderAlias n ai a)) 0
             (p_Aliases p) of
        Some e \<Rightarrow> Inl e
      | None \<Rightarrow>
          if pn \<in> set seen then Inl (DuplicateProvider n)
          else if p_Models p = [] then Inl (NoModels n)
          else case validateModels uni n 0 [] (p_Models p) of
              Some e \<Rightarrow> Inl e
            | None \<Rightarrow> Inr (pn # seen))"

fun validateProviders ::
    "(string \<Rightarrow> string) \<Rightarrow> nat \<Rightarrow> string list \<Rightarrow> ('f :: {zero,ord}) rawProvider list \<Rightarrow> perr option" where
  "validateProviders uni pi seen [] = None"
| "validateProviders uni pi seen (p # ps) = (case validateProvider uni p pi seen of
       Inl e \<Rightarrow> Some e
     | Inr seen' \<Rightarrow> validateProviders uni (Suc pi) seen' ps)"

definition validateDocHeader :: "'f rawDoc \<Rightarrow> perr option" where
  "validateDocHeader doc =
     (if Version doc \<noteq> schemaVersion then Some (UnsupportedVersion (Version doc))
      else if SchemaURL doc = [] then Some SchemaURLRequired
      else if Currency doc = [] then Some CurrencyRequired
      else if Currency doc \<noteq> ''USD'' then Some (OnlyUSD (Currency doc))
      else if Providers doc = [] then Some ProvidersEmpty
      else if GeneratedAt doc = [] then Some GeneratedAtRequired
      else if \<not> is_rfc3339 (GeneratedAt doc) then Some (GeneratedAtNotRFC3339 (GeneratedAt doc))
      else if GeneratedBy doc = [] then Some GeneratedByRequired
      else None)"

definition validateDoc :: "(string \<Rightarrow> string) \<Rightarrow> ('f :: {zero,ord}) rawDoc \<Rightarrow> perr option" where
  "validateDoc uni doc = (case validateDocHeader doc of
       Some e \<Rightarrow> Some e
     | None \<Rightarrow> validateProviders uni 0 [] (Providers doc))"

section \<open>The lookup map\<close>

definition resolveRawPrices :: "('f :: zero) rawPrices \<Rightarrow> 'f resolvedPrices" where
  "resolveRawPrices p =
     \<lparr>rp_Input = (case InputPerMillion p of Some v \<Rightarrow> v | None \<Rightarrow> 0),
      rp_Output = (case OutputPerMillion p of Some v \<Rightarrow> v | None \<Rightarrow> 0),
      rp_CacheRead = CacheReadPerMillion p, rp_CacheWrite = CacheWritePerMillion p,
      rp_CacheWrite5m = CacheWrite5mPerMillion p, rp_CacheWrite1h = CacheWrite1hPerMillion p,
      rp_Reasoning = ReasoningPerMillion p\<rparr>"

text \<open>The Go zero time, 0001-01-01, is what a failed parse leaves.\<close>

definition zero_time :: int where "zero_time = - 62135596800"

definition mk_tier :: "('f :: zero) rawTier \<Rightarrow> 'f tier" where
  "mk_tier rt = \<lparr>effectiveDate = EffectiveDate rt,
     effectiveAt = (case parse_date (EffectiveDate rt) of Some at \<Rightarrow> at | None \<Rightarrow> zero_time),
     citationURL = CitationURL rt, t_source = Source rt, prices = resolveRawPrices (Prices rt)\<rparr>"

definition mk_entry :: "('f :: zero) rawProvider \<Rightarrow> 'f rawModel \<Rightarrow> 'f modelEntry" where
  "mk_entry p m = \<lparr>e_provider = p_Name p, e_model = m_Name m, e_ctxMax = m_CtxMax m,
     e_tiers = sort_by (\<lambda>a b. effectiveAt a > effectiveAt b) (map mk_tier (m_Tiers m))\<rparr>"

text \<open>The two inner loops: every key of a model, with the owner map that detects collisions.\<close>

fun claim_keys ::
    "modelKey \<Rightarrow> 'f modelEntry \<Rightarrow> modelKey list \<Rightarrow> 'f lookup \<times> (modelKey \<rightharpoonup> modelKey) \<Rightarrow>
     perr + 'f lookup \<times> (modelKey \<rightharpoonup> modelKey)" where
  "claim_keys thisOwner entry [] st = Inr st"
| "claim_keys thisOwner entry (k # ks) (out, owner) =
     (case owner k of
        Some existing \<Rightarrow>
          if existing \<noteq> thisOwner then Inl (AliasCollision thisOwner k existing)
          else claim_keys thisOwner entry ks (out(k \<mapsto> entry), owner(k \<mapsto> thisOwner))
      | None \<Rightarrow> claim_keys thisOwner entry ks (out(k \<mapsto> entry), owner(k \<mapsto> thisOwner)))"

definition names_of_provider :: "'f rawProvider \<Rightarrow> string list" where
  "names_of_provider p = p_Name p # p_Aliases p"

definition names_of_model :: "'f rawModel \<Rightarrow> string list" where
  "names_of_model m = m_Name m # m_Aliases m"

definition model_keys :: "(string \<Rightarrow> string) \<Rightarrow> 'f rawProvider \<Rightarrow> 'f rawModel \<Rightarrow> modelKey list" where
  "model_keys uni p m = [(ToLower uni pn, ToLower uni mn). pn \<leftarrow> names_of_provider p, mn \<leftarrow> names_of_model m]"

fun build_models ::
    "(string \<Rightarrow> string) \<Rightarrow> (('f :: zero) rawProvider \<times> 'f rawModel) list \<Rightarrow>
     'f lookup \<times> (modelKey \<rightharpoonup> modelKey) \<Rightarrow> perr + 'f lookup \<times> (modelKey \<rightharpoonup> modelKey)" where
  "build_models uni [] st = Inr st"
| "build_models uni ((p, m) # pms) st =
     (case claim_keys (ToLower uni (p_Name p), ToLower uni (m_Name m)) (mk_entry p m) (model_keys uni p m) st of
        Inl e \<Rightarrow> Inl e
      | Inr st' \<Rightarrow> build_models uni pms st')"

definition doc_models :: "'f rawDoc \<Rightarrow> ('f rawProvider \<times> 'f rawModel) list" where
  "doc_models doc = [(p, m). p \<leftarrow> Providers doc, m \<leftarrow> p_Models p]"

definition buildLookup :: "(string \<Rightarrow> string) \<Rightarrow> ('f :: zero) rawDoc \<Rightarrow> perr + 'f lookup" where
  "buildLookup uni doc = (case build_models uni (doc_models doc) (Map.empty, Map.empty) of
       Inl e \<Rightarrow> Inl e
     | Inr (out, _) \<Rightarrow> Inr out)"

definition parseDoc ::
    "(string \<Rightarrow> string) \<Rightarrow> (json \<Rightarrow> ('f :: {zero,ord}) rawDoc option) \<Rightarrow> json option list \<Rightarrow>
     perr + 'f lookup \<times> 'f rawDoc" where
  "parseDoc uni decode input = (case rejectNullsInOptionals input of
       Some e \<Rightarrow> Inl e
     | None \<Rightarrow>
        (case input of
           Some v # rest \<Rightarrow>
             (case decode v of
                None \<Rightarrow> Inl ParseJSON
              | Some doc \<Rightarrow>
                 (case rest of
                    Some _ # _ \<Rightarrow> Inl TrailingContent
                  | None # _ \<Rightarrow> Inl VerifyEOF
                  | [] \<Rightarrow>
                      (case validateDoc uni doc of
                         Some e \<Rightarrow> Inl e
                       | None \<Rightarrow>
                          (case buildLookup uni doc of
                             Inl e \<Rightarrow> Inl e
                           | Inr lookup \<Rightarrow> Inr (lookup, doc)))))
         | _ \<Rightarrow> Inl ParseJSON))"

section \<open>Resolution\<close>

definition tsUSToDate :: "i64 \<Rightarrow> int" where
  "tsUSToDate tsUS =
     (if sint tsUS \<le> 0 then zero_time
      else let secs = sint (go_quo tsUS 1000000) in secs div 86400 * 86400)"

definition resolveModel :: "(string \<Rightarrow> string) \<Rightarrow> 'f lookup \<Rightarrow> string \<Rightarrow> string \<Rightarrow> 'f modelEntry option" where
  "resolveModel uni lookup provider model =
     (if provider = [] \<or> model = [] then None else lookup (ToLower uni provider, ToLower uni model))"

definition resolveTierDetail :: "'f modelEntry \<Rightarrow> i64 \<Rightarrow> 'f tier option \<times> bool" where
  "resolveTierDetail entry tsUS =
     (case e_tiers entry of
        [] \<Rightarrow> (None, False)
      | t # _ \<Rightarrow>
          if sint tsUS \<le> 0 then (Some t, True)
          else let want = tsUSToDate tsUS
               in (find (\<lambda>t. \<not> effectiveAt t > want) (e_tiers entry), False))"

definition resolveTier :: "'f modelEntry \<Rightarrow> i64 \<Rightarrow> 'f tier option" where
  "resolveTier entry tsUS = fst (resolveTierDetail entry tsUS)"

definition computeCost :: "('f :: field) tier \<Rightarrow> i64 \<Rightarrow> i64 \<Rightarrow> i64 \<Rightarrow> i64 \<Rightarrow> 'f" where
  "computeCost t tokensIn tokensOut tokensCacheRead tokensCacheWrite =
     (let pr = prices t in
      of_int (sint tokensIn) * rp_Input pr / 1000000 +
      of_int (sint tokensOut) * rp_Output pr / 1000000 +
      of_int (sint tokensCacheRead) * rp_CacheRead pr / 1000000 +
      of_int (sint tokensCacheWrite) * rp_CacheWrite pr / 1000000)"

section \<open>Counting\<close>

record Stats =
  Hits :: i64
  MissProviderModel :: i64
  MissTier :: i64
  DefaultedLatestTier :: i64

record 'f Pricer =
  lookup_table :: "'f lookup"
  stats :: Stats

datatype MissKind = MissNone | MissUnknownProviderModel | MissUnknownTier

definition Pricer_New ::
    "(string \<Rightarrow> string) \<Rightarrow> (json \<Rightarrow> ('f :: {zero,ord}) rawDoc option) \<Rightarrow> json option list \<Rightarrow> perr + 'f Pricer" where
  "Pricer_New uni decode input = (case parseDoc uni decode input of
       Inl e \<Rightarrow> Inl e
     | Inr (lookup, _) \<Rightarrow>
         Inr \<lparr>lookup_table = lookup,
              stats = \<lparr>Hits = 0, MissProviderModel = 0, MissTier = 0, DefaultedLatestTier = 0\<rparr>\<rparr>)"

definition CostWithDetail ::
    "(string \<Rightarrow> string) \<Rightarrow> ('f :: field) Pricer \<Rightarrow> string \<Rightarrow> string \<Rightarrow> i64 \<Rightarrow> i64 \<Rightarrow> i64 \<Rightarrow> i64 \<Rightarrow> i64 \<Rightarrow>
     ('f \<times> bool \<times> MissKind) \<times> 'f Pricer" where
  "CostWithDetail uni p provider model tsUS tokensIn tokensOut tokensCacheRead tokensCacheWrite =
     (let st = stats p in
      case resolveModel uni (lookup_table p) provider model of
        None \<Rightarrow> ((0, False, MissUnknownProviderModel),
                 p\<lparr>stats := st\<lparr>MissProviderModel := MissProviderModel st + 1\<rparr>\<rparr>)
      | Some entry \<Rightarrow>
          (case resolveTierDetail entry tsUS of
             (None, _) \<Rightarrow> ((0, False, MissUnknownTier), p\<lparr>stats := st\<lparr>MissTier := MissTier st + 1\<rparr>\<rparr>)
           | (Some t, defaulted) \<Rightarrow>
               let st = (if defaulted then st\<lparr>DefaultedLatestTier := DefaultedLatestTier st + 1\<rparr> else st);
                   st = st\<lparr>Hits := Hits st + 1\<rparr>
               in ((computeCost t tokensIn tokensOut tokensCacheRead tokensCacheWrite, True, MissNone),
                   p\<lparr>stats := st\<rparr>)))"

definition Pricer_Cost ::
    "(string \<Rightarrow> string) \<Rightarrow> ('f :: field) Pricer \<Rightarrow> string \<Rightarrow> string \<Rightarrow> i64 \<Rightarrow> i64 \<Rightarrow> i64 \<Rightarrow> i64 \<Rightarrow> i64 \<Rightarrow>
     'f \<times> 'f Pricer" where
  "Pricer_Cost uni p provider model tsUS tokensIn tokensOut tokensCacheRead tokensCacheWrite =
     (let ((cost, _, _), p') =
        CostWithDetail uni p provider model tsUS tokensIn tokensOut tokensCacheRead tokensCacheWrite
      in (cost, p'))"

definition CtxMax :: "(string \<Rightarrow> string) \<Rightarrow> 'f Pricer \<Rightarrow> string \<Rightarrow> string \<Rightarrow> i64 \<times> bool" where
  "CtxMax uni p provider model = (case resolveModel uni (lookup_table p) provider model of
       None \<Rightarrow> (0, False)
     | Some entry \<Rightarrow> if sint (e_ctxMax entry) \<le> 0 then (0, False) else (e_ctxMax entry, True))"

end
