(* ===== verification/Pricing_Facts.thy ===== *)
theory Pricing_Facts
  imports Pricing
begin

text \<open>
  Facts on the pricing loader: dates parse injectively, the claims of the lookup keys as
  one flat list, and what a successful validation guarantees of a document.
\<close>

section \<open>The calendar is strictly monotone\<close>

definition year_days :: "nat \<Rightarrow> nat" where
  "year_days y = (if leap y then 366 else 365)"

lemma div_step: "0 < k \<Longrightarrow> (y + k) div k = (y + (k - 1)) div k + (if k dvd (y :: nat) then 1 else 0)"
proof -
  assume k: "0 < k"
  define q r where "q = y div k" and "r = y mod k"
  have y: "y = q * k + r" and r: "r < k" using k by (simp_all add: q_def r_def)
  have "(q * k + r + k) div k = q + 1" using r k by (simp add: div_add1_eq)
  moreover have "(q * k + r + (k - 1)) div k = (if r = 0 then q else q + 1)"
  proof (cases "r = 0")
    case True
    have "(q * k + (k - 1)) div k = q" by (rule div_nat_eqI) (use k in \<open>auto simp: algebra_simps\<close>)
    then show ?thesis using True by simp
  next
    case False
    have "q * k + r + (k - 1) = (q + 1) * k + (r - 1)" using False k by (simp add: algebra_simps)
    moreover have "((q + 1) * k + (r - 1)) div k = q + 1" using r k by (simp add: div_add1_eq)
    ultimately show ?thesis using False by simp
  qed
  moreover have "k dvd y \<longleftrightarrow> r = 0" by (simp add: r_def dvd_eq_mod_eq_0)
  ultimately show ?thesis unfolding y by auto
qed

lemma days_before_year_Suc: "days_before_year (Suc y) = days_before_year y + year_days y"
proof -
  have 4: "(y + 4) div 4 = (y + 3) div 4 + (if 4 dvd y then 1 else 0)"
    and 100: "(y + 100) div 100 = (y + 99) div 100 + (if 100 dvd y then 1 else 0)"
    and 400: "(y + 400) div 400 = (y + 399) div 400 + (if 400 dvd y then 1 else 0)"
    using div_step [of 4 y] div_step [of 100 y] div_step [of 400 y] by simp_all
  have s: "Suc y + 3 = y + 4" "Suc y + 99 = y + 100" "Suc y + 399 = y + 400" by simp_all
  have d: "100 dvd y \<Longrightarrow> 4 dvd y" "400 dvd y \<Longrightarrow> 100 dvd y" by presburger+
  define a b c where "a = (y + 3) div 4" and "b = (y + 99) div 100" and "c = (y + 399) div 400"
  have le: "b \<le> 365 * y + a" unfolding a_def b_def by (cases y) (simp_all add: div_le_mono)
  have 1: "days_before_year (Suc y) =
      365 * Suc y + (a + (if 4 dvd y then 1 else 0)) - (b + (if 100 dvd y then 1 else 0)) + (c + (if 400 dvd y then 1 else 0))"
    unfolding days_before_year_def s 4 100 400 a_def b_def c_def ..
  have 2: "days_before_year y = 365 * y + a - b + c"
    unfolding days_before_year_def a_def b_def c_def ..
  show ?thesis
    unfolding 1 2 year_days_def leap_def using le d
    by (cases "4 dvd y"; cases "100 dvd y"; cases "400 dvd y") simp_all
qed

lemma days_before_month_Suc: "1 \<le> m \<Longrightarrow> days_before_month y (Suc m) = days_before_month y m + daysIn y m"
  by (simp add: days_before_month_def)

lemma days_before_month_13: "days_before_month y 13 = year_days y"
  by (simp add: days_before_month_def daysIn_def year_days_def upt_conv_Cons)

lemma days_before_month_mono: "1 \<le> m \<Longrightarrow> m \<le> n \<Longrightarrow> days_before_month y m \<le> days_before_month y n"
proof (induction n)
  case (Suc n)
  then show ?case by (cases "m = Suc n") (simp_all add: days_before_month_Suc)
qed simp

lemma days_before_year_mono: "y \<le> z \<Longrightarrow> days_before_year y \<le> days_before_year z"
  by (induction z) (auto simp: le_Suc_eq days_before_year_Suc)

definition day_of_year :: "nat \<Rightarrow> nat \<Rightarrow> nat \<Rightarrow> nat" where
  "day_of_year y m d = days_before_month y m + d"

lemma day_of_year_bounds:
  assumes "valid_date y m d"
  shows "1 \<le> day_of_year y m d" "day_of_year y m d \<le> days_before_month y (Suc m)" "day_of_year y m d \<le> year_days y"
proof -
  show "1 \<le> day_of_year y m d" "day_of_year y m d \<le> days_before_month y (Suc m)"
    using assms by (simp_all add: day_of_year_def valid_date_def days_before_month_Suc)
  moreover have "days_before_month y (Suc m) \<le> days_before_month y 13"
    using assms by (intro days_before_month_mono) (simp_all add: valid_date_def)
  ultimately show "day_of_year y m d \<le> year_days y" by (simp add: days_before_month_13)
qed

lemma civil_days_eq: "civil_days y m d = int (days_before_year y + day_of_year y m d) - 719529"
  by (simp add: civil_days_def day_of_year_def)

lemma civil_days_year_less:
  assumes "valid_date y m d" "valid_date z n e" "y < z"
  shows "civil_days y m d < civil_days z n e"
proof -
  have "days_before_year y + year_days y \<le> days_before_year z"
    using days_before_year_mono [of "Suc y" z] assms(3) by (simp add: days_before_year_Suc)
  then show ?thesis
    using day_of_year_bounds(3) [OF assms(1)] day_of_year_bounds(1) [OF assms(2)] by (simp add: civil_days_eq)
qed

lemma civil_days_month_less:
  assumes "valid_date y m d" "valid_date y n e" "m < n"
  shows "civil_days y m d < civil_days y n e"
proof -
  have "days_before_month y (Suc m) \<le> days_before_month y n"
    using assms by (intro days_before_month_mono) (simp_all add: valid_date_def)
  then show ?thesis
    using day_of_year_bounds(2) [OF assms(1)] assms(2) by (simp add: civil_days_eq day_of_year_def valid_date_def)
qed

lemma civil_days_inject:
  assumes "valid_date y m d" "valid_date z n e" "civil_days y m d = civil_days z n e"
  shows "y = z \<and> m = n \<and> d = e"
proof -
  have y: "y = z"
    using civil_days_year_less [of y m d z n e] civil_days_year_less [of z n e y m d] assms by fastforce
  then have "m = n"
    using civil_days_month_less [of y m d n e] civil_days_month_less [of y n e m d] assms by fastforce
  then show ?thesis using y assms(3) by (simp add: civil_days_def)
qed

text \<open>The epoch is day zero.\<close>

lemma civil_days_epoch: "civil_days 1970 1 1 = 0"
  by (simp add: civil_days_def days_before_year_def days_before_month_def)

lemma digits_value_inject:
  assumes "length s = length t" "all_digits s" "all_digits t" "digits_value s = digits_value t"
  shows "s = t"
  using assms
proof (induction s arbitrary: t rule: rev_induct)
  case (snoc c s)
  then obtain t' e where t: "t = t' @ [e]" by (cases t rule: rev_cases) auto
  have c: "48 \<le> (of_char c :: nat)" "(of_char c :: nat) \<le> 57" "48 \<le> (of_char e :: nat)" "(of_char e :: nat) \<le> 57"
    using snoc.prems by (auto simp: all_digits_def is_digit_def t)
  define a b :: nat where "a = of_char c - 48" and "b = of_char e - 48"
  have ab: "a < 10" "b < 10" and v: "10 * digits_value s + a = 10 * digits_value t' + b"
    using c snoc.prems(4) by (simp_all add: a_def b_def t)
  then have v': "digits_value s = digits_value t'" and "a = b" by presburger+
  from \<open>a = b\<close> have "(of_char c :: nat) = of_char e" using c unfolding a_def b_def by linarith
  then have "c = e" by (metis char_of_char)
  then show ?case using snoc.IH [of t'] snoc.prems v' by (simp add: t all_digits_def)
qed simp

lemma date_fields_SomeD:
  assumes "date_fields s = Some ((y, m, d), rest)"
  obtains ys ms ds where "s = ys @ ''-'' @ ms @ ''-'' @ ds @ rest" "length ys = 4" "length ms = 2" "length ds = 2"
    "all_digits ys" "all_digits ms" "all_digits ds"
    "digits_value ys = y" "digits_value ms = m" "digits_value ds = d" "valid_date y m d"
  using assms
proof (cases s rule: date_fields.cases)
  case (1 y1 y2 y3 y4 s1 m1 m2 s2 d1 d2 r)
  then show thesis
    using assms that [of "[y1, y2, y3, y4]" "[m1, m2]" "[d1, d2]"]
    by (simp add: Let_def all_digits_def split: if_splits)
qed auto

lemma parse_date_SomeD:
  assumes "parse_date s = Some a"
  obtains y m d where "date_fields s = Some ((y, m, d), [])" "a = 86400 * civil_days y m d"
  using assms by (auto simp: parse_date_def split: option.splits list.splits)

lemma parse_date_inject:
  assumes "parse_date s = Some a" "parse_date t = Some a"
  shows "s = t"
proof -
  obtain y m d z n e where f: "date_fields s = Some ((y, m, d), [])" "date_fields t = Some ((z, n, e), [])"
    and "civil_days y m d = civil_days z n e"
    using parse_date_SomeD [OF assms(1)] parse_date_SomeD [OF assms(2)] by (metis mult_cancel_left zero_neq_numeral)
  moreover obtain ys ms ds where s: "s = ys @ ''-'' @ ms @ ''-'' @ ds @ []" "length ys = 4" "length ms = 2" "length ds = 2"
    "all_digits ys" "all_digits ms" "all_digits ds"
    "digits_value ys = y" "digits_value ms = m" "digits_value ds = d" "valid_date y m d"
    by (rule date_fields_SomeD [OF f(1)])
  moreover obtain zs ns es where t: "t = zs @ ''-'' @ ns @ ''-'' @ es @ []" "length zs = 4" "length ns = 2" "length es = 2"
    "all_digits zs" "all_digits ns" "all_digits es"
    "digits_value zs = z" "digits_value ns = n" "digits_value es = e" "valid_date z n e"
    by (rule date_fields_SomeD [OF f(2)])
  ultimately have "y = z" "m = n" "d = e" using civil_days_inject by blast+
  then have "ys = zs" "ms = ns" "ds = es" using s t digits_value_inject by metis+
  then show ?thesis using s(1) t(1) by simp
qed

lemma parse_date_day: "parse_date s = Some a \<Longrightarrow> 86400 dvd a"
  by (erule parse_date_SomeD) simp

section \<open>Validation\<close>

lemma first_error_None: "first_error f i xs = None \<longleftrightarrow> (\<forall>j<length xs. f (i + j) (xs ! j) = None)"
proof (induction xs arbitrary: i)
  case (Cons x xs)
  show ?case
  proof
    assume "first_error f i (x # xs) = None"
    then show "\<forall>j<length (x # xs). f (i + j) ((x # xs) ! j) = None"
      using Cons.IH [of "Suc i"] by (auto simp: nth_Cons split: option.splits nat.splits)
  next
    assume a: "\<forall>j<length (x # xs). f (i + j) ((x # xs) ! j) = None"
    then have "f i x = None" by (metis add.right_neutral length_greater_0_conv list.distinct(1) nth_Cons_0)
    moreover have "\<forall>j<length xs. f (Suc i + j) (xs ! j) = None"
      using a by (metis Suc_less_eq add_Suc_shift length_Cons nth_Cons_Suc)
    ultimately show "first_error f i (x # xs) = None" using Cons.IH [of "Suc i"] by simp
  qed
qed simp

lemma first_error_None_const: "first_error (\<lambda>_. f) i xs = None \<longleftrightarrow> (\<forall>x\<in>set xs. f x = None)"
  by (induction xs arbitrary: i) (auto split: option.splits)

lemma first_error_aliases:
  "first_error (\<lambda>ai a. if P a then None else Some (g ai a)) i xs = None \<longleftrightarrow> (\<forall>a\<in>set xs. P a)"
  by (induction xs arbitrary: i) auto

definition prices_ok :: "('f :: {zero,ord}) resolvedPrices \<Rightarrow> bool" where
  "prices_ok r \<longleftrightarrow> (\<forall>v\<in>{rp_Input r, rp_Output r, rp_CacheRead r, rp_CacheWrite r, rp_CacheWrite5m r,
     rp_CacheWrite1h r, rp_Reasoning r}. \<not> v < 0)"

lemma validatePrices_ok:
  "validatePrices pr mo d p = None \<Longrightarrow>
     InputPerMillion p \<noteq> None \<and> OutputPerMillion p \<noteq> None \<and> prices_ok (resolveRawPrices p)"
  by (auto simp: validatePrices_def prices_ok_def resolveRawPrices_def split: option.splits if_splits)

definition tier_ok :: "('f :: {zero,ord}) rawTier \<Rightarrow> bool" where
  "tier_ok t \<longleftrightarrow> parse_date (EffectiveDate t) \<noteq> None \<and> CitationURL t \<noteq> [] \<and> Source t \<noteq> [] \<and>
     InputPerMillion (Prices t) \<noteq> None \<and> OutputPerMillion (Prices t) \<noteq> None \<and>
     prices_ok (resolveRawPrices (Prices t))"

lemma validateTiers_ok:
  "validateTiers pr mo i seen ts = None \<Longrightarrow>
     (\<forall>t\<in>set ts. tier_ok t) \<and> distinct (map EffectiveDate ts) \<and> EffectiveDate ` set ts \<inter> set seen = {}"
proof (induction ts arbitrary: i seen)
  case (Cons t ts)
  then have "validateTiers pr mo (Suc i) (EffectiveDate t # seen) ts = None"
    and t: "parse_date (EffectiveDate t) \<noteq> None" "EffectiveDate t \<notin> set seen" "CitationURL t \<noteq> []" "Source t \<noteq> []"
      "validatePrices pr mo (EffectiveDate t) (Prices t) = None"
    by (auto simp: Let_def split: if_splits option.splits)
  from Cons.IH [OF this(1)] t(1-4) validatePrices_ok [OF t(5)] show ?case by (auto simp: tier_ok_def)
qed simp

definition model_ok :: "('f :: {zero,ord}) rawModel \<Rightarrow> bool" where
  "model_ok m \<longleftrightarrow> (\<forall>n\<in>set (names_of_model m). namePattern n) \<and> 0 \<le> sint (m_CtxMax m) \<and> m_Tiers m \<noteq> [] \<and>
     (\<forall>t\<in>set (m_Tiers m). tier_ok t) \<and> distinct (map EffectiveDate (m_Tiers m))"

lemma validateModel_ok:
  "validateModel uni pr m i seen = Inr seen' \<Longrightarrow>
     model_ok m \<and> ToLower uni (m_Name m) \<notin> set seen \<and> seen' = ToLower uni (m_Name m) # seen"
  using validateTiers_ok [of pr "m_Name m" 0 "[]" "m_Tiers m"]
  by (auto simp: validateModel_def Let_def model_ok_def names_of_model_def first_error_aliases
      split: if_splits option.splits)

lemma validateModels_ok:
  "validateModels uni pr i seen ms = None \<Longrightarrow>
     (\<forall>m\<in>set ms. model_ok m) \<and> distinct (map (\<lambda>m. ToLower uni (m_Name m)) ms) \<and>
     (\<lambda>m. ToLower uni (m_Name m)) ` set ms \<inter> set seen = {}"
proof (induction ms arbitrary: i seen)
  case (Cons m ms)
  then obtain seen' where s: "validateModel uni pr m i seen = Inr seen'" "validateModels uni pr (Suc i) seen' ms = None"
    by (auto split: sum.splits)
  from Cons.IH [OF s(2)] validateModel_ok [OF s(1)] show ?case by auto
qed simp

definition provider_ok :: "(string \<Rightarrow> string) \<Rightarrow> ('f :: {zero,ord}) rawProvider \<Rightarrow> bool" where
  "provider_ok uni p \<longleftrightarrow> (\<forall>n\<in>set (names_of_provider p). namePattern n) \<and> p_Models p \<noteq> [] \<and>
     (\<forall>m\<in>set (p_Models p). model_ok m) \<and> distinct (map (\<lambda>m. ToLower uni (m_Name m)) (p_Models p))"

lemma validateProvider_ok:
  "validateProvider uni p i seen = Inr seen' \<Longrightarrow>
     provider_ok uni p \<and> ToLower uni (p_Name p) \<notin> set seen \<and> seen' = ToLower uni (p_Name p) # seen"
  using validateModels_ok [of uni "p_Name p" 0 "[]" "p_Models p"]
  by (auto simp: validateProvider_def Let_def provider_ok_def names_of_provider_def first_error_aliases
      split: if_splits option.splits)

lemma validateProviders_ok:
  "validateProviders uni i seen ps = None \<Longrightarrow>
     (\<forall>p\<in>set ps. provider_ok uni p) \<and> distinct (map (\<lambda>p. ToLower uni (p_Name p)) ps) \<and>
     (\<lambda>p. ToLower uni (p_Name p)) ` set ps \<inter> set seen = {}"
proof (induction ps arbitrary: i seen)
  case (Cons p ps)
  then obtain seen' where s: "validateProvider uni p i seen = Inr seen'" "validateProviders uni (Suc i) seen' ps = None"
    by (auto split: sum.splits)
  from Cons.IH [OF s(2)] validateProvider_ok [OF s(1)] show ?case by auto
qed simp

definition doc_ok :: "(string \<Rightarrow> string) \<Rightarrow> ('f :: {zero,ord}) rawDoc \<Rightarrow> bool" where
  "doc_ok uni doc \<longleftrightarrow> (\<forall>p\<in>set (Providers doc). provider_ok uni p) \<and>
     distinct (map (\<lambda>p. ToLower uni (p_Name p)) (Providers doc))"

lemma validateDoc_ok: "validateDoc uni doc = None \<Longrightarrow> doc_ok uni doc"
  using validateProviders_ok [of uni 0 "[]" "Providers doc"]
  by (auto simp: validateDoc_def doc_ok_def split: option.splits)

lemma parseDoc_InrD:
  assumes "parseDoc uni decode input = Inr (lookup, doc)"
  shows "validateDoc uni doc = None \<and> buildLookup uni doc = Inr lookup"
  using assms by (auto simp: parseDoc_def split: option.splits list.splits sum.splits)

section \<open>The claims of the lookup keys\<close>

type_synonym 'f claim = "modelKey \<times> modelKey \<times> 'f modelEntry"

fun run_claims :: "'f claim list \<Rightarrow> 'f lookup \<times> (modelKey \<rightharpoonup> modelKey) \<Rightarrow> perr + 'f lookup \<times> (modelKey \<rightharpoonup> modelKey)" where
  "run_claims [] st = Inr st"
| "run_claims ((k, w, e) # cs) (out, owner) =
     (if owner k \<in> {None, Some w} then run_claims cs (out(k \<mapsto> e), owner(k \<mapsto> w))
      else Inl (AliasCollision w k (the (owner k))))"

definition owner_of :: "(string \<Rightarrow> string) \<Rightarrow> 'f rawProvider \<times> 'f rawModel \<Rightarrow> modelKey" where
  "owner_of uni pm = (ToLower uni (p_Name (fst pm)), ToLower uni (m_Name (snd pm)))"

definition model_claims :: "(string \<Rightarrow> string) \<Rightarrow> ('f :: zero) rawProvider \<times> 'f rawModel \<Rightarrow> 'f claim list" where
  "model_claims uni pm = map (\<lambda>k. (k, owner_of uni pm, mk_entry (fst pm) (snd pm))) (model_keys uni (fst pm) (snd pm))"

lemma claim_keys_run: "claim_keys w e ks st = run_claims (map (\<lambda>k. (k, w, e)) ks) st"
proof (induction ks arbitrary: st)
  case (Cons k ks)
  then show ?case by (cases st) (auto split: option.splits)
qed simp

lemma run_claims_append:
  "run_claims (cs @ ds) st = (case run_claims cs st of Inl e \<Rightarrow> Inl e | Inr st' \<Rightarrow> run_claims ds st')"
  by (induction cs st rule: run_claims.induct) auto

lemma build_models_run: "build_models uni pms st = run_claims (concat (map (model_claims uni) pms)) st"
proof (induction uni pms st rule: build_models.induct)
  case (2 uni p m pms st)
  then show ?case
    by (auto simp: claim_keys_run run_claims_append model_claims_def owner_of_def split: sum.splits)
qed simp

lemma run_claims_Inr_pair:
  "run_claims cs st = Inr st' \<Longrightarrow>
     fst st' = fst st ++ map_of (rev (map (\<lambda>(k, w, e). (k, e)) cs)) \<and>
     (\<forall>k w. snd st k = Some w \<longrightarrow> snd st' k = Some w) \<and> (\<forall>(k, w, e)\<in>set cs. snd st' k = Some w)"
proof (induction cs st rule: run_claims.induct)
  case (2 k w e cs out owner)
  then have c: "owner k \<in> {None, Some w}" and r: "run_claims cs (out(k \<mapsto> e), owner(k \<mapsto> w)) = Inr st'"
    by (auto split: if_splits)
  have ih: "fst st' = out(k \<mapsto> e) ++ map_of (rev (map (\<lambda>(k, w, e). (k, e)) cs))"
    "\<And>k' w'. (owner(k \<mapsto> w)) k' = Some w' \<Longrightarrow> snd st' k' = Some w'"
    "\<forall>(k, w, e)\<in>set cs. snd st' k = Some w"
    using "2.IH" [OF c r, unfolded fst_conv snd_conv] by blast+
  have "snd st' k' = Some w'" if "owner k' = Some w'" for k' w'
    using that c by (intro ih(2)) auto
  moreover have "snd st' k = Some w" by (rule ih(2)) simp
  ultimately show ?case using ih(1,3) by auto
qed simp

lemma run_claims_Inr:
  "run_claims cs (out, owner) = Inr (out', owner') \<Longrightarrow>
     out' = out ++ map_of (rev (map (\<lambda>(k, w, e). (k, e)) cs)) \<and>
     (\<forall>k w. owner k = Some w \<longrightarrow> owner' k = Some w) \<and> (\<forall>(k, w, e)\<in>set cs. owner' k = Some w)"
  using run_claims_Inr_pair [of cs "(out, owner)" "(out', owner')"] by simp

lemma run_claims_total:
  assumes "\<forall>(k, w, e)\<in>set cs. owner k \<in> {None, Some w}"
    and "\<forall>(k, w, e)\<in>set cs. \<forall>(k', w', e')\<in>set cs. k = k' \<longrightarrow> w = w'"
  shows "\<exists>st. run_claims cs (out, owner) = Inr st"
  using assms
proof (induction cs arbitrary: out owner)
  case (Cons c cs)
  obtain k w e where c: "c = (k, w, e)" by (cases c)
  have "\<forall>(k', w', e')\<in>set cs. (owner(k \<mapsto> w)) k' \<in> {None, Some w'}"
  proof -
    have "(owner(k \<mapsto> w)) k' \<in> {None, Some w'}" if i: "(k', w', e') \<in> set cs" for k' w' e'
    proof -
      have "k = k' \<longrightarrow> w = w'" using Cons.prems(2) i c by force
      moreover have "owner k' \<in> {None, Some w'}" using Cons.prems(1) i by auto
      ultimately show ?thesis by auto
    qed
    then show ?thesis by blast
  qed
  then have "\<exists>st. run_claims cs (out(k \<mapsto> e), owner(k \<mapsto> w)) = Inr st"
    using Cons.prems(2) by (intro Cons.IH) auto
  then show ?case using Cons.prems(1) by (auto simp: c)
qed simp

definition doc_claims :: "(string \<Rightarrow> string) \<Rightarrow> ('f :: zero) rawDoc \<Rightarrow> 'f claim list" where
  "doc_claims uni doc = concat (map (model_claims uni) (doc_models doc))"

lemma buildLookup_run:
  "buildLookup uni doc = (case run_claims (doc_claims uni doc) (Map.empty, Map.empty) of
     Inl e \<Rightarrow> Inl e | Inr (out, _) \<Rightarrow> Inr out)"
  by (simp add: buildLookup_def build_models_run doc_claims_def)

lemma set_doc_claims:
  "(k, w, e) \<in> set (doc_claims uni doc) \<longleftrightarrow>
     (\<exists>p m. (p, m) \<in> set (doc_models doc) \<and> k \<in> set (model_keys uni p m) \<and>
       w = owner_of uni (p, m) \<and> e = mk_entry p m)"
proof
  assume "(k, w, e) \<in> set (doc_claims uni doc)"
  then show "\<exists>p m. (p, m) \<in> set (doc_models doc) \<and> k \<in> set (model_keys uni p m) \<and>
      w = owner_of uni (p, m) \<and> e = mk_entry p m"
    unfolding doc_claims_def model_claims_def by auto blast
next
  assume "\<exists>p m. (p, m) \<in> set (doc_models doc) \<and> k \<in> set (model_keys uni p m) \<and>
      w = owner_of uni (p, m) \<and> e = mk_entry p m"
  then obtain p m where pm: "(p, m) \<in> set (doc_models doc)"
    and "k \<in> set (model_keys uni p m)" "w = owner_of uni (p, m)" "e = mk_entry p m" by blast
  then have "(k, w, e) \<in> set (model_claims uni (p, m))" by (simp add: model_claims_def)
  then show "(k, w, e) \<in> set (doc_claims uni doc)" using pm by (auto simp: doc_claims_def)
qed

lemma set_doc_models: "set (doc_models doc) = {(p, m). p \<in> set (Providers doc) \<and> m \<in> set (p_Models p)}"
  by (auto simp: doc_models_def)

lemma set_model_keys:
  "set (model_keys uni p m) =
     {(ToLower uni pn, ToLower uni mn) | pn mn. pn \<in> set (names_of_provider p) \<and> mn \<in> set (names_of_model m)}"
  by (auto simp: model_keys_def)

text \<open>After validation the owner determines the model.\<close>

lemma owner_of_inject:
  assumes "doc_ok uni doc" "a \<in> set (doc_models doc)" "b \<in> set (doc_models doc)" "owner_of uni a = owner_of uni b"
  shows "a = b"
proof -
  obtain p m q n where ab: "a = (p, m)" "b = (q, n)" by (cases a; cases b)
  have "p = q"
    using assms ab by (auto simp: doc_ok_def owner_of_def set_doc_models distinct_map dest: inj_onD)
  moreover have "distinct (map (\<lambda>m. ToLower uni (m_Name m)) (p_Models p))"
    using assms ab by (auto simp: doc_ok_def provider_ok_def set_doc_models)
  ultimately show ?thesis
    using assms ab by (auto simp: owner_of_def set_doc_models distinct_map dest: inj_onD)
qed

lemma buildLookup_entry:
  assumes "buildLookup uni doc = Inr lookup" "lookup k = Some e"
  obtains p m where "(p, m) \<in> set (doc_models doc)" "k \<in> set (model_keys uni p m)" "e = mk_entry p m"
proof -
  obtain owner where "run_claims (doc_claims uni doc) (Map.empty, Map.empty) = Inr (lookup, owner)"
    using assms(1) by (auto simp: buildLookup_run split: sum.splits)
  from run_claims_Inr [OF this] have "map_of (rev (map (\<lambda>(k, w, e). (k, e)) (doc_claims uni doc))) k = Some e"
    using assms(2) by simp
  then have "(k, e) \<in> (\<lambda>(k, w, e). (k, e)) ` set (doc_claims uni doc)" by (auto dest: map_of_SomeD)
  then obtain w where "(k, w, e) \<in> set (doc_claims uni doc)" by auto
  then show thesis using that unfolding set_doc_claims by blast
qed

lemma buildLookup_claimed:
  assumes "buildLookup uni doc = Inr lookup" "doc_ok uni doc" "(p, m) \<in> set (doc_models doc)" "k \<in> set (model_keys uni p m)"
  shows "lookup k = Some (mk_entry p m)"
proof -
  let ?cs = "doc_claims uni doc"
  obtain owner where r: "run_claims ?cs (Map.empty, Map.empty) = Inr (lookup, owner)"
    using assms(1) by (auto simp: buildLookup_run split: sum.splits)
  note o = run_claims_Inr [OF r]
  have c: "(k, owner_of uni (p, m), mk_entry p m) \<in> set ?cs"
    using assms(3,4) unfolding set_doc_claims by blast
  then have "k \<in> fst ` set (rev (map (\<lambda>(k, w, e). (k, e)) ?cs))" by force
  then have "map_of (rev (map (\<lambda>(k, w, e). (k, e)) ?cs)) k \<noteq> None" by (simp only: map_of_eq_None_iff) simp
  then obtain e where e: "lookup k = Some e" using o by auto
  obtain q n where qn: "(q, n) \<in> set (doc_models doc)" "k \<in> set (model_keys uni q n)" "e = mk_entry q n"
    by (rule buildLookup_entry [OF assms(1) e])
  have "(k, owner_of uni (q, n), mk_entry q n) \<in> set ?cs"
    using qn unfolding set_doc_claims by blast
  moreover have "owner k = Some w" if "(k, w, e) \<in> set ?cs" for k w e using o that by blast
  ultimately have "owner_of uni (q, n) = owner_of uni (p, m)" using c by (metis option.inject)
  from owner_of_inject [OF assms(2) qn(1) assms(3) this] show ?thesis using e qn(3) by simp
qed

end
