(* ===== verification/Pricing_Props.thy ===== *)
theory Pricing_Props
  imports Complex_Main Pricing_Facts
begin

text \<open>
  The properties of the pricing table: what loading guarantees, which model a name
  resolves to, which tier is in force at a time, when the loader reports an alias
  collision, and that the counters account for every call.
\<close>

section \<open>Loaded entries\<close>

definition entry_ok :: "('f :: {zero,ord}) modelEntry \<Rightarrow> bool" where
  "entry_ok e \<longleftrightarrow> e_tiers e \<noteq> [] \<and> 0 \<le> sint (e_ctxMax e) \<and>
     sorted_wrt (\<lambda>a b. effectiveAt b < effectiveAt a) (e_tiers e) \<and>
     (\<forall>t\<in>set (e_tiers e). prices_ok (prices t) \<and> 86400 dvd effectiveAt t \<and>
        citationURL t \<noteq> [] \<and> t_source t \<noteq> [])"

lemma mk_tier_date: "parse_date (EffectiveDate t) = Some a \<Longrightarrow> effectiveAt (mk_tier t) = a"
  by (simp add: mk_tier_def)

lemma distinct_effectiveAt:
  assumes "\<forall>t\<in>set ts. tier_ok t" "distinct (map EffectiveDate ts)"
  shows "distinct (map (\<lambda>t. effectiveAt (mk_tier t)) ts)"
proof -
  have "EffectiveDate t = EffectiveDate u"
    if tu: "t \<in> set ts" "u \<in> set ts" and e: "effectiveAt (mk_tier t) = effectiveAt (mk_tier u)" for t u
  proof -
    obtain a b where ab: "parse_date (EffectiveDate t) = Some a" "parse_date (EffectiveDate u) = Some b"
      using bspec [OF assms(1) tu(1)] bspec [OF assms(1) tu(2)] unfolding tier_ok_def by blast
    then have "a = b" using e by (simp add: mk_tier_date)
    then show ?thesis using ab parse_date_inject by blast
  qed
  then have "inj_on (\<lambda>t. effectiveAt (mk_tier t)) (set ts)"
    using assms(2) unfolding distinct_map inj_on_def by blast
  then show ?thesis using assms(2) unfolding distinct_map by blast
qed

lemma mk_tier_ok:
  assumes "tier_ok t"
  shows "prices_ok (prices (mk_tier t)) \<and> 86400 dvd effectiveAt (mk_tier t) \<and>
    citationURL (mk_tier t) \<noteq> [] \<and> t_source (mk_tier t) \<noteq> []"
proof -
  obtain a where "parse_date (EffectiveDate t) = Some a" using assms by (auto simp: tier_ok_def)
  then have "86400 dvd effectiveAt (mk_tier t)" by (simp add: mk_tier_date parse_date_day)
  then show ?thesis using assms by (simp add: tier_ok_def mk_tier_def)
qed

lemma mk_entry_ok:
  assumes "model_ok m" shows "entry_ok (mk_entry p m)"
proof -
  let ?ts = "map mk_tier (m_Tiers m)"
  have eq: "e_tiers (mk_entry p m) = sort_key (\<lambda>t. - effectiveAt t) ?ts"
    unfolding mk_entry_def by (simp add: sort_by_key [where f = "\<lambda>t. - effectiveAt t"])
  have "distinct (map effectiveAt ?ts)"
    using distinct_effectiveAt [of "m_Tiers m"] assms by (simp add: model_ok_def comp_def)
  then have "distinct (map (\<lambda>t. - effectiveAt t) ?ts)" by (auto simp: distinct_map inj_on_def)
  moreover have "mset (map (\<lambda>t. - effectiveAt t) (sort_key (\<lambda>t. - effectiveAt t) ?ts)) = mset (map (\<lambda>t. - effectiveAt t) ?ts)"
    by (simp only: mset_map mset_sort)
  ultimately have "distinct (map (\<lambda>t. - effectiveAt t) (sort_key (\<lambda>t. - effectiveAt t) ?ts))"
    using mset_eq_imp_distinct_iff by blast
  then have "sorted_wrt (<) (map (\<lambda>t. - effectiveAt t) (sort_key (\<lambda>t. - effectiveAt t) ?ts))"
    by (simp only: strict_sorted_iff sorted_sort_key)
  then have "sorted_wrt (\<lambda>a b. effectiveAt b < effectiveAt a) (e_tiers (mk_entry p m))"
    unfolding eq by (simp add: sorted_wrt_map)
  moreover have "\<forall>t\<in>set (e_tiers (mk_entry p m)). prices_ok (prices t) \<and> 86400 dvd effectiveAt t \<and>
        citationURL t \<noteq> [] \<and> t_source t \<noteq> []"
    using assms unfolding eq set_sort set_map model_ok_def by (blast dest: mk_tier_ok)
  moreover have "e_tiers (mk_entry p m) \<noteq> []"
    using assms arg_cong [OF eq, of length] by (auto simp: model_ok_def)
  ultimately show ?thesis using assms by (simp add: entry_ok_def model_ok_def mk_entry_def)
qed

lemma loaded_doc_ok:
  assumes "parseDoc uni decode input = Inr (lookup, doc)"
  shows "doc_ok uni doc" "buildLookup uni doc = Inr lookup"
  using parseDoc_InrD [OF assms] validateDoc_ok by auto

lemma loaded_entry_ok:
  assumes "parseDoc uni decode input = Inr (lookup, doc)" "lookup k = Some e"
  shows "entry_ok e"
proof -
  obtain p m where pm: "(p, m) \<in> set (doc_models doc)" "e = mk_entry p m"
    using buildLookup_entry [OF loaded_doc_ok(2) [OF assms(1)] assms(2)] by blast
  then have "model_ok m"
    using loaded_doc_ok(1) [OF assms(1)] by (auto simp: set_doc_models doc_ok_def provider_ok_def)
  then show ?thesis using pm(2) by (simp add: mk_entry_ok)
qed

text \<open>A small document with two models, one of them with two tiers and an alias.\<close>

definition demo_prices :: "int \<Rightarrow> rat rawPrices" where
  "demo_prices i = \<lparr>InputPerMillion = Some (of_int i), OutputPerMillion = Some (of_int (2 * i)),
     CacheReadPerMillion = 0, CacheWritePerMillion = 0, CacheWrite5mPerMillion = 0,
     CacheWrite1hPerMillion = 0, ReasoningPerMillion = 0\<rparr>"

definition demo_tier :: "string \<Rightarrow> int \<Rightarrow> rat rawTier" where
  "demo_tier d i = \<lparr>EffectiveDate = d, CitationURL = ''u'', Source = ''s'', Prices = demo_prices i\<rparr>"

definition demo_model :: "rat rawModel" where
  "demo_model = \<lparr>m_Name = ''GPT-5'', m_Aliases = [''gpt5''], m_CtxMax = 100,
     m_Tiers = [demo_tier ''2025-01-31'' 3, demo_tier ''2025-03-01'' 2]\<rparr>"

definition demo_provider :: "rat rawProvider" where
  "demo_provider = \<lparr>p_Name = ''OpenAI'', p_Aliases = [''azure''],
     p_Models = [demo_model, \<lparr>m_Name = ''o3'', m_Aliases = [], m_CtxMax = 0, m_Tiers = [demo_tier ''2025-02-28'' 9]\<rparr>]\<rparr>"

definition demo_doc :: "rat rawDoc" where
  "demo_doc = \<lparr>Version = 2, SchemaURL = ''x'', GeneratedAt = ''2025-03-02T10:00:00Z'', GeneratedBy = ''me'',
     Currency = ''USD'', Providers = [demo_provider]\<rparr>"

definition demo_decode :: "json \<Rightarrow> rat rawDoc option" where
  "demo_decode v = Some demo_doc"

definition demo_lookup :: "rat lookup" where
  "demo_lookup = (case parseDoc id demo_decode [Some (JObj [])] of Inr (l, _) \<Rightarrow> l | Inl _ \<Rightarrow> Map.empty)"

lemma demo_loads: "parseDoc id demo_decode [Some (JObj [])] = Inr (demo_lookup, demo_doc)"
proof -
  have v: "validateDoc id demo_doc = None" by code_simp
  have "case buildLookup id demo_doc of Inr _ \<Rightarrow> True | Inl _ \<Rightarrow> False" by code_simp
  then obtain l where "buildLookup id demo_doc = Inr l" by (auto split: sum.splits)
  moreover have "rejectNullsInOptionals [Some (JObj [])] = None" by code_simp
  ultimately show ?thesis using v by (simp add: demo_lookup_def parseDoc_def demo_decode_def)
qed

lemma demo_entry: "demo_lookup (''azure'', ''gpt5'') = Some (mk_entry demo_provider demo_model)"
proof (rule buildLookup_claimed [OF loaded_doc_ok(2,1) [OF demo_loads]])
  show "(demo_provider, demo_model) \<in> set (doc_models demo_doc)"
    by (simp add: set_doc_models demo_doc_def demo_provider_def)
  show "(''azure'', ''gpt5'') \<in> set (model_keys id demo_provider demo_model)" by code_simp
qed

text \<open>
  C9. Whatever the decoder yields, every entry of a successfully loaded table is fit for
  use: it has at least one tier, its tiers are strictly descending in effective date (so
  the unstable sort has one result), their dates are whole days, all prices and the
  context size are non-negative, and every tier is cited.
\<close>

theorem pricing_loaded_ok:
  assumes "parseDoc uni decode input = Inr (lookup, doc)" and "lookup k = Some e"
  shows "entry_ok e \<and> Version doc = 2 \<and> Currency doc = ''USD'' \<and> rejectNullsInOptionals input = None"
proof -
  have "validateDocHeader doc = None"
    using parseDoc_InrD [OF assms(1)] by (auto simp: validateDoc_def split: option.splits)
  then have "Version doc = 2 \<and> Currency doc = ''USD''"
    by (auto simp: validateDocHeader_def schemaVersion_def split: if_splits)
  moreover have "rejectNullsInOptionals input = None"
    using assms(1) by (auto simp: parseDoc_def split: option.splits)
  ultimately show ?thesis using loaded_entry_ok [OF assms] by simp
qed

theorem pricing_loaded_ok_witness: "entry_ok (mk_entry demo_provider demo_model)"
  using pricing_loaded_ok [OF demo_loads demo_entry] by simp

text \<open>
  C10. Names resolve to the right model: after a successful load a provider and model name
  (in any letter case, each by its name or by an alias) resolve to an entry exactly if the
  document declares that model under these names, and then to the entry of that model.
\<close>

theorem pricing_routing:
  assumes "parseDoc uni decode input = Inr (lookup, doc)"
  shows "resolveModel uni lookup provider model = Some e \<longleftrightarrow>
    provider \<noteq> [] \<and> model \<noteq> [] \<and>
    (\<exists>p\<in>set (Providers doc). \<exists>m\<in>set (p_Models p). e = mk_entry p m \<and>
       (\<exists>pn\<in>set (names_of_provider p). ToLower uni pn = ToLower uni provider) \<and>
       (\<exists>mn\<in>set (names_of_model m). ToLower uni mn = ToLower uni model))"
    (is "?l \<longleftrightarrow> ?r")
proof
  assume l: ?l
  then have ne: "provider \<noteq> []" "model \<noteq> []" and k: "lookup (ToLower uni provider, ToLower uni model) = Some e"
    by (auto simp: resolveModel_def split: if_splits)
  obtain p m where "(p, m) \<in> set (doc_models doc)"
    "(ToLower uni provider, ToLower uni model) \<in> set (model_keys uni p m)" "e = mk_entry p m"
    by (rule buildLookup_entry [OF loaded_doc_ok(2) [OF assms] k])
  then show ?r using ne by (fastforce simp: set_doc_models set_model_keys)
next
  assume ?r
  then obtain p m where ne: "provider \<noteq> []" "model \<noteq> []"
    and pm: "(p, m) \<in> set (doc_models doc)" "e = mk_entry p m"
    and k: "(ToLower uni provider, ToLower uni model) \<in> set (model_keys uni p m)"
    by (fastforce simp: set_doc_models set_model_keys)
  then show ?l
    using buildLookup_claimed [OF loaded_doc_ok(2,1) [OF assms] pm(1) k] by (simp add: resolveModel_def)
qed

theorem pricing_routing_witness:
  "resolveModel id demo_lookup ''AZURE'' ''gpt-5'' = Some (mk_entry demo_provider demo_model)"
proof -
  have "ToLower id ''azure'' = ToLower id ''AZURE''" "ToLower id ''GPT-5'' = ToLower id ''gpt-5''" by code_simp+
  then show ?thesis
    unfolding pricing_routing [OF demo_loads]
    by (intro conjI bexI [of _ demo_provider] bexI [of _ demo_model] bexI [of _ "''azure''"] bexI [of _ "''GPT-5''"])
      (simp_all add: demo_doc_def demo_provider_def demo_model_def names_of_provider_def names_of_model_def)
qed

section \<open>The tier in force\<close>

lemma find_descending:
  fixes f :: "'a \<Rightarrow> int"
  assumes "sorted_wrt (\<lambda>a b. f b < f a) xs"
  shows "find (\<lambda>t. f t \<le> w) xs = Some t \<longleftrightarrow>
    t \<in> set xs \<and> f t \<le> w \<and> (\<forall>u\<in>set xs. f u \<le> w \<longrightarrow> f u \<le> f t)"
  using assms
proof (induction xs)
  case (Cons x xs)
  have "t = x" if "t \<in> set xs" "f x \<le> f t"
    using Cons.prems that by fastforce
  moreover have "\<forall>u\<in>set xs. f u < f x" using Cons.prems by simp
  ultimately show ?case using Cons by (cases "f x \<le> w") auto
qed simp

lemma tsUSToDate_pos:
  assumes "0 < sint ts"
  shows "tsUSToDate ts = sint ts div 1000000 div 86400 * 86400"
proof -
  have "sint ts sdiv 1000000 = sint ts div 1000000"
    using assms by (simp add: divide_int_eq_signed_divide_int sgn_if)
  moreover have "- (2 ^ 63) \<le> sint ts div 1000000" "sint ts div 1000000 < 2 ^ 63"
    using assms sint_bounds64 [of ts] by linarith+
  ultimately have "sint (go_quo ts 1000000) = sint ts div 1000000"
    by (simp add: go_quo_def sint_word_of_int_64)
  then show ?thesis using assms by (simp add: tsUSToDate_def)
qed

lemma day_start_le:
  fixes a t :: int
  assumes "86400 dvd a"
  shows "a \<le> t div 1000000 div 86400 * 86400 \<longleftrightarrow> a * 1000000 \<le> t"
proof -
  obtain q where q: "a = 86400 * q" using assms by (rule dvdE)
  show ?thesis unfolding q by (auto simp: zdiv_zmult2_eq [symmetric])
qed

text \<open>
  C11. The tier in force: at a known time an entry of a loaded table resolves to a tier
  exactly if the tier took effect at or before that time and no tier that did is newer. If
  every tier is younger than the time nothing is priced, and an unknown time (zero or
  negative) takes the newest tier of all.
\<close>

theorem pricing_tier_in_force:
  assumes "parseDoc uni decode input = Inr (lookup, doc)" and "lookup k = Some e"
  shows "(resolveTier e ts = Some t \<longleftrightarrow>
      t \<in> set (e_tiers e) \<and>
      (0 < sint ts \<longrightarrow> effectiveAt t * 1000000 \<le> sint ts) \<and>
      (\<forall>u\<in>set (e_tiers e). (0 < sint ts \<longrightarrow> effectiveAt u * 1000000 \<le> sint ts) \<longrightarrow> effectiveAt u \<le> effectiveAt t))
    \<and> (snd (resolveTierDetail e ts) \<longleftrightarrow> sint ts \<le> 0)"
proof -
  have ok: "e_tiers e \<noteq> []" "sorted_wrt (\<lambda>a b. effectiveAt b < effectiveAt a) (e_tiers e)"
    "\<And>t. t \<in> set (e_tiers e) \<Longrightarrow> 86400 dvd effectiveAt t"
    using loaded_entry_ok [OF assms] by (simp_all add: entry_ok_def)
  obtain t0 ts0 where ts0: "e_tiers e = t0 # ts0" using ok(1) by (cases "e_tiers e") auto
  show ?thesis
  proof (cases "0 < sint ts")
    case True
    have "resolveTier e ts = find (\<lambda>t. effectiveAt t \<le> tsUSToDate ts) (e_tiers e)"
      using True ts0 by (simp add: resolveTier_def resolveTierDetail_def Let_def not_less)
    moreover have "effectiveAt t \<le> tsUSToDate ts \<longleftrightarrow> effectiveAt t * 1000000 \<le> sint ts" if "t \<in> set (e_tiers e)" for t
      using day_start_le [OF ok(3) [OF that]] tsUSToDate_pos [OF True] by simp
    moreover have "snd (resolveTierDetail e ts) = False"
      using True ts0 by (simp add: resolveTierDetail_def Let_def)
    ultimately show ?thesis
      using True find_descending [OF ok(2), of "tsUSToDate ts" t] by auto
  next
    case False
    then have "resolveTier e ts = Some t0" "snd (resolveTierDetail e ts)"
      using ts0 by (simp_all add: resolveTier_def resolveTierDetail_def)
    moreover have "\<forall>u\<in>set ts0. effectiveAt u < effectiveAt t0" using ok(2) ts0 by simp
    ultimately show ?thesis using False ts0 by force
  qed
qed

text \<open>On the evening of 2025-02-28 the January tier is in force, one day later the March one.\<close>

theorem pricing_tier_in_force_witness:
  "map_option effectiveDate (resolveTier (mk_entry demo_provider demo_model) 1740787199000000) = Some ''2025-01-31'' \<and>
   snd (resolveTierDetail (mk_entry demo_provider demo_model) 0)"
proof -
  have "map_option effectiveDate (resolveTier (mk_entry demo_provider demo_model) 1740787199000000) = Some ''2025-01-31''"
    by code_simp
  then show ?thesis using pricing_tier_in_force [OF demo_loads demo_entry, of 0] by simp
qed

section \<open>Alias collisions\<close>

text \<open>
  C12. The loader reports an alias collision exactly if two models of the document with
  different canonical names claim a common key; it fails for no other reason, and then
  reports a key, the model claiming it and the model that owns it.
\<close>

theorem pricing_collision:
  "(\<exists>err. buildLookup uni doc = Inl err) \<longleftrightarrow>
    (\<exists>a\<in>set (doc_models doc). \<exists>b\<in>set (doc_models doc). owner_of uni a \<noteq> owner_of uni b \<and>
       set (model_keys uni (fst a) (snd a)) \<inter> set (model_keys uni (fst b) (snd b)) \<noteq> {})"
    (is "?l \<longleftrightarrow> ?r")
proof -
  let ?cs = "doc_claims uni doc"
  have l: "?l \<longleftrightarrow> \<not> (\<exists>st. run_claims ?cs (Map.empty, Map.empty) = Inr st)"
    by (auto simp: buildLookup_run split: sum.splits)
  have r: "?r \<longleftrightarrow> (\<exists>k w e w' e'. (k, w, e) \<in> set ?cs \<and> (k, w', e') \<in> set ?cs \<and> w \<noteq> w')"
  proof
    assume ?r
    then obtain a b k where "a \<in> set (doc_models doc)" "b \<in> set (doc_models doc)"
      "owner_of uni a \<noteq> owner_of uni b" "k \<in> set (model_keys uni (fst a) (snd a))" "k \<in> set (model_keys uni (fst b) (snd b))"
      by blast
    moreover obtain p m q n where "a = (p, m)" "b = (q, n)" by (cases a; cases b)
    ultimately have "(p, m) \<in> set (doc_models doc)" "(q, n) \<in> set (doc_models doc)"
      "owner_of uni (p, m) \<noteq> owner_of uni (q, n)" "k \<in> set (model_keys uni p m)" "k \<in> set (model_keys uni q n)"
      by simp_all
    then show "\<exists>k w e w' e'. (k, w, e) \<in> set ?cs \<and> (k, w', e') \<in> set ?cs \<and> w \<noteq> w'"
      unfolding set_doc_claims by blast
  next
    assume "\<exists>k w e w' e'. (k, w, e) \<in> set ?cs \<and> (k, w', e') \<in> set ?cs \<and> w \<noteq> w'"
    then obtain p m q n k where *: "(p, m) \<in> set (doc_models doc)" "(q, n) \<in> set (doc_models doc)"
      "owner_of uni (p, m) \<noteq> owner_of uni (q, n)" "k \<in> set (model_keys uni p m)" "k \<in> set (model_keys uni q n)"
      unfolding set_doc_claims by blast
    then show ?r by (intro bexI [OF _ *(1)] bexI [OF _ *(2)]) auto
  qed
  show ?thesis
  proof
    assume ?l
    then have n: "\<not> (\<exists>st. run_claims ?cs (Map.empty, Map.empty) = Inr st)" unfolding l .
    have "\<forall>(k, w, e)\<in>set ?cs. Map.empty k \<in> {None, Some w}" by simp
    from run_claims_total [OF this] n
    have "\<not> (\<forall>(k, w, e)\<in>set ?cs. \<forall>(k', w', e')\<in>set ?cs. k = k' \<longrightarrow> w = w')" by blast
    then show ?r unfolding r by blast
  next
    assume ?r
    then obtain k w e w' e' where c: "(k, w, e) \<in> set ?cs" "(k, w', e') \<in> set ?cs" "w \<noteq> w'"
      unfolding r by blast
    have "\<not> (\<exists>st. run_claims ?cs (Map.empty, Map.empty) = Inr st)"
    proof
      assume "\<exists>st. run_claims ?cs (Map.empty, Map.empty) = Inr st"
      then obtain out owner where "run_claims ?cs (Map.empty, Map.empty) = Inr (out, owner)" by force
      from run_claims_Inr [OF this] have "owner k = Some w" "owner k = Some w'" using c(1,2) by blast+
      then show False using c(3) by simp
    qed
    then show ?l unfolding l .
  qed
qed

section \<open>The counters\<close>

type_synonym call = "string \<times> string \<times> i64 \<times> (i64 \<times> i64 \<times> i64 \<times> i64)"

definition cost_call :: "(string \<Rightarrow> string) \<Rightarrow> call \<Rightarrow> ('f :: field) Pricer \<Rightarrow> 'f Pricer" where
  "cost_call uni c p = (case c of (provider, model, ts, i, q, r, w) \<Rightarrow> snd (CostWithDetail uni p provider model ts i q r w))"

text \<open>What a call is, told from the table alone.\<close>

definition unknown_model :: "(string \<Rightarrow> string) \<Rightarrow> 'f lookup \<Rightarrow> call \<Rightarrow> bool" where
  "unknown_model uni l c = (case c of (provider, model, ts, _) \<Rightarrow> resolveModel uni l provider model = None)"

definition priced :: "(string \<Rightarrow> string) \<Rightarrow> 'f lookup \<Rightarrow> call \<Rightarrow> bool" where
  "priced uni l c = (case c of (provider, model, ts, _) \<Rightarrow>
     (case resolveModel uni l provider model of None \<Rightarrow> False | Some e \<Rightarrow> resolveTier e ts \<noteq> None))"

definition untimed :: "(string \<Rightarrow> string) \<Rightarrow> 'f lookup \<Rightarrow> call \<Rightarrow> bool" where
  "untimed uni l c = (case c of (provider, model, ts, _) \<Rightarrow> sint ts \<le> 0 \<and> priced uni l c)"

lemma resolveTierDetail_cases:
  "resolveTierDetail e ts = (t, d) \<Longrightarrow> resolveTier e ts = t \<and> (d \<longrightarrow> t \<noteq> None \<and> sint ts \<le> 0) \<and> (\<not> d \<longrightarrow> t = None \<or> 0 < sint ts)"
  by (auto simp: resolveTier_def resolveTierDetail_def Let_def split: list.splits if_splits)

lemma cost_call_step:
  "lookup_table (cost_call uni c p) = lookup_table p \<and>
   Hits (stats (cost_call uni c p)) = Hits (stats p) + (if priced uni (lookup_table p) c then 1 else 0) \<and>
   MissProviderModel (stats (cost_call uni c p)) = MissProviderModel (stats p) + (if unknown_model uni (lookup_table p) c then 1 else 0) \<and>
   MissTier (stats (cost_call uni c p)) = MissTier (stats p) +
     (if \<not> unknown_model uni (lookup_table p) c \<and> \<not> priced uni (lookup_table p) c then 1 else 0) \<and>
   DefaultedLatestTier (stats (cost_call uni c p)) = DefaultedLatestTier (stats p) + (if untimed uni (lookup_table p) c then 1 else 0)"
proof -
  obtain provider model ts i q r w where c: "c = (provider, model, ts, i, q, r, w)" by (cases c)
  show ?thesis
  proof (cases "resolveModel uni (lookup_table p) provider model")
    case None
    then show ?thesis by (simp add: c cost_call_def CostWithDetail_def priced_def unknown_model_def untimed_def Let_def)
  next
    case (Some e)
    obtain t d where td: "resolveTierDetail e ts = (t, d)" by force
    show ?thesis
      using resolveTierDetail_cases [OF td]
      by (cases t; cases d) (auto simp: c Some td cost_call_def CostWithDetail_def priced_def unknown_model_def untimed_def Let_def)
  qed
qed

definition count_calls :: "(call \<Rightarrow> bool) \<Rightarrow> call list \<Rightarrow> i64" where
  "count_calls P cs = of_nat (length (filter P cs))"

lemma count_calls_simps [simp]:
  "count_calls P [] = 0"
  "count_calls P (c # cs) = (if P c then 1 else 0) + count_calls P cs"
  by (simp_all add: count_calls_def)

text \<open>
  The counters account for every call: after any sequence of calls each counter has
  grown by the number of calls of its kind, the first three kinds partition the calls, and
  a defaulted tier is counted only for priced calls.
\<close>

theorem pricing_counters:
  "let l = lookup_table p; p' = fold (cost_call uni) calls p in
   lookup_table p' = l \<and>
   Hits (stats p') = Hits (stats p) + count_calls (priced uni l) calls \<and>
   MissProviderModel (stats p') = MissProviderModel (stats p) + count_calls (unknown_model uni l) calls \<and>
   MissTier (stats p') = MissTier (stats p) + count_calls (\<lambda>c. \<not> unknown_model uni l c \<and> \<not> priced uni l c) calls \<and>
   DefaultedLatestTier (stats p') = DefaultedLatestTier (stats p) + count_calls (untimed uni l) calls \<and>
   (Hits (stats p') - Hits (stats p)) + (MissProviderModel (stats p') - MissProviderModel (stats p)) +
     (MissTier (stats p') - MissTier (stats p)) = of_nat (length calls)"
proof (induction calls arbitrary: p)
  case (Cons c cs)
  have x: "priced uni l c \<Longrightarrow> \<not> unknown_model uni l c" for l
    by (auto simp: priced_def unknown_model_def split: prod.splits option.splits)
  show ?case
    using Cons.IH [of "cost_call uni c p"] cost_call_step [of uni c p] x [of "lookup_table p"]
    by (auto simp: Let_def algebra_simps)
qed simp

end
