(* ===== verification/Parity_Manifest.thy ===== *)
theory Parity_Manifest
  imports Prelude
begin

text \<open>
  The artifact manifests the parity gate compares (\<open>internal/parity/manifest.go\<close>), the
  findings and results of a comparison (\<open>result.go\<close>) and the availability matrices of the
  adapters (\<open>matrix.go\<close>).

  The string enumerations of Go are strings here too: a manifest read from JSON may hold
  any value. A message is a constructor per format string with the values it prints.
\<close>

section \<open>Constants\<close>

definition ClassSessionBoundary :: string where "ClassSessionBoundary = ''session_boundary''"
definition ClassTurnBoundary :: string where "ClassTurnBoundary = ''turn_boundary''"
definition ClassOpBoundary :: string where "ClassOpBoundary = ''op_boundary''"
definition ClassUserPrompt :: string where "ClassUserPrompt = ''user_prompt''"
definition ClassUserImage :: string where "ClassUserImage = ''user_image''"
definition ClassAssistantMessage :: string where "ClassAssistantMessage = ''assistant_message''"
definition ClassReasoningText :: string where "ClassReasoningText = ''reasoning_text''"
definition ClassLLMRequest :: string where "ClassLLMRequest = ''llm_request''"
definition ClassLLMResponse :: string where "ClassLLMResponse = ''llm_response''"
definition ClassLLMSDKRequest :: string where "ClassLLMSDKRequest = ''llm_sdk_request''"
definition ClassLLMSDKResponse :: string where "ClassLLMSDKResponse = ''llm_sdk_response''"
definition ClassToolRequest :: string where "ClassToolRequest = ''tool_request''"
definition ClassToolResponse :: string where "ClassToolResponse = ''tool_response''"
definition ClassLLMError :: string where "ClassLLMError = ''llm_error''"
definition ClassToolError :: string where "ClassToolError = ''tool_error''"
definition ClassSubagentLink :: string where "ClassSubagentLink = ''subagent_link''"
definition ClassSystemOp :: string where "ClassSystemOp = ''system_op''"
definition ClassCompactionEvent :: string where "ClassCompactionEvent = ''compaction_event''"
definition ClassSessionMetadata :: string where "ClassSessionMetadata = ''session_metadata''"
definition ClassLogEntry :: string where "ClassLogEntry = ''log_entry''"
definition ClassAttachmentMetadata :: string where "ClassAttachmentMetadata = ''attachment_metadata''"
definition ClassPatchMetadata :: string where "ClassPatchMetadata = ''patch_metadata''"
definition ClassSourceCorruption :: string where "ClassSourceCorruption = ''source_corruption''"

definition AvailabilityAvailable :: string where "AvailabilityAvailable = ''available''"
definition AvailabilitySourceUnavailable :: string where "AvailabilitySourceUnavailable = ''source_unavailable''"
definition AvailabilitySourceEmpty :: string where "AvailabilitySourceEmpty = ''source_empty''"
definition AvailabilityPartialSource :: string where "AvailabilityPartialSource = ''partial_source''"
definition AvailabilityRedacted :: string where "AvailabilityRedacted = ''redacted''"
definition AvailabilityCompactedAway :: string where "AvailabilityCompactedAway = ''compacted_away''"
definition AvailabilitySourceCorrupt :: string where "AvailabilitySourceCorrupt = ''source_corrupt''"
definition AvailabilityUnverifiable :: string where "AvailabilityUnverifiable = ''unverifiable''"

definition HashSemanticText :: string where "HashSemanticText = ''semantic_text''"
definition HashCanonicalJSON :: string where "HashCanonicalJSON = ''canonical_json''"
definition HashRawBytes :: string where "HashRawBytes = ''raw_bytes''"
definition HashIdentityJSON :: string where "HashIdentityJSON = ''identity_json''"

definition SyntheticTurnSynthesis :: string where "SyntheticTurnSynthesis = ''turn_synthesis''"
definition SyntheticStatusInference :: string where "SyntheticStatusInference = ''status_inference''"
definition SyntheticLinkageResolution :: string where "SyntheticLinkageResolution = ''linkage_resolution''"
definition SyntheticOrphanRepair :: string where "SyntheticOrphanRepair = ''orphan_repair''"
definition SyntheticAdapterHelper :: string where "SyntheticAdapterHelper = ''adapter_helper''"

definition MatrixAvailable :: string where "MatrixAvailable = ''available''"
definition MatrixSourceUnavailable :: string where "MatrixSourceUnavailable = ''source_unavailable''"
definition MatrixSourceEmpty :: string where "MatrixSourceEmpty = ''source_empty''"
definition MatrixPartialSource :: string where "MatrixPartialSource = ''partial_source''"
definition MatrixRedacted :: string where "MatrixRedacted = ''redacted''"
definition MatrixCompactedAway :: string where "MatrixCompactedAway = ''compacted_away''"
definition MatrixNotSourceVisible :: string where "MatrixNotSourceVisible = ''not_source_visible''"
definition MatrixUnknown :: string where "MatrixUnknown = ''unknown''"

definition EmptySHA256 :: string where "EmptySHA256 =
  ''e3b0c44298fc1c149afbf4c8996fb92427ae41e4649b934ca495991b7852b855''"

definition SchemaVersion :: int where "SchemaVersion = 1"

lemmas class_defs = ClassSessionBoundary_def ClassTurnBoundary_def ClassOpBoundary_def
   ClassUserPrompt_def ClassUserImage_def ClassAssistantMessage_def ClassReasoningText_def
   ClassLLMRequest_def ClassLLMResponse_def ClassLLMSDKRequest_def ClassLLMSDKResponse_def
   ClassToolRequest_def ClassToolResponse_def ClassLLMError_def ClassToolError_def
   ClassSubagentLink_def ClassSystemOp_def ClassCompactionEvent_def ClassSessionMetadata_def
   ClassLogEntry_def ClassAttachmentMetadata_def ClassPatchMetadata_def ClassSourceCorruption_def

lemmas availability_defs = AvailabilityAvailable_def AvailabilitySourceUnavailable_def
   AvailabilitySourceEmpty_def AvailabilityPartialSource_def AvailabilityRedacted_def
   AvailabilityCompactedAway_def AvailabilitySourceCorrupt_def AvailabilityUnverifiable_def

lemmas hash_defs = HashSemanticText_def HashCanonicalJSON_def HashRawBytes_def HashIdentityJSON_def

lemmas synthetic_defs = SyntheticTurnSynthesis_def SyntheticStatusInference_def
   SyntheticLinkageResolution_def SyntheticOrphanRepair_def SyntheticAdapterHelper_def

lemmas matrix_availability_defs = MatrixAvailable_def MatrixSourceUnavailable_def
   MatrixSourceEmpty_def MatrixPartialSource_def MatrixRedacted_def MatrixCompactedAway_def
   MatrixNotSourceVisible_def MatrixUnknown_def

section \<open>Artifacts\<close>

record ByteRange =
  br_Start :: i64
  br_End :: i64

record Selector =
  URI :: string
  JSONPointer :: string
  FieldPath :: string
  sel_ByteRange :: "ByteRange option"

record IntegrityFailure =
  if_Field :: string
  if_Expected :: string
  if_Actual :: string

record Artifact =
  a_SchemaVersion :: int
  a_Adapter :: string
  a_SourceID :: string
  a_SourceFile :: string
  a_CanonicalSessionID :: string
  a_CanonicalTurnID :: string
  a_CanonicalOpID :: string
  a_PayloadRefID :: i64
  a_NativeSessionID :: string
  a_NativeTurnID :: string
  a_NativeArtifactID :: string
  a_Class :: string
  a_Availability :: string
  a_HashDomain :: string
  a_Selector :: Selector
  a_Bytes :: i64
  a_Chars :: i64
  a_ComputedSHA256 :: string
  a_ProducerSHA256 :: string
  a_IntegrityFailures :: "IntegrityFailure list"
  a_Synthetic :: bool
  a_SyntheticReason :: string

record MatchKey =
  mk_SchemaVersion :: int
  mk_Adapter :: string
  mk_SourceID :: string
  mk_NativeSessionID :: string
  mk_Class :: string
  mk_NativeArtifactID :: string

record ClasslessKey =
  ck_SchemaVersion :: int
  ck_Adapter :: string
  ck_SourceID :: string
  ck_NativeSessionID :: string
  ck_NativeArtifactID :: string

definition Artifact_Key :: "Artifact \<Rightarrow> MatchKey" where
  "Artifact_Key a = \<lparr>mk_SchemaVersion = a_SchemaVersion a, mk_Adapter = a_Adapter a,
     mk_SourceID = a_SourceID a, mk_NativeSessionID = a_NativeSessionID a,
     mk_Class = a_Class a, mk_NativeArtifactID = a_NativeArtifactID a\<rparr>"

definition Artifact_ClasslessKey :: "Artifact \<Rightarrow> ClasslessKey" where
  "Artifact_ClasslessKey a = \<lparr>ck_SchemaVersion = a_SchemaVersion a, ck_Adapter = a_Adapter a,
     ck_SourceID = a_SourceID a, ck_NativeSessionID = a_NativeSessionID a,
     ck_NativeArtifactID = a_NativeArtifactID a\<rparr>"

datatype message =
    MsgText string
  | MsgSchemaVersion int int
  | MsgMissing string
  | MsgIntegrityMissing nat string
  | MsgClass string string
  | MsgAvailability string string
  | MsgHashDomain string string
  | MsgBytes i64 i64
  | MsgChars i64 i64
  | MsgNotInMatrix string string
  | MsgAvailabilityNotAllowed string
  | MsgHashNotAllowed string
  | MsgDuplicate string

definition ByteProofRequired :: "Artifact \<Rightarrow> bool" where
  "ByteProofRequired a \<longleftrightarrow> a_Availability a \<in> set [AvailabilityAvailable, AvailabilitySourceEmpty,
     AvailabilityPartialSource, AvailabilityRedacted, AvailabilityCompactedAway]"

definition SelectorProofRequired :: "Artifact \<Rightarrow> bool" where
  "SelectorProofRequired a \<longleftrightarrow> ByteProofRequired a \<and>
     a_Class a \<in> set [ClassUserPrompt, ClassUserImage, ClassAssistantMessage, ClassReasoningText,
       ClassLLMRequest, ClassLLMResponse, ClassLLMSDKRequest, ClassLLMSDKResponse, ClassToolRequest,
       ClassToolResponse, ClassLogEntry, ClassAttachmentMetadata, ClassPatchMetadata]"

definition validSyntheticReason :: "string \<Rightarrow> bool" where
  "validSyntheticReason reason \<longleftrightarrow> reason \<in> set [SyntheticTurnSynthesis, SyntheticStatusInference,
     SyntheticLinkageResolution, SyntheticOrphanRepair, SyntheticAdapterHelper]"

definition syntheticIsDocumented :: "Artifact \<Rightarrow> bool" where
  "syntheticIsDocumented a \<longleftrightarrow>
     (if \<not> a_Synthetic a \<or> \<not> validSyntheticReason (a_SyntheticReason a) then False
      else prefix (''synthetic:'' @ a_SyntheticReason a @ '':'') (a_NativeArtifactID a))"

definition validateRequiredIdentity :: "Artifact \<Rightarrow> message option" where
  "validateRequiredIdentity a =
     (if a_SchemaVersion a \<noteq> SchemaVersion then Some (MsgSchemaVersion (a_SchemaVersion a) SchemaVersion)
      else if a_Adapter a = [] then Some (MsgMissing ''adapter'')
      else if a_SourceID a = [] then Some (MsgMissing ''source_id'')
      else if a_NativeSessionID a = [] then Some (MsgMissing ''native_session_id'')
      else if a_NativeArtifactID a = [] then Some (MsgMissing ''native_artifact_id'')
      else if a_Class a = [] then Some (MsgMissing ''class'')
      else if a_Availability a = [] then Some (MsgMissing ''availability'')
      else None)"

fun integrity_failures_error :: "nat \<Rightarrow> IntegrityFailure list \<Rightarrow> message option" where
  "integrity_failures_error i [] = None"
| "integrity_failures_error i (f # fs) =
     (if if_Field f = [] then Some (MsgIntegrityMissing i ''field'')
      else if if_Expected f = [] then Some (MsgIntegrityMissing i ''expected'')
      else if if_Actual f = [] then Some (MsgIntegrityMissing i ''actual'')
      else integrity_failures_error (Suc i) fs)"

definition validateSourceCorruptProof :: "Artifact \<Rightarrow> message option" where
  "validateSourceCorruptProof a =
     (if a_Availability a = AvailabilitySourceCorrupt then
        (if a_IntegrityFailures a = [] then Some (MsgText ''source_corrupt artifact lacks integrity_failures'')
         else integrity_failures_error 0 (a_IntegrityFailures a))
      else None)"

definition validateByteProofFields :: "Artifact \<Rightarrow> message option" where
  "validateByteProofFields a =
     (if a_HashDomain a = [] then Some (MsgMissing ''hash_domain'')
      else if URI (a_Selector a) = [] then Some (MsgMissing ''selector.uri'')
      else if ByteProofRequired a \<and> a_ComputedSHA256 a = [] then Some (MsgMissing ''computed_sha256'')
      else if a_Availability a = AvailabilitySourceEmpty then
        (if a_Bytes a \<noteq> 0 \<or> a_ComputedSHA256 a \<noteq> EmptySHA256 then Some (MsgText ''invalid source_empty proof'')
         else if a_HashDomain a = HashSemanticText \<and> a_Chars a \<noteq> 0 then Some (MsgText ''invalid source_empty proof'')
         else None)
      else None)"

definition Artifact_Validate :: "Artifact \<Rightarrow> message option" where
  "Artifact_Validate a = (case validateRequiredIdentity a of
       Some e \<Rightarrow> Some e
     | None \<Rightarrow>
        (case validateSourceCorruptProof a of
           Some e \<Rightarrow> Some e
         | None \<Rightarrow>
             if a_Availability a = AvailabilitySourceUnavailable then None
             else (case validateByteProofFields a of
                 Some e \<Rightarrow> Some e
               | None \<Rightarrow>
                   if a_Synthetic a \<and> \<not> validSyntheticReason (a_SyntheticReason a)
                   then Some (MsgText ''invalid synthetic_reason'') else None)))"

section \<open>Findings\<close>

datatype Severity = SeverityP0 | SeverityP1 | SeverityP2 | SeverityP3

datatype ResultState = StatePass | StateFail | StateIncomplete | StateSampleOnly

datatype FindingCode =
    CodeMissingCanonical | CodeExtraCanonical | CodeDuplicateSource | CodeDuplicateCanonical
  | CodeClassMismatch | CodeHashMismatch | CodeHashDomainMismatch | CodeBytesMismatch
  | CodeCharsMismatch | CodeAvailabilityMismatch | CodeSelectorMismatch | CodeUnverifiableCanonical
  | CodeInvalidSourceArtifact | CodeInvalidCanonicalArtifact | CodeUndocumentedSynthetic
  | CodeSourceCorrupt | CodeMatrixMismatch

fun severity_string :: "Severity \<Rightarrow> string" where
  "severity_string SeverityP0 = ''P0''"
| "severity_string SeverityP1 = ''P1''"
| "severity_string SeverityP2 = ''P2''"
| "severity_string SeverityP3 = ''P3''"

fun code_string :: "FindingCode \<Rightarrow> string" where
  "code_string CodeMissingCanonical = ''missing_canonical''"
| "code_string CodeExtraCanonical = ''extra_canonical''"
| "code_string CodeDuplicateSource = ''duplicate_source''"
| "code_string CodeDuplicateCanonical = ''duplicate_canonical''"
| "code_string CodeClassMismatch = ''class_mismatch''"
| "code_string CodeHashMismatch = ''hash_mismatch''"
| "code_string CodeHashDomainMismatch = ''hash_domain_mismatch''"
| "code_string CodeBytesMismatch = ''bytes_mismatch''"
| "code_string CodeCharsMismatch = ''chars_mismatch''"
| "code_string CodeAvailabilityMismatch = ''availability_mismatch''"
| "code_string CodeSelectorMismatch = ''selector_mismatch''"
| "code_string CodeUnverifiableCanonical = ''unverifiable_canonical''"
| "code_string CodeInvalidSourceArtifact = ''invalid_source_artifact''"
| "code_string CodeInvalidCanonicalArtifact = ''invalid_canonical_artifact''"
| "code_string CodeUndocumentedSynthetic = ''undocumented_synthetic''"
| "code_string CodeSourceCorrupt = ''source_corrupt''"
| "code_string CodeMatrixMismatch = ''matrix_mismatch''"

record Finding =
  f_Severity :: Severity
  f_Code :: FindingCode
  f_Adapter :: string
  f_SourceID :: string
  f_NativeSessionID :: string
  f_NativeArtifactID :: string
  f_Class :: string
  f_Message :: message
  f_IntegrityFailures :: "IntegrityFailure list"

record FindingSummary =
  fs_Severity :: Severity
  fs_Code :: FindingCode
  fs_Class :: string
  fs_Count :: nat

record Result =
  res_State :: ResultState
  res_TotalFindings :: nat
  res_FindingSummary :: "FindingSummary list"
  res_Findings :: "Finding list"

section \<open>The availability matrices\<close>

record MatrixRow =
  mr_Adapter :: string
  mr_Class :: string
  mr_Availability :: "string list"
  mr_HashDomains :: "string list"
  mr_CanonicalRepresentation :: string
  mr_SelectorRule :: string
  mr_Evidence :: string

record adapterMatrixBuilder =
  b_adapter :: string
  b_rows :: "string \<rightharpoonup> MatrixRow"

definition AllArtifactClasses :: "string list" where
  "AllArtifactClasses = [ClassSessionBoundary, ClassTurnBoundary, ClassOpBoundary, ClassUserPrompt,
     ClassUserImage, ClassAssistantMessage, ClassReasoningText, ClassLLMRequest, ClassLLMResponse,
     ClassLLMSDKRequest, ClassLLMSDKResponse, ClassToolRequest, ClassToolResponse, ClassLLMError,
     ClassToolError, ClassSubagentLink, ClassSystemOp, ClassCompactionEvent, ClassSessionMetadata,
     ClassLogEntry, ClassAttachmentMetadata, ClassPatchMetadata]"

definition newAdapterMatrixBuilder :: "string \<Rightarrow> adapterMatrixBuilder" where
  "newAdapterMatrixBuilder adapter =
     \<lparr>b_adapter = adapter,
      b_rows = fold (\<lambda>c rows. rows(c \<mapsto> \<lparr>mr_Adapter = adapter, mr_Class = c,
          mr_Availability = [MatrixUnknown], mr_HashDomains = [],
          mr_CanonicalRepresentation = ''open SOW-0097 gap'',
          mr_SelectorRule = ''class contract not closed yet'',
          mr_Evidence = ''adapter spec machine-readable matrix rows''\<rparr>)) AllArtifactClasses Map.empty\<rparr>"

definition matrix_set ::
    "string \<Rightarrow> string list \<Rightarrow> string list \<Rightarrow> string \<Rightarrow> string \<Rightarrow> string \<Rightarrow>
     adapterMatrixBuilder \<Rightarrow> adapterMatrixBuilder" where
  "matrix_set c availability hashes canonical selector evidence b =
     b\<lparr>b_rows := (b_rows b)(c \<mapsto> \<lparr>mr_Adapter = b_adapter b, mr_Class = c,
        mr_Availability = availability, mr_HashDomains = hashes,
        mr_CanonicalRepresentation = canonical, mr_SelectorRule = selector, mr_Evidence = evidence\<rparr>)\<rparr>"

definition notSourceVisible :: "string \<Rightarrow> string \<Rightarrow> adapterMatrixBuilder \<Rightarrow> adapterMatrixBuilder" where
  "notSourceVisible c evidence b =
     matrix_set c [MatrixNotSourceVisible] [] ''none'' ''source format has no separate artifact'' evidence b"

text \<open>A missing map entry reads as the zero row.\<close>

definition zero_row :: MatrixRow where
  "zero_row = \<lparr>mr_Adapter = [], mr_Class = [], mr_Availability = [], mr_HashDomains = [],
     mr_CanonicalRepresentation = [], mr_SelectorRule = [], mr_Evidence = []\<rparr>"

definition rowsInClassOrder :: "adapterMatrixBuilder \<Rightarrow> MatrixRow list" where
  "rowsInClassOrder b =
     map (\<lambda>c. case b_rows b c of Some row \<Rightarrow> row | None \<Rightarrow> zero_row) AllArtifactClasses"

definition aiagentV2MatrixRows :: "MatrixRow list" where
  "aiagentV2MatrixRows = rowsInClassOrder (fold (\<lambda>f. f) [
     matrix_set ClassSessionBoundary [MatrixAvailable] [HashIdentityJSON]
       ''sessions row''
       ''session:<traceId>'' ''adapter-aiagent-v2.md Source Manifest Parity'',
     matrix_set ClassTurnBoundary [MatrixAvailable] [HashIdentityJSON]
       ''turns row''
       ''turn:<turn.index> or turn:<10000+step.index>'' ''adapter-aiagent-v2.md Source Manifest Parity'',
     matrix_set ClassOpBoundary [MatrixAvailable] [HashIdentityJSON]
       ''ops row''
       ''op:<turn_seq>:<op_seq>'' ''adapter-aiagent-v2.md Source Manifest Parity'',
     notSourceVisible ClassUserPrompt ''adapter-aiagent-v2.md request payload contract'',
     notSourceVisible ClassUserImage ''adapter-aiagent-v2.md request payload contract'',
     matrix_set ClassAssistantMessage [MatrixAvailable] [HashCanonicalJSON]
       ''sessions.extras_json.final_report''
       ''session:<traceId>:final_report'' ''adapter-aiagent-v2.md finalReport'',
     matrix_set ClassReasoningText [MatrixAvailable] [HashSemanticText]
       ''reasoning op extras''
       ''op:<turn_seq>:<op_seq>:reasoning.final'' ''adapter-aiagent-v2.md reasoning.final'',
     matrix_set ClassLLMRequest [MatrixAvailable, MatrixSourceUnavailable, MatrixPartialSource] [HashRawBytes, HashCanonicalJSON, HashSemanticText]
       ''payload_refs.kind=llm_request''
       ''producer ref path, inline snapshot JSON pointer, or metadata-only ordinal'' ''adapter-aiagent-v2.md payload refs'',
     matrix_set ClassLLMResponse [MatrixAvailable, MatrixSourceUnavailable, MatrixPartialSource] [HashRawBytes, HashCanonicalJSON, HashSemanticText]
       ''payload_refs.kind=llm_response''
       ''producer ref path, inline snapshot JSON pointer, or metadata-only ordinal'' ''adapter-aiagent-v2.md payload refs'',
     matrix_set ClassLLMSDKRequest [MatrixAvailable, MatrixSourceUnavailable] [HashRawBytes]
       ''payload_refs.kind=llm_sdk_request''
       ''producer SDK ref path or metadata-only ordinal'' ''adapter-aiagent-v2.md payload refs'',
     matrix_set ClassLLMSDKResponse [MatrixAvailable, MatrixSourceUnavailable] [HashRawBytes]
       ''payload_refs.kind=llm_sdk_response''
       ''producer SDK ref path or metadata-only ordinal'' ''adapter-aiagent-v2.md payload refs'',
     matrix_set ClassToolRequest [MatrixAvailable, MatrixSourceUnavailable, MatrixPartialSource] [HashRawBytes, HashCanonicalJSON, HashSemanticText]
       ''payload_refs.kind=tool_request''
       ''producer ref path, inline snapshot JSON pointer, or metadata-only ordinal'' ''adapter-aiagent-v2.md payload refs'',
     matrix_set ClassToolResponse [MatrixAvailable, MatrixSourceUnavailable, MatrixPartialSource] [HashRawBytes, HashCanonicalJSON, HashSemanticText]
       ''payload_refs.kind=tool_response''
       ''producer ref path, inline snapshot JSON pointer, or metadata-only ordinal'' ''adapter-aiagent-v2.md payload refs'',
     matrix_set ClassLLMError [MatrixAvailable] [HashIdentityJSON]
       ''failed LLM ops row''
       ''op:<turn_seq>:<op_seq>:error'' ''adapter-aiagent-v2.md failed ops'',
     matrix_set ClassToolError [MatrixAvailable] [HashIdentityJSON]
       ''failed tool/session ops row''
       ''op:<turn_seq>:<op_seq>:error'' ''adapter-aiagent-v2.md failed ops'',
     matrix_set ClassSubagentLink [MatrixAvailable] [HashIdentityJSON]
       ''parent session op child link''
       ''op:<turn_seq>:<op_seq>:child_session:<child_traceId>'' ''adapter-aiagent-v2.md childSession'',
     matrix_set ClassSystemOp [MatrixAvailable] [HashIdentityJSON]
       ''ops.kind=system row''
       ''op:<turn_seq>:<op_seq>:system'' ''adapter-aiagent-v2.md Source Manifest Parity'',
     matrix_set ClassCompactionEvent [MatrixAvailable] [HashIdentityJSON]
       ''history-compaction step session op row plus ops.extras_json''
       ''op:<turn_seq>:<op_seq>:compaction'' ''adapter-aiagent-v2.md Source Manifest Parity'',
     matrix_set ClassSessionMetadata [MatrixAvailable] [HashIdentityJSON]
       ''sessions row plus sessions.extras_json''
       ''session:<traceId>:metadata'' ''adapter-aiagent-v2.md Source Manifest Parity'',
     matrix_set ClassLogEntry [MatrixAvailable, MatrixSourceEmpty] [HashSemanticText]
       ''log_entries rows with parity extras''
       ''source snapshot file URI plus JSON pointer'' ''adapter-aiagent-v2.md op/session logs'',
     notSourceVisible ClassAttachmentMetadata ''adapter-aiagent-v2.md opTree schema'',
     notSourceVisible ClassPatchMetadata ''adapter-aiagent-v2.md opTree schema'']
     (newAdapterMatrixBuilder ''aiagent_v2''))"

definition aiagentV3MatrixRows :: "MatrixRow list" where
  "aiagentV3MatrixRows = rowsInClassOrder (fold (\<lambda>f. f) [
     matrix_set ClassSessionBoundary [MatrixAvailable, MatrixPartialSource] [HashIdentityJSON]
       ''sessions row''
       ''session:<sessionId>'' ''adapter-aiagent-v3.md Source Manifest Parity'',
     matrix_set ClassTurnBoundary [MatrixAvailable] [HashIdentityJSON]
       ''turns row''
       ''turn:<turnNo>'' ''adapter-aiagent-v3.md Source Manifest Parity'',
     matrix_set ClassOpBoundary [MatrixAvailable] [HashIdentityJSON]
       ''ops row''
       ''op:<turnNo>:<opIndex>'' ''adapter-aiagent-v3.md Source Manifest Parity'',
     notSourceVisible ClassUserPrompt ''adapter-aiagent-v3.md payloadRefs schema'',
     notSourceVisible ClassUserImage ''adapter-aiagent-v3.md payloadRefs schema'',
     notSourceVisible ClassAssistantMessage ''adapter-aiagent-v3.md payloadRefs schema'',
     matrix_set ClassReasoningText [MatrixAvailable, MatrixSourceEmpty, MatrixSourceUnavailable] [HashSemanticText]
       ''payload_refs.kind=reasoning_stream''
       ''producer payload ref path or metadata-only ordinal'' ''adapter-aiagent-v3.md payloadRefs'',
     matrix_set ClassLLMRequest [MatrixAvailable, MatrixSourceEmpty, MatrixSourceUnavailable] [HashRawBytes]
       ''payload_refs.kind=llm_request''
       ''producer payload ref path or metadata-only ordinal'' ''adapter-aiagent-v3.md payloadRefs'',
     matrix_set ClassLLMResponse [MatrixAvailable, MatrixSourceEmpty, MatrixSourceUnavailable] [HashRawBytes]
       ''payload_refs.kind=llm_response''
       ''producer payload ref path or metadata-only ordinal'' ''adapter-aiagent-v3.md payloadRefs'',
     matrix_set ClassLLMSDKRequest [MatrixAvailable, MatrixSourceEmpty, MatrixSourceUnavailable] [HashRawBytes]
       ''payload_refs.kind=sdk_request''
       ''producer SDK ref path or metadata-only ordinal'' ''adapter-aiagent-v3.md SDK aliases'',
     matrix_set ClassLLMSDKResponse [MatrixAvailable, MatrixSourceEmpty, MatrixSourceUnavailable] [HashRawBytes]
       ''payload_refs.kind=sdk_response''
       ''producer SDK ref path or metadata-only ordinal'' ''adapter-aiagent-v3.md SDK aliases'',
     matrix_set ClassToolRequest [MatrixAvailable, MatrixSourceEmpty, MatrixSourceUnavailable] [HashRawBytes]
       ''payload_refs.kind=tool_request''
       ''producer payload ref path or metadata-only ordinal'' ''adapter-aiagent-v3.md payloadRefs'',
     matrix_set ClassToolResponse [MatrixAvailable, MatrixSourceEmpty, MatrixSourceUnavailable] [HashRawBytes]
       ''payload_refs.kind=tool_response''
       ''producer payload ref path or metadata-only ordinal'' ''adapter-aiagent-v3.md payloadRefs'',
     matrix_set ClassLLMError [MatrixAvailable] [HashIdentityJSON]
       ''failed LLM ops row''
       ''op:<turnNo>:<opIndex>:error'' ''adapter-aiagent-v3.md failed ops'',
     matrix_set ClassToolError [MatrixAvailable] [HashIdentityJSON]
       ''failed tool/session ops row''
       ''op:<turnNo>:<opIndex>:error'' ''adapter-aiagent-v3.md failed ops'',
     matrix_set ClassSubagentLink [MatrixAvailable] [HashIdentityJSON]
       ''parent op child session link''
       ''op:<turnNo>:<opIndex>:child_session:<childSessionId>'' ''adapter-aiagent-v3.md childSessions'',
     matrix_set ClassSystemOp [MatrixAvailable] [HashIdentityJSON]
       ''ops.kind=system row''
       ''op:<turnNo>:<opIndex>:system'' ''adapter-aiagent-v3.md Source Manifest Parity'',
     matrix_set ClassCompactionEvent [MatrixAvailable] [HashIdentityJSON]
       ''history-compaction session ops row plus ops.extras_json''
       ''op:<turnNo>:<opIndex>:compaction'' ''adapter-aiagent-v3.md Source Manifest Parity'',
     matrix_set ClassSessionMetadata [MatrixAvailable] [HashIdentityJSON]
       ''sessions row plus sessions.extras_json''
       ''session:<sessionId>:metadata'' ''adapter-aiagent-v3.md Source Manifest Parity'',
     matrix_set ClassLogEntry [MatrixAvailable, MatrixSourceEmpty] [HashSemanticText]
       ''log_entries rows with parity extras''
       ''ledger seq warning/error JSON pointer'' ''adapter-aiagent-v3.md warnings/errors'',
     notSourceVisible ClassAttachmentMetadata ''adapter-aiagent-v3.md ledger schema'',
     notSourceVisible ClassPatchMetadata ''adapter-aiagent-v3.md ledger schema'']
     (newAdapterMatrixBuilder ''aiagent_v3''))"

definition claudeCodeMatrixRows :: "MatrixRow list" where
  "claudeCodeMatrixRows = rowsInClassOrder (fold (\<lambda>f. f) [
     matrix_set ClassSessionBoundary [MatrixAvailable] [HashIdentityJSON]
       ''sessions row''
       ''session:<native_session_id>'' ''adapter-claude-code.md parity table'',
     matrix_set ClassTurnBoundary [MatrixAvailable] [HashIdentityJSON]
       ''turns row''
       ''turn:<seq>'' ''adapter-claude-code.md parity table'',
     matrix_set ClassOpBoundary [MatrixAvailable] [HashIdentityJSON]
       ''ops row''
       ''op:<turn_seq>:<op_seq>'' ''adapter-claude-code.md parity table'',
     matrix_set ClassUserPrompt [MatrixAvailable, MatrixSourceEmpty] [HashSemanticText]
       ''internal user-input op payload''
       ''line:<line>:/message/content[/<i>/text]'' ''adapter-claude-code.md parity table'',
     matrix_set ClassUserImage [MatrixAvailable] [HashCanonicalJSON]
       ''internal user-input op payload''
       ''line:<line>:/message/content/<i>'' ''adapter-claude-code.md parity table'',
     matrix_set ClassAssistantMessage [MatrixAvailable, MatrixSourceEmpty] [HashSemanticText]
       ''LLM op response payload''
       ''line:<line>:/message/content/<i>/text'' ''adapter-claude-code.md parity table'',
     matrix_set ClassReasoningText [MatrixAvailable, MatrixSourceEmpty] [HashSemanticText]
       ''reasoning op payload''
       ''line:<line>:/message/content/<i>/thinking'' ''adapter-claude-code.md parity table'',
     matrix_set ClassLLMRequest [MatrixSourceUnavailable] []
       ''none''
       ''provider request envelope not persisted'' ''adapter-claude-code.md parity table'',
     matrix_set ClassLLMResponse [MatrixSourceUnavailable] []
       ''none for provider envelope''
       ''provider response envelope not persisted'' ''adapter-claude-code.md parity table'',
     notSourceVisible ClassLLMSDKRequest ''adapter-claude-code.md transcript schema'',
     notSourceVisible ClassLLMSDKResponse ''adapter-claude-code.md transcript schema'',
     matrix_set ClassToolRequest [MatrixAvailable, MatrixSourceEmpty] [HashCanonicalJSON, HashSemanticText]
       ''tool/session op payload''
       ''line:<line>:/message/content/<i>/input'' ''adapter-claude-code.md parity table'',
     matrix_set ClassToolResponse [MatrixAvailable, MatrixSourceEmpty] [HashCanonicalJSON, HashSemanticText]
       ''finalized tool op payload''
       ''line:<line>:/message/content/<i>/content or /toolUseResult'' ''adapter-claude-code.md parity table'',
     matrix_set ClassLLMError [MatrixAvailable] [HashIdentityJSON]
       ''failed LLM op''
       ''op:<turn_seq>:<op_seq>:error'' ''adapter-claude-code.md parity table'',
     matrix_set ClassToolError [MatrixAvailable] [HashIdentityJSON]
       ''failed tool op''
       ''op:<turn_seq>:<op_seq>:error'' ''adapter-claude-code.md parity table'',
     matrix_set ClassSubagentLink [MatrixAvailable] [HashIdentityJSON]
       ''parent Agent op child session id''
       ''op:<turn_seq>:<op_seq>:child_session:<parentSessionId>:agent:<agentId>'' ''adapter-claude-code.md sidecars'',
     matrix_set ClassSystemOp [MatrixAvailable] [HashIdentityJSON]
       ''logged system record row''
       ''line:<line>:/system'' ''adapter-claude-code.md parity table'',
     matrix_set ClassCompactionEvent [MatrixAvailable] [HashIdentityJSON]
       ''compaction op metadata''
       ''op:<turn_seq>:<op_seq>:compaction'' ''adapter-claude-code.md compaction table'',
     matrix_set ClassSessionMetadata [MatrixAvailable] [HashIdentityJSON]
       ''sessions row plus sessions.extras_json''
       ''session:<sessionId>:metadata'' ''adapter-claude-code.md parity table'',
     matrix_set ClassLogEntry [MatrixAvailable, MatrixSourceEmpty] [HashSemanticText]
       ''compaction/log payload''
       ''line:<line>:/log or line:<line>:/message/content'' ''adapter-claude-code.md parity table'',
     matrix_set ClassAttachmentMetadata [MatrixAvailable] [HashIdentityJSON]
       ''attachment log row''
       ''line:<line>:/attachment'' ''adapter-claude-code.md attachment table'',
     notSourceVisible ClassPatchMetadata ''adapter-claude-code.md transcript schema'']
     (newAdapterMatrixBuilder ''claude-code''))"

definition codexMatrixRows :: "MatrixRow list" where
  "codexMatrixRows = rowsInClassOrder (fold (\<lambda>f. f) [
     matrix_set ClassSessionBoundary [MatrixAvailable] [HashIdentityJSON]
       ''sessions row''
       ''session:<session_meta.payload.id> or session:<legacy-header.id>'' ''adapter-codex.md initial classes'',
     matrix_set ClassTurnBoundary [MatrixAvailable] [HashIdentityJSON]
       ''turns row''
       ''turn:<seq>'' ''adapter-codex.md initial classes'',
     matrix_set ClassOpBoundary [MatrixAvailable] [HashIdentityJSON]
       ''ops row''
       ''op:<turn_seq>:<op_seq>'' ''adapter-codex.md initial classes'',
     matrix_set ClassUserPrompt [MatrixAvailable, MatrixSourceEmpty] [HashSemanticText, HashCanonicalJSON]
       ''internal user-input op payload''
       ''source line/file selector plus user-content pointer'' ''adapter-codex.md initial classes'',
     matrix_set ClassUserImage [MatrixAvailable] [HashCanonicalJSON]
       ''internal user-input op plus payload_refs.kind=tool_request''
       ''source line selector plus JSON pointer to image block/reference/detail'' ''adapter-codex.md user_image parity'',
     matrix_set ClassAssistantMessage [MatrixAvailable, MatrixSourceEmpty] [HashSemanticText]
       ''LLM message op payload''
       ''source line/file selector plus assistant-text pointer'' ''adapter-codex.md initial classes'',
     matrix_set ClassReasoningText [MatrixAvailable, MatrixSourceEmpty] [HashSemanticText]
       ''reasoning op payload''
       ''source line/file selector plus reasoning pointer'' ''adapter-codex.md initial classes'',
     notSourceVisible ClassLLMRequest ''adapter-codex.md rollout item schema'',
     notSourceVisible ClassLLMResponse ''adapter-codex.md rollout item schema'',
     notSourceVisible ClassLLMSDKRequest ''adapter-codex.md rollout item schema'',
     notSourceVisible ClassLLMSDKResponse ''adapter-codex.md rollout item schema'',
     matrix_set ClassLLMError [MatrixNotSourceVisible] []
       ''none as an LLM op error; generic errors are log_entry''
       ''source format has no provider/model error envelope tied to an LLM op'' ''adapter-codex.md event_msg.error'',
     matrix_set ClassToolRequest [MatrixAvailable, MatrixSourceUnavailable, MatrixSourceEmpty] [HashSemanticText, HashCanonicalJSON, HashRawBytes]
       ''tool op payload''
       ''source line/file selector plus tool-input pointer or whole record'' ''adapter-codex.md initial classes'',
     matrix_set ClassToolResponse [MatrixAvailable, MatrixSourceUnavailable, MatrixSourceEmpty] [HashSemanticText, HashCanonicalJSON]
       ''finalized tool op payload''
       ''source line/file selector plus output pointer'' ''adapter-codex.md initial classes'',
     matrix_set ClassToolError [MatrixAvailable] [HashIdentityJSON]
       ''failed ops row''
       ''op:<turn_seq>:<op_seq>:error'' ''adapter-codex.md initial classes'',
     matrix_set ClassSubagentLink [MatrixAvailable] [HashIdentityJSON]
       ''session spawn op child id''
       ''op:<turn_seq>:<op_seq>:child_session:<new_thread_id>'' ''adapter-codex.md collab spawn'',
     matrix_set ClassSystemOp [MatrixAvailable] [HashIdentityJSON]
       ''log_entries rows for lifecycle/review/default metadata events''
       ''log:<scope>:<timestamp>:<severity>:<source-hash>:<message-hash>'' ''adapter-codex.md system-op events'',
     matrix_set ClassCompactionEvent [MatrixAvailable] [HashIdentityJSON]
       ''compaction op metadata''
       ''op:<turn_seq>:<op_seq>:compaction'' ''adapter-codex.md compaction rules'',
     matrix_set ClassSessionMetadata [MatrixAvailable] [HashIdentityJSON]
       ''sessions row plus sessions.extras_json''
       ''session:<session_meta.payload.id>:metadata'' ''adapter-codex.md session_meta parity'',
     matrix_set ClassLogEntry [MatrixAvailable, MatrixSourceEmpty] [HashSemanticText, HashRawBytes]
       ''log row or log payload ref''
       ''line:<line>:/payload/message or whole-line compaction body'' ''adapter-codex.md initial classes'',
     notSourceVisible ClassAttachmentMetadata ''adapter-codex.md rollout item schema'',
     notSourceVisible ClassPatchMetadata ''adapter-codex.md rollout item schema'']
     (newAdapterMatrixBuilder ''codex''))"

definition opencodeMatrixRows :: "MatrixRow list" where
  "opencodeMatrixRows = rowsInClassOrder (fold (\<lambda>f. f) [
     matrix_set ClassSessionBoundary [MatrixAvailable] [HashIdentityJSON]
       ''sessions row''
       ''session:<session.id>'' ''adapter-opencode.md Source Manifest Parity'',
     matrix_set ClassTurnBoundary [MatrixAvailable] [HashIdentityJSON]
       ''turns row''
       ''turn:<seq>'' ''adapter-opencode.md Source Manifest Parity'',
     matrix_set ClassOpBoundary [MatrixAvailable] [HashIdentityJSON]
       ''ops row''
       ''op:<turn_seq>:<op_seq>'' ''adapter-opencode.md Source Manifest Parity'',
     matrix_set ClassUserPrompt [MatrixAvailable, MatrixSourceUnavailable] [HashSemanticText]
       ''internal user-input op payload''
       ''input:<id>:prompt.text or metadata-only canonical ordinal'' ''adapter-opencode.md Source Manifest Parity'',
     matrix_set ClassUserImage [MatrixAvailable] [HashCanonicalJSON]
       ''internal user-input op plus payload_refs.kind=tool_request over image file objects''
       ''input:<id>:prompt.files.<index>'' ''adapter-opencode.md Source Manifest Parity'',
     matrix_set ClassAssistantMessage [MatrixAvailable, MatrixSourceEmpty] [HashSemanticText]
       ''LLM op response payload''
       ''part:<id>:text'' ''adapter-opencode.md Source Manifest Parity'',
     matrix_set ClassReasoningText [MatrixAvailable, MatrixSourceEmpty] [HashSemanticText]
       ''reasoning op payload''
       ''part:<id>:text'' ''adapter-opencode.md Source Manifest Parity'',
     notSourceVisible ClassLLMRequest ''adapter-opencode.md payload field map'',
     notSourceVisible ClassLLMResponse ''adapter-opencode.md payload field map'',
     notSourceVisible ClassLLMSDKRequest ''adapter-opencode.md payload field map'',
     notSourceVisible ClassLLMSDKResponse ''adapter-opencode.md payload field map'',
     matrix_set ClassToolRequest [MatrixAvailable, MatrixSourceEmpty] [HashCanonicalJSON, HashSemanticText]
       ''tool op payload''
       ''part:<id>:state.input'' ''adapter-opencode.md Source Manifest Parity'',
     matrix_set ClassToolResponse [MatrixAvailable, MatrixSourceEmpty] [HashCanonicalJSON, HashSemanticText]
       ''finalized tool op payload''
       ''part:<id>:state.output'' ''adapter-opencode.md Source Manifest Parity'',
     matrix_set ClassLLMError [MatrixAvailable] [HashIdentityJSON]
       ''failed opencode turn plus terminal session error detail when present''
       ''turn:<turnSeq>:assistant_error'' ''adapter-opencode.md Source Manifest Parity'',
     matrix_set ClassToolError [MatrixAvailable] [HashIdentityJSON]
       ''failed tool op''
       ''op:<turn_seq>:<op_seq>:error'' ''adapter-opencode.md Source Manifest Parity'',
     matrix_set ClassSubagentLink [MatrixAvailable] [HashIdentityJSON]
       ''task session op child id''
       ''op:<turn_seq>:<op_seq>:child_session:<child_session_id>'' ''adapter-opencode.md Source Manifest Parity'',
     matrix_set ClassSystemOp [MatrixAvailable] [HashIdentityJSON]
       ''session-scoped log row with session_message_id parity extras''
       ''session_message:<id>:system_op'' ''adapter-opencode.md Source Manifest Parity'',
     matrix_set ClassCompactionEvent [MatrixAvailable] [HashIdentityJSON]
       ''compaction part log row plus part_id extras''
       ''part:<id>:compaction'' ''adapter-opencode.md Source Manifest Parity'',
     matrix_set ClassSessionMetadata [MatrixAvailable] [HashIdentityJSON]
       ''sessions row plus first-class session columns and sessions.extras_json''
       ''session:<session.id>:metadata'' ''adapter-opencode.md Source Manifest Parity'',
     matrix_set ClassLogEntry [MatrixAvailable, MatrixSourceEmpty] [HashSemanticText]
       ''log row for compaction/retry/file parts and known session_message rows''
       ''part log id or session_message:<id>:log via parity extras'' ''adapter-opencode.md Source Manifest Parity'',
     matrix_set ClassAttachmentMetadata [MatrixAvailable] [HashIdentityJSON]
       ''file part log row plus part_id extras''
       ''part:<id>:file'' ''adapter-opencode.md Source Manifest Parity'',
     matrix_set ClassPatchMetadata [MatrixAvailable] [HashIdentityJSON]
       ''source patch part matched to LLM op extras_json.patches[] metadata''
       ''part:<id>:patch'' ''adapter-opencode.md Source Manifest Parity'']
     (newAdapterMatrixBuilder ''opencode''))"

definition AdapterAvailabilityMatrices :: "string \<rightharpoonup> MatrixRow list" where
  "AdapterAvailabilityMatrices = map_of [(''aiagent_v2'', aiagentV2MatrixRows),
     (''aiagent_v3'', aiagentV3MatrixRows), (''claude-code'', claudeCodeMatrixRows),
     (''codex'', codexMatrixRows), (''opencode'', opencodeMatrixRows)]"

definition matrixRowFor :: "string \<Rightarrow> string \<Rightarrow> MatrixRow option" where
  "matrixRowFor adapter c = (case AdapterAvailabilityMatrices adapter of
       None \<Rightarrow> None
     | Some rows \<Rightarrow> find (\<lambda>row. mr_Class row = c) rows)"

definition matrixAvailabilityFromArtifact :: "string \<Rightarrow> string" where
  "matrixAvailabilityFromArtifact availability = availability"

definition matrixRowAllows :: "MatrixRow \<Rightarrow> string \<Rightarrow> bool" where
  "matrixRowAllows row availability \<longleftrightarrow> list_ex (\<lambda>candidate. candidate = availability) (mr_Availability row)"

definition matrixRowAllowsHash :: "MatrixRow \<Rightarrow> string \<Rightarrow> bool" where
  "matrixRowAllowsHash row domain \<longleftrightarrow> list_ex (\<lambda>candidate. candidate = domain) (mr_HashDomains row)"

definition validateArtifactAgainstMatrix :: "Artifact \<Rightarrow> message option" where
  "validateArtifactAgainstMatrix a =
     (if a_Availability a = AvailabilitySourceCorrupt \<or> a_Availability a = AvailabilityUnverifiable then None
      else (case matrixRowFor (a_Adapter a) (a_Class a) of
          None \<Rightarrow> Some (MsgNotInMatrix (a_Adapter a) (a_Class a))
        | Some row \<Rightarrow>
            if matrixRowAllows row MatrixUnknown then None
            else if \<not> matrixRowAllows row (matrixAvailabilityFromArtifact (a_Availability a))
              then Some (MsgAvailabilityNotAllowed (a_Availability a))
            else if a_HashDomain a \<noteq> [] \<and> mr_HashDomains row \<noteq> [] \<and> \<not> matrixRowAllowsHash row (a_HashDomain a)
              then Some (MsgHashNotAllowed (a_HashDomain a))
            else None))"

end
