(* ===== verification/Parity_Diff.thy ===== *)
theory Parity_Diff
  imports Parity_Manifest
begin

text \<open>
  The comparison of two manifests: in memory (\<open>internal/parity/diff.go\<close>) and over a
  temporary SQL index (\<open>diff_stream.go\<close>).

  What can interrupt a run (a cancelled context at a poll, a failing SQL statement, a row that
  cannot be fetched or scanned) is a budget of successful polls, statements and row reads,
  \<open>None\<close> for unlimited; a step that finds it used up ends the run, which is the value \<open>None\<close>
  of the step. A row whose JSON does not decode ends the run whatever the budget. An SQL statement is
  modelled by its effect on the table \<open>artifacts\<close>, the list of its rows in the order of
  their id. The JSON of a row is written by the parameter \<open>enc\<close> and read by \<open>dec\<close>.
\<close>

section \<open>Interruption\<close>

definition diffContextCheckInterval :: nat where "diffContextCheckInterval = 4096"

definition checkDiffContext :: "nat \<Rightarrow> budget \<Rightarrow> budget option" where
  "checkDiffContext n b = (if n mod diffContextCheckInterval \<noteq> 0 then Some b else tick b)"

section \<open>Collecting findings\<close>

record findingSummaryKey =
  sk_severity :: Severity
  sk_code :: FindingCode
  sk_class :: string

record findingAccumulator =
  maxFindings :: int
  total :: nat
  state :: ResultState
  details :: "Finding list"
  summary :: "(findingSummaryKey \<times> nat) list"

definition newFindingAccumulator :: "int \<Rightarrow> findingAccumulator" where
  "newFindingAccumulator n =
     \<lparr>maxFindings = n, total = 0, state = StatePass, details = [], summary = []\<rparr>"

definition summary_key :: "Finding \<Rightarrow> findingSummaryKey" where
  "summary_key f = \<lparr>sk_severity = f_Severity f, sk_code = f_Code f, sk_class = f_Class f\<rparr>"

definition acc_add :: "Finding \<Rightarrow> findingAccumulator \<Rightarrow> findingAccumulator" where
  "acc_add f a =
     (let a = a\<lparr>total := total a + 1\<rparr>;
          key = summary_key f;
          a = a\<lparr>summary := alist_put key ((case map_of (summary a) key of None \<Rightarrow> 0 | Some n \<Rightarrow> n) + 1) (summary a)\<rparr>;
          a = (if maxFindings a < 0 \<or> int (length (details a)) < maxFindings a
               then a\<lparr>details := details a @ [f]\<rparr> else a)
      in if f_Code f = CodeSourceCorrupt then a\<lparr>state := StateIncomplete\<rparr>
         else if state a = StatePass \<and> f_Severity f \<in> {SeverityP0, SeverityP1, SeverityP2}
         then a\<lparr>state := StateFail\<rparr> else a)"

definition addAll :: "Finding list \<Rightarrow> findingAccumulator \<Rightarrow> findingAccumulator" where
  "addAll fs a = fold acc_add fs a"

definition findingSortKey :: "Finding \<Rightarrow> string" where
  "findingSortKey f =
     f_Adapter f @ CHR 0x00 # f_SourceID f @ CHR 0x00 # f_NativeSessionID f @ CHR 0x00 #
     f_Class f @ CHR 0x00 # f_NativeArtifactID f @ CHR 0x00 # code_string (f_Code f)"

definition sortFindings :: "Finding list \<Rightarrow> Finding list" where
  "sortFindings fs = sort_by (\<lambda>a b. findingSortKey a < findingSortKey b) fs"

definition findingSummarySortKey :: "FindingSummary \<Rightarrow> string" where
  "findingSummarySortKey s =
     severity_string (fs_Severity s) @ CHR 0x00 # code_string (fs_Code s) @ CHR 0x00 # fs_Class s"

text \<open>The summary map is read in an unspecified order \<open>its\<close> and sorted.\<close>

type_synonym summary_order = "(findingSummaryKey \<times> nat) list \<Rightarrow> (findingSummaryKey \<times> nat) list"

definition acc_result :: "summary_order \<Rightarrow> findingAccumulator \<Rightarrow> Result" where
  "acc_result its a =
     \<lparr>res_State = state a, res_TotalFindings = total a,
      res_FindingSummary = sort_by (\<lambda>x y. findingSummarySortKey x < findingSummarySortKey y)
        (map (\<lambda>(k, n). \<lparr>fs_Severity = sk_severity k, fs_Code = sk_code k, fs_Class = sk_class k, fs_Count = n\<rparr>)
          (its (summary a))),
      res_Findings = sortFindings (details a)\<rparr>"

definition incomplete :: Result where
  "incomplete = \<lparr>res_State = StateIncomplete, res_TotalFindings = 0, res_FindingSummary = [], res_Findings = []\<rparr>"

section \<open>Comparing two artifacts\<close>

definition newFinding :: "Artifact \<Rightarrow> Severity \<Rightarrow> FindingCode \<Rightarrow> message \<Rightarrow> Finding" where
  "newFinding a sev code msg =
     \<lparr>f_Severity = sev, f_Code = code, f_Adapter = a_Adapter a, f_SourceID = a_SourceID a,
      f_NativeSessionID = a_NativeSessionID a, f_NativeArtifactID = a_NativeArtifactID a,
      f_Class = a_Class a, f_Message = msg, f_IntegrityFailures = a_IntegrityFailures a\<rparr>"

definition missingSeverity :: "Artifact \<Rightarrow> Severity" where
  "missingSeverity a =
     (if a_Availability a = AvailabilitySourceUnavailable then SeverityP1
      else if a_Class a \<in> set [ClassUserPrompt, ClassUserImage, ClassAssistantMessage, ClassReasoningText,
          ClassLLMRequest, ClassLLMResponse, ClassLLMSDKRequest, ClassLLMSDKResponse, ClassToolRequest,
          ClassToolResponse, ClassSubagentLink] then SeverityP0
      else SeverityP1)"

definition selectorsEqual :: "Selector \<Rightarrow> Selector \<Rightarrow> bool" where
  "selectorsEqual a b \<longleftrightarrow>
     (if URI a \<noteq> URI b \<or> JSONPointer a \<noteq> JSONPointer b \<or> FieldPath a \<noteq> FieldPath b then False
      else (case (sel_ByteRange a, sel_ByteRange b) of
          (Some r, Some s) \<Rightarrow> br_Start r = br_Start s \<and> br_End r = br_End s
        | (ra, rb) \<Rightarrow> ra = None \<and> rb = None))"

definition compareMatchedArtifacts :: "Artifact \<Rightarrow> Artifact \<Rightarrow> Finding list" where
  "compareMatchedArtifacts src can =
     (if a_Availability can = AvailabilityUnverifiable
      then [newFinding src SeverityP1 CodeUnverifiableCanonical (MsgText ''canonical artifact is marked unverifiable'')]
      else (case Artifact_Validate can of
          Some err \<Rightarrow> [newFinding src SeverityP1 CodeUnverifiableCanonical err]
        | None \<Rightarrow>
            (if a_Availability can \<noteq> a_Availability src
             then [newFinding src SeverityP1 CodeAvailabilityMismatch
                     (MsgAvailability (a_Availability can) (a_Availability src))] else []) @
            (if ByteProofRequired src then
               (if a_HashDomain can \<noteq> a_HashDomain src
                then [newFinding src SeverityP1 CodeHashDomainMismatch
                        (MsgHashDomain (a_HashDomain can) (a_HashDomain src))] else []) @
               (if a_ComputedSHA256 can = []
                then [newFinding src SeverityP1 CodeUnverifiableCanonical (MsgText ''canonical artifact lacks computed_sha256'')]
                else if a_ComputedSHA256 can \<noteq> a_ComputedSHA256 src
                then [newFinding src SeverityP0 CodeHashMismatch (MsgText ''canonical hash differs from source hash'')]
                else []) @
               (if a_Bytes can \<noteq> a_Bytes src
                then [newFinding src SeverityP0 CodeBytesMismatch (MsgBytes (a_Bytes can) (a_Bytes src))] else []) @
               (if \<not> i64_less (a_Chars src) 0 \<and> a_Chars can \<noteq> a_Chars src
                then [newFinding src SeverityP0 CodeCharsMismatch (MsgChars (a_Chars can) (a_Chars src))] else []) @
               (if SelectorProofRequired src \<and> \<not> selectorsEqual (a_Selector can) (a_Selector src)
                then [newFinding src SeverityP1 CodeSelectorMismatch (MsgText ''canonical selector differs from source selector'')]
                else [])
             else [])))"

datatype side = sideSource | sideCanonical

text \<open>The findings of validating one artifact, the same in both engines.\<close>

definition validation_findings :: "side \<Rightarrow> Artifact \<Rightarrow> Finding list" where
  "validation_findings side a =
     (case Artifact_Validate a of
        None \<Rightarrow> []
      | Some err \<Rightarrow> [newFinding a SeverityP1
          (if side = sideCanonical then CodeInvalidCanonicalArtifact else CodeInvalidSourceArtifact) err]) @
     (case validateArtifactAgainstMatrix a of
        None \<Rightarrow> []
      | Some err \<Rightarrow> [newFinding a SeverityP2 CodeMatrixMismatch err])"

fun side_string :: "side \<Rightarrow> string" where
  "side_string sideSource = ''source''"
| "side_string sideCanonical = ''canonical''"

definition duplicate_finding :: "side \<Rightarrow> Artifact \<Rightarrow> Finding" where
  "duplicate_finding side a = newFinding a SeverityP1
     (if side = sideCanonical then CodeDuplicateCanonical else CodeDuplicateSource) (MsgDuplicate (side_string side))"

section \<open>The comparison in memory\<close>

type_synonym 'k index = "('k \<times> Artifact list) list"
type_synonym 'k index_order = "'k index \<Rightarrow> 'k index"

definition entry :: "'k index \<Rightarrow> 'k \<Rightarrow> Artifact list" where
  "entry m k = (case map_of m k of None \<Rightarrow> [] | Some as \<Rightarrow> as)"

definition duplicateKey :: "Artifact list \<Rightarrow> bool" where
  "duplicateKey as \<longleftrightarrow> length as > 1"

type_synonym run = "budget \<times> findingAccumulator"

text \<open>The first loop validates and indexes; the second, over the map, finds duplicate keys.\<close>

definition index_one ::
    "side \<Rightarrow> nat \<Rightarrow> Artifact \<Rightarrow> run \<times> MatchKey index \<times> ClasslessKey index \<Rightarrow>
     (run \<times> MatchKey index \<times> ClasslessKey index) option" where
  "index_one side i a s = (case s of ((b, acc), byKey, byClassless) \<Rightarrow>
     do { b \<leftarrow> checkDiffContext i b;
          Some ((b, addAll (validation_findings side a) acc),
            alist_put (Artifact_Key a) (entry byKey (Artifact_Key a) @ [a]) byKey,
            alist_put (Artifact_ClasslessKey a) (entry byClassless (Artifact_ClasslessKey a) @ [a]) byClassless) })"

definition index_duplicates :: "side \<Rightarrow> nat \<Rightarrow> MatchKey \<times> Artifact list \<Rightarrow> run \<Rightarrow> run option" where
  "index_duplicates side i p s = (case s of (b, acc) \<Rightarrow>
     do { b \<leftarrow> checkDiffContext i b;
          Some (b, if length (snd p) \<le> 1 then acc else acc_add (duplicate_finding side (snd p ! 0)) acc) })"

definition indexArtifacts ::
    "MatchKey index_order \<Rightarrow> Artifact list \<Rightarrow> side \<Rightarrow> run \<Rightarrow>
     (run \<times> MatchKey index \<times> ClasslessKey index) option" where
  "indexArtifacts it as side r =
     do { (r, byKey, byClassless) \<leftarrow> for_range (index_one side) 0 as (r, [], []);
          r \<leftarrow> for_range (index_duplicates side) 0 (it byKey) r;
          Some (r, byKey, byClassless) }"

text \<open>What the two comparison loops report for one artifact.\<close>

definition source_findings ::
    "MatchKey index \<Rightarrow> MatchKey index \<Rightarrow> ClasslessKey index \<Rightarrow> Artifact \<Rightarrow> Finding list" where
  "source_findings sourceByKey canonicalByKey canonicalByClassless src =
     (if a_Availability src = AvailabilitySourceCorrupt
      then [newFinding src SeverityP1 CodeSourceCorrupt (MsgText ''source artifact is corrupt'')]
      else if duplicateKey (entry sourceByKey (Artifact_Key src)) then []
      else
        let matches = entry canonicalByKey (Artifact_Key src) in
        if length matches = 1 then compareMatchedArtifacts src (matches ! 0)
        else if length matches > 1
        then [newFinding src SeverityP1 CodeDuplicateCanonical
                (MsgText ''more than one canonical artifact matches source artifact'')]
        else
          let classlessMatches = entry canonicalByClassless (Artifact_ClasslessKey src) in
          if length classlessMatches > 0
          then [newFinding src SeverityP1 CodeClassMismatch (MsgClass (a_Class (classlessMatches ! 0)) (a_Class src))]
          else [newFinding src (missingSeverity src) CodeMissingCanonical
                  (MsgText ''source artifact has no canonical match'')])"

definition canonical_findings ::
    "MatchKey index \<Rightarrow> ClasslessKey index \<Rightarrow> MatchKey index \<Rightarrow> Artifact \<Rightarrow> Finding list" where
  "canonical_findings sourceByKey sourceByClassless canonicalByKey can =
     (if duplicateKey (entry canonicalByKey (Artifact_Key can)) then []
      else if map_of sourceByKey (Artifact_Key can) \<noteq> None then []
      else if map_of sourceByClassless (Artifact_ClasslessKey can) \<noteq> None then []
      else if syntheticIsDocumented can then []
      else if a_Synthetic can
      then [newFinding can SeverityP1 CodeUndocumentedSynthetic
              (MsgText ''synthetic canonical artifact lacks a documented reason or id prefix'')]
      else [newFinding can SeverityP1 CodeExtraCanonical (MsgText ''canonical artifact has no source match'')])"

definition report_loop :: "(Artifact \<Rightarrow> Finding list) \<Rightarrow> nat \<Rightarrow> Artifact \<Rightarrow> run \<Rightarrow> run option" where
  "report_loop f i a s = (case s of (b, acc) \<Rightarrow>
     do { b \<leftarrow> checkDiffContext i b; Some (b, addAll (f a) acc) })"

text \<open>The result with whether an error is returned beside it.\<close>

definition DiffContextCapped ::
    "MatchKey index_order \<Rightarrow> summary_order \<Rightarrow> budget \<Rightarrow> Artifact list \<Rightarrow> Artifact list \<Rightarrow> int \<Rightarrow> Result \<times> bool" where
  "DiffContextCapped it its ctx src can cap =
     (case
        do { (r, sourceByKey, sourceByClassless) \<leftarrow>
               indexArtifacts it src sideSource (ctx, newFindingAccumulator cap);
             (r, canonicalByKey, canonicalByClassless) \<leftarrow> indexArtifacts it can sideCanonical r;
             r \<leftarrow> for_range (report_loop (source_findings sourceByKey canonicalByKey canonicalByClassless)) 0 src r;
             for_range (report_loop (canonical_findings sourceByKey sourceByClassless canonicalByKey)) 0 can r }
      of None \<Rightarrow> (incomplete, True)
       | Some (_, acc) \<Rightarrow> (acc_result its acc, False))"

definition DiffContext ::
    "MatchKey index_order \<Rightarrow> summary_order \<Rightarrow> budget \<Rightarrow> Artifact list \<Rightarrow> Artifact list \<Rightarrow> Result \<times> bool" where
  "DiffContext it its ctx src can = DiffContextCapped it its ctx src can (- 1)"

definition Diff :: "MatchKey index_order \<Rightarrow> summary_order \<Rightarrow> Artifact list \<Rightarrow> Artifact list \<Rightarrow> Result" where
  "Diff it its src can = (let (result, err) = DiffContext it its None src can in if err then incomplete else result)"

section \<open>The comparison over a table\<close>

definition stableKeyString :: "string list \<Rightarrow> string" where
  "stableKeyString parts = concat (map (\<lambda>p. itoa_nat (length p) @ '':'' @ p @ ''|'') parts)"

definition matchKeyString :: "MatchKey \<Rightarrow> string" where
  "matchKeyString k = stableKeyString [itoa (mk_SchemaVersion k), mk_Adapter k, mk_SourceID k,
     mk_NativeSessionID k, mk_Class k, mk_NativeArtifactID k]"

definition classlessKeyString :: "ClasslessKey \<Rightarrow> string" where
  "classlessKeyString k = stableKeyString [itoa (ck_SchemaVersion k), ck_Adapter k, ck_SourceID k,
     ck_NativeSessionID k, ck_NativeArtifactID k]"

record artifactRow =
  ar_side :: side
  ar_match_key :: string
  ar_classless_key :: string
  ar_json :: string

record diffDB =
  db_artifacts :: "artifactRow list"
  db_duplicate_keys :: "(side \<times> string) list"

text \<open>The SQL statements.\<close>

definition sql_insert_artifact :: "artifactRow \<Rightarrow> diffDB \<Rightarrow> diffDB" where
  "sql_insert_artifact row db = db\<lparr>db_artifacts := db_artifacts db @ [row]\<rparr>"

definition sql_side :: "diffDB \<Rightarrow> side \<Rightarrow> artifactRow list" where
  "sql_side db side = filter (\<lambda>r. ar_side r = side) (db_artifacts db)"

definition sql_by_match :: "diffDB \<Rightarrow> side \<Rightarrow> string \<Rightarrow> artifactRow list" where
  "sql_by_match db side key = filter (\<lambda>r. ar_side r = side \<and> ar_match_key r = key) (db_artifacts db)"

definition sql_by_classless :: "diffDB \<Rightarrow> side \<Rightarrow> string \<Rightarrow> artifactRow list" where
  "sql_by_classless db side key = filter (\<lambda>r. ar_side r = side \<and> ar_classless_key r = key) (db_artifacts db)"

definition sql_insert_duplicate_keys :: "diffDB \<Rightarrow> diffDB" where
  "sql_insert_duplicate_keys db = db\<lparr>db_duplicate_keys := db_duplicate_keys db @
     remdups (map (\<lambda>r. (ar_side r, ar_match_key r))
       (filter (\<lambda>r. length (sql_by_match db (ar_side r) (ar_match_key r)) > 1) (db_artifacts db)))\<rparr>"

definition sql_duplicates_of :: "diffDB \<Rightarrow> side \<Rightarrow> string list" where
  "sql_duplicates_of db side = sort (map snd (filter (\<lambda>p. fst p = side) (db_duplicate_keys db)))"

definition scanArtifactRow :: "(string \<Rightarrow> Artifact option) \<Rightarrow> artifactRow list \<Rightarrow> Artifact option" where
  "scanArtifactRow dec rows = (case rows of [] \<Rightarrow> None | row # _ \<Rightarrow> dec (ar_json row))"

definition firstArtifactByMatchKey ::
    "(string \<Rightarrow> Artifact option) \<Rightarrow> diffDB \<Rightarrow> side \<Rightarrow> string \<Rightarrow> budget \<Rightarrow> (budget \<times> Artifact) option" where
  "firstArtifactByMatchKey dec db side key b =
     do { b \<leftarrow> tick b; a \<leftarrow> scanArtifactRow dec (sql_by_match db side key); Some (b, a) }"

definition firstArtifactByClasslessKey ::
    "(string \<Rightarrow> Artifact option) \<Rightarrow> diffDB \<Rightarrow> side \<Rightarrow> string \<Rightarrow> budget \<Rightarrow> (budget \<times> Artifact) option" where
  "firstArtifactByClasslessKey dec db side key b =
     do { b \<leftarrow> tick b; a \<leftarrow> scanArtifactRow dec (sql_by_classless db side key); Some (b, a) }"

definition countByMatchKey :: "diffDB \<Rightarrow> side \<Rightarrow> string \<Rightarrow> budget \<Rightarrow> (budget \<times> nat) option" where
  "countByMatchKey db side key b = do { b \<leftarrow> tick b; Some (b, length (sql_by_match db side key)) }"

definition countByClasslessKey :: "diffDB \<Rightarrow> side \<Rightarrow> string \<Rightarrow> budget \<Rightarrow> (budget \<times> nat) option" where
  "countByClasslessKey db side key b = do { b \<leftarrow> tick b; Some (b, length (sql_by_classless db side key)) }"

definition hasDuplicateKey :: "diffDB \<Rightarrow> side \<Rightarrow> string \<Rightarrow> budget \<Rightarrow> (budget \<times> bool) option" where
  "hasDuplicateKey db side key b =
     do { b \<leftarrow> tick b; Some (b, length (filter (\<lambda>p. p = (side, key)) (db_duplicate_keys db)) > 0) }"

text \<open>The sink: an open insert transaction is a prepared statement.\<close>

record StreamDiff =
  sd_db :: diffDB
  sd_findings :: findingAccumulator
  sd_stmt :: bool
  sd_writesFinished :: bool
  sd_source_count :: nat
  sd_canonical_count :: nat

definition NewStreamDiff :: "int \<Rightarrow> budget \<Rightarrow> (budget \<times> StreamDiff) option" where
  "NewStreamDiff cap b =
     do { b \<leftarrow> tick b; b \<leftarrow> tick b;
          Some (b, \<lparr>sd_db = \<lparr>db_artifacts = [], db_duplicate_keys = []\<rparr>, sd_findings = newFindingAccumulator cap,
                    sd_stmt = False, sd_writesFinished = False, sd_source_count = 0, sd_canonical_count = 0\<rparr>) }"

definition ensureWriter :: "StreamDiff \<Rightarrow> budget \<Rightarrow> (budget \<times> StreamDiff) option" where
  "ensureWriter d b =
     (if sd_writesFinished d then None
      else if sd_stmt d then Some (b, d)
      else do { b \<leftarrow> tick b; b \<leftarrow> tick b; Some (b, d\<lparr>sd_stmt := True\<rparr>) })"

definition recordArtifactValidation :: "side \<Rightarrow> Artifact \<Rightarrow> findingAccumulator \<Rightarrow> findingAccumulator" where
  "recordArtifactValidation side a acc = addAll (validation_findings side a) acc"

definition writeArtifact ::
    "(Artifact \<Rightarrow> string) \<Rightarrow> side \<Rightarrow> Artifact \<Rightarrow> budget \<times> StreamDiff \<Rightarrow> (budget \<times> StreamDiff) option" where
  "writeArtifact enc side a s = (case s of (b, d) \<Rightarrow>
     do { (b, d) \<leftarrow> ensureWriter d b;
          let d = d\<lparr>sd_findings := recordArtifactValidation side a (sd_findings d)\<rparr>;
          b \<leftarrow> tick b;
          let d = d\<lparr>sd_db := sql_insert_artifact \<lparr>ar_side = side, ar_match_key = matchKeyString (Artifact_Key a),
                     ar_classless_key = classlessKeyString (Artifact_ClasslessKey a), ar_json = enc a\<rparr> (sd_db d)\<rparr>;
          Some (b, if side = sideSource then d\<lparr>sd_source_count := sd_source_count d + 1\<rparr>
                   else d\<lparr>sd_canonical_count := sd_canonical_count d + 1\<rparr>) })"

text \<open>One round of the ingest loop over a slice reader: a poll, the reader's own poll, the write.\<close>

definition ingest_one ::
    "(Artifact \<Rightarrow> string) \<Rightarrow> side \<Rightarrow> nat \<Rightarrow> Artifact \<Rightarrow> budget \<times> StreamDiff \<Rightarrow> (budget \<times> StreamDiff) option" where
  "ingest_one enc side i a s = (case s of (b, d) \<Rightarrow>
     do { b \<leftarrow> checkDiffContext i b; b \<leftarrow> tick b; writeArtifact enc side a (b, d) })"

definition ingestArtifactReader ::
    "(Artifact \<Rightarrow> string) \<Rightarrow> side \<Rightarrow> Artifact list \<Rightarrow> budget \<times> StreamDiff \<Rightarrow> (budget \<times> StreamDiff) option" where
  "ingestArtifactReader enc side as s =
     do { (b, d) \<leftarrow> for_range (ingest_one enc side) 0 as s;
          b \<leftarrow> checkDiffContext (length as) b; b \<leftarrow> tick b; Some (b, d) }"

definition FinishWrites :: "StreamDiff \<Rightarrow> budget \<Rightarrow> (budget \<times> StreamDiff) option" where
  "FinishWrites d b =
     (if sd_writesFinished d then Some (b, d)
      else do { b \<leftarrow> tick b;
                b \<leftarrow> (if sd_stmt d then do { b \<leftarrow> tick b; tick b } else Some b);
                let d = d\<lparr>sd_stmt := False\<rparr>;
                b \<leftarrow> tick b; b \<leftarrow> tick b;
                Some (b, d\<lparr>sd_writesFinished := True\<rparr>) })"

text \<open>
  Reading the rows of a query. \<open>rows.Next\<close> is false at the end and when fetching a row fails;
  only \<open>rows.Err\<close>, asked after the loop, tells the two apart.
\<close>

fun rows_loop ::
    "(nat \<Rightarrow> 'a \<Rightarrow> run \<Rightarrow> run option) \<Rightarrow> nat \<Rightarrow> 'a list \<Rightarrow> run \<Rightarrow> (run \<times> bool) option" where
  "rows_loop f i rows (b, acc) =
     (case tick b of
        None \<Rightarrow> Some ((b, acc), True)
      | Some b \<Rightarrow> (case rows of
          [] \<Rightarrow> Some ((b, acc), False)
        | row # rows \<Rightarrow> do { r \<leftarrow> f i row (b, acc); rows_loop f (Suc i) rows r }))"

definition for_rows :: "(nat \<Rightarrow> 'a \<Rightarrow> run \<Rightarrow> run option) \<Rightarrow> 'a list \<Rightarrow> run \<Rightarrow> run option" where
  "for_rows f rows r = do { (r, rowsErr) \<leftarrow> rows_loop f 0 rows r; if rowsErr then None else Some r }"

definition add_duplicate_key ::
    "(string \<Rightarrow> Artifact option) \<Rightarrow> diffDB \<Rightarrow> side \<Rightarrow> nat \<Rightarrow> string \<Rightarrow> run \<Rightarrow> run option" where
  "add_duplicate_key dec db side i key r = (case r of (b, acc) \<Rightarrow>
     do { b \<leftarrow> checkDiffContext i b;
          b \<leftarrow> tick b;
          (b, a) \<leftarrow> firstArtifactByMatchKey dec db side key b;
          Some (b, acc_add (duplicate_finding side a) acc) })"

definition addDuplicateFindings ::
    "(string \<Rightarrow> Artifact option) \<Rightarrow> diffDB \<Rightarrow> side \<Rightarrow> run \<Rightarrow> run option" where
  "addDuplicateFindings dec db side r = (case r of (b, acc) \<Rightarrow>
     do { b \<leftarrow> tick b;
          for_rows (add_duplicate_key dec db side) (sql_duplicates_of db side) (b, acc) })"

definition recordDuplicateKeys ::
    "(string \<Rightarrow> Artifact option) \<Rightarrow> diffDB \<Rightarrow> run \<Rightarrow> (diffDB \<times> run) option" where
  "recordDuplicateKeys dec db r = (case r of (b, acc) \<Rightarrow>
     do { b \<leftarrow> tick b;
          let db = sql_insert_duplicate_keys db;
          r \<leftarrow> addDuplicateFindings dec db sideSource (b, acc);
          r \<leftarrow> addDuplicateFindings dec db sideCanonical r;
          Some (db, r) })"

definition compare_source_row ::
    "(string \<Rightarrow> Artifact option) \<Rightarrow> diffDB \<Rightarrow> nat \<Rightarrow> artifactRow \<Rightarrow> run \<Rightarrow> run option" where
  "compare_source_row dec db i row r = (case r of (b, acc) \<Rightarrow>
     do { b \<leftarrow> checkDiffContext i b;
          b \<leftarrow> tick b;
          src \<leftarrow> dec (ar_json row);
          if a_Availability src = AvailabilitySourceCorrupt
          then Some (b, acc_add (newFinding src SeverityP1 CodeSourceCorrupt (MsgText ''source artifact is corrupt'')) acc)
          else do {
            (b, duplicate) \<leftarrow> hasDuplicateKey db sideSource (ar_match_key row) b;
            if duplicate then Some (b, acc)
            else do {
              (b, canonicalCount) \<leftarrow> countByMatchKey db sideCanonical (ar_match_key row) b;
              if canonicalCount = 1 then do {
                (b, can) \<leftarrow> firstArtifactByMatchKey dec db sideCanonical (ar_match_key row) b;
                Some (b, addAll (compareMatchedArtifacts src can) acc) }
              else if canonicalCount > 1
              then Some (b, acc_add (newFinding src SeverityP1 CodeDuplicateCanonical
                     (MsgText ''more than one canonical artifact matches source artifact'')) acc)
              else do {
                (b, classlessCount) \<leftarrow> countByClasslessKey db sideCanonical (ar_classless_key row) b;
                if classlessCount > 0 then do {
                  (b, m) \<leftarrow> firstArtifactByClasslessKey dec db sideCanonical (ar_classless_key row) b;
                  Some (b, acc_add (newFinding src SeverityP1 CodeClassMismatch
                             (MsgClass (a_Class m) (a_Class src))) acc) }
                else Some (b, acc_add (newFinding src (missingSeverity src) CodeMissingCanonical
                       (MsgText ''source artifact has no canonical match'')) acc) } } } })"

definition compareSourceArtifacts :: "(string \<Rightarrow> Artifact option) \<Rightarrow> diffDB \<Rightarrow> run \<Rightarrow> run option" where
  "compareSourceArtifacts dec db r = (case r of (b, acc) \<Rightarrow>
     do { b \<leftarrow> tick b; for_rows (compare_source_row dec db) (sql_side db sideSource) (b, acc) })"

definition compare_canonical_row ::
    "(string \<Rightarrow> Artifact option) \<Rightarrow> diffDB \<Rightarrow> nat \<Rightarrow> artifactRow \<Rightarrow> run \<Rightarrow> run option" where
  "compare_canonical_row dec db i row r = (case r of (b, acc) \<Rightarrow>
     do { b \<leftarrow> checkDiffContext i b;
          b \<leftarrow> tick b;
          can \<leftarrow> dec (ar_json row);
          (b, duplicate) \<leftarrow> hasDuplicateKey db sideCanonical (ar_match_key row) b;
          if duplicate then Some (b, acc)
          else do {
            (b, count) \<leftarrow> countByMatchKey db sideSource (ar_match_key row) b;
            if count > 0 then Some (b, acc)
            else do {
              (b, count) \<leftarrow> countByClasslessKey db sideSource (ar_classless_key row) b;
              if count > 0 then Some (b, acc)
              else if syntheticIsDocumented can then Some (b, acc)
              else if a_Synthetic can
              then Some (b, acc_add (newFinding can SeverityP1 CodeUndocumentedSynthetic
                     (MsgText ''synthetic canonical artifact lacks a documented reason or id prefix'')) acc)
              else Some (b, acc_add (newFinding can SeverityP1 CodeExtraCanonical
                     (MsgText ''canonical artifact has no source match'')) acc) } } })"

definition compareCanonicalArtifacts :: "(string \<Rightarrow> Artifact option) \<Rightarrow> diffDB \<Rightarrow> run \<Rightarrow> run option" where
  "compareCanonicalArtifacts dec db r = (case r of (b, acc) \<Rightarrow>
     do { b \<leftarrow> tick b; for_rows (compare_canonical_row dec db) (sql_side db sideCanonical) (b, acc) })"

definition StreamDiff_Result ::
    "(string \<Rightarrow> Artifact option) \<Rightarrow> summary_order \<Rightarrow> StreamDiff \<Rightarrow> budget \<Rightarrow> Result \<times> bool" where
  "StreamDiff_Result dec its d b =
     (case
        do { (b, d) \<leftarrow> FinishWrites d b;
             (db, r) \<leftarrow> recordDuplicateKeys dec (sd_db d) (b, sd_findings d);
             r \<leftarrow> compareSourceArtifacts dec db r;
             compareCanonicalArtifacts dec db r }
      of None \<Rightarrow> (incomplete, True)
       | Some (_, acc) \<Rightarrow> (acc_result its acc, False))"

definition DiffArtifactStreamsContext ::
    "(Artifact \<Rightarrow> string) \<Rightarrow> (string \<Rightarrow> Artifact option) \<Rightarrow> summary_order \<Rightarrow> budget \<Rightarrow>
     Artifact list \<Rightarrow> Artifact list \<Rightarrow> int \<Rightarrow> Result \<times> bool" where
  "DiffArtifactStreamsContext enc dec its ctx src can cap =
     (case
        do { (b, d) \<leftarrow> NewStreamDiff cap ctx;
             s \<leftarrow> ingestArtifactReader enc sideSource src (b, d);
             ingestArtifactReader enc sideCanonical can s }
      of None \<Rightarrow> (incomplete, True)
       | Some (b, d) \<Rightarrow> StreamDiff_Result dec its d b)"

end
