(* ===== verification/Parity_Facts.thy ===== *)
theory Parity_Facts
  imports Parity_Diff
begin

text \<open>
  Facts on the two diff engines: the key strings are injective, what a result keeps of the
  findings added to it, and the locale \<open>reporting\<close>, the contract of a loop body that adds
  the findings of its element unless it is interrupted. Both engines turn out to add the
  findings of one specification, \<open>spec_findings\<close>, in different orders.
\<close>

section \<open>Key strings\<close>

lemma digits_prefix_inject:
  assumes "list_all is_digit s" "list_all is_digit t" "s @ '':'' @ x = t @ '':'' @ y"
  shows "s = t \<and> x = y"
proof -
  have t: "takeWhile is_digit (s @ '':'' @ x) = s" if "list_all is_digit s" for s x
    using that by (induction s) auto
  have "s = t" using t [OF assms(1), of x] t [OF assms(2), of y] assms(3) by simp
  then show ?thesis using assms(3) by simp
qed

lemma stableKeyString_Cons:
  "stableKeyString (p # ps) = itoa_nat (length p) @ '':'' @ p @ ''|'' @ stableKeyString ps"
  by (simp add: stableKeyString_def)

lemma stableKeyString_Nil [simp]: "stableKeyString [] = []"
  by (simp add: stableKeyString_def)

lemma stableKeyString_inject: "stableKeyString ps = stableKeyString qs \<longleftrightarrow> ps = qs"
proof
  show "ps = qs" if "stableKeyString ps = stableKeyString qs"
    using that
  proof (induction ps arbitrary: qs)
    case Nil
    then show ?case by (cases qs) (simp_all add: stableKeyString_Cons)
  next
    case (Cons p ps)
    show ?case
    proof (cases qs)
      case Nil
      then show ?thesis using Cons.prems by (simp add: stableKeyString_Cons)
    next
      case (Cons q qs')
      then have "itoa_nat (length p) @ '':'' @ (p @ ''|'' @ stableKeyString ps) =
          itoa_nat (length q) @ '':'' @ (q @ ''|'' @ stableKeyString qs')"
        using Cons.prems by (simp add: stableKeyString_Cons)
      from digits_prefix_inject [OF itoa_nat_digits itoa_nat_digits this]
      have "length p = length q" "p @ ''|'' @ stableKeyString ps = q @ ''|'' @ stableKeyString qs'" by simp_all
      then have "p = q" "stableKeyString ps = stableKeyString qs'" by simp_all
      then show ?thesis using Cons Cons.IH by simp
    qed
  qed
qed simp

lemma matchKeyString_inject [simp]: "matchKeyString k = matchKeyString l \<longleftrightarrow> k = l"
  by (auto simp: matchKeyString_def stableKeyString_inject intro: MatchKey.equality)

lemma classlessKeyString_inject [simp]: "classlessKeyString k = classlessKeyString l \<longleftrightarrow> k = l"
  by (auto simp: classlessKeyString_def stableKeyString_inject intro: ClasslessKey.equality)

section \<open>The accumulator\<close>

lemma addAll_simps [simp]:
  "addAll [] a = a"
  "addAll (f # fs) a = addAll fs (acc_add f a)"
  "addAll (fs @ gs) a = addAll gs (addAll fs a)"
  by (simp_all add: addAll_def)

lemma acc_add_fields [simp]:
  "total (acc_add f a) = total a + 1"
  "maxFindings (acc_add f a) = maxFindings a"
  "details (acc_add f a) = (if maxFindings a < 0 \<or> int (length (details a)) < maxFindings a then details a @ [f] else details a)"
  "summary (acc_add f a) = alist_put (summary_key f)
     ((case map_of (summary a) (summary_key f) of None \<Rightarrow> 0 | Some n \<Rightarrow> n) + 1) (summary a)"
  "state (acc_add f a) = (if f_Code f = CodeSourceCorrupt then StateIncomplete
     else if state a = StatePass \<and> f_Severity f \<in> {SeverityP0, SeverityP1, SeverityP2} then StateFail else state a)"
  by (auto simp: acc_add_def Let_def)

lemma total_addAll: "total (addAll fs a) = total a + length fs"
  by (induction fs arbitrary: a) auto

lemma details_addAll:
  "details (addAll fs a) = details a @ (if maxFindings a < 0 then fs else take (nat (maxFindings a) - length (details a)) fs)"
proof (induction fs arbitrary: a)
  case (Cons f fs)
  show ?case
  proof (cases "maxFindings a < 0 \<or> int (length (details a)) < maxFindings a")
    case True
    then have "0 \<le> maxFindings a \<Longrightarrow> nat (maxFindings a) - length (details a) = Suc (nat (maxFindings a) - Suc (length (details a)))"
      by linarith
    then show ?thesis using True Cons.IH [of "acc_add f a"] by auto
  next
    case False
    then have "nat (maxFindings a) - length (details a) = 0" by linarith
    then show ?thesis using False Cons.IH [of "acc_add f a"] by simp
  qed
qed simp

definition findings_state :: "Finding list \<Rightarrow> ResultState" where
  "findings_state fs =
     (if \<exists>f\<in>set fs. f_Code f = CodeSourceCorrupt then StateIncomplete
      else if \<exists>f\<in>set fs. f_Severity f \<in> {SeverityP0, SeverityP1, SeverityP2} then StateFail else StatePass)"

lemma state_addAll:
  "state a \<noteq> StateSampleOnly \<Longrightarrow> state (addAll fs a) =
     (if state a = StateIncomplete \<or> (\<exists>f\<in>set fs. f_Code f = CodeSourceCorrupt) then StateIncomplete
      else if state a = StateFail \<or> (\<exists>f\<in>set fs. f_Severity f \<in> {SeverityP0, SeverityP1, SeverityP2}) then StateFail
      else StatePass)"
proof (induction fs arbitrary: a)
  case Nil
  then show ?case by (cases "state a") auto
next
  case (Cons f fs)
  then have "state (acc_add f a) \<noteq> StateSampleOnly" by auto
  from Cons.IH [OF this] Cons.prems show ?case by (cases "state a") auto
qed

lemma summary_addAll_distinct:
  "distinct (map fst (summary a)) \<Longrightarrow> distinct (map fst (summary (addAll fs a)))"
  by (induction fs arbitrary: a) auto

definition occurrences :: "findingSummaryKey \<Rightarrow> Finding list \<Rightarrow> nat" where
  "occurrences k fs = length (filter (\<lambda>f. summary_key f = k) fs)"

lemma summary_addAll:
  "map_of (summary (addAll fs a)) k =
     (if occurrences k fs = 0 then map_of (summary a) k
      else Some ((case map_of (summary a) k of None \<Rightarrow> 0 | Some n \<Rightarrow> n) + occurrences k fs))"
  by (induction fs arbitrary: a) (auto simp: occurrences_def split: option.splits)

lemma newFindingAccumulator_simps [simp]:
  "total (newFindingAccumulator n) = 0" "state (newFindingAccumulator n) = StatePass"
  "details (newFindingAccumulator n) = []" "summary (newFindingAccumulator n) = []"
  "maxFindings (newFindingAccumulator n) = n"
  by (simp_all add: newFindingAccumulator_def)

lemma occurrences_perm: "mset fs = mset gs \<Longrightarrow> occurrences k fs = occurrences k gs"
  unfolding occurrences_def by (metis mset_filter size_mset)

lemma summary_perm:
  assumes "mset fs = mset gs"
  shows "mset (summary (addAll fs (newFindingAccumulator m))) = mset (summary (addAll gs (newFindingAccumulator n)))"
proof -
  let ?s = "summary (addAll fs (newFindingAccumulator m))" and ?t = "summary (addAll gs (newFindingAccumulator n))"
  have d: "distinct (map fst ?s)" "distinct (map fst ?t)" by (simp_all add: summary_addAll_distinct)
  have "map_of ?s = map_of ?t"
    by (rule ext) (simp add: summary_addAll occurrences_perm [OF assms])
  then have "set ?s = set ?t" using d by (metis map_of_inject_set)
  moreover have "distinct ?s" "distinct ?t" using d by (simp_all add: distinct_map)
  ultimately show ?thesis by (simp add: set_eq_iff_mset_eq_distinct)
qed

text \<open>The sort key of the summary tells its entries apart.\<close>

lemma nul_free_inject:
  assumes "CHR 0x00 \<notin> set s" "CHR 0x00 \<notin> set t" "s @ CHR 0x00 # x = t @ CHR 0x00 # y"
  shows "s = t \<and> x = y"
  using assms
proof (induction s arbitrary: t)
  case Nil
  then show ?case by (cases t) auto
next
  case (Cons c s)
  then show ?case by (cases t) auto
qed

lemma severity_string_inject [simp]: "severity_string a = severity_string b \<longleftrightarrow> a = b"
  by (cases a; cases b) simp_all

lemma code_string_inject [simp]: "code_string a = code_string b \<longleftrightarrow> a = b"
  by (cases a; cases b) simp_all

lemma nul_free_strings: "CHR 0x00 \<notin> set (severity_string a)" "CHR 0x00 \<notin> set (code_string c)"
  by (cases a; simp) (cases c; simp)

lemma findingSummarySortKey_inject:
  assumes "findingSummarySortKey a = findingSummarySortKey b"
  shows "fs_Severity a = fs_Severity b \<and> fs_Code a = fs_Code b \<and> fs_Class a = fs_Class b"
proof -
  from assms nul_free_inject [OF nul_free_strings(1) nul_free_strings(1)]
  have "severity_string (fs_Severity a) = severity_string (fs_Severity b)"
    and r: "code_string (fs_Code a) @ CHR 0x00 # fs_Class a = code_string (fs_Code b) @ CHR 0x00 # fs_Class b"
    unfolding findingSummarySortKey_def by blast+
  then show ?thesis using nul_free_inject [OF nul_free_strings(2) nul_free_strings(2) r] by simp
qed

definition mk_summary :: "findingSummaryKey \<times> nat \<Rightarrow> FindingSummary" where
  "mk_summary p = \<lparr>fs_Severity = sk_severity (fst p), fs_Code = sk_code (fst p), fs_Class = sk_class (fst p), fs_Count = snd p\<rparr>"

definition summary_list :: "(findingSummaryKey \<times> nat) list \<Rightarrow> FindingSummary list" where
  "summary_list s = sort_key findingSummarySortKey (map mk_summary s)"

lemma acc_result_fields:
  "res_State (acc_result its a) = state a" "res_TotalFindings (acc_result its a) = total a"
  "res_FindingSummary (acc_result its a) = summary_list (its (summary a))"
  "res_Findings (acc_result its a) = sortFindings (details a)"
proof -
  have "(\<lambda>(k, n). \<lparr>fs_Severity = sk_severity k, fs_Code = sk_code k, fs_Class = sk_class k, fs_Count = n\<rparr>) = mk_summary"
    by (auto simp: mk_summary_def)
  then show "res_FindingSummary (acc_result its a) = summary_list (its (summary a))"
    by (simp add: acc_result_def summary_list_def sort_by_key)
qed (simp_all add: acc_result_def)

lemma summary_list_perm:
  assumes "mset s = mset t" "distinct (map fst s)"
  shows "summary_list s = summary_list t"
  unfolding summary_list_def
proof (rule sort_key_inj_key_eq)
  show "mset (map mk_summary s) = mset (sort_key findingSummarySortKey (map mk_summary t))"
    using assms(1) by simp
  show "sorted (map findingSummarySortKey (sort_key findingSummarySortKey (map mk_summary t)))"
    by (rule sorted_sort_key)
  show "inj_on findingSummarySortKey (set (map mk_summary s))"
  proof (rule inj_onI)
    fix x y assume "x \<in> set (map mk_summary s)" "y \<in> set (map mk_summary s)"
      and k: "findingSummarySortKey x = findingSummarySortKey y"
    then obtain p q where pq: "p \<in> set s" "q \<in> set s" "x = mk_summary p" "y = mk_summary q" by auto
    then have "fst p = fst q"
      using findingSummarySortKey_inject [OF k] by (auto simp: mk_summary_def intro: findingSummaryKey.equality)
    then have "p = q" using pq assms(2) by (auto simp: distinct_map inj_on_def)
    then show "x = y" using pq by simp
  qed
qed

definition result_of :: "Finding list \<Rightarrow> int \<Rightarrow> Result" where
  "result_of fs cap = acc_result (\<lambda>s. s) (addAll fs (newFindingAccumulator cap))"

lemma acc_result_perm:
  assumes "mset fs = mset gs" "iteration its"
  shows "res_State (acc_result its (addAll fs (newFindingAccumulator cap))) = findings_state gs"
    and "res_TotalFindings (acc_result its (addAll fs (newFindingAccumulator cap))) = length gs"
    and "res_FindingSummary (acc_result its (addAll fs (newFindingAccumulator cap))) =
      res_FindingSummary (result_of gs cap)"
    and "length (res_Findings (acc_result its (addAll fs (newFindingAccumulator cap)))) =
      (if cap < 0 then length gs else min (nat cap) (length gs))"
    and "cap < 0 \<or> int (length gs) \<le> cap \<Longrightarrow>
      mset (res_Findings (acc_result its (addAll fs (newFindingAccumulator cap)))) = mset gs"
proof -
  have s: "set fs = set gs" and l: "length fs = length gs"
    using assms(1) by (metis set_mset_mset, metis size_mset)
  show "res_State (acc_result its (addAll fs (newFindingAccumulator cap))) = findings_state gs"
    by (simp add: acc_result_fields state_addAll findings_state_def s)
  show "res_TotalFindings (acc_result its (addAll fs (newFindingAccumulator cap))) = length gs"
    by (simp add: acc_result_fields total_addAll l)
  show "res_FindingSummary (acc_result its (addAll fs (newFindingAccumulator cap))) = res_FindingSummary (result_of gs cap)"
  proof -
    let ?s = "summary (addAll fs (newFindingAccumulator cap))"
    have "mset (its ?s) = mset ?s" using assms(2) by (rule iterationD)
    then have m: "mset (its ?s) = mset (summary (addAll gs (newFindingAccumulator cap)))"
      using summary_perm [OF assms(1)] by simp
    have "mset (map fst (its ?s)) = mset (map fst ?s)" using assms(2) by (simp add: iterationD)
    moreover have "distinct (map fst ?s)" by (simp add: summary_addAll_distinct)
    ultimately have "distinct (map fst (its ?s))" using mset_eq_imp_distinct_iff by blast
    from summary_list_perm [OF m this] show ?thesis by (simp add: acc_result_fields result_of_def)
  qed
  show "length (res_Findings (acc_result its (addAll fs (newFindingAccumulator cap)))) =
      (if cap < 0 then length gs else min (nat cap) (length gs))"
    by (simp add: acc_result_fields sortFindings_def details_addAll l min.commute)
  show "mset (res_Findings (acc_result its (addAll fs (newFindingAccumulator cap)))) = mset gs"
    if "cap < 0 \<or> int (length gs) \<le> cap"
    using that assms(1) l by (auto simp: acc_result_fields sortFindings_def details_addAll)
qed

section \<open>Reporting loops\<close>

text \<open>
  A loop body that, unless it is interrupted, adds the findings \<open>g x\<close> of its element. With
  an unlimited budget it is never interrupted.
\<close>

locale reporting =
  fixes step :: "nat \<Rightarrow> 'a \<Rightarrow> run \<Rightarrow> run option"
    and g :: "'a \<Rightarrow> Finding list"
    and ok :: "'a \<Rightarrow> bool"
  assumes step_adds: "ok x \<Longrightarrow> step i x (b, acc) = Some (b', acc') \<Longrightarrow> acc' = addAll (g x) acc"
    and step_total: "ok x \<Longrightarrow> step i x (None, acc) = Some (None, addAll (g x) acc)"
begin

lemma loop_adds:
  "list_all ok xs \<Longrightarrow> for_range step i xs (b, acc) = Some (b', acc') \<Longrightarrow> acc' = addAll (concat (map g xs)) acc"
proof (induction xs arbitrary: i b acc)
  case (Cons x xs)
  then obtain b1 acc1 where "step i x (b, acc) = Some (b1, acc1)"
    "for_range step (Suc i) xs (b1, acc1) = Some (b', acc')"
    by (auto split: bind_splits)
  then show ?case using Cons step_adds by auto
qed simp

lemma loop_total:
  "list_all ok xs \<Longrightarrow> for_range step i xs (None, acc) = Some (None, addAll (concat (map g xs)) acc)"
  by (induction xs arbitrary: i acc) (simp_all add: step_total)

lemma rows_loop_adds:
  "list_all ok xs \<Longrightarrow> rows_loop step i xs (b, acc) = Some ((b', acc'), False) \<Longrightarrow> acc' = addAll (concat (map g xs)) acc"
proof (induction xs arbitrary: i b acc)
  case Nil
  then show ?case by (simp split: option.splits)
next
  case (Cons x xs)
  then obtain b0 b1 acc1 where "step i x (b0, acc) = Some (b1, acc1)"
    "rows_loop step (Suc i) xs (b1, acc1) = Some ((b', acc'), False)"
    by (auto split: bind_splits option.splits)
  then show ?case using Cons step_adds by auto
qed

lemma rows_adds:
  "list_all ok xs \<Longrightarrow> for_rows step xs (b, acc) = Some (b', acc') \<Longrightarrow> acc' = addAll (concat (map g xs)) acc"
  using rows_loop_adds by (auto simp: for_rows_def split: bind_splits if_splits)

lemma rows_total:
  "list_all ok xs \<Longrightarrow> for_rows step xs (None, acc) = Some (None, addAll (concat (map g xs)) acc)"
proof -
  have "list_all ok xs \<Longrightarrow> rows_loop step i xs (None, acc) = Some ((None, addAll (concat (map g xs)) acc), False)" for i
    by (induction xs arbitrary: i acc) (simp_all add: step_total)
  then show "list_all ok xs \<Longrightarrow> ?thesis" by (simp add: for_rows_def)
qed

end

lemma checkDiffContext_None [simp]: "checkDiffContext i None = Some None"
  by (simp add: checkDiffContext_def)

interpretation report_loop: reporting "report_loop f" f "\<lambda>_. True" for f
  by unfold_locales (auto simp: report_loop_def split: bind_splits)

definition group_findings :: "side \<Rightarrow> MatchKey \<times> Artifact list \<Rightarrow> Finding list" where
  "group_findings side p = (if length (snd p) \<le> 1 then [] else [duplicate_finding side (snd p ! 0)])"

interpretation index_duplicates: reporting "index_duplicates side" "group_findings side" "\<lambda>_. True" for side
  by unfold_locales (auto simp: index_duplicates_def group_findings_def split: bind_splits if_splits)

section \<open>What both engines report\<close>

definition same_key :: "Artifact list \<Rightarrow> MatchKey \<Rightarrow> Artifact list" where
  "same_key as k = filter (\<lambda>a. Artifact_Key a = k) as"

definition same_classless :: "Artifact list \<Rightarrow> ClasslessKey \<Rightarrow> Artifact list" where
  "same_classless as k = filter (\<lambda>a. Artifact_ClasslessKey a = k) as"

definition spec_source :: "Artifact list \<Rightarrow> Artifact list \<Rightarrow> Artifact \<Rightarrow> Finding list" where
  "spec_source src can a =
     (if a_Availability a = AvailabilitySourceCorrupt
      then [newFinding a SeverityP1 CodeSourceCorrupt (MsgText ''source artifact is corrupt'')]
      else if length (same_key src (Artifact_Key a)) > 1 then []
      else case same_key can (Artifact_Key a) of
          [m] \<Rightarrow> compareMatchedArtifacts a m
        | _ # _ # _ \<Rightarrow> [newFinding a SeverityP1 CodeDuplicateCanonical
            (MsgText ''more than one canonical artifact matches source artifact'')]
        | [] \<Rightarrow> (case same_classless can (Artifact_ClasslessKey a) of
              m # _ \<Rightarrow> [newFinding a SeverityP1 CodeClassMismatch (MsgClass (a_Class m) (a_Class a))]
            | [] \<Rightarrow> [newFinding a (missingSeverity a) CodeMissingCanonical
                (MsgText ''source artifact has no canonical match'')]))"

definition spec_canonical :: "Artifact list \<Rightarrow> Artifact list \<Rightarrow> Artifact \<Rightarrow> Finding list" where
  "spec_canonical src can a =
     (if length (same_key can (Artifact_Key a)) > 1 \<or> same_key src (Artifact_Key a) \<noteq> [] \<or>
         same_classless src (Artifact_ClasslessKey a) \<noteq> [] \<or> syntheticIsDocumented a then []
      else if a_Synthetic a
      then [newFinding a SeverityP1 CodeUndocumentedSynthetic
              (MsgText ''synthetic canonical artifact lacks a documented reason or id prefix'')]
      else [newFinding a SeverityP1 CodeExtraCanonical (MsgText ''canonical artifact has no source match'')])"

definition dup_keys :: "Artifact list \<Rightarrow> MatchKey list" where
  "dup_keys as = filter (\<lambda>k. length (same_key as k) > 1) (remdups (map Artifact_Key as))"

definition spec_duplicates :: "side \<Rightarrow> Artifact list \<Rightarrow> Finding list" where
  "spec_duplicates side as = map (\<lambda>k. duplicate_finding side (hd (same_key as k))) (dup_keys as)"

definition spec_findings :: "Artifact list \<Rightarrow> Artifact list \<Rightarrow> Finding list" where
  "spec_findings src can =
     concat (map (validation_findings sideSource) src) @ spec_duplicates sideSource src @
     concat (map (validation_findings sideCanonical) can) @ spec_duplicates sideCanonical can @
     concat (map (spec_source src can) src) @ concat (map (spec_canonical src can) can)"

end
