(* ===== verification/Parity_Engines.thy ===== *)
theory Parity_Engines
  imports Parity_Facts
begin

text \<open>
  Both diff engines report the findings of the specification: the comparison in memory
  through its two index maps, the streaming comparison through the table. A run that is
  not interrupted completes; an interrupted run reports \<open>INCOMPLETE\<close> with an error.
\<close>

section \<open>The index maps\<close>

definition index_by :: "(Artifact \<Rightarrow> 'k) \<Rightarrow> Artifact list \<Rightarrow> 'k index \<Rightarrow> 'k index" where
  "index_by f as m = fold (\<lambda>a m. alist_put (f a) (entry m (f a) @ [a]) m) as m"

lemma index_by_simps [simp]:
  "index_by f [] m = m"
  "index_by f (a # as) m = index_by f as (alist_put (f a) (entry m (f a) @ [a]) m)"
  by (simp_all add: index_by_def)

lemma entry_put [simp]: "entry (alist_put k as m) l = (if l = k then as else entry m l)"
  by (simp add: entry_def)

lemma entry_index_by: "entry (index_by f as m) k = entry m k @ filter (\<lambda>a. f a = k) as"
  by (induction as arbitrary: m) auto

lemma map_of_index_by: "map_of (index_by f as m) k = None \<longleftrightarrow> map_of m k = None \<and> filter (\<lambda>a. f a = k) as = []"
  by (induction as arbitrary: m) auto

lemma index_by_distinct: "distinct (map fst m) \<Longrightarrow> distinct (map fst (index_by f as m))"
  by (induction as arbitrary: m) auto

lemma index_by_keys: "fst ` set (index_by f as m) = f ` set as \<union> fst ` set m"
  by (induction as arbitrary: m) (auto simp: fst_alist_put)

lemma entry_Nil [simp]: "entry [] k = []"
  by (simp add: entry_def)

lemma index_by_groups: "index_by f as [] = map (\<lambda>k. (k, filter (\<lambda>a. f a = k) as)) (map fst (index_by f as []))"
proof -
  let ?m = "index_by f as []"
  have "p = (fst p, filter (\<lambda>a. f a = fst p) as)" if "p \<in> set ?m" for p
  proof -
    have "map_of ?m (fst p) = Some (snd p)"
      using that index_by_distinct [of "[]" f as] by (simp add: map_of_is_SomeI)
    then have "entry ?m (fst p) = snd p" by (simp add: entry_def)
    then show ?thesis by (simp add: entry_index_by prod_eq_iff)
  qed
  then show ?thesis by (simp add: comp_def map_idI)
qed

lemma index_one_step:
  "index_one side i a ((b, acc), m, c) = (case checkDiffContext i b of
     None \<Rightarrow> None
   | Some b \<Rightarrow> Some ((b, addAll (validation_findings side a) acc),
        alist_put (Artifact_Key a) (entry m (Artifact_Key a) @ [a]) m,
        alist_put (Artifact_ClasslessKey a) (entry c (Artifact_ClasslessKey a) @ [a]) c))"
  by (simp add: index_one_def split: option.splits bind_splits)

lemma index_loop_total:
  "for_range (index_one side) i as ((None, acc), m, c) =
     Some ((None, addAll (concat (map (validation_findings side) as)) acc),
       index_by Artifact_Key as m, index_by Artifact_ClasslessKey as c)"
  by (induction as arbitrary: i acc m c) (simp_all add: index_one_step)

lemma index_loop_adds:
  "for_range (index_one side) i as ((b, acc), m, c) = Some ((b', acc'), m', c') \<Longrightarrow>
     acc' = addAll (concat (map (validation_findings side) as)) acc \<and>
     m' = index_by Artifact_Key as m \<and> c' = index_by Artifact_ClasslessKey as c"
proof (induction as arbitrary: i b acc m c)
  case (Cons a as)
  then obtain b1 where "for_range (index_one side) (Suc i) as ((b1, addAll (validation_findings side a) acc),
      alist_put (Artifact_Key a) (entry m (Artifact_Key a) @ [a]) m,
      alist_put (Artifact_ClasslessKey a) (entry c (Artifact_ClasslessKey a) @ [a]) c) = Some ((b', acc'), m', c')"
    by (auto simp: index_one_step split: bind_splits option.splits)
  from Cons.IH [OF this] show ?case by simp
qed simp

lemma mset_concat_perm: "mset xs = mset ys \<Longrightarrow> mset (concat (map h xs)) = mset (concat (map h ys))"
proof -
  assume "mset xs = mset ys"
  then have "(\<Sum>x\<leftarrow>xs. mset (h x)) = (\<Sum>x\<leftarrow>ys. mset (h x))" by (rule sum_list_perm)
  then show ?thesis by (simp add: mset_concat comp_def)
qed

lemma nth_0_hd: "\<not> length xs \<le> Suc 0 \<Longrightarrow> xs ! 0 = hd xs"
  by (cases xs) simp_all

definition key_index :: "Artifact list \<Rightarrow> MatchKey index" where
  "key_index as = index_by Artifact_Key as []"

lemma key_index_duplicates:
  assumes "iteration it"
  shows "mset (concat (map (group_findings side) (it (key_index as)))) = mset (spec_duplicates side as)"
proof -
  let ?ks = "map fst (key_index as)" and ?h = "\<lambda>k. group_findings side (k, same_key as k)"
  have ki: "key_index as = map (\<lambda>k. (k, same_key as k)) ?ks"
    unfolding key_index_def same_key_def by (rule index_by_groups)
  have "mset ?ks = mset (remdups (map Artifact_Key as))"
  proof -
    have "distinct ?ks" unfolding key_index_def by (rule index_by_distinct) simp
    moreover have "set ?ks = set (remdups (map Artifact_Key as))"
      using index_by_keys [of Artifact_Key as "[]"] by (simp add: key_index_def)
    ultimately show ?thesis by (metis distinct_remdups set_eq_iff_mset_eq_distinct)
  qed
  then have p: "mset (concat (map ?h ?ks)) = mset (concat (map ?h (remdups (map Artifact_Key as))))"
    by (rule mset_concat_perm)
  have "concat (map ?h ks) = map (\<lambda>k. duplicate_finding side (hd (same_key as k))) (filter (\<lambda>k. length (same_key as k) > 1) ks)" for ks
    by (induction ks) (auto simp: group_findings_def nth_0_hd)
  then have s: "concat (map ?h (remdups (map Artifact_Key as))) = spec_duplicates side as"
    by (simp add: spec_duplicates_def dup_keys_def)
  have "mset (concat (map (group_findings side) (it (key_index as)))) = mset (concat (map (group_findings side) (key_index as)))"
    by (rule mset_concat_perm) (simp add: iterationD [OF assms])
  also have "concat (map (group_findings side) (key_index as)) = concat (map ?h ?ks)"
    by (subst ki) (simp add: comp_def)
  finally show ?thesis using p s by simp
qed

lemma indexArtifacts_total:
  "indexArtifacts it as side (None, acc) =
     Some ((None, addAll (concat (map (group_findings side) (it (key_index as))))
              (addAll (concat (map (validation_findings side) as)) acc)),
       key_index as, index_by Artifact_ClasslessKey as [])"
  by (simp add: indexArtifacts_def index_loop_total index_duplicates.loop_total list_all_iff key_index_def)

lemma indexArtifacts_adds:
  assumes "indexArtifacts it as side (b, acc) = Some ((b', acc'), m, c)"
  shows "acc' = addAll (concat (map (group_findings side) (it (key_index as))))
              (addAll (concat (map (validation_findings side) as)) acc) \<and>
    m = key_index as \<and> c = index_by Artifact_ClasslessKey as []"
proof -
  obtain b1 acc1 m1 c1 where 1: "for_range (index_one side) 0 as ((b, acc), [], []) = Some ((b1, acc1), m1, c1)"
    and 2: "for_range (index_duplicates side) 0 (it m1) (b1, acc1) = Some (b', acc')" and "m = m1" "c = c1"
    using assms by (auto simp: indexArtifacts_def split: bind_splits)
  then show ?thesis
    using index_loop_adds [OF 1] index_duplicates.loop_adds [OF _ 2] by (simp add: list_all_iff key_index_def)
qed

lemma source_findings_spec:
  "source_findings (key_index src) (key_index can) (index_by Artifact_ClasslessKey can []) = spec_source src can"
proof
  fix a
  show "source_findings (key_index src) (key_index can) (index_by Artifact_ClasslessKey can []) a = spec_source src can a"
    by (auto simp: source_findings_def spec_source_def key_index_def entry_index_by same_key_def same_classless_def
        duplicateKey_def Let_def split: list.splits)
qed

lemma canonical_findings_spec:
  "canonical_findings (key_index src) (index_by Artifact_ClasslessKey src []) (key_index can) = spec_canonical src can"
proof
  fix a
  show "canonical_findings (key_index src) (index_by Artifact_ClasslessKey src []) (key_index can) a = spec_canonical src can a"
    unfolding canonical_findings_def spec_canonical_def duplicateKey_def key_index_def map_of_index_by
    by (simp add: entry_index_by same_key_def same_classless_def)
qed

definition memory_findings :: "MatchKey index_order \<Rightarrow> Artifact list \<Rightarrow> Artifact list \<Rightarrow> Finding list" where
  "memory_findings it src can =
     concat (map (validation_findings sideSource) src) @ concat (map (group_findings sideSource) (it (key_index src))) @
     concat (map (validation_findings sideCanonical) can) @ concat (map (group_findings sideCanonical) (it (key_index can))) @
     concat (map (spec_source src can) src) @ concat (map (spec_canonical src can) can)"

lemma memory_findings_spec: "iteration it \<Longrightarrow> mset (memory_findings it src can) = mset (spec_findings src can)"
  by (simp add: memory_findings_def spec_findings_def key_index_duplicates)

lemma DiffContextCapped_total:
  "DiffContextCapped it its None src can cap =
     (acc_result its (addAll (memory_findings it src can) (newFindingAccumulator cap)), False)"
  by (simp add: DiffContextCapped_def indexArtifacts_total source_findings_spec canonical_findings_spec
      report_loop.loop_total list_all_iff memory_findings_def)

lemma DiffContextCapped_cases:
  "DiffContextCapped it its ctx src can cap = (incomplete, True) \<or>
   DiffContextCapped it its ctx src can cap =
     (acc_result its (addAll (memory_findings it src can) (newFindingAccumulator cap)), False)"
proof -
  have "acc' = addAll (memory_findings it src can) acc"
    if 1: "indexArtifacts it src sideSource (ctx, acc) = Some ((b1, acc1), m, c)"
      and 2: "indexArtifacts it can sideCanonical (b1, acc1) = Some ((b2, acc2), m', c')"
      and 3: "for_range (report_loop (source_findings m m' c')) 0 src (b2, acc2) = Some (b3, acc3)"
      and 4: "for_range (report_loop (canonical_findings m c m')) 0 can (b3, acc3) = Some (b', acc')"
    for acc b1 acc1 m c b2 acc2 m' c' b3 acc3 b' acc'
    using indexArtifacts_adds [OF 1] indexArtifacts_adds [OF 2] report_loop.loop_adds [OF _ 3] report_loop.loop_adds [OF _ 4]
    by (simp add: list_all_iff source_findings_spec canonical_findings_spec memory_findings_def)
  then show ?thesis
    by (auto simp: DiffContextCapped_def split: bind_splits option.splits)
qed

end
