(* ===== verification/Parity_Stream.thy ===== *)
theory Parity_Stream
  imports Parity_Engines
begin

text \<open>
  The streaming engine: what the table holds after both manifests are written, what its
  queries return there, and that its loops report the findings of the specification.
\<close>

section \<open>Writing\<close>

definition row_of :: "(Artifact \<Rightarrow> string) \<Rightarrow> side \<Rightarrow> Artifact \<Rightarrow> artifactRow" where
  "row_of enc side a = \<lparr>ar_side = side, ar_match_key = matchKeyString (Artifact_Key a),
     ar_classless_key = classlessKeyString (Artifact_ClasslessKey a), ar_json = enc a\<rparr>"

definition written :: "(Artifact \<Rightarrow> string) \<Rightarrow> side \<Rightarrow> Artifact list \<Rightarrow> StreamDiff \<Rightarrow> StreamDiff \<Rightarrow> bool" where
  "written enc side as d d' \<longleftrightarrow>
     db_artifacts (sd_db d') = db_artifacts (sd_db d) @ map (row_of enc side) as \<and>
     db_duplicate_keys (sd_db d') = db_duplicate_keys (sd_db d) \<and>
     sd_findings d' = addAll (concat (map (validation_findings side) as)) (sd_findings d) \<and>
     \<not> sd_writesFinished d'"

lemma written_Nil: "\<not> sd_writesFinished d \<Longrightarrow> written enc side [] d d"
  by (simp add: written_def)

lemma written_trans: "written enc side as d d1 \<Longrightarrow> written enc side bs d1 d2 \<Longrightarrow> written enc side (as @ bs) d d2"
  by (simp add: written_def)

lemma ensureWriter_adds:
  "ensureWriter d b = Some (b', d') \<Longrightarrow> sd_db d' = sd_db d \<and> sd_findings d' = sd_findings d \<and> \<not> sd_writesFinished d'"
  by (auto simp: ensureWriter_def split: if_splits bind_splits)

lemma ensureWriter_total:
  "\<not> sd_writesFinished d \<Longrightarrow> \<exists>d'. ensureWriter d None = Some (None, d')"
  by (simp add: ensureWriter_def)

lemma ingest_one_adds:
  assumes "ingest_one enc side i a (b, d) = Some (b', d')"
  shows "written enc side [a] d d'"
proof -
  obtain b0 b1 d1 where e: "ensureWriter d b0 = Some (b1, d1)"
    and "d' = (let d = d1\<lparr>sd_findings := recordArtifactValidation side a (sd_findings d1)\<rparr>;
               d = d\<lparr>sd_db := sql_insert_artifact (row_of enc side a) (sd_db d)\<rparr>
           in if side = sideSource then d\<lparr>sd_source_count := sd_source_count d + 1\<rparr>
              else d\<lparr>sd_canonical_count := sd_canonical_count d + 1\<rparr>)"
    using assms by (auto simp: ingest_one_def writeArtifact_def row_of_def Let_def split: bind_splits)
  then show ?thesis
    using ensureWriter_adds [OF e]
    by (simp add: written_def recordArtifactValidation_def sql_insert_artifact_def Let_def)
qed

lemma ingest_one_total:
  assumes "\<not> sd_writesFinished d"
  shows "\<exists>d'. ingest_one enc side i a (None, d) = Some (None, d')"
  using ensureWriter_total [OF assms] by (auto simp: ingest_one_def writeArtifact_def Let_def)

lemma ingest_loop_adds:
  "\<not> sd_writesFinished d \<Longrightarrow> for_range (ingest_one enc side) i as (b, d) = Some (b', d') \<Longrightarrow> written enc side as d d'"
proof (induction as arbitrary: i b d)
  case Nil
  then show ?case by (simp add: written_Nil)
next
  case (Cons a as)
  then obtain b1 d1 where 1: "ingest_one enc side i a (b, d) = Some (b1, d1)"
    and 2: "for_range (ingest_one enc side) (Suc i) as (b1, d1) = Some (b', d')"
    by (auto split: bind_splits)
  have w: "written enc side [a] d d1" by (rule ingest_one_adds [OF 1])
  then have "\<not> sd_writesFinished d1" by (simp add: written_def)
  from written_trans [OF w Cons.IH [OF this 2]] show ?case by simp
qed

lemma ingest_loop_total:
  "\<not> sd_writesFinished d \<Longrightarrow> \<exists>d'. for_range (ingest_one enc side) i as (None, d) = Some (None, d')"
proof (induction as arbitrary: i d)
  case (Cons a as)
  obtain d1 where 1: "ingest_one enc side i a (None, d) = Some (None, d1)"
    using ingest_one_total [OF Cons.prems] by blast
  then have "\<not> sd_writesFinished d1" using ingest_one_adds [OF 1] by (simp add: written_def)
  from Cons.IH [OF this] 1 show ?case by simp
qed simp

lemma ingest_adds:
  "\<not> sd_writesFinished d \<Longrightarrow> ingestArtifactReader enc side as (b, d) = Some (b', d') \<Longrightarrow> written enc side as d d'"
  using ingest_loop_adds by (fastforce simp: ingestArtifactReader_def split: bind_splits)

lemma ingest_total:
  "\<not> sd_writesFinished d \<Longrightarrow> \<exists>d'. ingestArtifactReader enc side as (None, d) = Some (None, d')"
  using ingest_loop_total [of d enc side 0 as] by (auto simp: ingestArtifactReader_def)

lemma FinishWrites_adds:
  "FinishWrites d b = Some (b', d') \<Longrightarrow> sd_db d' = sd_db d \<and> sd_findings d' = sd_findings d"
  by (auto simp: FinishWrites_def split: if_splits bind_splits)

lemma FinishWrites_total: "\<exists>d'. FinishWrites d None = Some (None, d')"
  by (simp add: FinishWrites_def)

section \<open>The full table\<close>

definition full_rows :: "(Artifact \<Rightarrow> string) \<Rightarrow> Artifact list \<Rightarrow> Artifact list \<Rightarrow> artifactRow list" where
  "full_rows enc src can = map (row_of enc sideSource) src @ map (row_of enc sideCanonical) can"

definition full_db :: "(Artifact \<Rightarrow> string) \<Rightarrow> Artifact list \<Rightarrow> Artifact list \<Rightarrow> diffDB" where
  "full_db enc src can = sql_insert_duplicate_keys \<lparr>db_artifacts = full_rows enc src can, db_duplicate_keys = []\<rparr>"

lemma row_of_simps [simp]:
  "ar_side (row_of enc side a) = side" "ar_match_key (row_of enc side a) = matchKeyString (Artifact_Key a)"
  "ar_classless_key (row_of enc side a) = classlessKeyString (Artifact_ClasslessKey a)" "ar_json (row_of enc side a) = enc a"
  by (simp_all add: row_of_def)

fun side_list :: "Artifact list \<Rightarrow> Artifact list \<Rightarrow> side \<Rightarrow> Artifact list" where
  "side_list src can sideSource = src"
| "side_list src can sideCanonical = can"

lemma by_match_rows:
  "sql_by_match \<lparr>db_artifacts = full_rows enc src can, db_duplicate_keys = x\<rparr> side (matchKeyString k) =
     map (row_of enc side) (same_key (side_list src can side) k)"
  by (cases side) (simp_all add: sql_by_match_def full_rows_def same_key_def filter_map comp_def)

lemma full_db_artifacts [simp]: "db_artifacts (full_db enc src can) = full_rows enc src can"
  by (simp add: full_db_def sql_insert_duplicate_keys_def)

lemma full_db_match:
  "sql_by_match (full_db enc src can) side (matchKeyString k) = map (row_of enc side) (same_key (side_list src can side) k)"
  using by_match_rows by (simp add: sql_by_match_def)

lemma full_db_classless:
  "sql_by_classless (full_db enc src can) side (classlessKeyString k) =
     map (row_of enc side) (same_classless (side_list src can side) k)"
  by (cases side) (simp_all add: sql_by_classless_def full_rows_def same_classless_def filter_map comp_def)

lemma full_db_side: "sql_side (full_db enc src can) side = map (row_of enc side) (side_list src can side)"
  by (cases side) (simp_all add: sql_side_def full_rows_def filter_map comp_def)

lemma set_dup_keys: "k \<in> set (dup_keys as) \<longleftrightarrow> length (same_key as k) > 1"
proof -
  have "k \<in> Artifact_Key ` set as" if l: "length (same_key as k) > 1"
  proof -
    obtain a where "a \<in> set (same_key as k)" using l by (cases "same_key as k") auto
    then show ?thesis by (auto simp: same_key_def)
  qed
  then show ?thesis by (auto simp: dup_keys_def)
qed

lemma full_rows_side:
  "(\<exists>r\<in>set (full_rows enc src can). ar_side r = side \<and> P r) \<longleftrightarrow>
     (\<exists>a\<in>set (side_list src can side). P (row_of enc side a))"
  by (cases side) (simp_all add: full_rows_def bex_Un)

lemma full_db_duplicates:
  "distinct (db_duplicate_keys (full_db enc src can))"
  "(side, key) \<in> set (db_duplicate_keys (full_db enc src can)) \<longleftrightarrow>
     (\<exists>k\<in>set (dup_keys (side_list src can side)). key = matchKeyString k)"
proof -
  let ?db = "\<lparr>db_artifacts = full_rows enc src can, db_duplicate_keys = []\<rparr>"
  let ?dup = "\<lambda>side a. length (same_key (side_list src can side) (Artifact_Key a)) > 1"
  have d: "db_duplicate_keys (full_db enc src can) = remdups (map (\<lambda>r. (ar_side r, ar_match_key r))
      (filter (\<lambda>r. length (sql_by_match ?db (ar_side r) (ar_match_key r)) > 1) (full_rows enc src can)))"
    by (simp add: full_db_def sql_insert_duplicate_keys_def)
  then show "distinct (db_duplicate_keys (full_db enc src can))" by simp
  have "(side, key) \<in> set (db_duplicate_keys (full_db enc src can)) \<longleftrightarrow>
      (\<exists>a\<in>set (side_list src can side). ?dup side a \<and> key = matchKeyString (Artifact_Key a))"
  proof -
    have "(side, key) \<in> set (db_duplicate_keys (full_db enc src can)) \<longleftrightarrow>
        (\<exists>r\<in>set (full_rows enc src can). ar_side r = side \<and>
           length (sql_by_match ?db (ar_side r) (ar_match_key r)) > 1 \<and> key = ar_match_key r)"
      unfolding d by auto
    then show ?thesis unfolding full_rows_side by (simp add: by_match_rows)
  qed
  also have "\<dots> \<longleftrightarrow> (\<exists>k\<in>set (dup_keys (side_list src can side)). key = matchKeyString k)"
    by (auto simp: dup_keys_def)
  finally show "(side, key) \<in> set (db_duplicate_keys (full_db enc src can)) \<longleftrightarrow>
      (\<exists>k\<in>set (dup_keys (side_list src can side)). key = matchKeyString k)" .
qed

lemma full_db_has_duplicate:
  "length (filter (\<lambda>p. p = (side, matchKeyString k)) (db_duplicate_keys (full_db enc src can))) > 0 \<longleftrightarrow>
     length (same_key (side_list src can side) k) > 1"
proof -
  have "length (filter (\<lambda>p. p = (side, matchKeyString k)) xs) > 0 \<longleftrightarrow> (side, matchKeyString k) \<in> set xs" for xs
    by (induction xs) auto
  then show ?thesis
    using full_db_duplicates(2) [of side "matchKeyString k" enc src can] set_dup_keys [of k "side_list src can side"]
    by auto
qed

lemma full_db_duplicates_of:
  "mset (sql_duplicates_of (full_db enc src can) side) = mset (map matchKeyString (dup_keys (side_list src can side)))"
proof -
  let ?D = "db_duplicate_keys (full_db enc src can)" and ?ks = "dup_keys (side_list src can side)"
  let ?l = "map snd (filter (\<lambda>p. fst p = side) ?D)"
  have "distinct ?l"
    using full_db_duplicates(1) by (auto simp: distinct_map inj_on_def prod_eq_iff)
  moreover have "distinct (map matchKeyString ?ks)"
    by (simp add: distinct_map inj_on_def dup_keys_def)
  moreover have "set ?l = set (map matchKeyString ?ks)"
  proof -
    have "set ?l = {key. (side, key) \<in> set ?D}" by force
    also have "\<dots> = set (map matchKeyString ?ks)" unfolding full_db_duplicates(2) by auto
    finally show ?thesis .
  qed
  ultimately have "mset ?l = mset (map matchKeyString ?ks)" by (metis set_eq_iff_mset_eq_distinct)
  then show ?thesis by (simp add: sql_duplicates_of_def)
qed

section \<open>Reading back\<close>

definition readable :: "(Artifact \<Rightarrow> string) \<Rightarrow> (string \<Rightarrow> Artifact option) \<Rightarrow> Artifact list \<Rightarrow> bool" where
  "readable enc dec as \<longleftrightarrow> (\<forall>a\<in>set as. dec (enc a) = Some a)"

lemma readable_same:
  assumes "readable enc dec as"
  shows "same_key as k = a # r \<Longrightarrow> dec (enc a) = Some a" "same_classless as c = a # r \<Longrightarrow> dec (enc a) = Some a"
proof -
  have "a \<in> set as" if "same_key as k = a # r"
    using that filter_is_subset [of "\<lambda>a. Artifact_Key a = k" as] unfolding same_key_def by (metis insertI1 list.simps(15) subsetD)
  moreover have "a \<in> set as" if "same_classless as c = a # r"
    using that filter_is_subset [of "\<lambda>a. Artifact_ClasslessKey a = c" as] unfolding same_classless_def by (metis insertI1 list.simps(15) subsetD)
  ultimately show "same_key as k = a # r \<Longrightarrow> dec (enc a) = Some a" "same_classless as c = a # r \<Longrightarrow> dec (enc a) = Some a"
    using assms by (auto simp: readable_def)
qed

definition first_finding :: "(string \<Rightarrow> Artifact option) \<Rightarrow> diffDB \<Rightarrow> side \<Rightarrow> string \<Rightarrow> Finding list" where
  "first_finding dec db side key = (case scanArtifactRow dec (sql_by_match db side key) of
       None \<Rightarrow> [] | Some a \<Rightarrow> [duplicate_finding side a])"

interpretation duplicate_keys: reporting "add_duplicate_key dec db side" "first_finding dec db side"
    "\<lambda>key. scanArtifactRow dec (sql_by_match db side key) \<noteq> None" for dec db side
  by unfold_locales
    (auto simp: add_duplicate_key_def first_finding_def firstArtifactByMatchKey_def split: bind_splits)

text \<open>A row of one side of the full table, and what is reported for it.\<close>

definition row_ok :: "(Artifact \<Rightarrow> string) \<Rightarrow> (string \<Rightarrow> Artifact option) \<Rightarrow> Artifact list \<Rightarrow> Artifact list \<Rightarrow> side \<Rightarrow> artifactRow \<Rightarrow> bool" where
  "row_ok enc dec src can side row \<longleftrightarrow> readable enc dec src \<and> readable enc dec can \<and>
     (\<exists>a\<in>set (side_list src can side). row = row_of enc side a)"

definition row_findings :: "(Artifact \<Rightarrow> Finding list) \<Rightarrow> (string \<Rightarrow> Artifact option) \<Rightarrow> artifactRow \<Rightarrow> Finding list" where
  "row_findings f dec row = (case dec (ar_json row) of None \<Rightarrow> [] | Some a \<Rightarrow> f a)"

lemmas query_defs = hasDuplicateKey_def countByMatchKey_def countByClasslessKey_def
  firstArtifactByMatchKey_def firstArtifactByClasslessKey_def

lemmas sql_query_defs = query_defs scanArtifactRow_def

lemmas full_db_facts = full_db_match full_db_classless full_db_has_duplicate

lemma compare_source_row_spec:
  assumes "row_ok enc dec src can sideSource row"
  shows "compare_source_row dec (full_db enc src can) i row (b, acc) = Some (b', acc') \<Longrightarrow>
      acc' = addAll (row_findings (spec_source src can) dec row) acc"
    and "compare_source_row dec (full_db enc src can) i row (None, acc) =
      Some (None, addAll (row_findings (spec_source src can) dec row) acc)"
proof -
  obtain a where a: "a \<in> set src" "row = row_of enc sideSource a" "dec (enc a) = Some a"
    and r: "readable enc dec can"
    using assms by (auto simp: row_ok_def readable_def)
  have dup: "length (filter (\<lambda>p. p = (sideSource, matchKeyString k)) (db_duplicate_keys (full_db enc src can))) > 0 \<longleftrightarrow>
      length (same_key src k) > 1" for k
    using full_db_has_duplicate [of sideSource k enc src can] by simp
  show "compare_source_row dec (full_db enc src can) i row (b, acc) = Some (b', acc') \<Longrightarrow>
      acc' = addAll (row_findings (spec_source src can) dec row) acc"
    using a readable_same [OF r]
    by (auto simp: compare_source_row_def sql_query_defs full_db_match full_db_classless dup spec_source_def row_findings_def
        simp del: length_greater_0_conv split: bind_splits if_splits list.splits)
  show "compare_source_row dec (full_db enc src can) i row (None, acc) =
      Some (None, addAll (row_findings (spec_source src can) dec row) acc)"
    using a readable_same [OF r]
    by (auto simp: compare_source_row_def sql_query_defs full_db_match full_db_classless dup spec_source_def row_findings_def
        simp del: length_greater_0_conv split: list.splits)
qed

lemma compare_canonical_row_spec:
  assumes "row_ok enc dec src can sideCanonical row"
  shows "compare_canonical_row dec (full_db enc src can) i row (b, acc) = Some (b', acc') \<Longrightarrow>
      acc' = addAll (row_findings (spec_canonical src can) dec row) acc"
    and "compare_canonical_row dec (full_db enc src can) i row (None, acc) =
      Some (None, addAll (row_findings (spec_canonical src can) dec row) acc)"
proof -
  obtain a where a: "a \<in> set can" "row = row_of enc sideCanonical a" "dec (enc a) = Some a"
    using assms by (auto simp: row_ok_def readable_def)
  have dup: "length (filter (\<lambda>p. p = (sideCanonical, matchKeyString k)) (db_duplicate_keys (full_db enc src can))) > 0 \<longleftrightarrow>
      length (same_key can k) > 1" for k
    using full_db_has_duplicate [of sideCanonical k enc src can] by simp
  show "compare_canonical_row dec (full_db enc src can) i row (b, acc) = Some (b', acc') \<Longrightarrow>
      acc' = addAll (row_findings (spec_canonical src can) dec row) acc"
    using a
    by (auto simp: compare_canonical_row_def sql_query_defs full_db_match full_db_classless dup spec_canonical_def row_findings_def
        simp del: length_greater_0_conv split: bind_splits if_splits)
  show "compare_canonical_row dec (full_db enc src can) i row (None, acc) =
      Some (None, addAll (row_findings (spec_canonical src can) dec row) acc)"
    using a
    by (auto simp: compare_canonical_row_def sql_query_defs full_db_match full_db_classless dup spec_canonical_def row_findings_def
        simp del: length_greater_0_conv)
qed

interpretation source_rows: reporting "compare_source_row dec (full_db enc src can)"
    "row_findings (spec_source src can) dec" "row_ok enc dec src can sideSource" for enc dec src can
  using compare_source_row_spec by unfold_locales blast+

interpretation canonical_rows: reporting "compare_canonical_row dec (full_db enc src can)"
    "row_findings (spec_canonical src can) dec" "row_ok enc dec src can sideCanonical" for enc dec src can
  using compare_canonical_row_spec by unfold_locales blast+

section \<open>The whole run\<close>

lemma first_finding_spec:
  assumes "readable enc dec (side_list src can side)" "k \<in> set (dup_keys (side_list src can side))"
  shows "scanArtifactRow dec (sql_by_match (full_db enc src can) side (matchKeyString k)) \<noteq> None"
    and "first_finding dec (full_db enc src can) side (matchKeyString k) =
      [duplicate_finding side (hd (same_key (side_list src can side) k))]"
proof -
  obtain a r where "same_key (side_list src can side) k = a # r"
    using assms(2) set_dup_keys [of k "side_list src can side"] by (cases "same_key (side_list src can side) k") auto
  then show "scanArtifactRow dec (sql_by_match (full_db enc src can) side (matchKeyString k)) \<noteq> None"
    and "first_finding dec (full_db enc src can) side (matchKeyString k) =
      [duplicate_finding side (hd (same_key (side_list src can side) k))]"
    using readable_same(1) [OF assms(1)] by (simp_all add: first_finding_def scanArtifactRow_def full_db_match)
qed

definition stream_duplicates :: "(string \<Rightarrow> Artifact option) \<Rightarrow> (Artifact \<Rightarrow> string) \<Rightarrow> Artifact list \<Rightarrow> Artifact list \<Rightarrow> side \<Rightarrow> Finding list" where
  "stream_duplicates dec enc src can side =
     concat (map (first_finding dec (full_db enc src can) side) (sql_duplicates_of (full_db enc src can) side))"

lemma duplicate_keys_ok:
  assumes "readable enc dec (side_list src can side)"
  shows "list_all (\<lambda>key. scanArtifactRow dec (sql_by_match (full_db enc src can) side key) \<noteq> None)
    (sql_duplicates_of (full_db enc src can) side)"
proof -
  have "set (sql_duplicates_of (full_db enc src can) side) = set (map matchKeyString (dup_keys (side_list src can side)))"
    using full_db_duplicates_of by (metis set_mset_mset)
  then show ?thesis using first_finding_spec(1) [OF assms] by (auto simp: list_all_iff)
qed

lemma stream_duplicates_spec:
  assumes "readable enc dec (side_list src can side)"
  shows "mset (stream_duplicates dec enc src can side) = mset (spec_duplicates side (side_list src can side))"
proof -
  let ?f = "first_finding dec (full_db enc src can) side" and ?ks = "dup_keys (side_list src can side)"
  have "mset (stream_duplicates dec enc src can side) = mset (concat (map ?f (map matchKeyString ?ks)))"
    unfolding stream_duplicates_def by (rule mset_concat_perm) (rule full_db_duplicates_of)
  also have "concat (map ?f (map matchKeyString ?ks)) = spec_duplicates side (side_list src can side)"
  proof -
    have "concat (map ?f (map matchKeyString ks)) = map (\<lambda>k. duplicate_finding side (hd (same_key (side_list src can side) k))) ks"
      if "set ks \<subseteq> set ?ks" for ks
      using that first_finding_spec(2) [OF assms] by (induction ks) auto
    then show ?thesis by (simp add: spec_duplicates_def)
  qed
  finally show ?thesis .
qed

lemma rows_findings:
  assumes "readable enc dec (side_list src can side)"
  shows "concat (map (row_findings f dec) (sql_side (full_db enc src can) side)) = concat (map f (side_list src can side))"
proof -
  have "map (\<lambda>a. row_findings f dec (row_of enc side a)) (side_list src can side) = map f (side_list src can side)"
    using assms by (auto simp: row_findings_def readable_def)
  from arg_cong [OF this, of concat] show ?thesis by (simp add: full_db_side comp_def del: map_eq_conv)
qed

lemma rows_ok:
  assumes "readable enc dec src" "readable enc dec can"
  shows "list_all (row_ok enc dec src can side) (sql_side (full_db enc src can) side)"
  using assms by (auto simp: full_db_side list_all_iff row_ok_def)

definition stream_findings :: "(string \<Rightarrow> Artifact option) \<Rightarrow> (Artifact \<Rightarrow> string) \<Rightarrow> Artifact list \<Rightarrow> Artifact list \<Rightarrow> Finding list" where
  "stream_findings dec enc src can =
     concat (map (validation_findings sideSource) src) @ concat (map (validation_findings sideCanonical) can) @
     stream_duplicates dec enc src can sideSource @ stream_duplicates dec enc src can sideCanonical @
     concat (map (spec_source src can) src) @ concat (map (spec_canonical src can) can)"

lemma stream_findings_spec:
  assumes "readable enc dec src" "readable enc dec can"
  shows "mset (stream_findings dec enc src can) = mset (spec_findings src can)"
  using stream_duplicates_spec [of enc dec src can sideSource] stream_duplicates_spec [of enc dec src can sideCanonical] assms
  by (simp add: stream_findings_def spec_findings_def ac_simps)

definition fresh_sink :: "int \<Rightarrow> StreamDiff" where
  "fresh_sink cap = \<lparr>sd_db = \<lparr>db_artifacts = [], db_duplicate_keys = []\<rparr>, sd_findings = newFindingAccumulator cap,
     sd_stmt = False, sd_writesFinished = False, sd_source_count = 0, sd_canonical_count = 0\<rparr>"

lemma NewStreamDiff_sink:
  "NewStreamDiff cap None = Some (None, fresh_sink cap)"
  "NewStreamDiff cap b = Some (b', d) \<Longrightarrow> d = fresh_sink cap"
  by (auto simp: NewStreamDiff_def fresh_sink_def split: bind_splits)

text \<open>The state before the result is computed: both manifests written.\<close>

definition ingested :: "(Artifact \<Rightarrow> string) \<Rightarrow> int \<Rightarrow> Artifact list \<Rightarrow> Artifact list \<Rightarrow> StreamDiff \<Rightarrow> bool" where
  "ingested enc cap src can d \<longleftrightarrow>
     sd_db d = \<lparr>db_artifacts = full_rows enc src can, db_duplicate_keys = []\<rparr> \<and>
     sd_findings d = addAll (concat (map (validation_findings sideSource) src) @
       concat (map (validation_findings sideCanonical) can)) (newFindingAccumulator cap)"

lemma written_ingested:
  assumes "written enc sideSource src (fresh_sink cap) d1" "written enc sideCanonical can d1 d2"
  shows "ingested enc cap src can d2"
  using assms by (simp add: written_def ingested_def fresh_sink_def full_rows_def)

lemma addDuplicateFindings_total:
  assumes "readable enc dec (side_list src can side)"
  shows "addDuplicateFindings dec (full_db enc src can) side (None, acc) =
    Some (None, addAll (stream_duplicates dec enc src can side) acc)"
  using duplicate_keys.rows_total [OF duplicate_keys_ok [OF assms]]
  by (simp add: addDuplicateFindings_def stream_duplicates_def)

lemma compareArtifacts_total:
  assumes "readable enc dec src" "readable enc dec can"
  shows "compareSourceArtifacts dec (full_db enc src can) (None, acc) = Some (None, addAll (concat (map (spec_source src can) src)) acc)"
    and "compareCanonicalArtifacts dec (full_db enc src can) (None, acc) = Some (None, addAll (concat (map (spec_canonical src can) can)) acc)"
  using source_rows.rows_total [OF rows_ok [OF assms]] canonical_rows.rows_total [OF rows_ok [OF assms]]
    rows_findings [of enc dec src can sideSource] rows_findings [of enc dec src can sideCanonical] assms
  by (simp_all add: compareSourceArtifacts_def compareCanonicalArtifacts_def)

lemma StreamDiff_Result_total:
  assumes "readable enc dec src" "readable enc dec can" "ingested enc cap src can d"
  shows "StreamDiff_Result dec its d None =
      (acc_result its (addAll (stream_findings dec enc src can) (newFindingAccumulator cap)), False)"
proof -
  obtain d' where fin: "FinishWrites d None = Some (None, d')" using FinishWrites_total by blast
  have db: "sql_insert_duplicate_keys (sd_db d') = full_db enc src can" "sd_findings d' = sd_findings d"
    using FinishWrites_adds [OF fin] assms(3) by (simp_all add: ingested_def full_db_def)
  have r: "readable enc dec (side_list src can side)" for side using assms by (cases side) simp_all
  show ?thesis
    using assms(3) r
    by (simp add: StreamDiff_Result_def fin recordDuplicateKeys_def db addDuplicateFindings_total
        compareArtifacts_total assms stream_findings_def ingested_def)
qed

lemma DiffArtifactStreams_total:
  assumes "readable enc dec src" "readable enc dec can"
  shows "DiffArtifactStreamsContext enc dec its None src can cap =
    (acc_result its (addAll (stream_findings dec enc src can) (newFindingAccumulator cap)), False)"
proof -
  obtain d1 where d1: "ingestArtifactReader enc sideSource src (None, fresh_sink cap) = Some (None, d1)"
    using ingest_total [of "fresh_sink cap" enc sideSource src] by (auto simp: fresh_sink_def)
  then have w1: "written enc sideSource src (fresh_sink cap) d1"
    by (intro ingest_adds [of "fresh_sink cap"]) (auto simp: fresh_sink_def)
  then obtain d2 where d2: "ingestArtifactReader enc sideCanonical can (None, d1) = Some (None, d2)"
    using ingest_total [of d1 enc sideCanonical can] by (auto simp: written_def)
  have w2: "written enc sideCanonical can d1 d2"
    using ingest_adds [OF _ d2] w1 by (simp add: written_def)
  show ?thesis
    by (simp add: DiffArtifactStreamsContext_def NewStreamDiff_sink d1 d2
        StreamDiff_Result_total [OF assms written_ingested [OF w1 w2]])
qed

section \<open>Interrupted runs\<close>

text \<open>
  Whatever a step does within a budget, it does without one. This needs nothing of the JSON of a
  row: a run that meets an unreadable row fails with every budget.
\<close>

definition steady :: "(budget \<Rightarrow> (budget \<times> 'a) option) \<Rightarrow> bool" where
  "steady f \<longleftrightarrow> (\<forall>b b' x. f b = Some (b', x) \<longrightarrow> f None = Some (None, x))"

lemma steady_return: "steady (\<lambda>b. Some (b, x))"
  by (simp add: steady_def)

lemma steady_tick: "steady f \<Longrightarrow> steady (\<lambda>b. do { b \<leftarrow> tick b; f b })"
  by (auto simp: steady_def split: bind_split_asm)

lemma steady_check: "steady f \<Longrightarrow> steady (\<lambda>b. do { b \<leftarrow> checkDiffContext i b; f b })"
  by (auto simp: steady_def split: bind_split_asm)

lemma steady_const: "(\<And>x. steady (f x)) \<Longrightarrow> steady (\<lambda>b. do { x \<leftarrow> m; f x b })"
  by (cases m) (simp_all add: steady_def)

lemma steady_bind:
  assumes "steady f" "\<And>x. steady (g x)"
  shows "steady (\<lambda>b. do { (b, x) \<leftarrow> f b; g x b })"
proof -
  have "do { (b, x) \<leftarrow> f None; g x b } = Some (None, y)"
    if run: "do { (b, x) \<leftarrow> f b; g x b } = Some (b', y)" for b b' y
  proof -
    obtain b1 x where "f b = Some (b1, x)" "g x b1 = Some (b', y)" using run by (auto split: bind_split_asm)
    then have "f None = Some (None, x)" "g x None = Some (None, y)" using assms unfolding steady_def by blast+
    then show ?thesis by simp
  qed
  then show ?thesis unfolding steady_def by blast
qed

lemma steady_if: "steady f \<Longrightarrow> steady g \<Longrightarrow> steady (\<lambda>b. if c then f b else g b)"
  by (cases c) simp_all

lemma steadyD: "steady f \<Longrightarrow> f b = Some (b', x) \<Longrightarrow> f None = Some (None, x)"
  unfolding steady_def by blast

lemma steady_queries:
  "steady (firstArtifactByMatchKey dec db side key)" "steady (firstArtifactByClasslessKey dec db side key)"
  "steady (countByMatchKey db side key)" "steady (countByClasslessKey db side key)" "steady (hasDuplicateKey db side key)"
  unfolding query_defs by (intro steady_tick steady_const steady_return)+

lemmas steady_rules = steady_return steady_tick steady_check steady_const steady_if steady_queries steady_bind

lemma for_range_unlimited:
  assumes "\<And>i x b s b' s'. f i x (b, s) = Some (b', s') \<Longrightarrow> f i x (None, s) = Some (None, s')"
  shows "for_range f i xs (b, s) = Some (b', s') \<Longrightarrow> for_range f i xs (None, s) = Some (None, s')"
proof (induction xs arbitrary: i b s)
  case (Cons x xs)
  then obtain b1 s1 where "f i x (b, s) = Some (b1, s1)" "for_range f (Suc i) xs (b1, s1) = Some (b', s')"
    by (auto split: bind_splits)
  then show ?case using Cons.IH assms by simp
qed simp

lemma for_rows_unlimited:
  assumes step: "\<And>i x b acc b' acc'. f i x (b, acc) = Some (b', acc') \<Longrightarrow> f i x (None, acc) = Some (None, acc')"
    and run: "for_rows f xs (b, acc) = Some (b', acc')"
  shows "for_rows f xs (None, acc) = Some (None, acc')"
proof -
  have loop: "rows_loop f i xs (b, acc) = Some ((b', acc'), False) \<Longrightarrow> rows_loop f i xs (None, acc) = Some ((None, acc'), False)"
    for i b acc
  proof (induction xs arbitrary: i b acc)
    case Nil
    then show ?case by (simp split: option.splits)
  next
    case (Cons x xs)
    then obtain b0 b1 acc1 where "f i x (b0, acc) = Some (b1, acc1)" "rows_loop f (Suc i) xs (b1, acc1) = Some ((b', acc'), False)"
      by (auto split: bind_splits option.splits)
    then show ?case using Cons.IH step by simp
  qed
  have "rows_loop f 0 xs (b, acc) = Some ((b', acc'), False)"
    using run by (auto simp: for_rows_def split: bind_splits if_splits)
  from loop [OF this] show ?thesis by (simp add: for_rows_def)
qed

lemma ensureWriter_unlimited: "ensureWriter d b = Some (b', d') \<Longrightarrow> ensureWriter d None = Some (None, d')"
  by (auto simp: ensureWriter_def split: if_splits bind_splits)

lemma ingest_one_unlimited:
  assumes "ingest_one enc side i a (b, d) = Some (b', d')"
  shows "ingest_one enc side i a (None, d) = Some (None, d')"
proof -
  obtain b0 b1 d1 where "ensureWriter d b0 = Some (b1, d1)"
    and "d' = (let d = d1\<lparr>sd_findings := recordArtifactValidation side a (sd_findings d1)\<rparr>;
               d = d\<lparr>sd_db := sql_insert_artifact (row_of enc side a) (sd_db d)\<rparr>
           in if side = sideSource then d\<lparr>sd_source_count := sd_source_count d + 1\<rparr>
              else d\<lparr>sd_canonical_count := sd_canonical_count d + 1\<rparr>)"
    using assms by (auto simp: ingest_one_def writeArtifact_def row_of_def Let_def split: bind_splits)
  then show ?thesis
    using ensureWriter_unlimited [of d b0 b1 d1] by (simp add: ingest_one_def writeArtifact_def row_of_def Let_def)
qed

lemma ingest_unlimited:
  "ingestArtifactReader enc side as (b, d) = Some (b', d') \<Longrightarrow> ingestArtifactReader enc side as (None, d) = Some (None, d')"
  using for_range_unlimited [of "ingest_one enc side", OF ingest_one_unlimited]
  by (fastforce simp: ingestArtifactReader_def split: bind_splits)

lemma FinishWrites_unlimited: "FinishWrites d b = Some (b', d') \<Longrightarrow> FinishWrites d None = Some (None, d')"
  by (auto simp: FinishWrites_def split: if_splits bind_splits)

lemma add_duplicate_key_unlimited:
  "add_duplicate_key dec db side i key (b, acc) = Some (b', acc') \<Longrightarrow>
     add_duplicate_key dec db side i key (None, acc) = Some (None, acc')"
  by (rule steadyD [where f = "\<lambda>b. add_duplicate_key dec db side i key (b, acc)"])
    (simp only: add_duplicate_key_def prod.case, (rule steady_rules)+)

lemma compare_source_row_unlimited:
  "compare_source_row dec db i row (b, acc) = Some (b', acc') \<Longrightarrow> compare_source_row dec db i row (None, acc) = Some (None, acc')"
  by (rule steadyD [where f = "\<lambda>b. compare_source_row dec db i row (b, acc)"])
    (simp only: compare_source_row_def prod.case, (rule steady_rules)+)

lemma compare_canonical_row_unlimited:
  "compare_canonical_row dec db i row (b, acc) = Some (b', acc') \<Longrightarrow> compare_canonical_row dec db i row (None, acc) = Some (None, acc')"
  by (rule steadyD [where f = "\<lambda>b. compare_canonical_row dec db i row (b, acc)"])
    (simp only: compare_canonical_row_def prod.case, (rule steady_rules)+)

lemma addDuplicateFindings_unlimited:
  "addDuplicateFindings dec db side (b, acc) = Some (b', acc') \<Longrightarrow> addDuplicateFindings dec db side (None, acc) = Some (None, acc')"
  using for_rows_unlimited [of "add_duplicate_key dec db side", OF add_duplicate_key_unlimited]
  by (auto simp: addDuplicateFindings_def split: bind_splits)

lemma recordDuplicateKeys_unlimited:
  assumes "recordDuplicateKeys dec db (b, acc) = Some (db', b', acc')"
  shows "recordDuplicateKeys dec db (None, acc) = Some (db', None, acc')"
proof -
  let ?db = "sql_insert_duplicate_keys db"
  obtain b0 b1 acc1 where db': "db' = ?db"
    and 1: "addDuplicateFindings dec ?db sideSource (b0, acc) = Some (b1, acc1)"
    and 2: "addDuplicateFindings dec ?db sideCanonical (b1, acc1) = Some (b', acc')"
    using assms by (auto simp: recordDuplicateKeys_def Let_def split: bind_splits)
  from addDuplicateFindings_unlimited [OF 1] addDuplicateFindings_unlimited [OF 2]
  show ?thesis by (simp add: recordDuplicateKeys_def Let_def db')
qed

lemma compare_unlimited:
  "compareSourceArtifacts dec db (b, acc) = Some (b', acc') \<Longrightarrow> compareSourceArtifacts dec db (None, acc) = Some (None, acc')"
  "compareCanonicalArtifacts dec db (b, acc) = Some (b', acc') \<Longrightarrow> compareCanonicalArtifacts dec db (None, acc) = Some (None, acc')"
  using for_rows_unlimited [of "compare_source_row dec db", OF compare_source_row_unlimited]
    for_rows_unlimited [of "compare_canonical_row dec db", OF compare_canonical_row_unlimited]
  by (auto simp: compareSourceArtifacts_def compareCanonicalArtifacts_def split: bind_splits)

lemma StreamDiff_Result_cases:
  "StreamDiff_Result dec its d b = (incomplete, True) \<or>
   \<not> snd (StreamDiff_Result dec its d b) \<and> StreamDiff_Result dec its d b = StreamDiff_Result dec its d None"
proof (cases "do { (b, d) \<leftarrow> FinishWrites d b;
             (db, r) \<leftarrow> recordDuplicateKeys dec (sd_db d) (b, sd_findings d);
             r \<leftarrow> compareSourceArtifacts dec db r;
             compareCanonicalArtifacts dec db r }")
  case None
  then show ?thesis by (simp add: StreamDiff_Result_def)
next
  case (Some p)
  then obtain b1 d1 db b2 acc2 b3 acc3 b4 acc4 where 1: "FinishWrites d b = Some (b1, d1)"
    and 2: "recordDuplicateKeys dec (sd_db d1) (b1, sd_findings d1) = Some (db, b2, acc2)"
    and 3: "compareSourceArtifacts dec db (b2, acc2) = Some (b3, acc3)"
    and 4: "compareCanonicalArtifacts dec db (b3, acc3) = Some (b4, acc4)" and p: "p = (b4, acc4)"
    by (cases p) (auto split: bind_splits)
  from FinishWrites_unlimited [OF 1] recordDuplicateKeys_unlimited [OF 2] compare_unlimited(1) [OF 3] compare_unlimited(2) [OF 4]
  have "StreamDiff_Result dec its d None = (acc_result its acc4, False)" by (simp add: StreamDiff_Result_def)
  moreover have "StreamDiff_Result dec its d b = (acc_result its acc4, False)" using Some by (simp add: StreamDiff_Result_def p)
  ultimately show ?thesis by simp
qed

lemma DiffArtifactStreams_cases:
  "DiffArtifactStreamsContext enc dec its ctx src can cap = (incomplete, True) \<or>
   \<not> snd (DiffArtifactStreamsContext enc dec its ctx src can cap) \<and>
   DiffArtifactStreamsContext enc dec its ctx src can cap = DiffArtifactStreamsContext enc dec its None src can cap"
proof (cases "do { (b, d) \<leftarrow> NewStreamDiff cap ctx;
             s \<leftarrow> ingestArtifactReader enc sideSource src (b, d);
             ingestArtifactReader enc sideCanonical can s }")
  case None
  then show ?thesis by (simp add: DiffArtifactStreamsContext_def)
next
  case (Some s)
  then obtain b0 d0 b1 d1 b2 d2 where n: "NewStreamDiff cap ctx = Some (b0, d0)"
    and 1: "ingestArtifactReader enc sideSource src (b0, d0) = Some (b1, d1)"
    and 2: "ingestArtifactReader enc sideCanonical can (b1, d1) = Some (b2, d2)" and s: "s = (b2, d2)"
    by (cases s) (auto split: bind_splits)
  have "DiffArtifactStreamsContext enc dec its None src can cap = StreamDiff_Result dec its d2 None"
    using NewStreamDiff_sink(1) [of cap] NewStreamDiff_sink(2) [OF n] ingest_unlimited [OF 1] ingest_unlimited [OF 2]
    by (simp add: DiffArtifactStreamsContext_def)
  moreover have "DiffArtifactStreamsContext enc dec its ctx src can cap = StreamDiff_Result dec its d2 b2"
    using Some by (simp add: DiffArtifactStreamsContext_def s)
  ultimately show ?thesis using StreamDiff_Result_cases [of dec its d2 b2] by simp
qed

end
