(* ===== verification/Parity_Props.thy ===== *)
theory Parity_Props
  imports Parity_Stream
begin

text \<open>
  The properties of the parity gate: the two engines agree, an interrupted run never
  reports a verdict, exactly which manifests pass, what the verdict does not cover, the
  counts of a result, and the shape of the key strings and the matrices.
\<close>

section \<open>When there is nothing to report\<close>

lemma newFinding_simps [simp]:
  "f_Severity (newFinding a s c m) = s" "f_Code (newFinding a s c m) = c"
  by (simp_all add: newFinding_def)

lemma severity_compareMatched: "f \<in> set (compareMatchedArtifacts a c) \<Longrightarrow> f_Severity f \<noteq> SeverityP3"
  by (auto simp: compareMatchedArtifacts_def split: option.splits if_splits)

lemma severity_spec_source: "f \<in> set (spec_source src can a) \<Longrightarrow> f_Severity f \<noteq> SeverityP3"
  using severity_compareMatched
  by (auto simp: spec_source_def missingSeverity_def split: if_splits list.splits)

lemma severity_spec_findings: "f \<in> set (spec_findings src can) \<Longrightarrow> f_Severity f \<noteq> SeverityP3"
  using severity_spec_source
  by (auto simp: spec_findings_def validation_findings_def spec_duplicates_def duplicate_finding_def spec_canonical_def
      split: option.splits if_splits)

lemma severity_cases: "s \<in> {SeverityP0, SeverityP1, SeverityP2} \<longleftrightarrow> s \<noteq> SeverityP3"
  by (cases s) simp_all

lemma findings_state_pass: "findings_state (spec_findings src can) = StatePass \<longleftrightarrow> spec_findings src can = []"
proof
  assume "findings_state (spec_findings src can) = StatePass"
  then have "\<forall>f\<in>set (spec_findings src can). f_Severity f = SeverityP3"
    unfolding findings_state_def severity_cases by (auto split: if_splits)
  then show "spec_findings src can = []"
    using severity_spec_findings [of "hd (spec_findings src can)" src can] by (meson hd_in_set)
qed (simp add: findings_state_def)

text \<open>A canonical artifact agrees with the source artifact of the same key.\<close>

definition agree :: "Artifact \<Rightarrow> Artifact \<Rightarrow> bool" where
  "agree a c \<longleftrightarrow> a_Availability c \<noteq> AvailabilityUnverifiable \<and> Artifact_Validate c = None \<and>
     a_Availability c = a_Availability a \<and>
     (ByteProofRequired a \<longrightarrow>
        a_HashDomain c = a_HashDomain a \<and> a_ComputedSHA256 c \<noteq> [] \<and> a_ComputedSHA256 c = a_ComputedSHA256 a \<and>
        a_Bytes c = a_Bytes a \<and> (0 \<le> sint (a_Chars a) \<longrightarrow> a_Chars c = a_Chars a) \<and>
        (SelectorProofRequired a \<longrightarrow> a_Selector c = a_Selector a))"

lemma selectorsEqual_iff: "selectorsEqual a b \<longleftrightarrow> a = b"
  by (auto simp: selectorsEqual_def split: option.splits intro!: Selector.equality ByteRange.equality)

lemma compareMatched_Nil: "compareMatchedArtifacts a c = [] \<longleftrightarrow> agree a c"
  by (auto simp: compareMatchedArtifacts_def agree_def selectorsEqual_iff not_less split: option.splits)

definition sound :: "Artifact \<Rightarrow> bool" where
  "sound a \<longleftrightarrow> Artifact_Validate a = None \<and> validateArtifactAgainstMatrix a = None"

lemma validation_Nil: "validation_findings side a = [] \<longleftrightarrow> sound a"
  by (auto simp: validation_findings_def sound_def split: option.splits)

lemma length_filter_count: "length (filter (\<lambda>a. f a = k) as) = count (mset (map f as)) k"
  by (induction as) auto

lemma groups_distinct: "(\<forall>k. length (filter (\<lambda>a. f a = k) as) \<le> 1) \<longleftrightarrow> distinct (map f as)"
proof -
  let ?c = "count (mset (map f as))"
  have z: "?c k = 0 \<longleftrightarrow> k \<notin> set (map f as)" for k
    by (metis count_eq_zero_iff set_mset_mset)
  have "(\<forall>k. ?c k \<le> 1) \<longleftrightarrow> (\<forall>k. ?c k = (if k \<in> set (map f as) then 1 else 0))"
    using z by (metis le_Suc_eq le_zero_eq One_nat_def zero_le_one le_refl)
  then show ?thesis unfolding length_filter_count distinct_count_atmost_1 .
qed

lemma duplicates_Nil: "spec_duplicates side as = [] \<longleftrightarrow> distinct (map Artifact_Key as)"
proof -
  have "spec_duplicates side as = [] \<longleftrightarrow> (\<forall>k. k \<notin> set (dup_keys as))"
    by (cases "dup_keys as") (auto simp: spec_duplicates_def)
  also have "\<dots> \<longleftrightarrow> (\<forall>k. length (filter (\<lambda>a. Artifact_Key a = k) as) \<le> 1)"
    unfolding set_dup_keys by (simp add: same_key_def not_less)
  finally show ?thesis by (simp only: groups_distinct)
qed

lemma same_key_distinct: "distinct (map Artifact_Key as) \<Longrightarrow> length (same_key as k) \<le> 1"
  using groups_distinct [of Artifact_Key as] by (simp add: same_key_def)

lemma set_same_key: "c \<in> set (same_key as k) \<longleftrightarrow> c \<in> set as \<and> Artifact_Key c = k"
  by (simp add: same_key_def)

lemma spec_source_Nil:
  assumes "distinct (map Artifact_Key src)" "distinct (map Artifact_Key can)"
  shows "spec_source src can a = [] \<longleftrightarrow>
    a_Availability a \<noteq> AvailabilitySourceCorrupt \<and> (\<exists>c\<in>set can. Artifact_Key c = Artifact_Key a \<and> agree a c)"
proof -
  have 1: "\<not> length (same_key src (Artifact_Key a)) > 1"
    using same_key_distinct [OF assms(1)] by (simp add: not_less)
  show ?thesis
  proof (cases "same_key can (Artifact_Key a)")
    case Nil
    then have "\<not> (\<exists>c\<in>set can. Artifact_Key c = Artifact_Key a \<and> agree a c)"
      by (auto simp: same_key_def filter_empty_conv)
    moreover have "spec_source src can a \<noteq> []"
      using 1 Nil by (simp add: spec_source_def split: list.splits)
    ultimately show ?thesis by blast
  next
    case (Cons c r)
    then have k: "same_key can (Artifact_Key a) = [c]"
      using same_key_distinct [OF assms(2), of "Artifact_Key a"] by simp
    have "c' = c" if "c' \<in> set can" "Artifact_Key c' = Artifact_Key a" for c'
      using that set_same_key [of c' can "Artifact_Key a"] k by simp
    moreover have "c \<in> set can" "Artifact_Key c = Artifact_Key a"
      using set_same_key [of c can "Artifact_Key a"] k by simp_all
    moreover have "spec_source src can a = [] \<longleftrightarrow> a_Availability a \<noteq> AvailabilitySourceCorrupt \<and> agree a c"
      using 1 k by (simp add: spec_source_def compareMatched_Nil)
    ultimately show ?thesis by blast
  qed
qed

lemma spec_canonical_Nil:
  assumes "distinct (map Artifact_Key can)"
  shows "spec_canonical src can c = [] \<longleftrightarrow>
    (\<exists>a\<in>set src. Artifact_ClasslessKey a = Artifact_ClasslessKey c) \<or> syntheticIsDocumented c"
proof -
  have k: "Artifact_ClasslessKey a = Artifact_ClasslessKey c" if "Artifact_Key a = Artifact_Key c" for a
    using that by (simp add: Artifact_Key_def Artifact_ClasslessKey_def)
  have 1: "\<not> length (same_key can (Artifact_Key c)) > 1"
    using same_key_distinct [OF assms] by (simp add: not_less)
  have 2: "same_classless src (Artifact_ClasslessKey c) \<noteq> [] \<longleftrightarrow>
      (\<exists>a\<in>set src. Artifact_ClasslessKey a = Artifact_ClasslessKey c)"
    by (simp add: same_classless_def filter_empty_conv)
  have 3: "same_key src (Artifact_Key c) \<noteq> [] \<Longrightarrow> same_classless src (Artifact_ClasslessKey c) \<noteq> []"
    unfolding 2 same_key_def filter_empty_conv using k by blast
  show ?thesis unfolding spec_canonical_def 2 [symmetric] using 1 3 by auto
qed

definition full_parity :: "Artifact list \<Rightarrow> Artifact list \<Rightarrow> bool" where
  "full_parity src can \<longleftrightarrow>
     (\<forall>a\<in>set src. sound a \<and> a_Availability a \<noteq> AvailabilitySourceCorrupt) \<and> (\<forall>c\<in>set can. sound c) \<and>
     distinct (map Artifact_Key src) \<and> distinct (map Artifact_Key can) \<and>
     (\<forall>a\<in>set src. \<exists>c\<in>set can. Artifact_Key c = Artifact_Key a \<and> agree a c) \<and>
     (\<forall>c\<in>set can. (\<exists>a\<in>set src. Artifact_ClasslessKey a = Artifact_ClasslessKey c) \<or> syntheticIsDocumented c)"

lemma spec_findings_Nil: "spec_findings src can = [] \<longleftrightarrow> full_parity src can"
proof (cases "distinct (map Artifact_Key src) \<and> distinct (map Artifact_Key can)")
  case True
  then show ?thesis
    by (auto simp: spec_findings_def full_parity_def validation_Nil duplicates_Nil spec_source_Nil spec_canonical_Nil)
next
  case False
  then show ?thesis by (auto simp: spec_findings_def full_parity_def duplicates_Nil)
qed

lemma Diff_spec:
  assumes "iteration it" "iteration its"
  shows "res_State (Diff it its src can) = findings_state (spec_findings src can)"
    and "res_TotalFindings (Diff it its src can) = length (spec_findings src can)"
  using acc_result_perm(1,2) [OF memory_findings_spec [OF assms(1)] assms(2), of src can "- 1"]
  by (simp_all add: Diff_def DiffContext_def DiffContextCapped_total)

section \<open>Demonstration manifests\<close>

definition demo_artifact :: "string \<Rightarrow> string \<Rightarrow> string \<Rightarrow> Artifact" where
  "demo_artifact c nid sha = \<lparr>a_SchemaVersion = 1, a_Adapter = ''codex'', a_SourceID = ''s'', a_SourceFile = ''f'',
     a_CanonicalSessionID = [], a_CanonicalTurnID = [], a_CanonicalOpID = [], a_PayloadRefID = 0,
     a_NativeSessionID = ''n'', a_NativeTurnID = [], a_NativeArtifactID = nid, a_Class = c,
     a_Availability = AvailabilityAvailable, a_HashDomain = HashSemanticText,
     a_Selector = \<lparr>URI = ''u'', JSONPointer = [], FieldPath = [], sel_ByteRange = None\<rparr>,
     a_Bytes = 3, a_Chars = 3, a_ComputedSHA256 = sha, a_ProducerSHA256 = [], a_IntegrityFailures = [],
     a_Synthetic = False, a_SyntheticReason = []\<rparr>"

definition demo_prompt :: Artifact where "demo_prompt = demo_artifact ClassUserPrompt ''x'' ''aa''"
definition demo_other_class :: Artifact where "demo_other_class = demo_artifact ClassAssistantMessage ''x'' ''bb''"
definition demo_wrong_hash :: Artifact where "demo_wrong_hash = demo_artifact ClassUserPrompt ''x'' ''cc''"

text \<open>A codec for these three artifacts.\<close>

definition demo_enc :: "Artifact \<Rightarrow> string" where
  "demo_enc a = a_Class a @ a_ComputedSHA256 a"

definition demo_dec :: "string \<Rightarrow> Artifact option" where
  "demo_dec s = find (\<lambda>a. demo_enc a = s) [demo_prompt, demo_other_class, demo_wrong_hash]"

lemma demo_readable: "readable demo_enc demo_dec [demo_prompt, demo_other_class]" "readable demo_enc demo_dec [demo_wrong_hash]"
  by code_simp+

lemma demo_sound: "sound demo_prompt" "sound demo_other_class"
  by code_simp+

lemma demo_parity: "full_parity [demo_prompt] [demo_prompt]"
proof -
  have "agree demo_prompt demo_prompt" "a_Availability demo_prompt \<noteq> AvailabilitySourceCorrupt" by code_simp+
  then show ?thesis using demo_sound by (simp add: full_parity_def)
qed

section \<open>The engines\<close>

text \<open>
  C13. The streaming engine agrees with the engine in memory: if nothing interrupts them and
  the JSON of every artifact reads back as the artifact, then for any two manifests and any
  cap both return without error the same state, the same total, the same summary and
  equally many detailed findings, and the same findings (up to the order of findings with
  equal sort keys) unless the cap cuts them.
\<close>

theorem diff_engines_agree:
  assumes "readable enc dec src" and "readable enc dec can"
    and "iteration it" and "iteration its" and "iteration its'"
    and "DiffContextCapped it its None src can cap = (r, e)"
    and "DiffArtifactStreamsContext enc dec its' None src can cap = (s, f)"
  shows "\<not> e \<and> \<not> f \<and> res_State r = res_State s \<and> res_TotalFindings r = res_TotalFindings s \<and>
    res_FindingSummary r = res_FindingSummary s \<and> length (res_Findings r) = length (res_Findings s) \<and>
    (cap < 0 \<or> int (res_TotalFindings r) \<le> cap \<longrightarrow> mset (res_Findings r) = mset (res_Findings s))"
proof -
  note m = acc_result_perm [OF memory_findings_spec [OF assms(3), of src can] assms(4), where cap = cap]
    and t = acc_result_perm [OF stream_findings_spec [OF assms(1,2)] assms(5), where cap = cap]
  have "r = acc_result its (addAll (memory_findings it src can) (newFindingAccumulator cap))" "\<not> e"
    using assms(6) by (simp_all add: DiffContextCapped_total)
  moreover have "s = acc_result its' (addAll (stream_findings dec enc src can) (newFindingAccumulator cap))" "\<not> f"
    using assms(7) DiffArtifactStreams_total [OF assms(1,2)] by simp_all
  ultimately show ?thesis using m(1-4) t(1-4) m(5) t(5) by simp
qed

text \<open>A differing hash is found by both.\<close>

theorem diff_engines_agree_witness:
  "res_State (fst (DiffContextCapped rev rev None [demo_prompt, demo_other_class] [demo_wrong_hash] 9)) =
   res_State (fst (DiffArtifactStreamsContext demo_enc demo_dec rev None [demo_prompt, demo_other_class] [demo_wrong_hash] 9)) \<and>
   res_State (fst (DiffContextCapped rev rev None [demo_prompt, demo_other_class] [demo_wrong_hash] 9)) = StateFail"
proof -
  obtain r e where r: "DiffContextCapped rev rev None [demo_prompt, demo_other_class] [demo_wrong_hash] 9 = (r, e)" by force
  obtain s f where s: "DiffArtifactStreamsContext demo_enc demo_dec rev None [demo_prompt, demo_other_class] [demo_wrong_hash] 9 = (s, f)" by force
  have "res_State (fst (DiffContextCapped rev rev None [demo_prompt, demo_other_class] [demo_wrong_hash] 9)) = StateFail"
    by code_simp
  then show ?thesis
    using diff_engines_agree [OF demo_readable iteration_rev iteration_rev iteration_rev r s] r s by simp
qed



section \<open>The verdict\<close>

text \<open>
  C15. Exactly which manifests pass: every artifact of both sides is valid and allowed by
  its adapter's matrix, no source artifact is corrupt, keys are unique on either side,
  every source artifact has a canonical artifact of its key that agrees with it
  (availability and, where proof bytes are required, hash domain, hash, byte and known
  character counts and selector), and every canonical artifact either shares its classless
  identity with some source artifact or is a documented synthetic one. Passing is the same
  as having no finding.
\<close>

theorem diff_pass_iff:
  assumes "iteration it" and "iteration its"
  shows "(res_State (Diff it its src can) = StatePass \<longleftrightarrow> full_parity src can) \<and>
    (res_State (Diff it its src can) = StatePass \<longleftrightarrow> res_TotalFindings (Diff it its src can) = 0)"
  using Diff_spec [OF assms, of src can] by (simp add: findings_state_pass spec_findings_Nil)

theorem diff_pass_iff_witness: "res_State (Diff rev rev [demo_prompt] [demo_prompt]) = StatePass"
  using diff_pass_iff [OF iteration_rev iteration_rev] demo_parity by simp

text \<open>
  C16. What the verdict does not cover: an extra canonical artifact without any source match
  is not reported if a source artifact has its identity in another class, even though that
  source artifact has its own exact match. The manifests still pass without a finding.
\<close>

theorem diff_extra_hidden:
  assumes "iteration it" and "iteration its"
    and "res_State (Diff it its src can) = StatePass"
    and "sound c" and "Artifact_Key c \<notin> Artifact_Key ` set (src @ can)"
    and "a \<in> set src" and "Artifact_ClasslessKey a = Artifact_ClasslessKey c"
  shows "res_State (Diff it its src (can @ [c])) = StatePass \<and> res_TotalFindings (Diff it its src (can @ [c])) = 0"
proof -
  have "full_parity src can"
    using assms(3) Diff_spec(1) [OF assms(1,2)] by (simp add: findings_state_pass spec_findings_Nil)
  then have "full_parity src (can @ [c])"
    using assms(4-7) unfolding full_parity_def by auto
  then show ?thesis
    using Diff_spec [OF assms(1,2), of src "can @ [c]"] by (simp add: findings_state_pass spec_findings_Nil)
qed

theorem diff_extra_hidden_witness:
  "res_State (Diff rev rev [demo_prompt] [demo_prompt, demo_other_class]) = StatePass"
proof -
  have p: "res_State (Diff rev rev [demo_prompt] [demo_prompt]) = StatePass"
    using Diff_spec(1) [OF iteration_rev iteration_rev, of "[demo_prompt]" "[demo_prompt]"] demo_parity
    by (simp add: findings_state_pass spec_findings_Nil)
  have k: "Artifact_Key demo_other_class \<notin> Artifact_Key ` set ([demo_prompt] @ [demo_prompt])"
    "Artifact_ClasslessKey demo_prompt = Artifact_ClasslessKey demo_other_class"
    by code_simp+
  show ?thesis
    using diff_extra_hidden [OF iteration_rev iteration_rev p demo_sound(2) k(1) _ k(2)] by simp
qed

section \<open>The counts\<close>

lemma sum_put_new: "map_of xs k = None \<Longrightarrow> (\<Sum>p\<leftarrow>alist_put k n xs. snd p) = (\<Sum>p\<leftarrow>xs. snd p) + (n :: nat)"
  by (induction xs) (auto split: if_splits)

lemma sum_put_old: "map_of xs k = Some m \<Longrightarrow> (\<Sum>p\<leftarrow>alist_put k n xs. snd p) + m = (\<Sum>p\<leftarrow>xs. snd p) + (n :: nat)"
proof (induction xs)
  case (Cons p xs)
  then show ?case by (cases p) (fastforce split: if_splits)
qed simp

lemma sum_put:
  "(\<Sum>p\<leftarrow>alist_put k ((case map_of xs k of None \<Rightarrow> 0 | Some n \<Rightarrow> n) + 1) xs. snd p) = (\<Sum>p\<leftarrow>xs. snd p) + (1 :: nat)"
proof (cases "map_of xs k")
  case None
  then show ?thesis using sum_put_new [OF None, of 1] by simp
next
  case (Some m)
  then show ?thesis using sum_put_old [OF Some, of "m + 1"] by simp
qed

lemma sum_summary: "(\<Sum>p\<leftarrow>summary (addAll fs a). snd p) = (\<Sum>p\<leftarrow>summary a. snd p) + length fs"
proof (induction fs arbitrary: a)
  case (Cons f fs)
  have "(\<Sum>p\<leftarrow>summary (acc_add f a). snd p) = (\<Sum>p\<leftarrow>summary a. snd p) + 1"
    unfolding acc_add_fields(4) by (rule sum_put)
  then show ?case using Cons.IH [of "acc_add f a"] by simp
qed simp

lemma sum_summary_list: "mset s = mset t \<Longrightarrow> (\<Sum>x\<leftarrow>summary_list s. fs_Count x) = (\<Sum>p\<leftarrow>t. snd p)"
proof -
  assume "mset s = mset t"
  then have "mset (summary_list s) = mset (map mk_summary t)" by (simp add: summary_list_def)
  then have "(\<Sum>x\<leftarrow>summary_list s. fs_Count x) = (\<Sum>x\<leftarrow>map mk_summary t. fs_Count x)" by (rule sum_list_perm)
  then show ?thesis by (simp add: mk_summary_def comp_def)
qed

text \<open>
  C17. The cap loses details, never counts: in an uninterrupted result the counts of the
  summary add up to the total, at most the cap of detailed findings is kept, all of them if
  they fit, and summary and findings are sorted by their keys, so the result is reproducible.
\<close>

theorem diff_counts:
  assumes "iteration it" and "iteration its" and "DiffContextCapped it its None src can cap = (r, e)"
  shows "(\<Sum>x\<leftarrow>res_FindingSummary r. fs_Count x) = res_TotalFindings r \<and>
    length (res_Findings r) = (if cap < 0 then res_TotalFindings r else min (nat cap) (res_TotalFindings r)) \<and>
    sorted (map findingSummarySortKey (res_FindingSummary r)) \<and> sorted (map findingSortKey (res_Findings r))"
proof -
  let ?fs = "memory_findings it src can"
  have r: "r = acc_result its (addAll ?fs (newFindingAccumulator cap))"
    using assms(3) by (simp add: DiffContextCapped_total)
  note m = acc_result_perm [OF refl [of "mset ?fs"] assms(2), where cap = cap, folded r]
  have "(\<Sum>x\<leftarrow>res_FindingSummary r. fs_Count x) = (\<Sum>p\<leftarrow>summary (addAll ?fs (newFindingAccumulator cap)). snd p)"
    unfolding r acc_result_fields by (rule sum_summary_list) (rule iterationD [OF assms(2)])
  then have "(\<Sum>x\<leftarrow>res_FindingSummary r. fs_Count x) = res_TotalFindings r"
    using m(2) by (simp add: sum_summary)
  moreover have "sorted (map findingSummarySortKey (res_FindingSummary r))"
    by (simp add: r acc_result_fields summary_list_def)
  moreover have "sorted (map findingSortKey (res_Findings r))"
    by (simp add: r acc_result_fields sortFindings_def sort_by_key)
  ultimately show ?thesis using m(2,4) by simp
qed

theorem diff_counts_witness:
  "length (res_Findings (fst (DiffContextCapped rev rev None [demo_prompt, demo_other_class] [demo_wrong_hash] 1))) = 1 \<and>
   res_TotalFindings (fst (DiffContextCapped rev rev None [demo_prompt, demo_other_class] [demo_wrong_hash] 1)) = 2"
proof -
  obtain r e where r: "DiffContextCapped rev rev None [demo_prompt, demo_other_class] [demo_wrong_hash] 1 = (r, e)" by force
  have "res_TotalFindings (fst (DiffContextCapped rev rev None [demo_prompt, demo_other_class] [demo_wrong_hash] 1)) = 2"
    by code_simp
  then show ?thesis using diff_counts [OF iteration_rev iteration_rev r] r by simp
qed

section \<open>Keys and matrices\<close>

text \<open>
  C18. The key strings of the table identify the keys: length prefixes make the encoding of
  a list of strings injective whatever bytes they hold, so two artifacts share a match key
  or classless key string exactly if they share the key, and a classless key is a match key
  without its class.
\<close>

theorem key_strings_injective:
  "(stableKeyString ps = stableKeyString qs \<longleftrightarrow> ps = qs) \<and>
   (matchKeyString k = matchKeyString l \<longleftrightarrow> k = l) \<and>
   (classlessKeyString c = classlessKeyString d \<longleftrightarrow> c = d) \<and>
   (Artifact_Key a = Artifact_Key b \<longleftrightarrow> Artifact_ClasslessKey a = Artifact_ClasslessKey b \<and> a_Class a = a_Class b)"
  by (auto simp: stableKeyString_inject Artifact_Key_def Artifact_ClasslessKey_def)

text \<open>
  The availability matrices are complete: each of the five adapters has exactly one row
  per artifact class, in the order of the catalog, no class is left undecided, and a class
  that is not visible in the source admits no other availability.
\<close>

theorem matrices_complete:
  "list_all (\<lambda>adapter. case AdapterAvailabilityMatrices adapter of
     None \<Rightarrow> False
   | Some rows \<Rightarrow> map mr_Class rows = AllArtifactClasses \<and>
       list_all (\<lambda>row. mr_Adapter row = adapter \<and> mr_Availability row \<noteq> [] \<and> \<not> matrixRowAllows row MatrixUnknown \<and>
         (matrixRowAllows row MatrixNotSourceVisible = (mr_Availability row = [MatrixNotSourceVisible]))) rows)
   [''aiagent_v2'', ''aiagent_v3'', ''claude-code'', ''codex'', ''opencode''] \<and> distinct AllArtifactClasses"
  by code_simp

end
