(* ===== verification/Lifecycle.thy ===== *)
theory Lifecycle
  imports Prelude
begin

text \<open>
  The durable state of a source: the lifecycle and read-model columns of the table
  \<open>source_progress\<close>, the updates that write them, the reconciliation at startup
  (\<open>internal/ingest/source_lifecycle.go\<close>) and the tail heartbeat and staleness statements
  of \<open>tail_liveness.go\<close>.

  A database is the rows of the tables \<open>sources\<close>, \<open>source_progress\<close> and \<open>notify\<close>. A
  transaction is a run over a copy that is kept only if it commits; its statements can
  fail, which is the budget of the prelude. Error texts and locations are lists of Unicode
  code points, because \<open>sanitizeLifecycleError\<close> works on runes; an empty Go string for a
  state or an error means that it is not set.
\<close>

section \<open>Error texts\<close>

type_synonym rune = nat
type_synonym rtext = "rune list"

definition maxLifecycleErrorBytes :: nat where "maxLifecycleErrorBytes = 1024"

text \<open>The length of a rune in UTF-8, \<open>unicode.IsControl\<close> and \<open>unicode.IsSpace\<close>.\<close>

definition rune_len :: "rune \<Rightarrow> nat" where
  "rune_len r = (if r < 128 then 1 else if r < 2048 then 2 else if r < 65536 then 3 else 4)"

definition text_len :: "rtext \<Rightarrow> nat" where
  "text_len t = sum_list (map rune_len t)"

definition IsControl :: "rune \<Rightarrow> bool" where
  "IsControl r \<longleftrightarrow> r < 32 \<or> 127 \<le> r \<and> r < 160"

definition IsSpace :: "rune \<Rightarrow> bool" where
  "IsSpace r \<longleftrightarrow> 9 \<le> r \<and> r \<le> 13 \<or> 8192 \<le> r \<and> r \<le> 8202 \<or>
     r \<in> set [32, 133, 160, 5760, 8232, 8233, 8239, 8287, 12288]"

function replace_all :: "rtext \<Rightarrow> rtext \<Rightarrow> rtext \<Rightarrow> rtext" where
  "replace_all old new [] = []"
| "replace_all old new (r # s) =
     (if old \<noteq> [] \<and> prefix old (r # s) then new @ replace_all old new (drop (length old) (r # s))
      else r # replace_all old new s)"
  by pat_completeness auto
termination
  by (relation "measure (\<lambda>(_, _, s). length s)") (auto simp: Suc_le_eq)

text \<open>The loop over the runes: control characters are dropped, runs of spaces collapse.\<close>

fun collapse_runes :: "bool \<Rightarrow> rtext \<Rightarrow> rtext" where
  "collapse_runes lastSpace [] = []"
| "collapse_runes lastSpace (r # s) =
     (if IsControl r then collapse_runes lastSpace s
      else if IsSpace r then (if lastSpace then collapse_runes True s else 32 # collapse_runes True s)
      else r # collapse_runes False s)"

definition TrimSpace :: "rtext \<Rightarrow> rtext" where
  "TrimSpace t = rev (dropWhile IsSpace (rev (dropWhile IsSpace t)))"

text \<open>The longest prefix of whole runes that fits in \<open>n\<close> bytes.\<close>

fun take_bytes :: "nat \<Rightarrow> rtext \<Rightarrow> rtext" where
  "take_bytes n [] = []"
| "take_bytes n (r # s) = (if rune_len r \<le> n then r # take_bytes (n - rune_len r) s else [])"

definition source_mark :: rtext where "source_mark = map of_char ''[source]''"
definition home_mark :: rtext where "home_mark = map of_char ''$HOME''"

definition sanitizeLifecycleError :: "rtext option \<Rightarrow> rtext \<Rightarrow> rtext \<Rightarrow> rtext" where
  "sanitizeLifecycleError home v sourceLocation =
     (let out = v;
          out = (if sourceLocation = [] then out else replace_all sourceLocation source_mark out);
          out = (case home of None \<Rightarrow> out | Some h \<Rightarrow> if h = [] then out else replace_all h home_mark out);
          out = TrimSpace (collapse_runes False out)
      in if text_len out \<le> maxLifecycleErrorBytes then out
         else TrimSpace (take_bytes maxLifecycleErrorBytes out))"

section \<open>States and updates\<close>

datatype SourceLifecycleState =
    SourceLifecycleUnknown | SourceLifecycleStarting | SourceLifecycleStartFailed
  | SourceLifecycleConstructFailed | SourceLifecycleScanning | SourceLifecycleScanFailed
  | SourceLifecycleScanComplete | SourceLifecycleTailStarting | SourceLifecycleTailing
  | SourceLifecycleTailStale | SourceLifecycleTailFailed | SourceLifecycleTailRestarting
  | SourceLifecycleStopped

datatype ReadModelState =
    ReadModelUnknown | ReadModelRepairPending | ReadModelRepairing | ReadModelReady
  | ReadModelRepairTimeout | ReadModelRepairFailed

record SourceLifecycleUpdate =
  u_State :: "SourceLifecycleState option"
  u_ExpectedLifecycleState :: "SourceLifecycleState option"
  u_ReadModelState :: "ReadModelState option"
  u_ReadModelStateTransitionOnly :: bool
  u_AtUS :: i64
  u_ScanStartedAtUS :: "i64 option"
  u_ScanCompletedAtUS :: "i64 option"
  u_TailStartedAtUS :: "i64 option"
  u_TailHeartbeatUS :: "i64 option"
  u_TailFailedAtUS :: "i64 option"
  u_TailRestartDelta :: int
  u_ResetTailRestartCount :: bool
  u_RepairStartedAtUS :: "i64 option"
  u_RepairCompletedAtUS :: "i64 option"
  u_RepairFailedAtUS :: "i64 option"
  u_RepairAttemptsDelta :: int
  u_ResetReadModelRepairAttempts :: bool
  u_Error :: rtext
  u_ClearLifecycleError :: bool
  u_ReadModelError :: rtext
  u_ClearReadModelError :: bool

definition empty_update :: SourceLifecycleUpdate where
  "empty_update = \<lparr>u_State = None, u_ExpectedLifecycleState = None, u_ReadModelState = None,
     u_ReadModelStateTransitionOnly = False, u_AtUS = 0, u_ScanStartedAtUS = None,
     u_ScanCompletedAtUS = None, u_TailStartedAtUS = None, u_TailHeartbeatUS = None,
     u_TailFailedAtUS = None, u_TailRestartDelta = 0, u_ResetTailRestartCount = False,
     u_RepairStartedAtUS = None, u_RepairCompletedAtUS = None, u_RepairFailedAtUS = None,
     u_RepairAttemptsDelta = 0, u_ResetReadModelRepairAttempts = False, u_Error = [],
     u_ClearLifecycleError = False, u_ReadModelError = [], u_ClearReadModelError = False\<rparr>"

record SourceRegistration =
  reg_ID :: string
  reg_Format :: string
  reg_Location :: rtext

section \<open>The tables\<close>

record sourceRow =
  so_format :: string
  so_location :: rtext
  so_enabled :: bool
  so_fts5_index_logs :: bool
  so_meta_json :: "string option"
  so_created_at :: i64

record progressRow =
  sp_updated_at :: i64
  sp_lifecycle_state :: SourceLifecycleState
  sp_lifecycle_state_at :: i64
  sp_scan_started_at :: "i64 option"
  sp_scan_completed_at :: "i64 option"
  sp_tail_started_at :: "i64 option"
  sp_tail_heartbeat_at :: "i64 option"
  sp_tail_failed_at :: "i64 option"
  sp_tail_restart_count :: int
  sp_lifecycle_error :: "rtext option"
  sp_read_model_state :: ReadModelState
  sp_read_model_state_at :: i64
  sp_read_model_repair_started_at :: "i64 option"
  sp_read_model_repair_completed_at :: "i64 option"
  sp_read_model_repair_failed_at :: "i64 option"
  sp_read_model_repair_attempts :: int
  sp_read_model_error :: "rtext option"

record lifecycleDB =
  t_sources :: "(string \<times> sourceRow) list"
  t_progress :: "(string \<times> progressRow) list"
  t_notify :: "(i64 \<times> string) list"

text \<open>What the ingester is configured with, and its clock during one call.\<close>

record ingesterEnv =
  env_now :: i64
  env_fts5Overrides :: "string \<rightharpoonup> bool"
  env_metaOverrides :: "string \<rightharpoonup> string"
  env_home :: "rtext option"

definition resolveFTS5IndexLogs :: "ingesterEnv \<Rightarrow> string \<Rightarrow> bool" where
  "resolveFTS5IndexLogs i sourceID = (case env_fts5Overrides i sourceID of Some v \<Rightarrow> v | None \<Rightarrow> True)"

definition resolveSourceMeta :: "ingesterEnv \<Rightarrow> string \<Rightarrow> string" where
  "resolveSourceMeta i sourceID = (case env_metaOverrides i sourceID of Some v \<Rightarrow> v | None \<Rightarrow> [])"

definition fresh_progress :: "i64 \<Rightarrow> progressRow" where
  "fresh_progress ts = \<lparr>sp_updated_at = ts, sp_lifecycle_state = SourceLifecycleUnknown,
     sp_lifecycle_state_at = 0, sp_scan_started_at = None, sp_scan_completed_at = None,
     sp_tail_started_at = None, sp_tail_heartbeat_at = None, sp_tail_failed_at = None,
     sp_tail_restart_count = 0, sp_lifecycle_error = None, sp_read_model_state = ReadModelUnknown,
     sp_read_model_state_at = 0, sp_read_model_repair_started_at = None,
     sp_read_model_repair_completed_at = None, sp_read_model_repair_failed_at = None,
     sp_read_model_repair_attempts = 0, sp_read_model_error = None\<rparr>"

text \<open>\<open>UPDATE source_progress SET ... WHERE source_id = ? AND ...\<close>: the rows affected and the table.\<close>

definition sql_update ::
    "string \<Rightarrow> (progressRow \<Rightarrow> bool) \<Rightarrow> (progressRow \<Rightarrow> progressRow) \<Rightarrow> lifecycleDB \<Rightarrow> bool \<times> lifecycleDB" where
  "sql_update sid cond upd db = (case map_of (t_progress db) sid of
       Some row \<Rightarrow> if cond row then (True, db\<lparr>t_progress := alist_put sid (upd row) (t_progress db)\<rparr>) else (False, db)
     | None \<Rightarrow> (False, db))"

definition coalesce :: "'a option \<Rightarrow> 'a option \<Rightarrow> 'a option" where
  "coalesce a b = (case a of Some x \<Rightarrow> Some x | None \<Rightarrow> b)"

definition nullString :: "rtext \<Rightarrow> rtext option" where
  "nullString v = (if v = [] then None else Some v)"

definition ensureSourceRow ::
    "string \<Rightarrow> string \<Rightarrow> rtext \<Rightarrow> bool \<Rightarrow> string \<Rightarrow> i64 \<Rightarrow> budget \<times> lifecycleDB \<Rightarrow> (budget \<times> lifecycleDB) option" where
  "ensureSourceRow sid fmt loc fts metaJSON created s = (case s of (b, db) \<Rightarrow>
     do { b \<leftarrow> tick b;
          let meta = (if metaJSON = [] then None else Some metaJSON);
          let row = (case map_of (t_sources db) sid of
              Some r \<Rightarrow> r\<lparr>so_format := fmt, so_location := loc, so_fts5_index_logs := fts, so_meta_json := meta\<rparr>
            | None \<Rightarrow> \<lparr>so_format = fmt, so_location = loc, so_enabled = True, so_fts5_index_logs = fts,
                       so_meta_json = meta, so_created_at = created\<rparr>);
          Some (b, db\<lparr>t_sources := alist_put sid row (t_sources db)\<rparr>) })"

definition ensureSourceProgressLifecycleRow ::
    "string \<Rightarrow> i64 \<Rightarrow> budget \<times> lifecycleDB \<Rightarrow> (budget \<times> lifecycleDB) option" where
  "ensureSourceProgressLifecycleRow sid ts s = (case s of (b, db) \<Rightarrow>
     do { b \<leftarrow> tick b;
          Some (b, case map_of (t_progress db) sid of
              Some _ \<Rightarrow> db
            | None \<Rightarrow> db\<lparr>t_progress := alist_put sid (fresh_progress ts) (t_progress db)\<rparr>) })"

definition lifecycle_columns ::
    "ingesterEnv \<Rightarrow> rtext \<Rightarrow> i64 \<Rightarrow> SourceLifecycleState \<Rightarrow> SourceLifecycleUpdate \<Rightarrow> progressRow \<Rightarrow> progressRow" where
  "lifecycle_columns i location ts st u row = row\<lparr>
     sp_lifecycle_state := st,
     sp_lifecycle_state_at := ts,
     sp_scan_started_at := coalesce (u_ScanStartedAtUS u) (sp_scan_started_at row),
     sp_scan_completed_at := coalesce (u_ScanCompletedAtUS u) (sp_scan_completed_at row),
     sp_tail_started_at := coalesce (u_TailStartedAtUS u) (sp_tail_started_at row),
     sp_tail_heartbeat_at := coalesce (u_TailHeartbeatUS u) (sp_tail_heartbeat_at row),
     sp_tail_failed_at := coalesce (u_TailFailedAtUS u) (sp_tail_failed_at row),
     sp_tail_restart_count := (if u_ResetTailRestartCount u then 0 else sp_tail_restart_count row + u_TailRestartDelta u),
     sp_lifecycle_error := (if u_ClearLifecycleError u then None
       else coalesce (nullString (sanitizeLifecycleError (env_home i) (u_Error u) location)) (sp_lifecycle_error row))\<rparr>"

definition updateLifecycleColumns ::
    "ingesterEnv \<Rightarrow> string \<Rightarrow> rtext \<Rightarrow> i64 \<Rightarrow> SourceLifecycleState \<Rightarrow> SourceLifecycleUpdate \<Rightarrow>
     budget \<times> lifecycleDB \<Rightarrow> (bool \<times> budget \<times> lifecycleDB) option" where
  "updateLifecycleColumns i sid location ts st u s = (case s of (b, db) \<Rightarrow>
     do { b \<leftarrow> tick b;
          let (changed, db) = sql_update sid
            (\<lambda>row. case u_ExpectedLifecycleState u of None \<Rightarrow> True | Some e \<Rightarrow> sp_lifecycle_state row = e)
            (lifecycle_columns i location ts st u) db;
          Some (changed, b, db) })"

definition read_model_columns ::
    "ingesterEnv \<Rightarrow> rtext \<Rightarrow> i64 \<Rightarrow> ReadModelState \<Rightarrow> SourceLifecycleUpdate \<Rightarrow> progressRow \<Rightarrow> progressRow" where
  "read_model_columns i location ts st u row = row\<lparr>
     sp_read_model_state := st,
     sp_read_model_state_at := ts,
     sp_read_model_repair_started_at := coalesce (u_RepairStartedAtUS u) (sp_read_model_repair_started_at row),
     sp_read_model_repair_completed_at := coalesce (u_RepairCompletedAtUS u) (sp_read_model_repair_completed_at row),
     sp_read_model_repair_failed_at := coalesce (u_RepairFailedAtUS u) (sp_read_model_repair_failed_at row),
     sp_read_model_repair_attempts := (if u_ResetReadModelRepairAttempts u then 0
       else sp_read_model_repair_attempts row + u_RepairAttemptsDelta u),
     sp_read_model_error := (if u_ClearReadModelError u then None
       else coalesce (nullString (sanitizeLifecycleError (env_home i) (u_ReadModelError u) location)) (sp_read_model_error row))\<rparr>"

definition updateReadModelColumns ::
    "ingesterEnv \<Rightarrow> string \<Rightarrow> rtext \<Rightarrow> i64 \<Rightarrow> ReadModelState \<Rightarrow> SourceLifecycleUpdate \<Rightarrow>
     budget \<times> lifecycleDB \<Rightarrow> (bool \<times> budget \<times> lifecycleDB) option" where
  "updateReadModelColumns i sid location ts st u s = (case s of (b, db) \<Rightarrow>
     do { b \<leftarrow> tick b;
          let (changed, db) = sql_update sid
            (\<lambda>row. if u_ReadModelStateTransitionOnly u then sp_read_model_state row \<noteq> st else True)
            (read_model_columns i location ts st u) db;
          Some (changed, b, db) })"

definition insertSourceStatusNotify ::
    "string \<Rightarrow> i64 \<Rightarrow> budget \<times> lifecycleDB \<Rightarrow> (budget \<times> lifecycleDB) option" where
  "insertSourceStatusNotify sid ts s = (case s of (b, db) \<Rightarrow>
     do { b \<leftarrow> tick b; Some (b, db\<lparr>t_notify := t_notify db @ [(ts, sid)]\<rparr>) })"

text \<open>The body of the transaction between \<open>BeginTx\<close> and \<open>Commit\<close>, both of which can fail.\<close>

definition lifecycle_tx ::
    "ingesterEnv \<Rightarrow> string \<Rightarrow> string \<Rightarrow> rtext \<Rightarrow> SourceLifecycleUpdate \<Rightarrow>
     budget \<times> lifecycleDB \<Rightarrow> (budget \<times> lifecycleDB) option" where
  "lifecycle_tx i sid fmt location u s = (case s of (b, db) \<Rightarrow>
     do { let at = (if u_AtUS u = 0 then env_now i else u_AtUS u);
          b \<leftarrow> tick b;
          s \<leftarrow> ensureSourceRow sid fmt location (resolveFTS5IndexLogs i sid) (resolveSourceMeta i sid) (env_now i) (b, db);
          s \<leftarrow> ensureSourceProgressLifecycleRow sid at s;
          (changed1, s) \<leftarrow> (case u_State u of
              Some st \<Rightarrow> updateLifecycleColumns i sid location at st u s
            | None \<Rightarrow> Some (False, s));
          (changed2, s) \<leftarrow> (case u_ReadModelState u of
              Some st \<Rightarrow> updateReadModelColumns i sid location at st u s
            | None \<Rightarrow> Some (False, s));
          (b, db) \<leftarrow> (if changed1 \<or> changed2 then insertSourceStatusNotify sid at s else Some s);
          b \<leftarrow> tick b;
          Some (b, db) })"

datatype lifecycleError = EmptySourceID | StatementFailed

text \<open>The result: the error if any, the budget left (none after a failure), the database.\<close>

definition RecordSourceLifecycle ::
    "ingesterEnv \<Rightarrow> string \<Rightarrow> string \<Rightarrow> rtext \<Rightarrow> SourceLifecycleUpdate \<Rightarrow> budget \<times> lifecycleDB \<Rightarrow>
     lifecycleError option \<times> budget \<times> lifecycleDB" where
  "RecordSourceLifecycle i sid fmt location u s =
     (if sid = [] then (Some EmptySourceID, s)
      else (case lifecycle_tx i sid fmt location u s of
          None \<Rightarrow> (Some StatementFailed, Some 0, snd s)
        | Some s' \<Rightarrow> (None, s')))"

section \<open>Reconciliation\<close>

definition progress_states :: "lifecycleDB \<Rightarrow> string \<Rightarrow> SourceLifecycleState \<times> ReadModelState" where
  "progress_states db sid = (case map_of (t_progress db) sid of
       Some row \<Rightarrow> (sp_lifecycle_state row, sp_read_model_state row)
     | None \<Rightarrow> (SourceLifecycleUnknown, ReadModelUnknown))"

definition configured_by_id :: "SourceRegistration list \<Rightarrow> string \<rightharpoonup> SourceRegistration" where
  "configured_by_id configured =
     fold (\<lambda>src m. if reg_ID src = [] then m else m(reg_ID src \<mapsto> src)) configured Map.empty"

text \<open>The update for one existing source, if it needs one.\<close>

definition reconcile_existing ::
    "(string \<rightharpoonup> SourceRegistration) \<Rightarrow> string \<Rightarrow> sourceRow \<Rightarrow> SourceLifecycleState \<times> ReadModelState \<Rightarrow>
     (string \<times> rtext \<times> SourceLifecycleUpdate) option" where
  "reconcile_existing configuredByID sid row states = (case configuredByID sid of
       Some reg \<Rightarrow>
         let needsLifecycle = fst states \<noteq> SourceLifecycleStarting;
             needsReadModel = snd states = ReadModelRepairing;
             u = empty_update;
             u = (if needsLifecycle then u\<lparr>u_State := Some SourceLifecycleStarting, u_ClearLifecycleError := True\<rparr> else u);
             u = (if needsReadModel then u\<lparr>u_ReadModelState := Some ReadModelRepairPending, u_ClearReadModelError := True\<rparr> else u)
         in if \<not> needsLifecycle \<and> \<not> needsReadModel then None else Some (reg_Format reg, reg_Location reg, u)
     | None \<Rightarrow>
         if fst states = SourceLifecycleStopped then None
         else Some (so_format row, so_location row,
           empty_update\<lparr>u_State := Some SourceLifecycleStopped, u_Error := map of_char ''source is no longer configured''\<rparr>))"

type_synonym reconcile_run = "lifecycleError option \<times> budget \<times> lifecycleDB"

text \<open>
  The first loop goes over the rows the query returned, with the states read by it; the
  second registers the configured sources that have no row. Either stops at an error.
\<close>

fun reconcile_rows ::
    "ingesterEnv \<Rightarrow> (string \<rightharpoonup> SourceRegistration) \<Rightarrow>
     (string \<times> sourceRow \<times> SourceLifecycleState \<times> ReadModelState) list \<Rightarrow> budget \<times> lifecycleDB \<Rightarrow> reconcile_run" where
  "reconcile_rows i configuredByID [] s = (None, s)"
| "reconcile_rows i configuredByID ((sid, row, states) # rest) s =
     (case reconcile_existing configuredByID sid row states of
        None \<Rightarrow> reconcile_rows i configuredByID rest s
      | Some (fmt, location, u) \<Rightarrow>
          (case RecordSourceLifecycle i sid fmt location u s of
             (None, s') \<Rightarrow> reconcile_rows i configuredByID rest s'
           | (Some e, s') \<Rightarrow> (Some e, s')))"

fun reconcile_new ::
    "ingesterEnv \<Rightarrow> string set \<Rightarrow> SourceRegistration list \<Rightarrow> budget \<times> lifecycleDB \<Rightarrow> reconcile_run" where
  "reconcile_new i seen [] s = (None, s)"
| "reconcile_new i seen (reg # rest) s =
     (if reg_ID reg \<in> seen \<or> reg_ID reg = [] then reconcile_new i seen rest s
      else (case RecordSourceLifecycle i (reg_ID reg) (reg_Format reg) (reg_Location reg)
              (empty_update\<lparr>u_State := Some SourceLifecycleStarting\<rparr>) s of
          (None, s') \<Rightarrow> reconcile_new i seen rest s'
        | (Some e, s') \<Rightarrow> (Some e, s')))"

definition existing_sources :: "lifecycleDB \<Rightarrow> (string \<times> sourceRow \<times> SourceLifecycleState \<times> ReadModelState) list" where
  "existing_sources db =
     sort_by (\<lambda>(s, r, _) (s', r', _). i64_less (so_created_at r) (so_created_at r') \<or>
         so_created_at r = so_created_at r' \<and> s < s')
       (map (\<lambda>(sid, row). (sid, row, progress_states db sid)) (t_sources db))"

definition ReconcileSourceLifecycles ::
    "ingesterEnv \<Rightarrow> SourceRegistration list \<Rightarrow> budget \<times> lifecycleDB \<Rightarrow> reconcile_run" where
  "ReconcileSourceLifecycles i configured s = (case s of (b, db) \<Rightarrow>
     (case tick b of
        None \<Rightarrow> (Some StatementFailed, Some 0, db)
      | Some b \<Rightarrow>
          (case reconcile_rows i (configured_by_id configured) (existing_sources db) (b, db) of
             (None, s') \<Rightarrow> reconcile_new i (set (map fst (t_sources db))) configured s'
           | r \<Rightarrow> r)))"

section \<open>Tail heartbeat and staleness statements\<close>

definition tail_stale_text :: rtext where "tail_stale_text = map of_char ''tail heartbeat stale''"

definition heartbeat_tx :: "string \<Rightarrow> i64 \<Rightarrow> budget \<times> lifecycleDB \<Rightarrow> (budget \<times> lifecycleDB) option" where
  "heartbeat_tx sid at s = (case s of (b, db) \<Rightarrow>
     do { b \<leftarrow> tick b;
          b \<leftarrow> tick b;
          let (stateChanged, db) = sql_update sid (\<lambda>row. sp_lifecycle_state row = SourceLifecycleTailStale)
            (\<lambda>row. row\<lparr>sp_tail_heartbeat_at := Some at, sp_lifecycle_state := SourceLifecycleTailing,
                       sp_lifecycle_state_at := at\<rparr>) db;
          (b, db) \<leftarrow> (if stateChanged then insertSourceStatusNotify sid at (b, db)
             else do { b \<leftarrow> tick b;
                       Some (b, snd (sql_update sid (\<lambda>row. sp_lifecycle_state row = SourceLifecycleTailing)
                         (\<lambda>row. row\<lparr>sp_tail_heartbeat_at := Some at\<rparr>) db)) });
          b \<leftarrow> tick b;
          Some (b, db) })"

text \<open>\<open>persistTailHeartbeat\<close>: whether it committed, and the database.\<close>

definition persistTailHeartbeat :: "string \<Rightarrow> i64 \<Rightarrow> budget \<Rightarrow> lifecycleDB \<Rightarrow> bool \<times> lifecycleDB" where
  "persistTailHeartbeat sid at b db = (case heartbeat_tx sid at (b, db) of
       None \<Rightarrow> (False, db)
     | Some (_, db') \<Rightarrow> (True, db'))"

definition stale_tx :: "string \<Rightarrow> i64 \<Rightarrow> budget \<times> lifecycleDB \<Rightarrow> (budget \<times> lifecycleDB) option" where
  "stale_tx sid at s = (case s of (b, db) \<Rightarrow>
     do { b \<leftarrow> tick b;
          b \<leftarrow> tick b;
          let (changed, db) = sql_update sid (\<lambda>row. sp_lifecycle_state row = SourceLifecycleTailing)
            (\<lambda>row. row\<lparr>sp_lifecycle_state := SourceLifecycleTailStale, sp_lifecycle_state_at := at,
                       sp_lifecycle_error := Some tail_stale_text\<rparr>) db;
          (b, db) \<leftarrow> (if changed then insertSourceStatusNotify sid at (b, db) else Some (b, db));
          b \<leftarrow> tick b;
          Some (b, db) })"

definition markTailStale ::
    "string \<Rightarrow> i64 \<Rightarrow> budget \<times> lifecycleDB \<Rightarrow> lifecycleError option \<times> budget \<times> lifecycleDB" where
  "markTailStale sid at s = (case stale_tx sid at s of
       None \<Rightarrow> (Some StatementFailed, Some 0, snd s)
     | Some s' \<Rightarrow> (None, s'))"

end
