(* ===== verification/Lifecycle_Props.thy ===== *)
theory Lifecycle_Props
  imports Lifecycle
begin

text \<open>
  Properties of the durable source state: an update is atomic and announces itself exactly
  when it changed something, the startup reconciliation settles every source and is
  idempotent, and the stored error texts are clean.
\<close>

section \<open>Error texts\<close>

text \<open>Runes a clean text is made of: no control characters, and no space but the plain one.\<close>

definition clean_rune :: "rune \<Rightarrow> bool" where
  "clean_rune r \<longleftrightarrow> \<not> IsControl r \<and> (IsSpace r \<longrightarrow> r = 32)"

fun single_spaced :: "rtext \<Rightarrow> bool" where
  "single_spaced (r # s # t) \<longleftrightarrow> \<not> (r = 32 \<and> s = 32) \<and> single_spaced (s # t)"
| "single_spaced _ \<longleftrightarrow> True"

definition clean_text :: "rtext \<Rightarrow> bool" where
  "clean_text t \<longleftrightarrow> list_all clean_rune t \<and> single_spaced t"

lemma space_32 [simp]: "IsSpace 32" "\<not> IsControl 32"
  by (simp_all add: IsSpace_def IsControl_def)

lemma single_spaced_Cons: "single_spaced (r # s) \<longleftrightarrow> (s \<noteq> [] \<longrightarrow> \<not> (r = 32 \<and> hd s = 32)) \<and> single_spaced s"
  by (cases s) auto

lemma collapse_runes_clean:
  "list_all clean_rune (collapse_runes b t) \<and> single_spaced (collapse_runes b t) \<and>
     (b \<longrightarrow> collapse_runes b t \<noteq> [] \<longrightarrow> hd (collapse_runes b t) \<noteq> 32)"
proof (induction b t rule: collapse_runes.induct)
  case (2 b r s)
  then show ?case by (auto simp: single_spaced_Cons clean_rune_def)
qed simp

lemma single_spaced_append: "single_spaced (s @ t) \<Longrightarrow> single_spaced s \<and> single_spaced t"
  by (induction s rule: single_spaced.induct) (auto simp: single_spaced_Cons split: if_splits)

lemma clean_text_append: "clean_text (s @ t) \<Longrightarrow> clean_text s \<and> clean_text t"
  by (auto simp: clean_text_def dest: single_spaced_append)

lemma dropWhile_rev_split: "u = rev (dropWhile P (rev u)) @ rev (takeWhile P (rev u))"
proof -
  have "rev (takeWhile P (rev u) @ dropWhile P (rev u)) = u" by simp
  then show ?thesis by (simp only: rev_append)
qed

lemma TrimSpace_split: "\<exists>a b. t = a @ TrimSpace t @ b"
proof -
  have "t = takeWhile IsSpace t @ dropWhile IsSpace t" by simp
  also have "\<dots> = takeWhile IsSpace t @ TrimSpace t @ rev (takeWhile IsSpace (rev (dropWhile IsSpace t)))"
    using dropWhile_rev_split [of "dropWhile IsSpace t" IsSpace] by (simp add: TrimSpace_def)
  finally show ?thesis by blast
qed

lemma TrimSpace_clean: "clean_text t \<Longrightarrow> clean_text (TrimSpace t)"
  using TrimSpace_split [of t] clean_text_append by metis

lemma dropWhile_hd: "dropWhile P u \<noteq> [] \<Longrightarrow> \<not> P (hd (dropWhile P u))"
  by (induction u) auto

lemma dropWhile_last: "dropWhile P u \<noteq> [] \<Longrightarrow> last (dropWhile P u) = last u"
  by (induction u) (auto split: if_splits)

lemma TrimSpace_ends:
  assumes "TrimSpace t \<noteq> []"
  shows "\<not> IsSpace (hd (TrimSpace t)) \<and> \<not> IsSpace (last (TrimSpace t))"
proof -
  define u where "u = dropWhile IsSpace t"
  define v where "v = dropWhile IsSpace (rev u)"
  have e: "TrimSpace t = rev v" by (simp add: TrimSpace_def u_def v_def)
  have v: "v \<noteq> []" using assms e by simp
  then have u: "u \<noteq> []" by (auto simp: v_def)
  have "\<not> IsSpace (hd v)" using v dropWhile_hd unfolding v_def by blast
  moreover have "last v = last (rev u)" using v dropWhile_last unfolding v_def by blast
  moreover have "\<not> IsSpace (hd u)" using u dropWhile_hd unfolding u_def by blast
  ultimately show ?thesis using e u v by (simp add: last_rev hd_rev)
qed

lemma text_len_append: "text_len (s @ t) = text_len s + text_len t"
  by (simp add: text_len_def)

lemma text_len_trim: "text_len (TrimSpace t) \<le> text_len t"
  using TrimSpace_split [of t] text_len_append by (metis le_add2 le_trans le_add1)

lemma take_bytes_prefix: "\<exists>u. t = take_bytes n t @ u"
  by (induction n t rule: take_bytes.induct) auto

lemma take_bytes_len: "text_len (take_bytes n t) \<le> n"
  by (induction n t rule: take_bytes.induct) (auto simp: text_len_def)

text \<open>
  What is stored as an error is clean, whatever the error was: at most 1024 bytes of
  UTF-8, cut between runes, without control characters, with single plain spaces and none at
  either end.
\<close>

theorem lifecycle_error_clean:
  "let out = sanitizeLifecycleError home v location in
   text_len out \<le> maxLifecycleErrorBytes \<and> clean_text out \<and>
   (out = [] \<or> \<not> IsSpace (hd out) \<and> \<not> IsSpace (last out))"
proof -
  obtain w where w: "sanitizeLifecycleError home v location =
      (let out = TrimSpace (collapse_runes False w) in
       if text_len out \<le> maxLifecycleErrorBytes then out else TrimSpace (take_bytes maxLifecycleErrorBytes out))"
    unfolding sanitizeLifecycleError_def Let_def by blast
  define c where "c = TrimSpace (collapse_runes False w)"
  define d where "d = take_bytes maxLifecycleErrorBytes c"
  have s: "sanitizeLifecycleError home v location = (if text_len c \<le> maxLifecycleErrorBytes then c else TrimSpace d)"
    by (simp add: w c_def d_def Let_def)
  have "clean_text (collapse_runes False w)" using collapse_runes_clean [of False w] by (simp add: clean_text_def)
  then have c: "clean_text c" unfolding c_def by (rule TrimSpace_clean)
  then have d: "clean_text (TrimSpace d)"
    unfolding d_def using take_bytes_prefix clean_text_append TrimSpace_clean by metis
  have e: "c \<noteq> [] \<Longrightarrow> \<not> IsSpace (hd c) \<and> \<not> IsSpace (last c)" unfolding c_def by (rule TrimSpace_ends)
  have l: "text_len (TrimSpace d) \<le> maxLifecycleErrorBytes"
    unfolding d_def using text_len_trim take_bytes_len le_trans by blast
  show ?thesis using s c d e l TrimSpace_ends [of d] by (simp add: Let_def) blast
qed

text \<open>
  The redaction precedes the removal of control characters, so a location interrupted by a
  control character is not redacted but is put together again afterwards.
\<close>

lemma sanitize_redaction_gap:
  "sanitizeLifecycleError None (map of_char ''/ho'' @ [1] @ map of_char ''me/u'') (map of_char ''/home/u'')
     = map of_char ''/home/u''"
  by code_simp

section \<open>One update\<close>

definition lc_matches :: "SourceLifecycleUpdate \<Rightarrow> progressRow \<Rightarrow> bool" where
  "lc_matches u row \<longleftrightarrow> u_State u \<noteq> None \<and> u_ExpectedLifecycleState u \<in> {None, Some (sp_lifecycle_state row)}"

definition rm_matches :: "SourceLifecycleUpdate \<Rightarrow> progressRow \<Rightarrow> bool" where
  "rm_matches u row \<longleftrightarrow> u_ReadModelState u \<noteq> None \<and>
     (u_ReadModelStateTransitionOnly u \<longrightarrow> u_ReadModelState u \<noteq> Some (sp_read_model_state row))"

text \<open>The row an update finds, and the row it leaves.\<close>

definition row_before :: "i64 \<Rightarrow> lifecycleDB \<Rightarrow> string \<Rightarrow> progressRow" where
  "row_before at db sid = (case map_of (t_progress db) sid of Some r \<Rightarrow> r | None \<Rightarrow> fresh_progress at)"

definition row_after :: "ingesterEnv \<Rightarrow> rtext \<Rightarrow> i64 \<Rightarrow> SourceLifecycleUpdate \<Rightarrow> progressRow \<Rightarrow> progressRow" where
  "row_after i location at u row =
     (let row = (if lc_matches u row then lifecycle_columns i location at (the (u_State u)) u row else row)
      in if rm_matches u row then read_model_columns i location at (the (u_ReadModelState u)) u row else row)"

definition at_of :: "ingesterEnv \<Rightarrow> SourceLifecycleUpdate \<Rightarrow> i64" where
  "at_of i u = (if u_AtUS u = 0 then env_now i else u_AtUS u)"

lemma rm_after_lc: "rm_matches u (lifecycle_columns i location at st u row) = rm_matches u row"
  by (simp add: rm_matches_def lifecycle_columns_def)

definition source_after :: "ingesterEnv \<Rightarrow> string \<Rightarrow> string \<Rightarrow> rtext \<Rightarrow> lifecycleDB \<Rightarrow> sourceRow" where
  "source_after i sid fmt location db =
     (let meta = (if resolveSourceMeta i sid = [] then None else Some (resolveSourceMeta i sid)) in
      case map_of (t_sources db) sid of
        Some r \<Rightarrow> r\<lparr>so_format := fmt, so_location := location, so_fts5_index_logs := resolveFTS5IndexLogs i sid, so_meta_json := meta\<rparr>
      | None \<Rightarrow> \<lparr>so_format = fmt, so_location = location, so_enabled = True, so_fts5_index_logs = resolveFTS5IndexLogs i sid,
                 so_meta_json = meta, so_created_at = env_now i\<rparr>)"

text \<open>A table that agrees with another but for the row of one key.\<close>

definition put_rows :: "string \<Rightarrow> progressRow \<Rightarrow> (string \<times> progressRow) list \<Rightarrow> (string \<times> progressRow) list \<Rightarrow> bool" where
  "put_rows sid row p p' \<longleftrightarrow> map_of p' = (map_of p)(sid \<mapsto> row) \<and>
     fst ` set p' = insert sid (fst ` set p) \<and> (distinct (map fst p) \<longrightarrow> distinct (map fst p'))"

lemma put_rows_put: "put_rows sid row p (alist_put sid row p)"
  by (simp add: put_rows_def fst_alist_put)

lemma put_rows_same: "map_of p sid = Some row \<Longrightarrow> put_rows sid row p p"
  by (auto simp: put_rows_def fun_upd_idem insert_absorb intro: map_of_SomeD rev_image_eqI)

lemma put_rows_trans: "put_rows sid r p q \<Longrightarrow> put_rows sid r' q q' \<Longrightarrow> put_rows sid r' p q'"
  by (simp add: put_rows_def)

lemma put_rows_lookup: "put_rows sid row p p' \<Longrightarrow> map_of p' sid = Some row"
  by (simp add: put_rows_def)

text \<open>The statements, one by one.\<close>

lemma sql_update_eq:
  "map_of (t_progress db) sid = Some row \<Longrightarrow> sql_update sid cond upd db =
     (cond row, if cond row then db\<lparr>t_progress := alist_put sid (upd row) (t_progress db)\<rparr> else db)"
  by (simp add: sql_update_def)

lemma ensureSourceRow_eq:
  "ensureSourceRow sid fmt location (resolveFTS5IndexLogs i sid) (resolveSourceMeta i sid) (env_now i) (b, db) = Some (b', db') \<Longrightarrow>
     db' = db\<lparr>t_sources := alist_put sid (source_after i sid fmt location db) (t_sources db)\<rparr>"
  by (auto simp: ensureSourceRow_def source_after_def Let_def bind_eq_Some_conv split: option.splits)

lemma ensureProgress_eq:
  "ensureSourceProgressLifecycleRow sid ts (b, db) = Some (b', db') \<Longrightarrow>
     put_rows sid (row_before ts db sid) (t_progress db) (t_progress db') \<and>
     t_sources db' = t_sources db \<and> t_notify db' = t_notify db"
  using put_rows_put [of sid "fresh_progress ts" "t_progress db"]
  by (auto simp: ensureSourceProgressLifecycleRow_def row_before_def bind_eq_Some_conv put_rows_same split: option.splits)

lemma lifecycle_step_eq:
  assumes "(case u_State u of Some st \<Rightarrow> updateLifecycleColumns i sid location at st u (b, db) | None \<Rightarrow> Some (False, b, db))
      = Some (ch, b', db')"
    and row: "map_of (t_progress db) sid = Some row"
  shows "ch = lc_matches u row \<and>
    db' = (if lc_matches u row then db\<lparr>t_progress := alist_put sid
      (lifecycle_columns i location at (the (u_State u)) u row) (t_progress db)\<rparr> else db)"
  using assms
  by (auto simp: updateLifecycleColumns_def bind_eq_Some_conv sql_update_eq [OF row] lc_matches_def Let_def
      split: option.splits if_splits)

lemma read_model_step_eq:
  assumes "(case u_ReadModelState u of Some st \<Rightarrow> updateReadModelColumns i sid location at st u (b, db) | None \<Rightarrow> Some (False, b, db))
      = Some (ch, b', db')"
    and row: "map_of (t_progress db) sid = Some row"
  shows "ch = rm_matches u row \<and>
    db' = (if rm_matches u row then db\<lparr>t_progress := alist_put sid
      (read_model_columns i location at (the (u_ReadModelState u)) u row) (t_progress db)\<rparr> else db)"
  using assms
  by (auto simp: updateReadModelColumns_def bind_eq_Some_conv sql_update_eq [OF row] rm_matches_def Let_def
      split: option.splits if_splits)

lemma status_notify_eq:
  "(if c then insertSourceStatusNotify sid ts (b, db) else Some (b, db)) = Some (b', db') \<Longrightarrow>
     db' = db\<lparr>t_notify := t_notify db @ (if c then [(ts, sid)] else [])\<rparr>"
  by (auto simp: insertSourceStatusNotify_def bind_eq_Some_conv split: if_splits)

text \<open>The effect of the transaction on the tables.\<close>

lemma lifecycle_tx_effect:
  assumes "lifecycle_tx i sid fmt location u (b, db) = Some (b', db')"
  defines "row \<equiv> row_before (at_of i u) db sid"
  shows "put_rows sid (row_after i location (at_of i u) u row) (t_progress db) (t_progress db') \<and>
    t_sources db' = alist_put sid (source_after i sid fmt location db) (t_sources db) \<and>
    t_notify db' = t_notify db @ (if lc_matches u row \<or> rm_matches u row then [(at_of i u, sid)] else [])"
proof -
  let ?ts = "at_of i u"
  from assms(1) obtain b0 b1 db1 b2 db2 c1 b3 db3 c2 b4 db4 b5 db5 where
    1: "ensureSourceRow sid fmt location (resolveFTS5IndexLogs i sid) (resolveSourceMeta i sid) (env_now i) (b0, db) = Some (b1, db1)"
    and 2: "ensureSourceProgressLifecycleRow sid ?ts (b1, db1) = Some (b2, db2)"
    and 3: "(case u_State u of Some st \<Rightarrow> updateLifecycleColumns i sid location ?ts st u (b2, db2) | None \<Rightarrow> Some (False, b2, db2)) = Some (c1, b3, db3)"
    and 4: "(case u_ReadModelState u of Some st \<Rightarrow> updateReadModelColumns i sid location ?ts st u (b3, db3) | None \<Rightarrow> Some (False, b3, db3)) = Some (c2, b4, db4)"
    and 5: "(if c1 \<or> c2 then insertSourceStatusNotify sid ?ts (b4, db4) else Some (b4, db4)) = Some (b5, db5)"
    and 6: "db' = db5"
    unfolding lifecycle_tx_def Let_def at_of_def [symmetric] by (auto simp: bind_eq_Some_conv)
  have d1: "db1 = db\<lparr>t_sources := alist_put sid (source_after i sid fmt location db) (t_sources db)\<rparr>"
    by (rule ensureSourceRow_eq [OF 1])
  have r1: "row_before ?ts db1 sid = row" by (simp add: d1 row_def row_before_def)
  have d2: "put_rows sid row (t_progress db) (t_progress db2)" "t_sources db2 = t_sources db1" "t_notify db2 = t_notify db"
    using ensureProgress_eq [OF 2] unfolding r1 by (simp_all add: d1)
  note d3 = lifecycle_step_eq [OF 3 put_rows_lookup [OF d2(1)]]
  define row1 where "row1 = (if lc_matches u row then lifecycle_columns i location ?ts (the (u_State u)) u row else row)"
  have p3: "put_rows sid row1 (t_progress db) (t_progress db3)" "t_sources db3 = t_sources db1" "t_notify db3 = t_notify db"
    using d3 d2 put_rows_trans [OF d2(1) put_rows_put] by (auto simp: row1_def)
  note d4 = read_model_step_eq [OF 4 put_rows_lookup [OF p3(1)]]
  have m: "rm_matches u row1 = rm_matches u row" by (simp add: row1_def rm_after_lc)
  have a: "row_after i location ?ts u row = (if rm_matches u row then read_model_columns i location ?ts (the (u_ReadModelState u)) u row1 else row1)"
    by (simp add: row_after_def row1_def Let_def rm_after_lc)
  have p4: "put_rows sid (row_after i location ?ts u row) (t_progress db) (t_progress db4)" "t_sources db4 = t_sources db1" "t_notify db4 = t_notify db"
    using d4 p3 put_rows_trans [OF p3(1) put_rows_put] by (auto simp: a m)
  show ?thesis
    using status_notify_eq [OF 5] p4 d3 d4 m by (simp add: 6 d1)
qed

text \<open>
  C19. An update of the durable state of a source is atomic and announced exactly: if it
  fails, no table changes; if it succeeds, the row of this source is the one the update asks
  for, the source is registered with its new format and location, and one notification is
  appended if and only if the expected state matched and a lifecycle or read-model state was
  written. No other source's row changes.
\<close>

theorem source_lifecycle_atomic:
  "case RecordSourceLifecycle i sid fmt location u (b, db) of
     (Some e, b', db') \<Rightarrow> db' = db
   | (None, b', db') \<Rightarrow>
       (let row = row_before (at_of i u) db sid in
        sid \<noteq> [] \<and>
        map_of (t_progress db') = (map_of (t_progress db))(sid \<mapsto> row_after i location (at_of i u) u row) \<and>
        map_of (t_sources db') = (map_of (t_sources db))(sid \<mapsto> source_after i sid fmt location db) \<and>
        t_notify db' = t_notify db @ (if lc_matches u row \<or> rm_matches u row then [(at_of i u, sid)] else []))"
proof (cases "sid = [] \<or> lifecycle_tx i sid fmt location u (b, db) = None")
  case True
  then show ?thesis by (auto simp: RecordSourceLifecycle_def)
next
  case False
  then obtain b' db' where tx: "lifecycle_tx i sid fmt location u (b, db) = Some (b', db')" by force
  then have r: "RecordSourceLifecycle i sid fmt location u (b, db) = (None, b', db')"
    using False by (simp add: RecordSourceLifecycle_def)
  show ?thesis
    using False lifecycle_tx_effect [OF tx] by (simp add: r put_rows_def Let_def)
qed

section \<open>Reconciliation at startup\<close>

text \<open>
  The keys of the tables: one row per source, one progress row per source, and (the foreign
  key) a source row for every progress row.
\<close>

definition wf_db :: "lifecycleDB \<Rightarrow> bool" where
  "wf_db db \<longleftrightarrow> distinct (map fst (t_sources db)) \<and> distinct (map fst (t_progress db)) \<and>
     fst ` set (t_progress db) \<subseteq> fst ` set (t_sources db)"

definition settled :: "(string \<rightharpoonup> SourceRegistration) \<Rightarrow> lifecycleDB \<Rightarrow> string \<Rightarrow> bool" where
  "settled c db sid \<longleftrightarrow> (case c sid of
       Some _ \<Rightarrow> fst (progress_states db sid) = SourceLifecycleStarting \<and> snd (progress_states db sid) \<noteq> ReadModelRepairing
     | None \<Rightarrow> fst (progress_states db sid) = SourceLifecycleStopped)"

definition enabled :: "lifecycleDB \<Rightarrow> string \<Rightarrow> bool" where
  "enabled db sid = (case map_of (t_sources db) sid of Some r \<Rightarrow> so_enabled r | None \<Rightarrow> True)"

text \<open>What recording an update leaves of the other sources and of the keys.\<close>

lemma record_frame:
  assumes "RecordSourceLifecycle i sid fmt location u (b, db) = (None, b', db')"
  shows "wf_db db \<Longrightarrow> wf_db db'"
    and "fst ` set (t_sources db') = insert sid (fst ` set (t_sources db))"
    and "s \<noteq> sid \<Longrightarrow> progress_states db' s = progress_states db s"
    and "progress_states db' sid =
      (case u_State u of
         Some st \<Rightarrow> if lc_matches u (row_before (at_of i u) db sid) then st else fst (progress_states db sid)
       | None \<Rightarrow> fst (progress_states db sid),
       case u_ReadModelState u of
         Some st \<Rightarrow> if rm_matches u (row_before (at_of i u) db sid) then st else snd (progress_states db sid)
       | None \<Rightarrow> snd (progress_states db sid))"
    and "enabled db' s = enabled db s"
proof -
  have tx: "lifecycle_tx i sid fmt location u (b, db) = Some (b', db')"
    using assms by (simp add: RecordSourceLifecycle_def split: if_splits option.splits)
  note e = lifecycle_tx_effect [OF tx]
  let ?row = "row_before (at_of i u) db sid"
  have p: "map_of (t_progress db') = (map_of (t_progress db))(sid \<mapsto> row_after i location (at_of i u) u ?row)"
    using e by (simp add: put_rows_def)
  show "wf_db db'" if "wf_db db"
    using that e by (auto simp: wf_db_def put_rows_def fst_alist_put)
  show "fst ` set (t_sources db') = insert sid (fst ` set (t_sources db))"
    using e by (simp add: fst_alist_put)
  show "progress_states db' s = progress_states db s" if "s \<noteq> sid"
    using that p by (simp add: progress_states_def)
  have r: "progress_states db sid = (sp_lifecycle_state ?row, sp_read_model_state ?row)"
    by (simp add: progress_states_def row_before_def fresh_progress_def split: option.split)
  show "progress_states db' sid =
      (case u_State u of
         Some st \<Rightarrow> if lc_matches u ?row then st else fst (progress_states db sid)
       | None \<Rightarrow> fst (progress_states db sid),
       case u_ReadModelState u of
         Some st \<Rightarrow> if rm_matches u ?row then st else snd (progress_states db sid)
       | None \<Rightarrow> snd (progress_states db sid))"
    unfolding r by (simp add: progress_states_def p row_after_def Let_def lc_matches_def rm_matches_def
        lifecycle_columns_def read_model_columns_def split: option.split)
  show "enabled db' s = enabled db s"
    using e by (simp add: enabled_def source_after_def Let_def split: option.split)
qed

lemma reconcile_existing_settled:
  "reconcile_existing c sid row (progress_states db sid) = None \<longleftrightarrow> settled c db sid"
  by (simp add: reconcile_existing_def settled_def Let_def split: option.split)

lemma reconcile_existing_settles:
  assumes "reconcile_existing c sid row (progress_states db sid) = Some (fmt, location, u)"
    and "RecordSourceLifecycle i sid fmt location u (b, db) = (None, b', db')"
  shows "settled c db' sid"
  using assms(1) record_frame(4) [OF assms(2)]
  by (auto simp: reconcile_existing_def settled_def Let_def lc_matches_def rm_matches_def empty_update_def
      split: option.splits if_splits)

lemma settled_frame:
  "progress_states db' s = progress_states db s \<Longrightarrow> settled c db' s = settled c db s"
  by (cases "c s") (simp_all add: settled_def)

text \<open>The effect of a part of the reconciliation that goes over the sources \<open>S\<close>.\<close>

definition settles :: "(string \<rightharpoonup> SourceRegistration) \<Rightarrow> string set \<Rightarrow> lifecycleDB \<Rightarrow> lifecycleDB \<Rightarrow> bool" where
  "settles c S db db' \<longleftrightarrow> (wf_db db \<longrightarrow> wf_db db') \<and> enabled db' = enabled db \<and>
     fst ` set (t_sources db') = S \<union> fst ` set (t_sources db) \<and>
     (\<forall>s. s \<in> S \<longrightarrow> settled c db' s) \<and>
     (\<forall>s. s \<notin> S \<longrightarrow> progress_states db' s = progress_states db s)"

lemma settles_empty: "settles c {} db db"
  by (simp add: settles_def)

lemma settles_one: "settled c db s \<Longrightarrow> s \<in> fst ` set (t_sources db) \<Longrightarrow> settles c {s} db db"
  by (simp add: settles_def insert_absorb)

lemma settlesD:
  assumes "settles c S db db'"
  shows "wf_db db \<Longrightarrow> wf_db db'" and "enabled db' = enabled db"
    and "fst ` set (t_sources db') = S \<union> fst ` set (t_sources db)"
    and "s \<in> S \<Longrightarrow> settled c db' s" and "s \<notin> S \<Longrightarrow> progress_states db' s = progress_states db s"
  using assms unfolding settles_def by blast+

lemma settles_trans:
  assumes 1: "settles c S db db1" and 2: "settles c T db1 db2"
  shows "settles c (S \<union> T) db db2"
  unfolding settles_def
proof (intro conjI allI impI)
  show "wf_db db2" if "wf_db db" using settlesD(1) [OF 2 settlesD(1) [OF 1 that]] .
  show "enabled db2 = enabled db" using settlesD(2) [OF 1] settlesD(2) [OF 2] by (rule trans [rotated])
  show "fst ` set (t_sources db2) = (S \<union> T) \<union> fst ` set (t_sources db)"
    unfolding settlesD(3) [OF 2] settlesD(3) [OF 1] by blast
  show "settled c db2 s" if "s \<in> S \<union> T" for s
  proof (cases "s \<in> T")
    case True
    then show ?thesis by (rule settlesD(4) [OF 2])
  next
    case False
    then show ?thesis using settlesD(4) [OF 1, of s] settled_frame [OF settlesD(5) [OF 2 False]] that by blast
  qed
  show "progress_states db2 s = progress_states db s" if "s \<notin> S \<union> T" for s
    using that settlesD(5) [OF 1, of s] settlesD(5) [OF 2, of s] by (metis UnI1 UnI2)
qed

lemma settles_record:
  assumes "RecordSourceLifecycle i sid fmt location u (b, db) = (None, b', db')" and "settled c db' sid"
  shows "settles c {sid} db db'"
  using assms(2) record_frame(1,2,3,5) [OF assms(1)] by (auto simp: settles_def)

lemma reconcile_rows_settle:
  assumes "reconcile_rows i c rows (b, db) = (None, b', db')"
    and "distinct (map fst rows)"
    and "list_all (\<lambda>(sid, row, st). st = progress_states db sid) rows"
    and "fst ` set rows \<subseteq> fst ` set (t_sources db)"
  shows "settles c (fst ` set rows) db db'"
  using assms
proof (induction rows arbitrary: b db)
  case Nil
  then show ?case by (simp add: settles_empty)
next
  case (Cons r rest)
  obtain sid row st where r: "r = (sid, row, st)" by (cases r)
  have st: "st = progress_states db sid" and new: "sid \<notin> fst ` set rest" using Cons.prems r by auto
  show ?case
  proof (cases "reconcile_existing c sid row st")
    case None
    have run: "reconcile_rows i c rest (b, db) = (None, b', db')" using Cons.prems(1) None r by simp
    have "settled c db sid" using None st reconcile_existing_settled by simp
    then have "settles c {sid} db db" using Cons.prems(4) r by (intro settles_one) auto
    moreover have "settles c (fst ` set rest) db db'" using Cons.IH [OF run] Cons.prems by simp
    ultimately have "settles c ({sid} \<union> fst ` set rest) db db'" by (rule settles_trans)
    then show ?thesis by (simp add: r)
  next
    case (Some x)
    obtain fmt location u where x: "x = (fmt, location, u)" by (cases x)
    obtain b1 db1 where rec: "RecordSourceLifecycle i sid fmt location u (b, db) = (None, b1, db1)"
      and run: "reconcile_rows i c rest (b1, db1) = (None, b', db')"
      using Cons.prems(1) Some x r by (auto split: prod.splits option.splits)
    have 1: "settles c {sid} db db1"
      using settles_record [OF rec] reconcile_existing_settles [OF _ rec] Some x st by simp
    have "progress_states db1 s = progress_states db s" if "s \<in> fst ` set rest" for s
      using settlesD(5) [OF 1, of s] new that by (metis singletonD)
    then have "list_all (\<lambda>(s, row, st). st = progress_states db1 s) rest"
      using Cons.prems(3) by (fastforce simp: r list_all_iff image_iff)
    then have "settles c (fst ` set rest) db1 db'"
      using Cons.IH [OF run] Cons.prems(2,4) settlesD(3) [OF 1] by (simp add: subset_insertI2)
    with 1 have "settles c ({sid} \<union> fst ` set rest) db db'" by (rule settles_trans)
    then show ?thesis by (simp add: r)
  qed
qed

text \<open>The configured sources that the second loop registers.\<close>

definition to_register :: "string set \<Rightarrow> SourceRegistration list \<Rightarrow> string set" where
  "to_register seen regs = {s \<in> reg_ID ` set regs. s \<notin> seen \<and> s \<noteq> []}"

lemma to_register_Cons:
  "to_register seen (reg # rest) =
     (if reg_ID reg \<in> seen \<or> reg_ID reg = [] then to_register seen rest else insert (reg_ID reg) (to_register seen rest))"
  by (auto simp: to_register_def)

lemma reconcile_new_settle:
  assumes "reconcile_new i seen regs (b, db) = (None, b', db')"
    and "to_register seen regs \<subseteq> dom c"
    and "list_all (\<lambda>reg. reg_ID reg \<in> seen \<or> reg_ID reg = [] \<or> snd (progress_states db (reg_ID reg)) \<noteq> ReadModelRepairing) regs"
  shows "settles c (to_register seen regs) db db'"
  using assms
proof (induction regs arbitrary: b db)
  case Nil
  then show ?case by (simp add: to_register_def settles_empty)
next
  case (Cons reg rest)
  show ?case
  proof (cases "reg_ID reg \<in> seen \<or> reg_ID reg = []")
    case True
    then show ?thesis using Cons by (simp add: to_register_Cons)
  next
    case False
    let ?u = "empty_update\<lparr>u_State := Some SourceLifecycleStarting\<rparr>" and ?s = "reg_ID reg"
    obtain b1 db1 where rec: "RecordSourceLifecycle i ?s (reg_Format reg) (reg_Location reg) ?u (b, db) = (None, b1, db1)"
      and run: "reconcile_new i seen rest (b1, db1) = (None, b', db')"
      using Cons.prems(1) False by (auto split: prod.splits option.splits)
    have p: "progress_states db1 ?s = (SourceLifecycleStarting, snd (progress_states db ?s))"
      using record_frame(4) [OF rec] by (simp add: lc_matches_def empty_update_def)
    have "?s \<in> dom c" using Cons.prems(2) False by (simp add: to_register_Cons)
    then have "settled c db1 ?s" using p Cons.prems(3) False by (auto simp: settled_def)
    then have 1: "settles c {?s} db db1" using settles_record [OF rec] by simp
    have "snd (progress_states db1 s) = snd (progress_states db s)" for s
      using p record_frame(3) [OF rec, of s] by (cases "s = ?s") auto
    then have "settles c (to_register seen rest) db1 db'"
      using Cons.IH [OF run] Cons.prems(2,3) False by (simp add: to_register_Cons)
    with 1 have "settles c ({?s} \<union> to_register seen rest) db db'" by (rule settles_trans)
    then show ?thesis using False by (simp add: to_register_Cons)
  qed
qed

lemma configured_by_id_dom: "dom (configured_by_id regs) = {s \<in> reg_ID ` set regs. s \<noteq> []}"
proof -
  have "dom (fold (\<lambda>src m. if reg_ID src = [] then m else m(reg_ID src \<mapsto> src)) regs m) =
      {s \<in> reg_ID ` set regs. s \<noteq> []} \<union> dom m" for m :: "string \<rightharpoonup> SourceRegistration"
    by (induction regs arbitrary: m) auto
  from this [of Map.empty] show ?thesis by (simp add: configured_by_id_def)
qed

lemma existing_sources_facts:
  "mset (map fst (existing_sources db)) = mset (map fst (t_sources db))"
  "list_all (\<lambda>(sid, row, st). st = progress_states db sid) (existing_sources db)"
proof -
  show "mset (map fst (existing_sources db)) = mset (map fst (t_sources db))"
    unfolding existing_sources_def mset_map mset_sort_by by (simp add: multiset.map_comp comp_def case_prod_beta)
  show "list_all (\<lambda>(sid, row, st). st = progress_states db sid) (existing_sources db)"
    by (auto simp: existing_sources_def list_all_iff)
qed

lemma reconcile_rows_idle:
  "list_all (\<lambda>(sid, row, st). reconcile_existing c sid row st = None) rows \<Longrightarrow> reconcile_rows i c rows s = (None, s)"
  by (induction rows) auto

lemma reconcile_new_idle:
  "to_register seen regs = {} \<Longrightarrow> reconcile_new i seen regs s = (None, s)"
  by (induction regs) (auto simp: to_register_Cons split: if_splits)

text \<open>
  C20. After the startup reconciliation every source of the table is settled: a configured
  one is starting and not repairing, any other one is stopped. Every configured source has a
  row, no source gains or loses its enabled flag, the keys stay those of a database, and a
  second reconciliation with the same configuration changes nothing.
\<close>

theorem reconcile_settles:
  assumes "wf_db db"
    and "ReconcileSourceLifecycles i configured (b, db) = (None, b', db')"
  shows "wf_db db' \<and>
    fst ` set (t_sources db') = fst ` set (t_sources db) \<union> dom (configured_by_id configured) \<and>
    (\<forall>sid \<in> fst ` set (t_sources db'). settled (configured_by_id configured) db' sid) \<and>
    enabled db' = enabled db \<and>
    ReconcileSourceLifecycles j configured (None, db') = (None, None, db')"
proof -
  let ?c = "configured_by_id configured" and ?keys = "fst ` set (t_sources db)"
  obtain b0 b1 db1 where rows: "reconcile_rows i ?c (existing_sources db) (b0, db) = (None, b1, db1)"
    and new: "reconcile_new i ?keys configured (b1, db1) = (None, b', db')"
    using assms(2) by (auto simp: ReconcileSourceLifecycles_def split: prod.splits option.splits)
  have keys: "fst ` set (existing_sources db) = ?keys"
    using arg_cong [OF existing_sources_facts(1), of set_mset db] by simp
  have "distinct (map fst (existing_sources db))"
    using assms(1) mset_eq_imp_distinct_iff [OF existing_sources_facts(1)] by (simp add: wf_db_def)
  then have 1: "settles ?c ?keys db db1"
    using reconcile_rows_settle [OF rows _ existing_sources_facts(2)] keys by simp
  have "progress_states db1 s = (SourceLifecycleUnknown, ReadModelUnknown)" if "s \<notin> ?keys" for s
  proof -
    have "map_of (t_progress db) s = None" using that assms(1) by (auto simp: wf_db_def map_of_eq_None_iff)
    then show ?thesis using 1 that by (simp add: settles_def progress_states_def)
  qed
  then have "list_all (\<lambda>reg. reg_ID reg \<in> ?keys \<or> reg_ID reg = [] \<or> snd (progress_states db1 (reg_ID reg)) \<noteq> ReadModelRepairing) configured"
    by (auto simp: list_all_iff)
  moreover have "to_register ?keys configured \<subseteq> dom ?c"
    by (auto simp: configured_by_id_dom to_register_def)
  ultimately have "settles ?c (to_register ?keys configured) db1 db'"
    using reconcile_new_settle [OF new] by simp
  with 1 have all: "settles ?c (?keys \<union> to_register ?keys configured) db db'" by (rule settles_trans)
  have dom: "?keys \<union> to_register ?keys configured = ?keys \<union> dom ?c"
    by (auto simp: configured_by_id_dom to_register_def)
  have keys': "fst ` set (t_sources db') = ?keys \<union> dom ?c"
    using settlesD(3) [OF all] dom by blast
  have s: "settled ?c db' sid" if "sid \<in> fst ` set (t_sources db')" for sid
    using settlesD(4) [OF all] that keys' dom by blast
  have "list_all (\<lambda>(sid, row, st). reconcile_existing ?c sid row st = None) (existing_sources db')"
    unfolding list_all_iff
  proof clarify
    fix sid row lc rm
    assume m: "(sid, row, lc, rm) \<in> set (existing_sources db')"
    then have "(lc, rm) = progress_states db' sid"
      using existing_sources_facts(2) [of db'] unfolding list_all_iff by blast
    moreover have "sid \<in> fst ` set (t_sources db')"
      using m arg_cong [OF existing_sources_facts(1), of set_mset db'] by (metis fst_conv image_eqI list.set_map set_mset_mset)
    ultimately show "reconcile_existing ?c sid row (lc, rm) = None"
      using s [of sid] reconcile_existing_settled by simp
  qed
  moreover have "to_register (fst ` set (t_sources db')) configured = {}"
    by (auto simp: keys' to_register_def configured_by_id_dom)
  ultimately have "ReconcileSourceLifecycles j configured (None, db') = (None, None, db')"
    by (simp add: ReconcileSourceLifecycles_def reconcile_rows_idle reconcile_new_idle)
  then show ?thesis using settlesD(1,2) [OF all] keys' s assms(1) by blast
qed

text \<open>An old source that is no longer configured, one that was repairing, and a new one.\<close>

definition demo_env :: ingesterEnv where
  "demo_env = \<lparr>env_now = 7, env_fts5Overrides = Map.empty, env_metaOverrides = Map.empty, env_home = None\<rparr>"

definition demo_source :: "i64 \<Rightarrow> sourceRow" where
  "demo_source at = \<lparr>so_format = ''codex'', so_location = [47], so_enabled = True, so_fts5_index_logs = True,
     so_meta_json = None, so_created_at = at\<rparr>"

definition demo_db :: lifecycleDB where
  "demo_db = \<lparr>t_sources = [(''b'', demo_source 2), (''a'', demo_source 1)],
     t_progress = [(''a'', (fresh_progress 1)\<lparr>sp_lifecycle_state := SourceLifecycleTailing,
       sp_read_model_state := ReadModelRepairing\<rparr>)], t_notify = []\<rparr>"

definition demo_configured :: "SourceRegistration list" where
  "demo_configured = [\<lparr>reg_ID = ''a'', reg_Format = ''codex'', reg_Location = [47]\<rparr>,
     \<lparr>reg_ID = ''c'', reg_Format = ''claude'', reg_Location = [47, 99]\<rparr>]"

lemma reconcile_settles_witness:
  "wf_db demo_db \<and>
   fst (ReconcileSourceLifecycles demo_env demo_configured (None, demo_db)) = None \<and>
   (let db' = snd (snd (ReconcileSourceLifecycles demo_env demo_configured (None, demo_db))) in
    map (progress_states db') [''a'', ''b'', ''c''] =
      [(SourceLifecycleStarting, ReadModelRepairPending), (SourceLifecycleStopped, ReadModelUnknown),
       (SourceLifecycleStarting, ReadModelUnknown)] \<and>
    wf_db db')"
proof -
  have w: "wf_db demo_db" by (simp add: wf_db_def demo_db_def)
  obtain e b' db' where r: "ReconcileSourceLifecycles demo_env demo_configured (None, demo_db) = (e, b', db')"
    by (cases "ReconcileSourceLifecycles demo_env demo_configured (None, demo_db)")
  have e: "fst (ReconcileSourceLifecycles demo_env demo_configured (None, demo_db)) = None" by code_simp
  have s: "(let db' = snd (snd (ReconcileSourceLifecycles demo_env demo_configured (None, demo_db))) in
    map (progress_states db') [''a'', ''b'', ''c'']) =
      [(SourceLifecycleStarting, ReadModelRepairPending), (SourceLifecycleStopped, ReadModelUnknown),
       (SourceLifecycleStarting, ReadModelUnknown)]" by code_simp
  have "wf_db db'" using reconcile_settles [OF w, of demo_env demo_configured None b' db'] r e by simp
  then show ?thesis using w e s r by (simp add: Let_def)
qed

end
