(* ===== verification/Tail_Liveness.thy ===== *)
theory Tail_Liveness
  imports Lifecycle "HOL-Library.Multiset"
begin

text \<open>
  Liveness of the tails (\<open>internal/ingest/tail_liveness.go\<close>): heartbeats are recorded in
  memory under a mutex and persisted by one loop behind a bounded channel; a watchdog marks
  sources stale and asks their supervisors for a restart.

  The goroutines interleave, so the heartbeat protocol is a step relation whose steps are
  the critical sections and the channel operations of the code. A goroutine between its
  critical section and its send is an element of the multiset \<open>hs_sending\<close>.
\<close>

section \<open>State\<close>

record tailHeartbeatState =
  lastUS :: i64
  queuedUS :: i64
  persistedUS :: i64

record tailHeartbeatPersistRequest =
  req_sourceID :: string
  req_atUS :: i64

type_synonym heartbeats = "string \<rightharpoonup> tailHeartbeatState"

text \<open>Reading a missing key of a Go map gives the zero value.\<close>

definition zero_heartbeat :: tailHeartbeatState where
  "zero_heartbeat = \<lparr>lastUS = 0, queuedUS = 0, persistedUS = 0\<rparr>"

definition heartbeat_of :: "heartbeats \<Rightarrow> string \<Rightarrow> tailHeartbeatState" where
  "heartbeat_of m sid = (case m sid of Some st \<Rightarrow> st | None \<Rightarrow> zero_heartbeat)"

section \<open>The critical sections\<close>

text \<open>\<open>every\<close> is \<open>heartbeatPersistEvery\<close> in microseconds, \<open>at\<close> the reading of the clock.\<close>

definition RecordTailHeartbeat ::
    "i64 \<Rightarrow> string \<Rightarrow> i64 \<Rightarrow> heartbeats \<Rightarrow> heartbeats \<times> tailHeartbeatPersistRequest option" where
  "RecordTailHeartbeat every sid at m =
     (if sid = [] then (m, None)
      else
        let st = heartbeat_of m sid;
            st = st\<lparr>lastUS := at\<rparr>;
            shouldPersist = (queuedUS st = 0 \<and> (persistedUS st = 0 \<or> sint every \<le> sint (at - persistedUS st)));
            st = (if shouldPersist then st\<lparr>queuedUS := at\<rparr> else st)
        in (m(sid \<mapsto> st), if shouldPersist then Some \<lparr>req_sourceID = sid, req_atUS = at\<rparr> else None))"

definition clearQueuedTailHeartbeat :: "string \<Rightarrow> i64 \<Rightarrow> heartbeats \<Rightarrow> heartbeats" where
  "clearQueuedTailHeartbeat sid at m =
     (let st = heartbeat_of m sid in
      if queuedUS st = at then m(sid \<mapsto> st\<lparr>queuedUS := 0\<rparr>) else m)"

definition finishTailHeartbeatPersist ::
    "i64 \<Rightarrow> string \<Rightarrow> i64 \<Rightarrow> bool \<Rightarrow> heartbeats \<Rightarrow> heartbeats \<times> tailHeartbeatPersistRequest option" where
  "finishTailHeartbeatPersist every sid at committed m =
     (let st = heartbeat_of m sid;
          st = (if queuedUS st = at then st\<lparr>queuedUS := 0\<rparr> else st);
          st = (if committed \<and> sint (persistedUS st) < sint at then st\<lparr>persistedUS := at\<rparr> else st)
      in if committed \<and> queuedUS st = 0 \<and> sint (persistedUS st) < sint (lastUS st) \<and>
            sint every \<le> sint (lastUS st - persistedUS st)
         then (m(sid \<mapsto> st\<lparr>queuedUS := lastUS st\<rparr>), Some \<lparr>req_sourceID = sid, req_atUS = lastUS st\<rparr>)
         else (m(sid \<mapsto> st), None))"

definition liveTailHeartbeat :: "string \<Rightarrow> i64 \<Rightarrow> heartbeats \<Rightarrow> i64" where
  "liveTailHeartbeat sid fallback m = (case m sid of
       Some st \<Rightarrow> if sint fallback < sint (lastUS st) then lastUS st else fallback
     | None \<Rightarrow> fallback)"

section \<open>The heartbeat protocol\<close>

text \<open>Where the persistence loop is: at its select, writing, sending the next request, clearing it.\<close>

datatype persistLoop =
    AtSelect
  | Persisting tailHeartbeatPersistRequest
  | SendingNext tailHeartbeatPersistRequest
  | ClearingNext tailHeartbeatPersistRequest
  | LoopDone

record heartbeatSys =
  hs_beats :: heartbeats
  hs_sending :: "tailHeartbeatPersistRequest multiset"
  hs_clearing :: "tailHeartbeatPersistRequest multiset"
  hs_chan :: "tailHeartbeatPersistRequest list"
  hs_cap :: nat
  hs_loop :: persistLoop

definition heartbeat_init :: "nat \<Rightarrow> heartbeatSys" where
  "heartbeat_init n = \<lparr>hs_beats = Map.empty, hs_sending = {#}, hs_clearing = {#}, hs_chan = [],
     hs_cap = n, hs_loop = AtSelect\<rparr>"

text \<open>A non-blocking send, by the adapters' goroutines and by the loop itself.\<close>

definition enqueueTailHeartbeatPersist :: "tailHeartbeatPersistRequest \<Rightarrow> heartbeatSys \<Rightarrow> heartbeatSys option" where
  "enqueueTailHeartbeatPersist r s =
     (if length (hs_chan s) < hs_cap s then Some (s\<lparr>hs_chan := hs_chan s @ [r]\<rparr>) else None)"

text \<open>The steps that need no new heartbeat.\<close>

inductive persist_step :: "i64 \<Rightarrow> heartbeatSys \<Rightarrow> heartbeatSys \<Rightarrow> bool" for every where
  send: "hs_sending s = add_mset r rest \<Longrightarrow> enqueueTailHeartbeatPersist r s = Some s' \<Longrightarrow>
    persist_step every s (s'\<lparr>hs_sending := rest\<rparr>)"
| full: "hs_sending s = add_mset r rest \<Longrightarrow> enqueueTailHeartbeatPersist r s = None \<Longrightarrow>
    persist_step every s (s\<lparr>hs_sending := rest, hs_clearing := add_mset r (hs_clearing s)\<rparr>)"
| clear: "hs_clearing s = add_mset r rest \<Longrightarrow>
    persist_step every s (s\<lparr>hs_clearing := rest,
      hs_beats := clearQueuedTailHeartbeat (req_sourceID r) (req_atUS r) (hs_beats s)\<rparr>)"
| receive: "hs_loop s = AtSelect \<Longrightarrow> hs_chan s = r # rest \<Longrightarrow>
    persist_step every s (s\<lparr>hs_chan := rest, hs_loop := Persisting r\<rparr>)"
| finish: "hs_loop s = Persisting r \<Longrightarrow>
    finishTailHeartbeatPersist every (req_sourceID r) (req_atUS r) committed (hs_beats s) = (m, next_req) \<Longrightarrow>
    persist_step every s (s\<lparr>hs_beats := m,
      hs_loop := (case next_req of Some n \<Rightarrow> SendingNext n | None \<Rightarrow> AtSelect)\<rparr>)"
| send_next: "hs_loop s = SendingNext r \<Longrightarrow> enqueueTailHeartbeatPersist r s = Some s' \<Longrightarrow>
    persist_step every s (s'\<lparr>hs_loop := AtSelect\<rparr>)"
| full_next: "hs_loop s = SendingNext r \<Longrightarrow> enqueueTailHeartbeatPersist r s = None \<Longrightarrow>
    persist_step every s (s\<lparr>hs_loop := ClearingNext r\<rparr>)"
| clear_next: "hs_loop s = ClearingNext r \<Longrightarrow>
    persist_step every s (s\<lparr>hs_loop := AtSelect,
      hs_beats := clearQueuedTailHeartbeat (req_sourceID r) (req_atUS r) (hs_beats s)\<rparr>)"

text \<open>All steps: a heartbeat (the clock is never 0), the ones above, and the end of the loop.\<close>

inductive heartbeat_step :: "i64 \<Rightarrow> heartbeatSys \<Rightarrow> heartbeatSys \<Rightarrow> bool" for every where
  beat: "at \<noteq> 0 \<Longrightarrow> RecordTailHeartbeat every sid at (hs_beats s) = (m, req) \<Longrightarrow>
    heartbeat_step every s (s\<lparr>hs_beats := m,
      hs_sending := (case req of Some r \<Rightarrow> add_mset r (hs_sending s) | None \<Rightarrow> hs_sending s)\<rparr>)"
| persist: "persist_step every s s' \<Longrightarrow> heartbeat_step every s s'"
| stop: "hs_loop s = AtSelect \<Longrightarrow> heartbeat_step every s (s\<lparr>hs_loop := LoopDone\<rparr>)"

inductive heartbeat_reach :: "i64 \<Rightarrow> nat \<Rightarrow> heartbeatSys \<Rightarrow> bool" for every n where
  init: "heartbeat_reach every n (heartbeat_init n)"
| step: "heartbeat_reach every n s \<Longrightarrow> heartbeat_step every s s' \<Longrightarrow> heartbeat_reach every n s'"

inductive persist_run :: "i64 \<Rightarrow> nat \<Rightarrow> heartbeatSys \<Rightarrow> heartbeatSys \<Rightarrow> bool" for every where
  none: "persist_run every 0 s s"
| more: "persist_step every s s1 \<Longrightarrow> persist_run every n s1 s2 \<Longrightarrow> persist_run every (Suc n) s s2"

section \<open>The watchdog\<close>

text \<open>Restart channels: which channel a source has registered, and the channels.\<close>

record restartChans =
  rc_registered :: "string \<rightharpoonup> nat"
  rc_chans :: "nat \<Rightarrow> unit chan"

definition RegisterTailRestart :: "string \<Rightarrow> nat option \<Rightarrow> restartChans \<Rightarrow> restartChans" where
  "RegisterTailRestart sid ch rc = (case ch of
       None \<Rightarrow> rc
     | Some c \<Rightarrow> if sid = [] then rc else rc\<lparr>rc_registered := (rc_registered rc)(sid \<mapsto> c)\<rparr>)"

text \<open>The function it returns.\<close>

definition unregisterTailRestart :: "string \<Rightarrow> nat option \<Rightarrow> restartChans \<Rightarrow> restartChans" where
  "unregisterTailRestart sid ch rc = (case ch of
       None \<Rightarrow> rc
     | Some c \<Rightarrow> if sid \<noteq> [] \<and> rc_registered rc sid = Some c
         then rc\<lparr>rc_registered := (rc_registered rc)(sid := None)\<rparr> else rc)"

definition enqueueTailRestart :: "string \<Rightarrow> restartChans \<Rightarrow> restartChans" where
  "enqueueTailRestart sid rc = (case rc_registered rc sid of
       None \<Rightarrow> rc
     | Some c \<Rightarrow> let ch = rc_chans rc c in
         if length (ch_buf ch) < ch_cap ch then rc\<lparr>rc_chans := (rc_chans rc)(c := ch\<lparr>ch_buf := ch_buf ch @ [()]\<rparr>)\<rparr>
         else rc)"

text \<open>The rows of the query, and the test of the loop over them.\<close>

definition persisted_last :: "progressRow \<Rightarrow> i64" where
  "persisted_last row = (case coalesce (sp_tail_heartbeat_at row) (sp_tail_started_at row) of
       Some v \<Rightarrow> v | None \<Rightarrow> sp_lifecycle_state_at row)"

definition is_stale :: "i64 \<Rightarrow> i64 \<Rightarrow> heartbeats \<Rightarrow> string \<Rightarrow> progressRow \<Rightarrow> bool" where
  "is_stale now staleAfterUS m sid row =
     (let last = liveTailHeartbeat sid (persisted_last row) m in
      \<not> (0 < sint last \<and> sint (now - last) \<le> sint staleAfterUS))"

definition stale_sources :: "i64 \<Rightarrow> i64 \<Rightarrow> heartbeats \<Rightarrow> lifecycleDB \<Rightarrow> string list" where
  "stale_sources now staleAfterUS m db =
     map fst (filter (\<lambda>(sid, row). sp_lifecycle_state row = SourceLifecycleTailing \<and> is_stale now staleAfterUS m sid row)
       (t_progress db))"

fun mark_all_stale ::
    "string list \<Rightarrow> i64 \<Rightarrow> restartChans \<Rightarrow> budget \<times> lifecycleDB \<Rightarrow> lifecycleError option \<times> restartChans \<times> budget \<times> lifecycleDB" where
  "mark_all_stale [] now rc s = (None, rc, s)"
| "mark_all_stale (sid # rest) now rc s =
     (case markTailStale sid now s of
        (Some e, s') \<Rightarrow> (Some e, rc, s')
      | (None, s') \<Rightarrow> mark_all_stale rest now (enqueueTailRestart sid rc) s')"

definition checkTailStaleness ::
    "i64 \<Rightarrow> i64 \<Rightarrow> heartbeats \<Rightarrow> restartChans \<Rightarrow> budget \<times> lifecycleDB \<Rightarrow>
     lifecycleError option \<times> restartChans \<times> budget \<times> lifecycleDB" where
  "checkTailStaleness now staleAfterUS m rc s = (case s of (b, db) \<Rightarrow>
     (case tick b of
        None \<Rightarrow> (Some StatementFailed, rc, Some 0, db)
      | Some b \<Rightarrow> mark_all_stale (stale_sources now staleAfterUS m db) now rc (b, db)))"

end
