(* ===== verification/Tail_Props.thy ===== *)
theory Tail_Props
  imports Tail_Liveness
begin

text \<open>
  Properties of the heartbeat protocol (at most one request per source, which is the one
  recorded as queued; without new heartbeats the protocol comes to rest with nothing queued)
  and of the watchdog (exactly the stale tails are marked and asked to restart).
\<close>

section \<open>Outstanding requests\<close>

definition loop_requests :: "persistLoop \<Rightarrow> tailHeartbeatPersistRequest multiset" where
  "loop_requests l = (case l of Persisting r \<Rightarrow> {#r#} | SendingNext r \<Rightarrow> {#r#} | ClearingNext r \<Rightarrow> {#r#} | _ \<Rightarrow> {#})"

lemma loop_requests_simps [simp]:
  "loop_requests AtSelect = {#}" "loop_requests LoopDone = {#}" "loop_requests (Persisting r) = {#r#}"
  "loop_requests (SendingNext r) = {#r#}" "loop_requests (ClearingNext r) = {#r#}"
  by (simp_all add: loop_requests_def)

definition outstanding :: "heartbeatSys \<Rightarrow> tailHeartbeatPersistRequest multiset" where
  "outstanding s = hs_sending s + hs_clearing s + mset (hs_chan s) + loop_requests (hs_loop s)"

definition requests_of :: "string \<Rightarrow> heartbeatSys \<Rightarrow> tailHeartbeatPersistRequest multiset" where
  "requests_of sid s = filter_mset (\<lambda>r. req_sourceID r = sid) (outstanding s)"

definition queued_request :: "heartbeats \<Rightarrow> string \<Rightarrow> tailHeartbeatPersistRequest multiset" where
  "queued_request m sid = (let q = queuedUS (heartbeat_of m sid) in
     if q = 0 then {#} else {#\<lparr>req_sourceID = sid, req_atUS = q\<rparr>#})"

definition heartbeat_inv :: "nat \<Rightarrow> heartbeatSys \<Rightarrow> bool" where
  "heartbeat_inv n s \<longleftrightarrow> (\<forall>sid. requests_of sid s = queued_request (hs_beats s) sid) \<and>
     (\<forall>sid. queuedUS (heartbeat_of (hs_beats s) sid) \<noteq> 0 \<longrightarrow> lastUS (heartbeat_of (hs_beats s) sid) \<noteq> 0) \<and>
     length (hs_chan s) \<le> hs_cap s \<and> hs_cap s = n"

text \<open>The heartbeats after a critical section.\<close>

lemma heartbeat_of_upd [simp]: "heartbeat_of (m(sid \<mapsto> st)) s = (if s = sid then st else heartbeat_of m s)"
  by (simp add: heartbeat_of_def)

lemma clear_queued:
  "queuedUS (heartbeat_of (clearQueuedTailHeartbeat sid at m) s) =
     (if s = sid \<and> queuedUS (heartbeat_of m s) = at then 0 else queuedUS (heartbeat_of m s))"
  by (auto simp: clearQueuedTailHeartbeat_def Let_def)

lemma clear_last [simp]:
  "lastUS (heartbeat_of (clearQueuedTailHeartbeat sid at m) s) = lastUS (heartbeat_of m s)"
  by (simp add: clearQueuedTailHeartbeat_def Let_def)

lemma finish_last:
  "finishTailHeartbeatPersist every sid at c m = (m', n) \<Longrightarrow> lastUS (heartbeat_of m' s) = lastUS (heartbeat_of m s)"
  by (auto simp: finishTailHeartbeatPersist_def Let_def split: if_splits)

lemma finish_other:
  "finishTailHeartbeatPersist every sid at c m = (m', n) \<Longrightarrow> s \<noteq> sid \<Longrightarrow> heartbeat_of m' s = heartbeat_of m s"
  by (auto simp: finishTailHeartbeatPersist_def Let_def split: if_splits)

lemma finish_queued:
  assumes "finishTailHeartbeatPersist every sid at c m = (m', n)" and "queuedUS (heartbeat_of m sid) = at"
    and "lastUS (heartbeat_of m sid) \<noteq> 0"
  shows "queued_request m' sid = (case n of Some r \<Rightarrow> {#r#} | None \<Rightarrow> {#})"
    and "n = Some r \<Longrightarrow> req_sourceID r = sid \<and> req_atUS r = lastUS (heartbeat_of m sid) \<and>
      sint at < sint (lastUS (heartbeat_of m sid))"
  using assms
  by (auto simp: finishTailHeartbeatPersist_def queued_request_def Let_def split: if_splits)

lemma record_beat:
  assumes "RecordTailHeartbeat every sid at m = (m', n)" and "at \<noteq> 0"
  shows "s \<noteq> sid \<Longrightarrow> heartbeat_of m' s = heartbeat_of m s"
    and "queued_request m' sid = queued_request m sid + (case n of Some r \<Rightarrow> {#r#} | None \<Rightarrow> {#})"
    and "n = Some r \<Longrightarrow> req_sourceID r = sid"
    and "queuedUS (heartbeat_of m' s) \<noteq> 0 \<Longrightarrow> (queuedUS (heartbeat_of m s) \<noteq> 0 \<longrightarrow> lastUS (heartbeat_of m s) \<noteq> 0) \<Longrightarrow>
      lastUS (heartbeat_of m' s) \<noteq> 0"
  using assms by (auto simp: RecordTailHeartbeat_def queued_request_def Let_def split: if_splits)

lemma queued_request_other: "heartbeat_of m' s = heartbeat_of m s \<Longrightarrow> queued_request m' s = queued_request m s"
  by (simp add: queued_request_def)

text \<open>In a state of the invariant, the heartbeat of an outstanding request is the queued one.\<close>

lemma outstanding_queued:
  assumes "heartbeat_inv n s" and "r \<in># outstanding s"
  shows "queuedUS (heartbeat_of (hs_beats s) (req_sourceID r)) = req_atUS r" and "req_atUS r \<noteq> 0"
    and "requests_of (req_sourceID r) s = {#r#}" and "lastUS (heartbeat_of (hs_beats s) (req_sourceID r)) \<noteq> 0"
proof -
  let ?q = "queuedUS (heartbeat_of (hs_beats s) (req_sourceID r))"
  have i: "requests_of (req_sourceID r) s = queued_request (hs_beats s) (req_sourceID r)"
    and l: "?q \<noteq> 0 \<longrightarrow> lastUS (heartbeat_of (hs_beats s) (req_sourceID r)) \<noteq> 0"
    using assms(1) by (simp_all add: heartbeat_inv_def)
  have "r \<in># requests_of (req_sourceID r) s" using assms(2) by (simp add: requests_of_def)
  then have r: "r = \<lparr>req_sourceID = req_sourceID r, req_atUS = ?q\<rparr>" "?q \<noteq> 0"
    unfolding i by (simp_all add: queued_request_def Let_def split: if_splits)
  then show "?q = req_atUS r" by (metis tailHeartbeatPersistRequest.select_convs(2))
  then show "req_atUS r \<noteq> 0" using r(2) by simp
  show "requests_of (req_sourceID r) s = {#r#}" unfolding i using r by (simp add: queued_request_def Let_def)
  show "lastUS (heartbeat_of (hs_beats s) (req_sourceID r)) \<noteq> 0" using l r(2) by blast
qed

text \<open>Steps that keep the heartbeats only move requests.\<close>

lemma inv_move:
  "heartbeat_inv n s \<Longrightarrow> hs_beats s' = hs_beats s \<Longrightarrow> outstanding s' = outstanding s \<Longrightarrow>
     length (hs_chan s') \<le> hs_cap s' \<Longrightarrow> hs_cap s' = hs_cap s \<Longrightarrow> heartbeat_inv n s'"
  by (simp add: heartbeat_inv_def requests_of_def)

text \<open>Steps that remove the request \<open>r\<close>, clear it in the heartbeats, and may add the next one.\<close>

lemma inv_replace:
  assumes inv: "heartbeat_inv n s" and out: "outstanding s = add_mset r M"
    and out': "outstanding s' = M + N"
    and other: "\<And>x. x \<noteq> req_sourceID r \<Longrightarrow> heartbeat_of (hs_beats s') x = heartbeat_of (hs_beats s) x"
    and last: "lastUS (heartbeat_of (hs_beats s') (req_sourceID r)) = lastUS (heartbeat_of (hs_beats s) (req_sourceID r))"
    and own: "queued_request (hs_beats s') (req_sourceID r) = N"
    and N: "\<And>x. x \<in># N \<Longrightarrow> req_sourceID x = req_sourceID r"
    and cap: "length (hs_chan s') \<le> hs_cap s'" "hs_cap s' = hs_cap s"
  shows "heartbeat_inv n s'"
proof -
  note o = outstanding_queued [OF inv, of r] 
  have r: "r \<in># outstanding s" by (simp add: out)
  have M: "filter_mset (\<lambda>x. req_sourceID x = req_sourceID r) M = {#}"
    using o(3) [OF r] by (simp add: requests_of_def out)
  have "requests_of sid s' = queued_request (hs_beats s') sid" for sid
  proof (cases "sid = req_sourceID r")
    case True
    have "filter_mset (\<lambda>x. req_sourceID x = req_sourceID r) N = N"
      using N by (simp add: filter_mset_eq_conv)
    then show ?thesis using M own by (simp add: True requests_of_def out')
  next
    case False
    then have "filter_mset (\<lambda>x. req_sourceID x = sid) N = {#}" using N by (auto simp: filter_mset_eq_conv)
    moreover have "requests_of sid s = queued_request (hs_beats s) sid" using inv by (simp add: heartbeat_inv_def)
    moreover have "queued_request (hs_beats s') sid = queued_request (hs_beats s) sid"
      using queued_request_other [OF other [OF False]] .
    ultimately show ?thesis using False by (simp add: requests_of_def out out')
  qed
  moreover have "lastUS (heartbeat_of (hs_beats s') sid) \<noteq> 0" if "queuedUS (heartbeat_of (hs_beats s') sid) \<noteq> 0" for sid
  proof (cases "sid = req_sourceID r")
    case True
    then show ?thesis using o(4) [OF r] last by simp
  next
    case False
    then show ?thesis using inv that other by (simp add: heartbeat_inv_def)
  qed
  ultimately show ?thesis using inv cap by (simp add: heartbeat_inv_def)
qed

lemma queued_cleared:
  "queuedUS (heartbeat_of m sid) = at \<Longrightarrow> queued_request (clearQueuedTailHeartbeat sid at m) sid = {#}"
  by (simp add: queued_request_def clear_queued)

lemma clear_other: "x \<noteq> sid \<Longrightarrow> heartbeat_of (clearQueuedTailHeartbeat sid at m) x = heartbeat_of m x"
  by (simp add: clearQueuedTailHeartbeat_def Let_def)

lemma enqueue_Some:
  "enqueueTailHeartbeatPersist r s = Some s' \<Longrightarrow> s' = s\<lparr>hs_chan := hs_chan s @ [r]\<rparr> \<and> length (hs_chan s) < hs_cap s"
  by (simp add: enqueueTailHeartbeatPersist_def split: if_splits)

lemma persist_step_inv:
  assumes "persist_step every s s'" and inv: "heartbeat_inv n s"
  shows "heartbeat_inv n s'"
proof -
  have cap: "length (hs_chan s) \<le> hs_cap s" using inv by (simp add: heartbeat_inv_def)
  show ?thesis
    using assms(1)
  proof cases
    case (send r rest s1)
    then show ?thesis using enqueue_Some [OF send(3)] cap by (intro inv_move [OF inv]) (auto simp: outstanding_def)
  next
    case (full r rest)
    then show ?thesis using cap by (intro inv_move [OF inv]) (auto simp: outstanding_def)
  next
    case (clear r rest)
    have o: "outstanding s = add_mset r (hs_sending s + rest + mset (hs_chan s) + loop_requests (hs_loop s))"
      using clear by (simp add: outstanding_def)
    show ?thesis
      using clear cap outstanding_queued(1) [OF inv, of r] o
      by (intro inv_replace [OF inv o, where N = "{#}"]) (auto simp: outstanding_def clear_other queued_cleared)
  next
    case (receive r rest)
    then show ?thesis using cap by (intro inv_move [OF inv]) (auto simp: outstanding_def)
  next
    case (finish r c m n')
    have o: "outstanding s = add_mset r (hs_sending s + hs_clearing s + mset (hs_chan s))"
      using finish by (simp add: outstanding_def)
    have r: "r \<in># outstanding s" by (simp add: o)
    note f = finish_queued [OF finish(3) outstanding_queued(1,4) [OF inv r]]
    have s': "hs_beats s' = m" "loop_requests (hs_loop s') = (case n' of Some n \<Rightarrow> {#n#} | None \<Rightarrow> {#})"
      "outstanding s' = (hs_sending s + hs_clearing s + mset (hs_chan s)) + loop_requests (hs_loop s')"
      "hs_chan s' = hs_chan s" "hs_cap s' = hs_cap s"
      using finish(1) by (simp_all add: outstanding_def split: option.split)
    show ?thesis
    proof (rule inv_replace [OF inv o s'(3)])
      show "heartbeat_of (hs_beats s') x = heartbeat_of (hs_beats s) x" if "x \<noteq> req_sourceID r" for x
        unfolding s'(1) using finish_other [OF finish(3) that] .
      show "lastUS (heartbeat_of (hs_beats s') (req_sourceID r)) = lastUS (heartbeat_of (hs_beats s) (req_sourceID r))"
        unfolding s'(1) using finish_last [OF finish(3)] .
      show "queued_request (hs_beats s') (req_sourceID r) = loop_requests (hs_loop s')"
        unfolding s'(1,2) using f(1) .
      show "req_sourceID x = req_sourceID r" if "x \<in># loop_requests (hs_loop s')" for x
        using that f(2) unfolding s'(2) by (auto split: option.splits)
    qed (use cap in \<open>simp_all add: s'\<close>)
  next
    case (send_next r s1)
    then show ?thesis using enqueue_Some [OF send_next(3)] cap by (intro inv_move [OF inv]) (auto simp: outstanding_def)
  next
    case (full_next r)
    then show ?thesis using cap by (intro inv_move [OF inv]) (auto simp: outstanding_def)
  next
    case (clear_next r)
    have o: "outstanding s = add_mset r (hs_sending s + hs_clearing s + mset (hs_chan s))"
      using clear_next by (simp add: outstanding_def)
    show ?thesis
      using clear_next cap outstanding_queued(1) [OF inv, of r] o
      by (intro inv_replace [OF inv o, where N = "{#}"]) (auto simp: outstanding_def clear_other queued_cleared)
  qed
qed

lemma heartbeat_step_inv:
  assumes "heartbeat_step every s s'" and inv: "heartbeat_inv n s"
  shows "heartbeat_inv n s'"
  using assms(1)
proof cases
  case (beat at sid m req)
  note b = record_beat [OF beat(3,2)]
  have "requests_of x s' = queued_request m x" for x
  proof -
    have "requests_of x s = queued_request (hs_beats s) x" using inv by (simp add: heartbeat_inv_def)
    moreover have "outstanding s' = outstanding s + (case req of Some r \<Rightarrow> {#r#} | None \<Rightarrow> {#})"
      using beat(1) by (simp add: outstanding_def split: option.split)
    ultimately show ?thesis
      using b(1) [of x] b(2,3) queued_request_other [of m x "hs_beats s"]
      by (cases "x = sid") (auto simp: requests_of_def split: option.split)
  qed
  then show ?thesis using inv beat(1) b(4) by (simp add: heartbeat_inv_def)
next
  case persist
  then show ?thesis using persist_step_inv inv by blast
next
  case stop
  then show ?thesis using inv by (intro inv_move [OF inv]) (auto simp: outstanding_def heartbeat_inv_def)
qed

lemma heartbeat_reach_inv: "heartbeat_reach every n s \<Longrightarrow> heartbeat_inv n s"
proof (induction rule: heartbeat_reach.induct)
  case init
  show ?case
    by (simp add: heartbeat_init_def heartbeat_inv_def requests_of_def outstanding_def queued_request_def
        heartbeat_of_def zero_heartbeat_def)
next
  case (step s s')
  then show ?case using heartbeat_step_inv by blast
qed

text \<open>
  C21. However adapters, the persistence loop and failed or successful writes interleave, a
  source never has more than one outstanding persistence request, counting those on their way
  to the channel, in it, being written and being dropped; it has one exactly when its
  heartbeat is marked as queued, and it is the queued one. A mark therefore never outlives its
  request, which would silence the source for good.
\<close>

theorem one_request_per_source:
  assumes "heartbeat_reach every n s"
  shows "requests_of sid s = queued_request (hs_beats s) sid \<and> length (hs_chan s) \<le> n"
  using heartbeat_reach_inv [OF assms] by (simp add: heartbeat_inv_def)

text \<open>A heartbeat that is queued, one that finds it queued, and the request in the channel.\<close>

lemma demo_heartbeats:
  "heartbeat_reach 5 1 \<lparr>hs_beats = [''a'' \<mapsto> \<lparr>lastUS = 3, queuedUS = 2, persistedUS = 0\<rparr>], hs_sending = {#},
     hs_clearing = {#}, hs_chan = [\<lparr>req_sourceID = ''a'', req_atUS = 2\<rparr>], hs_cap = 1, hs_loop = AtSelect\<rparr>"
proof -
  let ?r = "\<lparr>req_sourceID = ''a'', req_atUS = 2\<rparr>"
  let ?m = "[''a'' \<mapsto> \<lparr>lastUS = 2, queuedUS = 2, persistedUS = 0\<rparr>]"
  have 0: "heartbeat_reach 5 1 (heartbeat_init 1)" by (rule init)
  have b: "RecordTailHeartbeat 5 ''a'' 2 Map.empty = (?m, Some ?r)"
    by (simp add: RecordTailHeartbeat_def heartbeat_of_def zero_heartbeat_def)
  have 1: "heartbeat_reach 5 1 ((heartbeat_init 1)\<lparr>hs_beats := ?m, hs_sending := {#?r#}\<rparr>)"
    using heartbeat_reach.step [OF 0 heartbeat_step.beat [where at = 2 and sid = "''a''" and m = ?m and req = "Some ?r"]] b
    by (simp add: heartbeat_init_def)
  have "persist_step 5 ((heartbeat_init 1)\<lparr>hs_beats := ?m, hs_sending := {#?r#}\<rparr>)
      ((heartbeat_init 1)\<lparr>hs_beats := ?m, hs_sending := {#?r#}, hs_chan := [?r], hs_sending := {#}\<rparr>)"
    by (rule persist_step.send) (simp_all add: enqueueTailHeartbeatPersist_def heartbeat_init_def)
  then have 2: "heartbeat_reach 5 1 ((heartbeat_init 1)\<lparr>hs_beats := ?m, hs_chan := [?r]\<rparr>)"
    using heartbeat_reach.step [OF 1 heartbeat_step.persist] by (simp add: heartbeat_init_def)
  have b2: "RecordTailHeartbeat 5 ''a'' 3 ?m = (?m(''a'' \<mapsto> \<lparr>lastUS = 3, queuedUS = 2, persistedUS = 0\<rparr>), None)"
    by (simp add: RecordTailHeartbeat_def heartbeat_of_def)
  show ?thesis
    using heartbeat_reach.step [OF 2 heartbeat_step.beat [where at = 3 and sid = "''a''" and req = None
          and m = "?m(''a'' \<mapsto> \<lparr>lastUS = 3, queuedUS = 2, persistedUS = 0\<rparr>)"]] b2
    by (simp add: heartbeat_init_def)
qed

lemma one_request_per_source_witness:
  "\<exists>s. heartbeat_reach 5 1 s \<and> requests_of ''a'' s = {#\<lparr>req_sourceID = ''a'', req_atUS = 2\<rparr>#} \<and> requests_of ''b'' s = {#}"
  using demo_heartbeats one_request_per_source [OF demo_heartbeats, of "''a''"] one_request_per_source [OF demo_heartbeats, of "''b''"]
  by (intro exI conjI) (assumption, simp_all add: queued_request_def heartbeat_of_def zero_heartbeat_def)

section \<open>Coming to rest\<close>

text \<open>
  The work left: each request by how far it is from being settled, plus the request that may
  follow it when its source has had a later heartbeat.
\<close>

definition behind :: "heartbeats \<Rightarrow> tailHeartbeatPersistRequest \<Rightarrow> nat" where
  "behind m r = (if sint (req_atUS r) < sint (lastUS (heartbeat_of m (req_sourceID r))) then 6 else 0)"

definition loop_work :: "heartbeats \<Rightarrow> persistLoop \<Rightarrow> nat" where
  "loop_work m l = (case l of Persisting r \<Rightarrow> 2 + behind m r | SendingNext r \<Rightarrow> 4 + behind m r | ClearingNext r \<Rightarrow> 1 | _ \<Rightarrow> 0)"

definition work :: "heartbeatSys \<Rightarrow> nat" where
  "work s = (\<Sum>r \<in># hs_sending s. 4 + behind (hs_beats s) r) + size (hs_clearing s) +
     (\<Sum>r \<in># mset (hs_chan s). 3 + behind (hs_beats s) r) + loop_work (hs_beats s) (hs_loop s)"

lemma behind_last: "(\<And>x. lastUS (heartbeat_of m' x) = lastUS (heartbeat_of m x)) \<Longrightarrow> behind m' = behind m"
  by (simp add: behind_def fun_eq_iff)

lemma behind_clear [simp]: "behind (clearQueuedTailHeartbeat sid at m) = behind m"
  by (rule behind_last) simp

lemma persist_step_work:
  assumes "persist_step every s s'" and inv: "heartbeat_inv n s"
  shows "work s' < work s"
  using assms(1)
proof cases
  case (send r rest s1)
  then show ?thesis using enqueue_Some [OF send(3)] by (simp add: work_def)
next
  case (full r rest)
  then show ?thesis by (simp add: work_def)
next
  case (clear r rest)
  then show ?thesis by (simp add: work_def loop_work_def split: persistLoop.split)
next
  case (receive r rest)
  then show ?thesis by (simp add: work_def loop_work_def)
next
  case (finish r c m next_req)
  have r: "r \<in># outstanding s" using finish by (simp add: outstanding_def)
  note f = finish_queued(2) [OF finish(3) outstanding_queued(1,4) [OF inv r]]
  have b: "behind m = behind (hs_beats s)" using finish_last [OF finish(3)] by (rule behind_last)
  show ?thesis
  proof (cases next_req)
    case None
    then show ?thesis using finish(1,2) b by (simp add: work_def loop_work_def)
  next
    case (Some nr)
    then have "behind (hs_beats s) r = 6" "behind (hs_beats s) nr = 0" using f [of nr] by (simp_all add: behind_def)
    then show ?thesis using Some finish(1,2) b by (simp add: work_def loop_work_def)
  qed
next
  case (send_next r s1)
  then show ?thesis using enqueue_Some [OF send_next(3)] by (simp add: work_def loop_work_def)
next
  case (full_next r)
  then show ?thesis by (simp add: work_def loop_work_def)
next
  case (clear_next r)
  then show ?thesis by (simp add: work_def loop_work_def)
qed

lemma persist_run_work:
  assumes "persist_run every k s s'" and "heartbeat_inv n s"
  shows "k + work s' \<le> work s \<and> heartbeat_inv n s'"
  using assms
proof (induction k s s' rule: persist_run.induct)
  case (none s)
  then show ?case by simp
next
  case (more s s1 k s2)
  then show ?case using persist_step_work [OF more(1)] persist_step_inv [OF more(1)] by fastforce
qed

lemma persist_stuck:
  assumes stuck: "\<And>s'. \<not> persist_step every s s'" and loop: "hs_loop s \<noteq> LoopDone"
  shows "outstanding s = {#}"
proof -
  have "hs_sending s = {#}"
  proof (rule ccontr)
    assume "hs_sending s \<noteq> {#}"
    then obtain r rest where "hs_sending s = add_mset r rest" by (meson multiset_nonemptyE mset_add)
    then show False using stuck persist_step.send persist_step.full by (cases "enqueueTailHeartbeatPersist r s") blast+
  qed
  moreover have "hs_clearing s = {#}"
  proof (rule ccontr)
    assume "hs_clearing s \<noteq> {#}"
    then obtain r rest where "hs_clearing s = add_mset r rest" by (meson multiset_nonemptyE mset_add)
    then show False using stuck persist_step.clear by blast
  qed
  moreover have "hs_loop s = AtSelect"
  proof (cases "hs_loop s")
    case (Persisting r)
    obtain m nr where "finishTailHeartbeatPersist every (req_sourceID r) (req_atUS r) False (hs_beats s) = (m, nr)"
      by (cases "finishTailHeartbeatPersist every (req_sourceID r) (req_atUS r) False (hs_beats s)")
    then show ?thesis using stuck persist_step.finish Persisting by blast
  next
    case (SendingNext r)
    then show ?thesis
      using stuck persist_step.send_next persist_step.full_next by (cases "enqueueTailHeartbeatPersist r s") blast+
  next
    case (ClearingNext r)
    then show ?thesis using stuck persist_step.clear_next by blast
  qed (use loop in simp_all)
  moreover from this have "hs_chan s = []"
    using stuck persist_step.receive by (cases "hs_chan s") blast+
  ultimately show ?thesis by (simp add: outstanding_def)
qed

lemma persist_stuck_done:
  assumes stuck: "\<And>s'. \<not> persist_step every s s'" and loop: "hs_loop s = LoopDone"
  shows "outstanding s = mset (hs_chan s)"
proof -
  have "hs_sending s = {#}"
  proof (rule ccontr)
    assume "hs_sending s \<noteq> {#}"
    then obtain r rest where "hs_sending s = add_mset r rest" by (meson multiset_nonemptyE mset_add)
    then show False using stuck persist_step.send persist_step.full by (cases "enqueueTailHeartbeatPersist r s") blast+
  qed
  moreover have "hs_clearing s = {#}"
  proof (rule ccontr)
    assume "hs_clearing s \<noteq> {#}"
    then obtain r rest where "hs_clearing s = add_mset r rest" by (meson multiset_nonemptyE mset_add)
    then show False using stuck persist_step.clear by blast
  qed
  ultimately show ?thesis using loop by (simp add: outstanding_def)
qed

lemma persist_rests:
  assumes "heartbeat_inv n s"
  shows "\<exists>k s'. persist_run every k s s' \<and> (\<forall>t. \<not> persist_step every s' t)"
  using assms
proof (induction "work s" arbitrary: s rule: less_induct)
  case less
  show ?case
  proof (cases "\<exists>t. persist_step every s t")
    case True
    then obtain t where t: "persist_step every s t" by blast
    from less.hyps [OF persist_step_work [OF t less.prems] persist_step_inv [OF t less.prems]]
    show ?thesis using persist_run.more [OF t] by blast
  next
    case False
    then show ?thesis using persist_run.none by blast
  qed
qed

text \<open>
  C22. Without new heartbeats the protocol comes to rest: from any reachable state some run of the
  goroutines and of the loop ends where no step is possible, and no run has more than \<open>work s\<close>
  steps, whatever the writes do and however the goroutines are scheduled. At rest nothing is
  outstanding if the loop is running; if it has been told to stop, what is outstanding is what it
  left in the channel. A source is marked as queued exactly when its request is left there.
\<close>

theorem heartbeats_settle:
  assumes "heartbeat_reach every n s"
  shows "(\<exists>k s'. persist_run every k s s' \<and> (\<forall>t. \<not> persist_step every s' t)) \<and>
    (\<forall>k s'. persist_run every k s s' \<longrightarrow> k \<le> work s \<and>
      ((\<forall>t. \<not> persist_step every s' t) \<longrightarrow>
         outstanding s' = (if hs_loop s' = LoopDone then mset (hs_chan s') else {#}) \<and>
         (queuedUS (heartbeat_of (hs_beats s') sid) \<noteq> 0 \<longleftrightarrow>
            hs_loop s' = LoopDone \<and> sid \<in> req_sourceID ` set (hs_chan s'))))"
proof (intro conjI allI impI)
  show "\<exists>k s'. persist_run every k s s' \<and> (\<forall>t. \<not> persist_step every s' t)"
    by (rule persist_rests [OF heartbeat_reach_inv [OF assms]])
  fix k s' assume run: "persist_run every k s s'"
  note r = persist_run_work [OF run heartbeat_reach_inv [OF assms]]
  show "k \<le> work s" using r by simp
  assume stuck: "\<forall>t. \<not> persist_step every s' t"
  show out: "outstanding s' = (if hs_loop s' = LoopDone then mset (hs_chan s') else {#})"
    using stuck persist_stuck [of every s'] persist_stuck_done [of every s'] by auto
  have "queued_request (hs_beats s') sid = filter_mset (\<lambda>x. req_sourceID x = sid) (outstanding s')"
    using r by (simp add: heartbeat_inv_def requests_of_def)
  moreover have "queuedUS (heartbeat_of (hs_beats s') sid) \<noteq> 0 \<longleftrightarrow> queued_request (hs_beats s') sid \<noteq> {#}"
    by (simp add: queued_request_def Let_def)
  ultimately show "queuedUS (heartbeat_of (hs_beats s') sid) \<noteq> 0 \<longleftrightarrow>
      hs_loop s' = LoopDone \<and> sid \<in> req_sourceID ` set (hs_chan s')"
    unfolding out by (auto simp: filter_mset_eq_conv)
qed

text \<open>A run to rest: the loop receives the request and its write is committed.\<close>

lemma heartbeats_settle_witness:
  "\<exists>s s'. heartbeat_reach 5 1 s \<and> work s = 9 \<and> persist_run 5 2 s s' \<and> outstanding s \<noteq> {#} \<and> outstanding s' = {#} \<and>
     queuedUS (heartbeat_of (hs_beats s) ''a'') = 2 \<and> queuedUS (heartbeat_of (hs_beats s') ''a'') = 0"
proof -
  let ?r = "\<lparr>req_sourceID = ''a'', req_atUS = 2\<rparr>"
  let ?s = "\<lparr>hs_beats = [''a'' \<mapsto> \<lparr>lastUS = 3, queuedUS = 2, persistedUS = 0\<rparr>], hs_sending = {#},
     hs_clearing = {#}, hs_chan = [?r], hs_cap = 1, hs_loop = AtSelect\<rparr>"
  let ?s1 = "?s\<lparr>hs_chan := [], hs_loop := Persisting ?r\<rparr>"
  let ?m = "[''a'' \<mapsto> \<lparr>lastUS = 3, queuedUS = 0, persistedUS = 2\<rparr>]"
  let ?s2 = "?s1\<lparr>hs_beats := ?m, hs_loop := AtSelect\<rparr>"
  have step1: "persist_step 5 ?s ?s1" by (rule persist_step.receive) simp_all
  have "finishTailHeartbeatPersist 5 ''a'' 2 True (hs_beats ?s1) = (?m, None)"
    by (simp add: finishTailHeartbeatPersist_def heartbeat_of_def Let_def)
  then have step2: "persist_step 5 ?s1 ?s2"
    using persist_step.finish [of ?s1 ?r 5 True ?m None] by simp
  have run: "persist_run 5 2 ?s ?s2"
    using persist_run.more [OF step1 persist_run.more [OF step2 persist_run.none]] by (simp only: numeral_2_eq_2)
  have stuck: "\<not> persist_step 5 ?s2 t" for t
    by (auto elim: persist_step.cases)
  have "work ?s = 9" by (simp add: work_def behind_def heartbeat_of_def loop_work_def)
  moreover have "outstanding ?s2 = {#}" "queuedUS (heartbeat_of (hs_beats ?s2) ''a'') = 0"
    using mp [OF spec [OF spec [OF conjunct2 [OF heartbeats_settle [OF demo_heartbeats, of "''a''"]]]] run] stuck
    by (simp_all only: simp_thms) simp_all
  moreover have "outstanding ?s \<noteq> {#}" "queuedUS (heartbeat_of (hs_beats ?s) ''a'') = 2"
    by (simp_all add: outstanding_def heartbeat_of_def)
  ultimately show ?thesis using demo_heartbeats run by blast
qed

section \<open>The watchdog\<close>

lemma stale_tx_effect:
  assumes "stale_tx sid now (b, db) = Some (b', db')"
  shows "db' = (case map_of (t_progress db) sid of
      Some row \<Rightarrow> if sp_lifecycle_state row = SourceLifecycleTailing
        then db\<lparr>t_progress := alist_put sid (row\<lparr>sp_lifecycle_state := SourceLifecycleTailStale,
          sp_lifecycle_state_at := now, sp_lifecycle_error := Some tail_stale_text\<rparr>) (t_progress db),
          t_notify := t_notify db @ [(now, sid)]\<rparr> else db
    | None \<Rightarrow> db)"
  using assms
  by (auto simp: stale_tx_def sql_update_def insertSourceStatusNotify_def Let_def bind_eq_Some_conv
      split: option.splits if_splits)

definition gone_stale :: "i64 \<Rightarrow> string set \<Rightarrow> (string \<rightharpoonup> progressRow) \<Rightarrow> string \<rightharpoonup> progressRow" where
  "gone_stale now S m sid = (if sid \<in> S then map_option (\<lambda>row. row\<lparr>sp_lifecycle_state := SourceLifecycleTailStale,
     sp_lifecycle_state_at := now, sp_lifecycle_error := Some tail_stale_text\<rparr>) (m sid) else m sid)"

lemma mark_all_stale_effect:
  assumes "mark_all_stale sids now rc (b, db) = (None, rc', b', db')"
    and "distinct sids"
    and "list_all (\<lambda>sid. \<exists>row. map_of (t_progress db) sid = Some row \<and> sp_lifecycle_state row = SourceLifecycleTailing) sids"
  shows "map_of (t_progress db') = gone_stale now (set sids) (map_of (t_progress db)) \<and>
    t_sources db' = t_sources db \<and> t_notify db' = t_notify db @ map (\<lambda>sid. (now, sid)) sids \<and>
    rc' = fold enqueueTailRestart sids rc"
  using assms
proof (induction sids arbitrary: rc b db)
  case Nil
  then show ?case by (simp add: gone_stale_def fun_eq_iff)
next
  case (Cons sid rest)
  obtain row where row: "map_of (t_progress db) sid = Some row" "sp_lifecycle_state row = SourceLifecycleTailing"
    using Cons.prems(3) by auto
  obtain b1 db1 where tx: "stale_tx sid now (b, db) = Some (b1, db1)"
    and run: "mark_all_stale rest now (enqueueTailRestart sid rc) (b1, db1) = (None, rc', b', db')"
    using Cons.prems(1) by (auto simp: markTailStale_def split: option.splits)
  define row' where "row' = row\<lparr>sp_lifecycle_state := SourceLifecycleTailStale, sp_lifecycle_state_at := now,
    sp_lifecycle_error := Some tail_stale_text\<rparr>"
  have db1: "db1 = db\<lparr>t_progress := alist_put sid row' (t_progress db), t_notify := t_notify db @ [(now, sid)]\<rparr>"
    using stale_tx_effect [OF tx] row by (simp add: row'_def)
  have new: "sid \<notin> set rest" using Cons.prems(2) by simp
  have "list_all (\<lambda>s. \<exists>row. map_of (t_progress db1) s = Some row \<and> sp_lifecycle_state row = SourceLifecycleTailing) rest"
    using Cons.prems(3) new by (auto simp: db1 list_all_iff)
  note ih = Cons.IH [OF run _ this]
  have "gone_stale now (set rest) (map_of (t_progress db1)) = gone_stale now (set (sid # rest)) (map_of (t_progress db))"
    using new row by (auto simp: gone_stale_def db1 row'_def fun_eq_iff)
  then show ?case using ih Cons.prems(2) by (simp add: db1 fun_upd_def)
qed

text \<open>
  The specification of staleness, in whole microseconds. The latest sign of life of a tail is the
  later of what the table says (its heartbeat, without one its start, without that the change to
  its state) and of what is in memory.
\<close>

definition last_sign :: "heartbeats \<Rightarrow> string \<Rightarrow> progressRow \<Rightarrow> int" where
  "last_sign m sid row =
     (let stored = (case sp_tail_heartbeat_at row of
            Some t \<Rightarrow> sint t
          | None \<Rightarrow> (case sp_tail_started_at row of
              Some t \<Rightarrow> sint t
            | None \<Rightarrow> sint (sp_lifecycle_state_at row)))
      in case m sid of None \<Rightarrow> stored | Some st \<Rightarrow> max stored (sint (lastUS st)))"

definition silent_tail :: "i64 \<Rightarrow> i64 \<Rightarrow> heartbeats \<Rightarrow> string \<Rightarrow> progressRow \<Rightarrow> bool" where
  "silent_tail now limit m sid row \<longleftrightarrow> sp_lifecycle_state row = SourceLifecycleTailing \<and>
     (last_sign m sid row \<le> 0 \<or> sint limit < sint now - last_sign m sid row)"

lemma last_sign_code: "sint (liveTailHeartbeat sid (persisted_last row) m) = last_sign m sid row"
  by (auto simp: liveTailHeartbeat_def persisted_last_def last_sign_def coalesce_def Let_def split: option.splits)

lemma is_stale_silent:
  assumes "0 \<le> sint now"
  shows "sp_lifecycle_state row = SourceLifecycleTailing \<and> is_stale now limit m sid row \<longleftrightarrow> silent_tail now limit m sid row"
proof -
  let ?last = "liveTailHeartbeat sid (persisted_last row) m"
  have "sint (now - ?last) = sint now - sint ?last" if "0 < sint ?last"
  proof -
    have "now - ?last = word_of_int (sint now - sint ?last)" by (simp flip: wi_hom_sub)
    then show ?thesis
      using that assms sint_bounds64 [of now] sint_bounds64 [of ?last] sint_word_of_int_64 [of "sint now - sint ?last"] by simp
  qed
  then show ?thesis by (auto simp: is_stale_def silent_tail_def last_sign_code Let_def)
qed

lemma stale_sources_silent:
  assumes "0 \<le> sint now"
  shows "stale_sources now limit m db = map fst (filter (\<lambda>(sid, row). silent_tail now limit m sid row) (t_progress db))"
proof -
  have "(\<lambda>(sid, row). sp_lifecycle_state row = SourceLifecycleTailing \<and> is_stale now limit m sid row) =
      (\<lambda>(sid, row). silent_tail now limit m sid row)"
    using is_stale_silent [OF assms] by blast
  then show ?thesis by (simp only: stale_sources_def)
qed

text \<open>
  C23. A completed watchdog check marks exactly the sources that are tailing and whose latest sign
  of life, in the table or in memory, is missing (not after 1970) or more than the limit ago; it
  announces each once and asks its supervisor for a restart, in the order of the table; every
  other row and the registrations stay as they are. The clock is not before 1970, so that the
  age of a sign of life does not overflow.
\<close>

theorem watchdog_marks_stale:
  assumes "distinct (map fst (t_progress db))" and "0 \<le> sint now"
    and "checkTailStaleness now limit m rc (b, db) = (None, rc', b', db')"
    and "silent = map fst (filter (\<lambda>(sid, row). silent_tail now limit m sid row) (t_progress db))"
  shows "map_of (t_progress db') = gone_stale now (set silent) (map_of (t_progress db)) \<and>
    t_sources db' = t_sources db \<and>
    t_notify db' = t_notify db @ map (\<lambda>sid. (now, sid)) silent \<and>
    rc' = fold enqueueTailRestart silent rc"
proof -
  note silent = stale_sources_silent [OF assms(2), of limit m db, folded assms(4)]
  obtain b0 where run: "mark_all_stale silent now rc (b0, db) = (None, rc', b', db')"
    using assms(3) by (auto simp: checkTailStaleness_def silent split: option.splits)
  have tailing: "list_all (\<lambda>sid. \<exists>row. map_of (t_progress db) sid = Some row \<and>
      sp_lifecycle_state row = SourceLifecycleTailing) silent"
    using assms(1) by (force simp: assms(4) silent_tail_def list_all_iff)
  have dist: "distinct silent" using assms(1) by (simp add: assms(4) distinct_map_filter)
  show ?thesis using mark_all_stale_effect [OF run dist tailing] by simp
qed

text \<open>
  One tail that is alive in memory only, one whose heartbeat is too old, one that is scanning, one
  without any sign of life, one exactly at the limit by its heartbeat and with an older start, one
  with an old start and no heartbeat.
\<close>

definition demo_tails :: lifecycleDB where
  "demo_tails = \<lparr>t_sources = [],
     t_progress = [(''a'', (fresh_progress 1)\<lparr>sp_lifecycle_state := SourceLifecycleTailing, sp_tail_started_at := Some 10\<rparr>),
       (''b'', (fresh_progress 1)\<lparr>sp_lifecycle_state := SourceLifecycleTailing, sp_tail_heartbeat_at := Some 60\<rparr>),
       (''c'', (fresh_progress 1)\<lparr>sp_lifecycle_state := SourceLifecycleScanning\<rparr>),
       (''d'', (fresh_progress 1)\<lparr>sp_lifecycle_state := SourceLifecycleTailing, sp_lifecycle_state_at := 0\<rparr>),
       (''e'', (fresh_progress 1)\<lparr>sp_lifecycle_state := SourceLifecycleTailing, sp_tail_started_at := Some 5,
          sp_tail_heartbeat_at := Some 70\<rparr>),
       (''f'', (fresh_progress 1)\<lparr>sp_lifecycle_state := SourceLifecycleTailing, sp_tail_started_at := Some 20,
          sp_lifecycle_state_at := 90\<rparr>)],
     t_notify = []\<rparr>"

definition demo_restarts :: restartChans where
  "demo_restarts = \<lparr>rc_registered = [''b'' \<mapsto> 0], rc_chans = (\<lambda>_. make_chan 1)\<rparr>"

lemma watchdog_marks_stale_witness:
  "distinct (map fst (t_progress demo_tails)) \<and>
   (case checkTailStaleness 100 30 [''a'' \<mapsto> \<lparr>lastUS = 90, queuedUS = 0, persistedUS = 0\<rparr>] demo_restarts (None, demo_tails) of
      (e, rc', b', db') \<Rightarrow> e = None \<and> length (ch_buf (rc_chans rc' 0)) = 1 \<and>
        t_notify db' = [(100, ''b''), (100, ''d''), (100, ''f'')])"
proof -
  let ?m = "[''a'' \<mapsto> \<lparr>lastUS = 90, queuedUS = 0, persistedUS = 0\<rparr>]"
  have d: "distinct (map fst (t_progress demo_tails))" by code_simp
  obtain e rc' b' db' where r: "checkTailStaleness 100 30 ?m demo_restarts (None, demo_tails) = (e, rc', b', db')"
    by (cases "checkTailStaleness 100 30 ?m demo_restarts (None, demo_tails)")
  have e: "fst (checkTailStaleness 100 30 ?m demo_restarts (None, demo_tails)) = None" by code_simp
  have s: "[''b'', ''d'', ''f''] = map fst (filter (\<lambda>(sid, row). silent_tail 100 30 ?m sid row) (t_progress demo_tails))"
    by code_simp
  have n: "t_notify demo_tails = []" by (simp add: demo_tails_def)
  have q: "length (ch_buf (rc_chans (fold enqueueTailRestart [''b'', ''d'', ''f''] demo_restarts) 0)) = 1"
    by (simp add: enqueueTailRestart_def demo_restarts_def make_chan_def Let_def)
  show ?thesis using watchdog_marks_stale [OF d _ _ s, of demo_restarts None rc' b' db'] r e n q d by simp
qed

end
