(* ===== verification/Supervisor.thy ===== *)
theory Supervisor
  imports Lifecycle
begin

text \<open>
  The supervisor of one source (\<open>cmd/ai-viewer-ingest/source_supervisor.go\<close> and
  \<open>startSourceWithFactoryLookup\<close> of \<open>sources.go\<close>): startup scan, tail, restarts with backoff.

  The environment answers every interaction of the code in turn: a statement, an adapter
  call, a clock or context reading, a timer, a select. A script is the list of its answers;
  each also says whether the context has been cancelled by then. Past the end of the script
  the context is cancelled and every call fails, so that a script is any finite part of an
  execution followed by a shutdown, and every run ends. What the code does is a log of
  events. The ingester is present, as in the daemon; texts of wrapped errors are answers.
\<close>

section \<open>The environment\<close>

record goError =
  e_msg :: rtext
  e_context :: bool
  e_fatal :: bool

text \<open>\<open>e_context\<close>: it is \<open>context.Canceled\<close> or \<open>DeadlineExceeded\<close>; \<open>e_fatal\<close>: a fatal scan error.\<close>

datatype tailEvent = TailReturned "goError option" | RepairRequested | RestartRequested | ContextDone

record answer =
  a_cancel :: bool
  a_ok :: bool
  a_err :: "goError option"
  a_event :: tailEvent
  a_now :: i64

definition shutdown_answer :: answer where
  "shutdown_answer = \<lparr>a_cancel = True, a_ok = False, a_err = Some \<lparr>e_msg = [], e_context = True, e_fatal = False\<rparr>,
     a_event = ContextDone, a_now = 0\<rparr>"

datatype supEvent =
    Recorded SourceLifecycleUpdate
  | Slept int
  | ScanStarted bool
  | ScanDone
  | DeferReadModels bool
  | RepairAsked
  | TailStarted
  | TailEnded
  | TailAbandoned

record supervisor =
  script :: "answer list"
  ctx_done :: bool
  sup_log :: "supEvent list"
  readModelRepairPending :: bool
  consecutiveTailRestarts :: nat
  firstTailRestartAt :: "i64 option"

definition ask :: "supervisor \<Rightarrow> answer \<times> supervisor" where
  "ask s = (case script s of
       [] \<Rightarrow> (shutdown_answer, s\<lparr>ctx_done := True\<rparr>)
     | a # rest \<Rightarrow> (a, s\<lparr>script := rest, ctx_done := ctx_done s \<or> a_cancel a\<rparr>))"

definition emit :: "supEvent \<Rightarrow> supervisor \<Rightarrow> supervisor" where
  "emit e s = s\<lparr>sup_log := sup_log s @ [e]\<rparr>"

definition ctx_err :: "supervisor \<Rightarrow> bool \<times> supervisor" where
  "ctx_err s = (case ask s of (a, s) \<Rightarrow> (ctx_done s, s))"

definition nowMicros :: "supervisor \<Rightarrow> i64 \<times> supervisor" where
  "nowMicros s = (case ask s of (a, s) \<Rightarrow> (a_now a, s))"

section \<open>Backoff and recording\<close>

text \<open>Durations are nanoseconds.\<close>

definition sourceRestartBackoffBase :: int where "sourceRestartBackoffBase = 1000000000"
definition sourceRestartBackoffMax :: int where "sourceRestartBackoffMax = 60 * 1000000000"
definition sourceTailRestartEscalateFailures :: nat where "sourceTailRestartEscalateFailures = 100"
definition sourceTailRestartEscalateAfter :: int where "sourceTailRestartEscalateAfter = 24 * 3600 * 1000000"

definition nextSourceBackoff :: "int \<Rightarrow> int" where
  "nextSourceBackoff current =
     (let next = current * 2 in if sourceRestartBackoffMax < next then sourceRestartBackoffMax else next)"

text \<open>Whether the timer fired; otherwise the context is done.\<close>

definition waitBackoff :: "int \<Rightarrow> supervisor \<Rightarrow> bool \<times> supervisor" where
  "waitBackoff d s = (case ask s of (a, s) \<Rightarrow>
     if a_ok a then (True, emit (Slept d) s) else (False, s\<lparr>ctx_done := True\<rparr>))"

text \<open>
  \<open>retrySourceLifecycle\<close>; with \<open>fresh\<close> under a context of its own, whose end is the
  answer's \<open>a_cancel\<close>.
\<close>

definition record_ctx :: "bool \<Rightarrow> supervisor \<Rightarrow> bool \<times> supervisor" where
  "record_ctx fresh s = (case ask s of (a, s) \<Rightarrow> (if fresh then a_cancel a else ctx_done s, s))"

definition record_timer :: "bool \<Rightarrow> int \<Rightarrow> supervisor \<Rightarrow> bool \<times> supervisor" where
  "record_timer fresh d s = (case ask s of (a, s) \<Rightarrow>
     if a_ok a then (True, emit (Slept d) s) else (False, if fresh then s else s\<lparr>ctx_done := True\<rparr>))"

lemma ask_script: "length (script (snd (ask s))) = length (script s) - 1"
  by (simp add: ask_def split: list.split)

lemma emit_script [simp]: "script (emit e s) = script s"
  by (simp add: emit_def)

lemma ask_progress: "a_ok (fst (ask s)) \<Longrightarrow> length (script (snd (ask s))) < length (script s)"
  by (cases "script s") (simp_all add: ask_def shutdown_answer_def)

lemma record_ctx_script: "length (script (snd (record_ctx fresh s))) \<le> length (script s)"
  using ask_script [of s] by (simp add: record_ctx_def case_prod_beta)

lemma record_timer_progress:
  "fst (record_timer fresh d s) \<Longrightarrow> length (script (snd (record_timer fresh d s))) < length (script s)"
  using ask_progress [of s] by (simp add: record_timer_def case_prod_beta split: if_splits)

lemma retry_progress:
  assumes "(a, s1) = ask s" "(c, s2) = record_ctx fresh s1" "(fired, s3) = record_timer fresh d s2" "fired"
  shows "length (script s3) < length (script s)"
proof -
  have "s1 = snd (ask s)" "s2 = snd (record_ctx fresh s1)" "s3 = snd (record_timer fresh d s2)" "fst (record_timer fresh d s2)"
    using assms by (metis fst_conv snd_conv)+
  then show ?thesis
    using ask_script [of s] record_ctx_script [of fresh s1] record_timer_progress [of fresh d s2] by simp
qed

function retrySourceLifecycle :: "bool \<Rightarrow> int \<Rightarrow> SourceLifecycleUpdate \<Rightarrow> supervisor \<Rightarrow> bool \<times> supervisor" where
  "retrySourceLifecycle fresh backoff update s =
     (let (a, s1) = ask s in
      if a_ok a then (True, emit (Recorded update) s1)
      else let (done_now, s2) = record_ctx fresh s1 in
        if done_now then (False, s2)
        else let (fired, s3) = record_timer fresh backoff s2 in
          if \<not> fired then (False, s3)
          else retrySourceLifecycle fresh (nextSourceBackoff backoff) update s3)"
  by pat_completeness auto
termination
  by (relation "measure (\<lambda>(_, _, _, s). length (script s))") (auto dest: retry_progress)

lemma retry_induct [case_names step]:
  assumes "\<And>b s. (\<not> a_ok (fst (ask s)) \<Longrightarrow> \<not> fst (record_ctx fresh (snd (ask s))) \<Longrightarrow>
      fst (record_timer fresh b (snd (record_ctx fresh (snd (ask s))))) \<Longrightarrow>
      P (nextSourceBackoff b) (snd (record_timer fresh b (snd (record_ctx fresh (snd (ask s))))))) \<Longrightarrow> P b s"
  shows "P b s"
proof -
  have "f = fresh \<Longrightarrow> P b s" for f and u :: SourceLifecycleUpdate
  proof (induction f b u s rule: retrySourceLifecycle.induct)
    case (1 f b u s)
    show ?case
      by (rule assms) (use "1.IH" [OF refl prod.collapse _ refl prod.collapse _ refl prod.collapse] "1.prems" in simp)
  qed
  then show ?thesis by blast
qed

declare retrySourceLifecycle.simps [simp del]

definition recordRequired :: "SourceLifecycleUpdate \<Rightarrow> supervisor \<Rightarrow> bool \<times> supervisor" where
  "recordRequired update s = retrySourceLifecycle False sourceRestartBackoffBase update s"

definition recordWithSupervisorContext :: "SourceLifecycleUpdate \<Rightarrow> supervisor \<Rightarrow> supervisor" where
  "recordWithSupervisorContext update s =
     (let (cancelled, s) = ctx_err s in
      if \<not> cancelled then snd (recordRequired update s)
      else snd (retrySourceLifecycle True sourceRestartBackoffBase update s))"

definition recordStopped :: "supervisor \<Rightarrow> supervisor" where
  "recordStopped s = recordWithSupervisorContext
     (empty_update\<lparr>u_State := Some SourceLifecycleStopped, u_ClearLifecycleError := True\<rparr>) s"

definition recordTailCancelTimeout :: "supervisor \<Rightarrow> supervisor" where
  "recordTailCancelTimeout s =
     (let (at, s) = nowMicros s in
      recordWithSupervisorContext (empty_update\<lparr>u_State := Some SourceLifecycleTailFailed, u_AtUS := at,
        u_TailFailedAtUS := Some at, u_Error := map of_char ''tail did not stop after cancellation''\<rparr>) s)"

definition resetTailRestartEscalation :: "supervisor \<Rightarrow> supervisor" where
  "resetTailRestartEscalation s = s\<lparr>consecutiveTailRestarts := 0, firstTailRestartAt := None\<rparr>"

text \<open>The clock is in microseconds here, and so is the threshold.\<close>

definition tailRestartingUpdate :: "supervisor \<Rightarrow> SourceLifecycleUpdate \<times> supervisor" where
  "tailRestartingUpdate s =
     (let (now, s) = nowMicros s;
          s = s\<lparr>consecutiveTailRestarts := consecutiveTailRestarts s + 1\<rparr>;
          s = (case firstTailRestartAt s of None \<Rightarrow> s\<lparr>firstTailRestartAt := Some now\<rparr> | Some _ \<Rightarrow> s);
          u = empty_update\<lparr>u_State := Some SourceLifecycleTailRestarting, u_TailRestartDelta := 1\<rparr>;
          u = (if sourceTailRestartEscalateFailures \<le> consecutiveTailRestarts s \<or>
                 (case firstTailRestartAt s of Some t \<Rightarrow> sourceTailRestartEscalateAfter \<le> sint now - sint t | None \<Rightarrow> False)
               then u\<lparr>u_Error := map of_char (''tail restart has failed '' @ itoa (int (consecutiveTailRestarts s)) @ '' consecutive times'')\<rparr>
               else u)
      in (u, s))"

section \<open>Scan outcomes\<close>

definition clearReadModelDeferral :: "supervisor \<Rightarrow> bool \<times> supervisor" where
  "clearReadModelDeferral s =
     (let (a, s) = ask s; s = emit (DeferReadModels False) s; wasDeferred = a_ok a in
      if \<not> wasDeferred then (True, s)
      else recordRequired (empty_update\<lparr>u_ReadModelState := Some ReadModelRepairPending,
             u_ReadModelStateTransitionOnly := True, u_ClearReadModelError := True\<rparr>)
           (s\<lparr>readModelRepairPending := True\<rparr>))"

text \<open>\<open>scanDone\<close>: the function passed at startup; at a restart it does nothing.\<close>

definition scanDone :: "bool \<Rightarrow> supervisor \<Rightarrow> supervisor" where
  "scanDone startup s = (if startup then emit ScanDone s else s)"

definition handleRestartScanError :: "goError \<Rightarrow> supervisor \<Rightarrow> bool \<times> supervisor" where
  "handleRestartScanError err s =
     (let (cancelled, s) = (if e_context err then (True, s) else ctx_err s) in
      if cancelled then (False, recordStopped s)
      else if e_fatal err then
        let (at, s) = nowMicros s in
        (False, snd (recordRequired (empty_update\<lparr>u_State := Some SourceLifecycleScanFailed, u_AtUS := at,
          u_ScanCompletedAtUS := Some at, u_Error := e_msg err\<rparr>) s))
      else recordRequired (empty_update\<lparr>u_State := Some SourceLifecycleTailRestarting, u_Error := e_msg err\<rparr>) s)"

definition handleScanError :: "goError \<Rightarrow> supervisor \<Rightarrow> bool \<times> supervisor" where
  "handleScanError err s =
     (if e_context err then (False, recordStopped (scanDone True s))
      else
        let (at, s) = nowMicros s;
            (ok, s) = recordRequired (empty_update\<lparr>u_State := Some SourceLifecycleScanFailed, u_AtUS := at,
              u_ScanCompletedAtUS := Some at, u_Error := e_msg err\<rparr>) s
        in if \<not> ok then (False, scanDone True s)
           else let recoverable = \<not> e_fatal err;
                    (cleared, s) = (if recoverable then clearReadModelDeferral s else (True, s))
                in if \<not> cleared then (False, scanDone True s)
                   else (recoverable, scanDone True s))"

definition handleScanComplete :: "bool \<Rightarrow> supervisor \<Rightarrow> bool \<times> supervisor" where
  "handleScanComplete startup s =
     (let (at, s) = nowMicros s;
          (ok, s) = (if startup then recordRequired (empty_update\<lparr>u_State := Some SourceLifecycleScanComplete,
              u_AtUS := at, u_ScanCompletedAtUS := Some at\<rparr>) s
            else (True, s))
      in if \<not> ok then (False, scanDone startup s)
         else let (cleared, s) = clearReadModelDeferral s
              in if \<not> cleared then (False, scanDone startup s)
                 else (True, scanDone startup s))"

section \<open>The tail\<close>

definition startReadModelRepairIfPending :: "supervisor \<Rightarrow> supervisor" where
  "startReadModelRepairIfPending s = (if readModelRepairPending s then emit RepairAsked s else s)"

text \<open>Waiting for the tail to return within its grace after a cancellation.\<close>

definition waitTailReturn :: "supervisor \<Rightarrow> bool \<times> supervisor" where
  "waitTailReturn s = (case ask s of (a, s) \<Rightarrow>
     if a_ok a then (True, emit TailEnded s) else (False, emit TailAbandoned s))"

definition handleTailReturn :: "goError option \<Rightarrow> supervisor \<Rightarrow> bool \<times> supervisor" where
  "handleTailReturn err s =
     (let (cancelled, s) = (case err of
            None \<Rightarrow> ctx_err s
          | Some e \<Rightarrow> if e_context e then ctx_err s else (False, s))
      in if cancelled then (False, recordStopped s)
         else let msg = (case err of Some e \<Rightarrow> e_msg e | None \<Rightarrow> map of_char ''tail returned without error'');
                  (at, s) = nowMicros s
              in recordRequired (empty_update\<lparr>u_State := Some SourceLifecycleTailFailed, u_AtUS := at,
                   u_TailFailedAtUS := Some at, u_Error := msg\<rparr>) s)"

lemma ask_event_progress:
  "a_event (fst (ask s)) \<noteq> ContextDone \<Longrightarrow> length (script (snd (ask s))) < length (script s)"
  by (cases "script s") (simp_all add: ask_def shutdown_answer_def)

text \<open>The select loop of \<open>runTail\<close> while the tail runs.\<close>

function tail_loop :: "supervisor \<Rightarrow> bool \<times> supervisor" where
  "tail_loop s =
     (let (a, s1) = ask s in
      case a_event a of
        TailReturned err \<Rightarrow>
          let s2 = emit TailEnded s1;
              (restart, s3) = (if err = None then (case ask s2 of (a, s) \<Rightarrow> (a_ok a, s)) else (False, s2))
          in if restart then (True, s3) else handleTailReturn err s3
      | RepairRequested \<Rightarrow> tail_loop (startReadModelRepairIfPending (s1\<lparr>readModelRepairPending := True\<rparr>))
      | RestartRequested \<Rightarrow>
          let (ok, s2) = waitTailReturn s1
          in if \<not> ok then (False, recordTailCancelTimeout s2) else (True, s2)
      | ContextDone \<Rightarrow>
          let (ok, s2) = waitTailReturn (s1\<lparr>ctx_done := True\<rparr>)
          in if \<not> ok then (False, recordTailCancelTimeout s2) else (False, recordStopped s2))"
  by pat_completeness auto
termination
proof (relation "measure (\<lambda>s. length (script s))", simp)
  fix s x a s1
  assume "x = ask s" "(a, s1) = x" "a_event a = RepairRequested"
  then have "a = fst (ask s)" "s1 = snd (ask s)" "a_event a \<noteq> ContextDone" by (metis fst_conv, metis snd_conv, simp)
  then show "(startReadModelRepairIfPending (s1\<lparr>readModelRepairPending := True\<rparr>), s) \<in> measure (\<lambda>s. length (script s))"
    using ask_event_progress [of s] by (simp add: startReadModelRepairIfPending_def)
qed

lemma tail_loop_induct [case_names step]:
  assumes "\<And>s. (a_event (fst (ask s)) = RepairRequested \<Longrightarrow>
      P (startReadModelRepairIfPending ((snd (ask s))\<lparr>readModelRepairPending := True\<rparr>))) \<Longrightarrow> P s"
  shows "P s"
proof (induction s rule: tail_loop.induct)
  case (1 s)
  show ?case by (rule assms) (rule "1" [OF refl prod.collapse])
qed

declare tail_loop.simps [simp del]

definition runTail :: "supervisor \<Rightarrow> bool \<times> supervisor" where
  "runTail s =
     (let (at, s) = nowMicros s;
          (ok, s) = recordRequired (empty_update\<lparr>u_State := Some SourceLifecycleTailStarting, u_AtUS := at\<rparr>) s
      in if \<not> ok then (False, s)
         else
           let (at, s) = nowMicros s;
               hadRestarts = 0 < consecutiveTailRestarts s;
               s = resetTailRestartEscalation s;
               (ok, s) = recordRequired (empty_update\<lparr>u_State := Some SourceLifecycleTailing, u_AtUS := at,
                 u_TailStartedAtUS := Some at, u_TailHeartbeatUS := Some at, u_ResetTailRestartCount := True,
                 u_ClearLifecycleError := hadRestarts\<rparr>) s
           in if \<not> ok then (False, s)
              else tail_loop (startReadModelRepairIfPending (emit TailStarted s)))"

section \<open>Attempts and restarts\<close>

definition runAttempt :: "bool \<Rightarrow> supervisor \<Rightarrow> bool \<times> supervisor" where
  "runAttempt startup s =
     (let (ok, s) = (if startup then
            let (at, s) = nowMicros s
            in recordRequired (empty_update\<lparr>u_State := Some SourceLifecycleScanning, u_AtUS := at, u_ScanStartedAtUS := Some at\<rparr>) s
          else (True, s))
      in if \<not> ok then (False, scanDone startup s)
         else
           let (a, s) = ask (emit (ScanStarted startup) s) in
           case a_err a of
             Some err \<Rightarrow>
               if \<not> startup then handleRestartScanError err s
               else let (ok, s) = handleScanError err s in if \<not> ok then (False, s) else runTail s
           | None \<Rightarrow>
               let (cancelled, s) = ctx_err s in
               if cancelled then (False, recordStopped (scanDone startup s))
               else let (ok, s) = handleScanComplete startup s in if \<not> ok then (False, s) else runTail s)"

text \<open>\<open>constructRestartAdapter\<close>: the error of the factory, if any.\<close>

definition constructAdapter :: "supervisor \<Rightarrow> goError option \<times> supervisor" where
  "constructAdapter s = (case ask s of (a, s) \<Rightarrow> (a_err a, s))"

text \<open>The script only gets shorter, which ends the loop below.\<close>

definition script_le :: "supervisor \<Rightarrow> nat \<Rightarrow> bool" where
  "script_le s n \<longleftrightarrow> length (script s) \<le> n"

lemma script_le_ask [simp]: "script_le s n \<Longrightarrow> script_le (snd (ask s)) n"
  using ask_script [of s] by (simp add: script_le_def)

lemma script_le_upd [simp]:
  "script_le (emit e s) n = script_le s n"
  "script_le (s\<lparr>ctx_done := d\<rparr>) n = script_le s n"
  "script_le (s\<lparr>readModelRepairPending := p\<rparr>) n = script_le s n"
  "script_le (s\<lparr>consecutiveTailRestarts := c\<rparr>) n = script_le s n"
  "script_le (s\<lparr>firstTailRestartAt := t\<rparr>) n = script_le s n"
  "script_le (startReadModelRepairIfPending s) n = script_le s n"
  by (simp_all add: script_le_def startReadModelRepairIfPending_def)

lemma script_le_ctx [simp]: "script_le s n \<Longrightarrow> script_le (snd (ctx_err s)) n"
  by (simp add: ctx_err_def case_prod_beta)

lemma script_le_now [simp]: "script_le s n \<Longrightarrow> script_le (snd (nowMicros s)) n"
  by (simp add: nowMicros_def case_prod_beta)

lemma script_le_record_ctx [simp]: "script_le s n \<Longrightarrow> script_le (snd (record_ctx fresh s)) n"
  by (simp add: record_ctx_def case_prod_beta)

lemma script_le_record_timer [simp]: "script_le s n \<Longrightarrow> script_le (snd (record_timer fresh d s)) n"
  by (simp add: record_timer_def case_prod_beta)

lemma script_le_retry [simp]: "script_le s n \<Longrightarrow> script_le (snd (retrySourceLifecycle fresh b u s)) n"
proof (induction b s rule: retry_induct [where fresh = fresh])
  case (step b s)
  show ?case
    using step.IH step.prems by (subst retrySourceLifecycle.simps) (simp add: case_prod_beta Let_def)
qed

lemma script_le_record [simp]: "script_le s n \<Longrightarrow> script_le (snd (recordRequired u s)) n"
  by (simp add: recordRequired_def)

lemma script_le_record_sup [simp]: "script_le s n \<Longrightarrow> script_le (recordWithSupervisorContext u s) n"
  by (simp add: recordWithSupervisorContext_def case_prod_beta)

lemma script_le_stopped [simp]: "script_le s n \<Longrightarrow> script_le (recordStopped s) n"
  by (simp add: recordStopped_def)

lemma script_le_timeout [simp]: "script_le s n \<Longrightarrow> script_le (recordTailCancelTimeout s) n"
  by (simp add: recordTailCancelTimeout_def case_prod_beta)

lemma script_le_scan_done [simp]: "script_le (scanDone startup s) n = script_le s n"
  by (simp add: scanDone_def)

lemma script_le_wait_tail [simp]: "script_le s n \<Longrightarrow> script_le (snd (waitTailReturn s)) n"
  by (simp add: waitTailReturn_def case_prod_beta)

lemma script_le_wait [simp]: "script_le s n \<Longrightarrow> script_le (snd (waitBackoff d s)) n"
  by (simp add: waitBackoff_def case_prod_beta)

lemma script_le_clear [simp]: "script_le s n \<Longrightarrow> script_le (snd (clearReadModelDeferral s)) n"
  by (simp add: clearReadModelDeferral_def case_prod_beta Let_def)

lemma script_le_tail_return [simp]: "script_le s n \<Longrightarrow> script_le (snd (handleTailReturn err s)) n"
  by (simp add: handleTailReturn_def case_prod_beta Let_def split: option.split)

lemma script_le_tail_loop [simp]: "script_le s n \<Longrightarrow> script_le (snd (tail_loop s)) n"
proof (induction s rule: tail_loop_induct)
  case (step s)
  show ?case
    using step.IH step.prems by (subst tail_loop.simps) (simp add: case_prod_beta Let_def split: tailEvent.split)
qed

lemma script_le_runTail [simp]: "script_le s n \<Longrightarrow> script_le (snd (runTail s)) n"
  by (simp add: runTail_def resetTailRestartEscalation_def case_prod_beta Let_def)

lemma script_le_restart_scan_error [simp]: "script_le s n \<Longrightarrow> script_le (snd (handleRestartScanError err s)) n"
  by (simp add: handleRestartScanError_def case_prod_beta Let_def)

lemma script_le_scan_error [simp]: "script_le s n \<Longrightarrow> script_le (snd (handleScanError err s)) n"
  by (simp add: handleScanError_def case_prod_beta Let_def)

lemma script_le_scan_complete [simp]: "script_le s n \<Longrightarrow> script_le (snd (handleScanComplete startup s)) n"
  by (simp add: handleScanComplete_def case_prod_beta Let_def)

lemma script_le_attempt [simp]: "script_le s n \<Longrightarrow> script_le (snd (runAttempt startup s)) n"
  by (simp add: runAttempt_def case_prod_beta Let_def split: option.split)

lemma script_le_restarting [simp]: "script_le s n \<Longrightarrow> script_le (snd (tailRestartingUpdate s)) n"
  by (simp add: tailRestartingUpdate_def case_prod_beta Let_def split: option.split)

lemma script_le_construct [simp]: "script_le s n \<Longrightarrow> script_le (snd (constructAdapter s)) n"
  by (simp add: constructAdapter_def case_prod_beta)

lemma wait_progress:
  "fst (waitBackoff d s) \<Longrightarrow> script_le s n \<Longrightarrow> script_le (snd (waitBackoff d s)) (n - 1) \<and> 0 < n"
  using ask_progress [of s] by (auto simp: waitBackoff_def case_prod_beta script_le_def split: if_splits)

lemma run_loop_shrinks:
  assumes "(u, s1) = tailRestartingUpdate s" "(ok, s2) = recordRequired u s1" "(fired, s3) = waitBackoff d s2" "fired"
    and "(err, s4) = constructAdapter s3" "s5 = snd (recordRequired v s4) \<or> s5 = snd (runAttempt False s4)"
  shows "length (script s5) < length (script s)"
proof -
  have "s1 = snd (tailRestartingUpdate s)" "s2 = snd (recordRequired u s1)" "s3 = snd (waitBackoff d s2)"
      "fst (waitBackoff d s2)" "s4 = snd (constructAdapter s3)"
    using assms(1-5) by (metis fst_conv snd_conv)+
  moreover from this have "script_le s2 (length (script s))" by (simp add: script_le_def [of s])
  ultimately have "script_le s4 (length (script s) - 1) \<and> 0 < length (script s)"
    using wait_progress [of d s2 "length (script s)"] by simp
  then have "script_le s5 (length (script s) - 1) \<and> 0 < length (script s)" using assms(6) by auto
  then show ?thesis by (cases "script s") (simp_all add: script_le_def)
qed

lemma run_loop_shrinks_next:
  assumes "(u, s1) = tailRestartingUpdate s" "(ok, s2) = recordRequired u s1" "(True, s3) = waitBackoff d s2"
    and "(err, s4) = constructAdapter s3"
  shows "(case recordRequired v s4 of (_, s5) \<Rightarrow> length (script s5)) < length (script s)"
    and "(case runAttempt False s4 of (_, s5) \<Rightarrow> length (script s5)) < length (script s)"
  using run_loop_shrinks [OF assms(1-3) TrueI assms(4)] by (auto simp: case_prod_beta)

text \<open>
  The loop of \<open>run\<close>. Where it returns, the code also waits for the repair goroutine to end.
\<close>

function run_loop :: "int \<Rightarrow> bool \<Rightarrow> supervisor \<Rightarrow> supervisor" where
  "run_loop backoff restart s =
     (if \<not> restart then s
      else let (u, s1) = tailRestartingUpdate s; (ok, s2) = recordRequired u s1 in
        if \<not> ok then s2
        else let (fired, s3) = waitBackoff backoff s2 in
          if \<not> fired then recordStopped s3
          else let (err, s4) = constructAdapter s3 in
            (case err of
               Some e \<Rightarrow>
                 let (ok, s5) = recordRequired (empty_update\<lparr>u_State := Some SourceLifecycleTailRestarting, u_Error := e_msg e\<rparr>) s4
                 in if \<not> ok then s5 else run_loop (nextSourceBackoff backoff) True s5
             | None \<Rightarrow>
                 let (again, s5) = runAttempt False s4
                 in run_loop (nextSourceBackoff backoff) again s5))"
  by pat_completeness auto
termination
  by (relation "measure (\<lambda>(_, _, s). length (script s))") (auto intro: run_loop_shrinks_next)

lemma run_loop_induct [case_names step]:
  assumes "\<And>d r s. (\<And>r' s'. length (script s') < length (script s) \<Longrightarrow> P (nextSourceBackoff d) r' s') \<Longrightarrow> P d r s"
  shows "P d r s"
proof (induction "length (script s)" arbitrary: d r s rule: less_induct)
  case less
  show ?case by (rule assms) (rule less, assumption)
qed

declare run_loop.simps [simp del]

definition run :: "supervisor \<Rightarrow> supervisor" where
  "run s = (let (restart, s) = runAttempt True s in run_loop sourceRestartBackoffBase restart s)"

section \<open>Starting a source\<close>

text \<open>
  \<open>startSourceWithFactoryLookup\<close>: four checks, each a wrapped error of the environment or
  none (unknown format, location, adapter location, adapter construction), the submission to
  the ingester, then the supervisor in its own goroutine. The deferred function of the code
  marks the startup scan as done when the supervisor was not started.
\<close>

definition start_failed :: "SourceLifecycleState \<Rightarrow> goError \<Rightarrow> supervisor \<Rightarrow> supervisor" where
  "start_failed st e s = snd (recordRequired (empty_update\<lparr>u_State := Some st, u_Error := e_msg e\<rparr>) s)"

fun start_checks :: "SourceLifecycleState list \<Rightarrow> supervisor \<Rightarrow> bool \<times> supervisor" where
  "start_checks [] s = (True, s)"
| "start_checks (st # rest) s =
     (let (a, s) = ask s in
      case a_err a of
        Some e \<Rightarrow> (False, start_failed st e s)
      | None \<Rightarrow> start_checks rest s)"

text \<open>After the state \<open>starting\<close> has been recorded.\<close>

definition startRecorded :: "supervisor \<Rightarrow> supervisor" where
  "startRecorded s =
     (let (cancelled, s) = ctx_err s in
      if cancelled then
        let (a, s) = ask s;
            s = (if a_ok a then emit (Recorded (empty_update\<lparr>u_State := Some SourceLifecycleStopped\<rparr>)) s else s)
        in emit ScanDone s
      else
        let (ok, s) = start_checks [SourceLifecycleStartFailed, SourceLifecycleStartFailed,
              SourceLifecycleStartFailed, SourceLifecycleConstructFailed] s in
        if \<not> ok then emit ScanDone s
        else
          let s = emit (DeferReadModels True) s; (a, s) = ask s in
          case a_err a of
            Some e \<Rightarrow> emit ScanDone (start_failed SourceLifecycleStartFailed e (emit (DeferReadModels False) s))
          | None \<Rightarrow> run s)"

definition startSource :: "supervisor \<Rightarrow> supervisor" where
  "startSource s =
     (let (ok, s) = recordRequired (empty_update\<lparr>u_State := Some SourceLifecycleStarting\<rparr>) s
      in if \<not> ok then emit ScanDone s else startRecorded s)"

definition supervisor_init :: "answer list \<Rightarrow> supervisor" where
  "supervisor_init answers = \<lparr>script = answers, ctx_done = False, sup_log = [], readModelRepairPending = False,
     consecutiveTailRestarts = 0, firstTailRestartAt = None\<rparr>"

end
