(* ===== verification/Supervisor_Props.thy ===== *)
theory Supervisor_Props
  imports Supervisor
begin

text \<open>
  The contract of a source supervisor as a small automaton over its events, and the proof
  that the supervisor refines it: whatever adapters, database, clocks and requests do, its
  log is a word the automaton accepts.
\<close>

section \<open>The contract\<close>

datatype tailPhase = NoTail | TailUp | TailLost

record contract =
  ct_state :: SourceLifecycleState
  ct_scanned :: bool
  ct_tail :: tailPhase

definition contract_init :: contract where
  "contract_init = \<lparr>ct_state = SourceLifecycleUnknown, ct_scanned = False, ct_tail = NoTail\<rparr>"

text \<open>The lifecycle states a supervisor may record after one another.\<close>

fun lifecycle_next :: "SourceLifecycleState \<Rightarrow> SourceLifecycleState list" where
  "lifecycle_next SourceLifecycleUnknown = [SourceLifecycleStarting]"
| "lifecycle_next SourceLifecycleStarting =
     [SourceLifecycleScanning, SourceLifecycleStartFailed, SourceLifecycleConstructFailed, SourceLifecycleStopped]"
| "lifecycle_next SourceLifecycleScanning = [SourceLifecycleScanComplete, SourceLifecycleScanFailed, SourceLifecycleStopped]"
| "lifecycle_next SourceLifecycleScanComplete = [SourceLifecycleTailStarting]"
| "lifecycle_next SourceLifecycleScanFailed = [SourceLifecycleTailStarting]"
| "lifecycle_next SourceLifecycleTailStarting = [SourceLifecycleTailing]"
| "lifecycle_next SourceLifecycleTailing =
     [SourceLifecycleTailFailed, SourceLifecycleTailRestarting, SourceLifecycleStopped]"
| "lifecycle_next SourceLifecycleTailFailed = [SourceLifecycleTailRestarting]"
| "lifecycle_next SourceLifecycleTailRestarting =
     [SourceLifecycleTailRestarting, SourceLifecycleTailStarting, SourceLifecycleScanFailed, SourceLifecycleStopped]"
| "lifecycle_next _ = []"

fun contract_step :: "supEvent \<Rightarrow> contract \<Rightarrow> contract option" where
  "contract_step (Recorded u) c = (case u_State u of
       None \<Rightarrow> Some c
     | Some st \<Rightarrow> if st \<in> set (lifecycle_next (ct_state c)) then Some (c\<lparr>ct_state := st\<rparr>) else None)"
| "contract_step (Slept d) c =
     (if sourceRestartBackoffBase \<le> d \<and> d \<le> sourceRestartBackoffMax then Some c else None)"
| "contract_step (ScanStarted startup) c =
     (if ct_scanned c \<noteq> startup \<and> ct_tail c = NoTail then Some c else None)"
| "contract_step ScanDone c = (if ct_scanned c then None else Some (c\<lparr>ct_scanned := True\<rparr>))"
| "contract_step (DeferReadModels b) c = Some c"
| "contract_step RepairAsked c = (if ct_tail c = TailUp then Some c else None)"
| "contract_step TailStarted c =
     (if ct_scanned c \<and> ct_tail c = NoTail \<and> ct_state c = SourceLifecycleTailing then Some (c\<lparr>ct_tail := TailUp\<rparr>) else None)"
| "contract_step TailEnded c = (if ct_tail c = TailUp then Some (c\<lparr>ct_tail := NoTail\<rparr>) else None)"
| "contract_step TailAbandoned c = (if ct_tail c = TailUp then Some (c\<lparr>ct_tail := TailLost\<rparr>) else None)"

definition view :: "supervisor \<Rightarrow> contract option" where
  "view s = fold (\<lambda>e c. Option.bind c (contract_step e)) (sup_log s) (Some contract_init)"

section \<open>The elementary operations\<close>

named_theorems view_simps

lemma view_emit [view_simps]: "view (emit e s) = Option.bind (view s) (contract_step e)"
  by (simp add: view_def emit_def)

lemma view_upd [view_simps]:
  "view (s\<lparr>ctx_done := d\<rparr>) = view s" "view (s\<lparr>script := l\<rparr>) = view s"
  "view (s\<lparr>readModelRepairPending := p\<rparr>) = view s" "view (s\<lparr>consecutiveTailRestarts := n\<rparr>) = view s"
  "view (s\<lparr>firstTailRestartAt := t\<rparr>) = view s"
  by (simp_all add: view_def)

lemma view_ask [view_simps]: "view (snd (ask s)) = view s"
  by (simp add: ask_def view_simps split: list.split)

lemma view_ctx_err [view_simps]: "view (snd (ctx_err s)) = view s"
  by (simp add: ctx_err_def case_prod_beta view_simps)

lemma view_nowMicros [view_simps]: "view (snd (nowMicros s)) = view s"
  by (simp add: nowMicros_def case_prod_beta view_simps)

lemma view_record_ctx [view_simps]: "view (snd (record_ctx fresh s)) = view s"
  by (simp add: record_ctx_def case_prod_beta view_simps)

definition good_backoff :: "int \<Rightarrow> bool" where
  "good_backoff d \<longleftrightarrow> sourceRestartBackoffBase \<le> d \<and> d \<le> sourceRestartBackoffMax"

lemma good_base [simp]: "good_backoff sourceRestartBackoffBase"
  by (simp add: good_backoff_def sourceRestartBackoffBase_def sourceRestartBackoffMax_def)

lemma good_next [simp]: "good_backoff d \<Longrightarrow> good_backoff (nextSourceBackoff d)"
  by (simp add: good_backoff_def nextSourceBackoff_def sourceRestartBackoffBase_def sourceRestartBackoffMax_def Let_def)

lemma bind_slept: "good_backoff d \<Longrightarrow> Option.bind v (contract_step (Slept d)) = v"
  by (cases v) (simp_all add: good_backoff_def)

lemma view_record_timer: "good_backoff d \<Longrightarrow> view (snd (record_timer fresh d s)) = view s"
  by (simp add: record_timer_def case_prod_beta view_simps bind_slept del: contract_step.simps)

lemma view_waitBackoff: "good_backoff d \<Longrightarrow> view (snd (waitBackoff d s)) = view s"
  by (simp add: waitBackoff_def case_prod_beta view_simps bind_slept del: contract_step.simps)

text \<open>Recording either happens, once, or leaves no trace.\<close>

lemma view_retry:
  "good_backoff b \<Longrightarrow> view (snd (retrySourceLifecycle fresh b u s)) =
     (if fst (retrySourceLifecycle fresh b u s) then Option.bind (view s) (contract_step (Recorded u)) else view s)"
proof (induction b s rule: retry_induct [where fresh = fresh])
  case (step b s)
  show ?case
    using step.IH step.prems
    by (subst (1 2) retrySourceLifecycle.simps)
      (simp add: case_prod_beta Let_def view_simps view_record_timer del: contract_step.simps)
qed

lemma view_record [view_simps]:
  "view (snd (recordRequired u s)) =
     (if fst (recordRequired u s) then Option.bind (view s) (contract_step (Recorded u)) else view s)"
  by (simp add: recordRequired_def view_retry del: contract_step.simps)

lemma view_record_sup:
  "view (recordWithSupervisorContext u s) \<in> {view s, Option.bind (view s) (contract_step (Recorded u))}"
  by (simp add: recordWithSupervisorContext_def case_prod_beta view_simps view_retry del: contract_step.simps)

lemma view_restarting [view_simps]: "view (snd (tailRestartingUpdate s)) = view s"
  by (simp add: tailRestartingUpdate_def case_prod_beta Let_def view_simps split: option.split)

lemma restarting_state: "u_State (fst (tailRestartingUpdate s)) = Some SourceLifecycleTailRestarting"
  by (simp add: tailRestartingUpdate_def case_prod_beta Let_def)

lemma view_construct [view_simps]: "view (snd (constructAdapter s)) = view s"
  by (simp add: constructAdapter_def case_prod_beta view_simps)

lemma view_repair: "view s = Some c \<Longrightarrow> ct_tail c = TailUp \<Longrightarrow> view (startReadModelRepairIfPending s) = Some c"
  by (simp add: startReadModelRepairIfPending_def view_simps)

text \<open>An update of the read model or of a state that may follow.\<close>

lemma step_stopped:
  "view s = Some c \<Longrightarrow> SourceLifecycleStopped \<in> set (lifecycle_next (ct_state c)) \<Longrightarrow>
     \<exists>c'. view (recordStopped s) = Some c' \<and> ct_scanned c' = ct_scanned c \<and> ct_tail c' = ct_tail c"
  using view_record_sup [of "empty_update\<lparr>u_State := Some SourceLifecycleStopped, u_ClearLifecycleError := True\<rparr>" s]
  by (auto simp: recordStopped_def)

lemma step_timeout:
  "view s = Some c \<Longrightarrow> ct_state c = SourceLifecycleTailing \<Longrightarrow>
     \<exists>c'. view (recordTailCancelTimeout s) = Some c' \<and> ct_scanned c' = ct_scanned c \<and> ct_tail c' = ct_tail c"
  using view_record_sup [of _ "snd (nowMicros s)"]
  by (fastforce simp: recordTailCancelTimeout_def case_prod_beta view_simps)

lemma step_clear:
  "view s = Some c \<Longrightarrow> view (snd (clearReadModelDeferral s)) = Some c"
  by (simp add: clearReadModelDeferral_def case_prod_beta Let_def view_simps empty_update_def)

section \<open>Scans and tails\<close>

lemma step_scan_error:
  assumes "view s = Some c" "ct_state c = SourceLifecycleScanning" "\<not> ct_scanned c" "ct_tail c = NoTail"
  shows "\<exists>c'. view (snd (handleScanError err s)) = Some c' \<and> ct_scanned c' \<and>
    (fst (handleScanError err s) \<longrightarrow> ct_state c' = SourceLifecycleScanFailed \<and> ct_tail c' = NoTail)"
proof (cases "e_context err")
  case True
  have "view (scanDone True s) = Some (c\<lparr>ct_scanned := True\<rparr>)" using assms by (simp add: scanDone_def view_simps)
  from step_stopped [OF this] show ?thesis using True assms by (auto simp: handleScanError_def)
next
  case False
  then show ?thesis
    using assms by (auto simp: handleScanError_def case_prod_beta Let_def scanDone_def view_simps step_clear empty_update_def)
qed

lemma step_scan_complete:
  assumes "view s = Some c" "ct_tail c = NoTail" "ct_scanned c = (\<not> startup)"
    and "ct_state c = (if startup then SourceLifecycleScanning else SourceLifecycleTailRestarting)"
  shows "\<exists>c'. view (snd (handleScanComplete startup s)) = Some c' \<and> ct_scanned c' \<and>
    (fst (handleScanComplete startup s) \<longrightarrow> ct_tail c' = NoTail \<and>
       ct_state c' \<in> {SourceLifecycleScanComplete, SourceLifecycleTailRestarting})"
  using assms
  by (cases startup) (auto simp: handleScanComplete_def case_prod_beta Let_def scanDone_def view_simps step_clear empty_update_def)

lemma step_tail_return:
  assumes "view s = Some c" "ct_state c = SourceLifecycleTailing" "ct_scanned c" "ct_tail c = NoTail"
  shows "\<exists>c'. view (snd (handleTailReturn err s)) = Some c' \<and> ct_scanned c' \<and>
    (fst (handleTailReturn err s) \<longrightarrow> ct_tail c' = NoTail \<and> ct_state c' = SourceLifecycleTailFailed)"
proof -
  define p where "p = (case err of None \<Rightarrow> ctx_err s | Some e \<Rightarrow> if e_context e then ctx_err s else (False, s))"
  have v: "view (snd p) = Some c" using assms(1) by (auto simp: p_def view_simps split: option.split)
  have h: "handleTailReturn err s =
      (if fst p then (False, recordStopped (snd p))
       else case nowMicros (snd p) of (at, s) \<Rightarrow> recordRequired (empty_update\<lparr>u_State := Some SourceLifecycleTailFailed, u_AtUS := at,
          u_TailFailedAtUS := Some at,
          u_Error := (case err of Some e \<Rightarrow> e_msg e | None \<Rightarrow> map of_char ''tail returned without error'')\<rparr>) s)"
    by (simp add: handleTailReturn_def p_def Let_def case_prod_beta)
  show ?thesis
  proof (cases "fst p")
    case True
    then show ?thesis using h step_stopped [OF v] assms by auto
  next
    case False
    then show ?thesis using h v assms by (simp add: case_prod_beta view_simps)
  qed
qed

lemma step_tail_loop:
  "view s = Some c \<Longrightarrow> ct_state c = SourceLifecycleTailing \<Longrightarrow> ct_scanned c \<Longrightarrow> ct_tail c = TailUp \<Longrightarrow>
   \<exists>c'. view (snd (tail_loop s)) = Some c' \<and> ct_scanned c' \<and>
     (fst (tail_loop s) \<longrightarrow> ct_tail c' = NoTail \<and> ct_state c' \<in> {SourceLifecycleTailing, SourceLifecycleTailFailed})"
proof (induction s rule: tail_loop_induct)
  case (step s)
  obtain a s1 where a: "ask s = (a, s1)" by (cases "ask s")
  have v1: "view s1 = Some c" using view_ask [of s] step.prems(1) a by simp
  show ?case
  proof (cases "a_event a")
    case (TailReturned err)
    define p where "p = (if err = None then (case ask (emit TailEnded s1) of (a, s) \<Rightarrow> (a_ok a, s)) else (False, emit TailEnded s1))"
    have vp: "view (snd p) = Some (c\<lparr>ct_tail := NoTail\<rparr>)"
      using v1 step.prems by (simp add: p_def case_prod_beta view_simps)
    have "tail_loop s = (if fst p then (True, snd p) else handleTailReturn err (snd p))"
      by (subst tail_loop.simps) (simp add: a TailReturned p_def Let_def case_prod_beta)
    then show ?thesis
      using vp step_tail_return [OF vp, of err] step.prems by auto
  next
    case RepairRequested
    have "tail_loop s = tail_loop (startReadModelRepairIfPending (s1\<lparr>readModelRepairPending := True\<rparr>))"
      by (subst tail_loop.simps) (simp add: a RepairRequested)
    moreover have "view (startReadModelRepairIfPending (s1\<lparr>readModelRepairPending := True\<rparr>)) = Some c"
      using view_repair [of "s1\<lparr>readModelRepairPending := True\<rparr>" c] v1 step.prems by (simp add: view_simps)
    ultimately show ?thesis using step.IH step.prems RepairRequested a by simp
  next
    case RestartRequested
    have w: "view (snd (waitTailReturn s1)) = Some (c\<lparr>ct_tail := (if fst (waitTailReturn s1) then NoTail else TailLost)\<rparr>)"
      using v1 step.prems by (simp add: waitTailReturn_def case_prod_beta view_simps)
    have "tail_loop s = (if \<not> fst (waitTailReturn s1) then (False, recordTailCancelTimeout (snd (waitTailReturn s1)))
        else (True, snd (waitTailReturn s1)))"
      by (subst tail_loop.simps) (simp add: a RestartRequested Let_def case_prod_beta)
    then show ?thesis using w step_timeout [OF w] step.prems by auto
  next
    case ContextDone
    let ?s = "s1\<lparr>ctx_done := True\<rparr>"
    have w: "view (snd (waitTailReturn ?s)) = Some (c\<lparr>ct_tail := (if fst (waitTailReturn ?s) then NoTail else TailLost)\<rparr>)"
      using v1 step.prems by (simp add: waitTailReturn_def case_prod_beta view_simps)
    have "tail_loop s = (if \<not> fst (waitTailReturn ?s) then (False, recordTailCancelTimeout (snd (waitTailReturn ?s)))
        else (False, recordStopped (snd (waitTailReturn ?s))))"
      by (subst tail_loop.simps) (simp add: a ContextDone Let_def case_prod_beta)
    then show ?thesis using step_timeout [OF w] step_stopped [OF w] step.prems by auto
  qed
qed

lemma step_run_tail:
  assumes "view s = Some c" "ct_scanned c" "ct_tail c = NoTail"
    and "ct_state c \<in> {SourceLifecycleScanFailed, SourceLifecycleScanComplete, SourceLifecycleTailRestarting}"
  shows "\<exists>c'. view (snd (runTail s)) = Some c' \<and> ct_scanned c' \<and>
    (fst (runTail s) \<longrightarrow> ct_tail c' = NoTail \<and> ct_state c' \<in> {SourceLifecycleTailing, SourceLifecycleTailFailed})"
proof -
  define u1 where "u1 = empty_update\<lparr>u_State := Some SourceLifecycleTailStarting, u_AtUS := fst (nowMicros s)\<rparr>"
  define p where "p = recordRequired u1 (snd (nowMicros s))"
  define q where "q = resetTailRestartEscalation (snd (nowMicros (snd p)))"
  define at where "at = fst (nowMicros (snd p))"
  define u2 where "u2 = empty_update\<lparr>u_State := Some SourceLifecycleTailing, u_AtUS := at, u_TailStartedAtUS := Some at,
    u_TailHeartbeatUS := Some at, u_ResetTailRestartCount := True,
    u_ClearLifecycleError := 0 < consecutiveTailRestarts (snd (nowMicros (snd p)))\<rparr>"
  have t: "runTail s = (if \<not> fst p then (False, snd p)
      else if \<not> fst (recordRequired u2 q) then (False, snd (recordRequired u2 q))
      else tail_loop (startReadModelRepairIfPending (emit TailStarted (snd (recordRequired u2 q)))))"
    by (simp add: runTail_def p_def u1_def q_def u2_def at_def Let_def case_prod_beta cong: if_cong)
  have u2: "u_State u2 = Some SourceLifecycleTailing" by (simp add: u2_def)
  have vp: "view (snd p) = Some (if fst p then c\<lparr>ct_state := SourceLifecycleTailStarting\<rparr> else c)"
    using assms by (auto simp: p_def u1_def view_simps)
  have vq: "view q = view (snd p)" by (simp add: q_def resetTailRestartEscalation_def view_simps)
  show ?thesis
  proof (cases "fst p \<and> fst (recordRequired u2 q)")
    case True
    let ?c = "c\<lparr>ct_state := SourceLifecycleTailing, ct_tail := TailUp\<rparr>"
    have "view (emit TailStarted (snd (recordRequired u2 q))) = Some ?c"
      using True vp vq u2 assms(2,3) by (simp add: view_simps)
    then have "view (startReadModelRepairIfPending (emit TailStarted (snd (recordRequired u2 q)))) = Some ?c"
      by (rule view_repair) simp
    from step_tail_loop [OF this] show ?thesis using True t assms(2) by simp
  next
    case False
    then show ?thesis using t vp vq assms by (auto simp: view_simps)
  qed
qed

lemma step_restart_scan_error:
  assumes "view s = Some c" "ct_scanned c" "ct_tail c = NoTail" "ct_state c = SourceLifecycleTailRestarting"
  shows "\<exists>c'. view (snd (handleRestartScanError err s)) = Some c' \<and> ct_scanned c' \<and>
    (fst (handleRestartScanError err s) \<longrightarrow> ct_tail c' = NoTail \<and> ct_state c' = SourceLifecycleTailRestarting)"
proof -
  define p where "p = (if e_context err then (True, s) else ctx_err s)"
  have v: "view (snd p) = Some c" using assms(1) by (simp add: p_def view_simps)
  have h: "handleRestartScanError err s =
     (if fst p then (False, recordStopped (snd p))
      else if e_fatal err then
        (case nowMicros (snd p) of (at, s) \<Rightarrow>
        (False, snd (recordRequired (empty_update\<lparr>u_State := Some SourceLifecycleScanFailed, u_AtUS := at,
          u_ScanCompletedAtUS := Some at, u_Error := e_msg err\<rparr>) s)))
      else recordRequired (empty_update\<lparr>u_State := Some SourceLifecycleTailRestarting, u_Error := e_msg err\<rparr>) (snd p))"
    by (simp add: handleRestartScanError_def p_def Let_def case_prod_beta)
  show ?thesis
  proof (cases "fst p")
    case True
    then show ?thesis using h step_stopped [OF v] assms by auto
  next
    case False
    then show ?thesis using h v assms by (simp add: case_prod_beta view_simps)
  qed
qed

section \<open>Attempts, restarts, the whole run\<close>

text \<open>Where an attempt leaves the supervisor that goes on.\<close>

definition may_restart :: "contract \<Rightarrow> bool" where
  "may_restart c \<longleftrightarrow> ct_tail c = NoTail \<and>
     ct_state c \<in> {SourceLifecycleTailing, SourceLifecycleTailFailed, SourceLifecycleTailRestarting}"

lemma step_attempt:
  assumes "view s = Some c" "ct_tail c = NoTail" "ct_scanned c = (\<not> startup)"
    and "ct_state c = (if startup then SourceLifecycleStarting else SourceLifecycleTailRestarting)"
  shows "\<exists>c'. view (snd (runAttempt startup s)) = Some c' \<and> ct_scanned c' \<and> (fst (runAttempt startup s) \<longrightarrow> may_restart c')"
proof -
  define p where "p = (if startup then (case nowMicros s of (at, s) \<Rightarrow>
      recordRequired (empty_update\<lparr>u_State := Some SourceLifecycleScanning, u_AtUS := at, u_ScanStartedAtUS := Some at\<rparr>) s)
    else (True, s))"
  define c1 where "c1 = (if startup then c\<lparr>ct_state := SourceLifecycleScanning\<rparr> else c)"
  obtain a s1 where a: "ask (emit (ScanStarted startup) (snd p)) = (a, s1)"
    by (cases "ask (emit (ScanStarted startup) (snd p))")
  have t: "runAttempt startup s = (if \<not> fst p then (False, scanDone startup (snd p))
      else case a_err a of
        Some err \<Rightarrow>
          if \<not> startup then handleRestartScanError err s1
          else if \<not> fst (handleScanError err s1) then (False, snd (handleScanError err s1)) else runTail (snd (handleScanError err s1))
      | None \<Rightarrow>
          if fst (ctx_err s1) then (False, recordStopped (scanDone startup (snd (ctx_err s1))))
          else if \<not> fst (handleScanComplete startup (snd (ctx_err s1))) then (False, snd (handleScanComplete startup (snd (ctx_err s1))))
          else runTail (snd (handleScanComplete startup (snd (ctx_err s1)))))"
    using a by (cases startup) (simp_all add: runAttempt_def p_def Let_def case_prod_beta cong: if_cong option.case_cong)
  have vp: "view (snd p) = Some (if fst p then c1 else c)"
    using assms by (auto simp: p_def c1_def case_prod_beta view_simps)
  have c1: "ct_tail c1 = NoTail" "ct_scanned c1 = (\<not> startup)"
    "ct_state c1 = (if startup then SourceLifecycleScanning else SourceLifecycleTailRestarting)"
    using assms by (simp_all add: c1_def)
  show ?thesis
  proof (cases "fst p")
    case False
    then show ?thesis using t vp assms by (auto simp: scanDone_def view_simps)
  next
    case True
    have v1: "view s1 = Some c1"
      using view_ask [of "emit (ScanStarted startup) (snd p)"] a vp True c1 by (auto simp: view_simps)
    show ?thesis
    proof (cases "a_err a")
      case None
      have v2: "view (snd (ctx_err s1)) = Some c1" using v1 by (simp add: view_simps)
      have vs: "view (scanDone startup (snd (ctx_err s1))) = Some (c1\<lparr>ct_scanned := True\<rparr>)"
        using v2 c1 by (cases c1) (auto simp: scanDone_def view_simps)
      obtain c3 where c3: "view (snd (handleScanComplete startup (snd (ctx_err s1)))) = Some c3" "ct_scanned c3"
          "fst (handleScanComplete startup (snd (ctx_err s1))) \<Longrightarrow> ct_tail c3 = NoTail \<and>
            ct_state c3 \<in> {SourceLifecycleScanComplete, SourceLifecycleTailRestarting}"
        using step_scan_complete [OF v2 c1] by blast
      consider "fst (ctx_err s1)" | "\<not> fst (ctx_err s1)" "\<not> fst (handleScanComplete startup (snd (ctx_err s1)))"
        | "\<not> fst (ctx_err s1)" "fst (handleScanComplete startup (snd (ctx_err s1)))" by blast
      then show ?thesis
      proof cases
        case 1
        then show ?thesis using t True None step_stopped [OF vs] c1 by (auto split: if_splits)
      next
        case 2
        then show ?thesis using t True None c3 by simp
      next
        case 3
        then have "\<exists>c'. view (snd (runTail (snd (handleScanComplete startup (snd (ctx_err s1)))))) = Some c' \<and> ct_scanned c' \<and>
            (fst (runTail (snd (handleScanComplete startup (snd (ctx_err s1))))) \<longrightarrow> ct_tail c' = NoTail \<and>
              ct_state c' \<in> {SourceLifecycleTailing, SourceLifecycleTailFailed})"
          using c3 by (intro step_run_tail [OF c3(1,2)]) auto
        then show ?thesis using t True None 3 by (auto simp: may_restart_def)
      qed
    next
      case (Some err)
      show ?thesis
      proof (cases startup)
        case False
        then show ?thesis
          using t True Some step_restart_scan_error [OF v1, of err] c1 by (auto simp: may_restart_def)
      next
        case s: True
        obtain c3 where c3: "view (snd (handleScanError err s1)) = Some c3" "ct_scanned c3"
            "fst (handleScanError err s1) \<Longrightarrow> ct_state c3 = SourceLifecycleScanFailed \<and> ct_tail c3 = NoTail"
          using step_scan_error [OF v1, of err] c1 s by auto
        show ?thesis
        proof (cases "fst (handleScanError err s1)")
          case False
          then show ?thesis using t True Some s c3 by simp
        next
          case ok: True
          have "\<exists>c'. view (snd (runTail (snd (handleScanError err s1)))) = Some c' \<and> ct_scanned c' \<and>
            (fst (runTail (snd (handleScanError err s1))) \<longrightarrow> ct_tail c' = NoTail \<and>
              ct_state c' \<in> {SourceLifecycleTailing, SourceLifecycleTailFailed})"
            using c3 ok by (intro step_run_tail [OF c3(1,2)]) auto
          then show ?thesis using t True Some s ok by (auto simp: may_restart_def)
        qed
      qed
    qed
  qed
qed

lemma step_run_loop:
  "view s = Some c \<Longrightarrow> ct_scanned c \<Longrightarrow> (restart \<Longrightarrow> may_restart c) \<Longrightarrow> good_backoff d \<Longrightarrow>
     \<exists>c'. view (run_loop d restart s) = Some c' \<and> ct_scanned c'"
proof (induction d restart s arbitrary: c rule: run_loop_induct)
  case (step d restart s)
  show ?case
  proof (cases restart)
    case False
    then show ?thesis using step.prems by (subst run_loop.simps) simp
  next
    case True
    obtain u s1 where u: "tailRestartingUpdate s = (u, s1)" by (cases "tailRestartingUpdate s")
    obtain ok s2 where r: "recordRequired u s1 = (ok, s2)" by (cases "recordRequired u s1")
    obtain fired s3 where w: "waitBackoff d s2 = (fired, s3)" by (cases "waitBackoff d s2")
    obtain err s4 where k: "constructAdapter s3 = (err, s4)" by (cases "constructAdapter s3")
    let ?c = "c\<lparr>ct_state := SourceLifecycleTailRestarting\<rparr>"
    have us: "u_State u = Some SourceLifecycleTailRestarting" using restarting_state [of s] u by simp
    have m: "ct_tail c = NoTail" "ct_state c \<in> {SourceLifecycleTailing, SourceLifecycleTailFailed, SourceLifecycleTailRestarting}"
      using step.prems(3) True by (simp_all add: may_restart_def)
    have v1: "view s1 = Some c" using view_restarting [of s] u step.prems(1) by simp
    have v2: "view s2 = Some (if ok then ?c else c)"
      using view_record [of u s1] r v1 us m by auto
    have v3: "view s3 = view s2" using view_waitBackoff [OF step.prems(4), of s2] w by simp
    have v4: "view s4 = view s3" using view_construct [of s3] k by simp
    have eq: "run_loop d restart s = (if \<not> ok then s2 else if \<not> fired then recordStopped s3 else
        (case err of
           Some e \<Rightarrow> (case recordRequired (empty_update\<lparr>u_State := Some SourceLifecycleTailRestarting, u_Error := e_msg e\<rparr>) s4 of
             (ok, s5) \<Rightarrow> if \<not> ok then s5 else run_loop (nextSourceBackoff d) True s5)
         | None \<Rightarrow> (case runAttempt False s4 of (again, s5) \<Rightarrow> run_loop (nextSourceBackoff d) again s5)))"
      by (subst run_loop.simps) (simp add: True u r w k cong: if_cong option.case_cong)
    consider "\<not> ok" | "ok" "\<not> fired" | e where "ok" "fired" "err = Some e" | "ok" "fired" "err = None" by (cases err) auto
    then show ?thesis
    proof cases
      case 1
      then show ?thesis using eq v2 step.prems(2) by auto
    next
      case 2
      then have "view s3 = Some ?c" using v2 v3 by simp
      from step_stopped [OF this] show ?thesis using 2 eq step.prems(2) by auto
    next
      case (3 e)
      obtain ok' s5 where r': "recordRequired (empty_update\<lparr>u_State := Some SourceLifecycleTailRestarting, u_Error := e_msg e\<rparr>) s4 = (ok', s5)"
        by (cases "recordRequired (empty_update\<lparr>u_State := Some SourceLifecycleTailRestarting, u_Error := e_msg e\<rparr>) s4")
      have v5: "view s5 = Some ?c"
        using view_record [of "empty_update\<lparr>u_State := Some SourceLifecycleTailRestarting, u_Error := e_msg e\<rparr>" s4] r' v2 v3 v4 3
        by (auto simp: m)
      have "length (script s5) < length (script s)"
        using run_loop_shrinks [OF u [symmetric] r [symmetric] w [symmetric] 3(2) k [symmetric]] r' by (metis snd_conv)
      then have "\<exists>c'. view (run_loop (nextSourceBackoff d) True s5) = Some c' \<and> ct_scanned c'" if "ok'"
        using step.IH [of s5 ?c True] v5 that step.prems(2,4) m by (simp add: may_restart_def)
      then show ?thesis using eq 3 r' v5 step.prems(2) by auto
    next
      case 4
      obtain again s5 where r': "runAttempt False s4 = (again, s5)" by (cases "runAttempt False s4")
      have "view s4 = Some ?c" using v2 v3 v4 4 by simp
      from step_attempt [OF this, of False] obtain c5 where
        c5: "view s5 = Some c5" "ct_scanned c5" "again \<Longrightarrow> may_restart c5"
        using m step.prems(2) r' by auto
      have "\<exists>c'. view (run_loop (nextSourceBackoff d) again s5) = Some c' \<and> ct_scanned c'"
        using step.IH [of s5 c5 again] c5 step.prems(4)
          run_loop_shrinks [OF u [symmetric] r [symmetric] w [symmetric] 4(2) k [symmetric], of s5] r' by simp
      then show ?thesis using eq 4 r' by simp
    qed
  qed
qed

lemma step_run:
  assumes "view s = Some c" "ct_tail c = NoTail" "\<not> ct_scanned c" "ct_state c = SourceLifecycleStarting"
  shows "\<exists>c'. view (run s) = Some c' \<and> ct_scanned c'"
proof -
  obtain r s1 where r: "runAttempt True s = (r, s1)" by (cases "runAttempt True s")
  obtain c1 where "view s1 = Some c1" "ct_scanned c1" "r \<Longrightarrow> may_restart c1"
    using step_attempt [of s c True] assms r by auto
  from step_run_loop [OF this good_base] show ?thesis by (simp add: run_def r)
qed

lemma step_start_failed:
  assumes "view s = Some c" "st \<in> set (lifecycle_next (ct_state c))" "\<not> ct_scanned c"
  shows "\<exists>c'. view (start_failed st e s) = Some c' \<and> \<not> ct_scanned c'"
  using assms by (auto simp: start_failed_def view_simps)

lemma step_start_checks:
  assumes "view s = Some c" "ct_state c = SourceLifecycleStarting" "\<not> ct_scanned c" "ct_tail c = NoTail"
    and "set sts \<subseteq> {SourceLifecycleStartFailed, SourceLifecycleConstructFailed}"
  shows "if fst (start_checks sts s) then view (snd (start_checks sts s)) = Some c
    else (\<exists>c'. view (snd (start_checks sts s)) = Some c' \<and> \<not> ct_scanned c')"
  using assms
proof (induction sts s rule: start_checks.induct)
  case (2 st rest s)
  obtain a s1 where a: "ask s = (a, s1)" by (cases "ask s")
  have v: "view s1 = Some c" using view_ask [of s] a "2.prems"(1) by simp
  show ?case
  proof (cases "a_err a")
    case None
    then show ?thesis using "2.IH" [OF a [symmetric] refl None v] "2.prems" a by simp
  next
    case (Some e)
    have "\<exists>c'. view (start_failed st e s1) = Some c' \<and> \<not> ct_scanned c'"
      using v "2.prems" by (intro step_start_failed) auto
    then show ?thesis using Some a by simp
  qed
qed simp

lemma view_scan_done:
  "view s = Some c \<Longrightarrow> \<not> ct_scanned c \<Longrightarrow> \<exists>c'. view (emit ScanDone s) = Some c' \<and> ct_scanned c'"
  by (simp add: view_simps)

lemma step_start_recorded:
  assumes v: "view s = Some c" and c: "ct_state c = SourceLifecycleStarting" "\<not> ct_scanned c" "ct_tail c = NoTail"
  shows "\<exists>c'. view (startRecorded s) = Some c' \<and> ct_scanned c'"
proof -
  let ?sts = "[SourceLifecycleStartFailed, SourceLifecycleStartFailed, SourceLifecycleStartFailed, SourceLifecycleConstructFailed]"
  obtain cancelled s2 where k: "ctx_err s = (cancelled, s2)" by (cases "ctx_err s")
  have v2: "view s2 = Some c" using view_ctx_err [of s] k v by simp
  obtain ok s3 where ch: "start_checks ?sts s2 = (ok, s3)" by (cases "start_checks ?sts s2")
  note v3 = step_start_checks [OF v2 c, of ?sts, unfolded ch]
  obtain a s4 where a: "ask (emit (DeferReadModels True) s3) = (a, s4)" by (cases "ask (emit (DeferReadModels True) s3)")
  consider "cancelled" | "\<not> cancelled" "\<not> ok" | "\<not> cancelled" "ok" by blast
  then show ?thesis
  proof cases
    case 1
    obtain a s3 where a: "ask s2 = (a, s3)" by (cases "ask s2")
    have "view s3 = Some c" using view_ask [of s2] a v2 by simp
    then show ?thesis using k 1 a c by (auto simp: startRecorded_def view_simps)
  next
    case 2
    then obtain c3 where "view s3 = Some c3" "\<not> ct_scanned c3" using v3 by auto
    from view_scan_done [OF this] show ?thesis using k ch 2 by (simp add: startRecorded_def del: start_checks.simps)
  next
    case 3
    have v4: "view s4 = Some c" using view_ask [of "emit (DeferReadModels True) s3"] a v3 3 by (simp add: view_simps)
    have eq: "startRecorded s = (case a_err a of
        Some e \<Rightarrow> emit ScanDone (start_failed SourceLifecycleStartFailed e (emit (DeferReadModels False) s4))
      | None \<Rightarrow> run s4)"
      using k ch 3 a by (simp add: startRecorded_def del: start_checks.simps)
    have "view (emit (DeferReadModels False) s4) = Some c" using v4 by (simp add: view_simps)
    then have "\<exists>c'. view (start_failed SourceLifecycleStartFailed e (emit (DeferReadModels False) s4)) = Some c' \<and> \<not> ct_scanned c'" for e
      by (rule step_start_failed) (simp_all add: c)
    then show ?thesis using eq step_run [OF v4 c(3,2,1)] view_scan_done by (cases "a_err a") fastforce+
  qed
qed

text \<open>
  C24. A source supervisor refines its contract: whatever adapters, database, clock, timers
  and requests do and whenever the shutdown comes, its events are accepted by the automaton
  \<open>contract_step\<close>, and the startup scan has been reported as done, exactly once, when it ends.
  So lifecycle states are only recorded along \<open>lifecycle_next\<close>, a tail is only started after
  the startup scan is done and its state is durable, never while another tail may still be
  running, and every wait is between one second and one minute.
\<close>

theorem supervisor_refines_contract:
  "\<exists>c. view (startSource (supervisor_init answers)) = Some c \<and> ct_scanned c"
proof -
  let ?s0 = "supervisor_init answers" and ?u = "empty_update\<lparr>u_State := Some SourceLifecycleStarting\<rparr>"
  have v0: "view ?s0 = Some contract_init" by (simp add: view_def supervisor_init_def)
  obtain ok s1 where r: "recordRequired ?u ?s0 = (ok, s1)" by (cases "recordRequired ?u ?s0")
  have v1: "view s1 = Some (if ok then contract_init\<lparr>ct_state := SourceLifecycleStarting\<rparr> else contract_init)"
    using view_record [of ?u ?s0] r v0 by (auto simp: contract_init_def)
  show ?thesis
  proof (cases ok)
    case True
    then have "view s1 = Some (contract_init\<lparr>ct_state := SourceLifecycleStarting\<rparr>)" using v1 by simp
    then have "\<exists>c. view (startRecorded s1) = Some c \<and> ct_scanned c"
      by (rule step_start_recorded) (simp_all add: contract_init_def)
    then show ?thesis using True r by (simp add: startSource_def)
  next
    case False
    then show ?thesis using view_scan_done [of s1] v1 r by (simp add: startSource_def contract_init_def)
  qed
qed

text \<open>
  The contract allows a supervisor to end while its tail is still running: a tail that does
  not return within its grace is abandoned. The goroutine that called \<open>run\<close> then closes the
  channel this tail sends its events on.
\<close>

definition willing :: answer where
  "willing = \<lparr>a_cancel = False, a_ok = True, a_err = None, a_event = RestartRequested, a_now = 1\<rparr>"

lemma supervisor_abandons_tail:
  "map_option (\<lambda>c. (ct_state c, ct_tail c))
     (view (startSource (supervisor_init (replicate 20 willing @ [willing\<lparr>a_ok := False\<rparr>, willing, willing, willing])))) =
   Some (SourceLifecycleTailFailed, TailLost)"
  by code_simp

end
