(* ===== verification/Repair.thy ===== *)
theory Repair
  imports Lifecycle "HOL-Library.Multiset"
begin

text \<open>
  The repair of a source's read models: the requests of the workers
  (\<open>read_model_repair_request.go\<close>, \<open>markReadModelRepairPending\<close> and \<open>promoteCommittedBatch\<close> of
  \<open>worker.go\<close>), the supervisor's select that receives them and the repair goroutine
  (\<open>startReadModelRepairIfPending\<close>, \<open>repairReadModelsLoop\<close>, \<open>repairReadModelsOnce\<close> of
  \<open>source_supervisor.go\<close>), as steps of three goroutines that interleave between their
  critical sections, statements and channel operations.

  \<open>rp_repairs\<close> holds where each repair goroutine is. \<open>rp_debt\<close> is not a variable of the code: it says that a batch has been committed with its
  read models left out and that no repair has covered it yet.
\<close>

section \<open>Request channels\<close>

record repairChans =
  rr_registered :: "string \<rightharpoonup> nat"
  rr_chans :: "nat \<Rightarrow> unit chan"

definition RegisterSourceReadModelRepair :: "string \<Rightarrow> nat option \<Rightarrow> repairChans \<Rightarrow> repairChans" where
  "RegisterSourceReadModelRepair sid ch rr = (case ch of
       None \<Rightarrow> rr
     | Some c \<Rightarrow> if sid = [] then rr else rr\<lparr>rr_registered := (rr_registered rr)(sid \<mapsto> c)\<rparr>)"

definition unregisterSourceReadModelRepair :: "string \<Rightarrow> nat option \<Rightarrow> repairChans \<Rightarrow> repairChans" where
  "unregisterSourceReadModelRepair sid ch rr = (case ch of
       None \<Rightarrow> rr
     | Some c \<Rightarrow> if sid \<noteq> [] \<and> rr_registered rr sid = Some c
         then rr\<lparr>rr_registered := (rr_registered rr)(sid := None)\<rparr> else rr)"

definition RequestSourceReadModelRepair :: "string \<Rightarrow> repairChans \<Rightarrow> bool \<times> repairChans" where
  "RequestSourceReadModelRepair sid rr =
     (if sid = [] then (False, rr)
      else case rr_registered rr sid of
        None \<Rightarrow> (False, rr)
      | Some c \<Rightarrow> let ch = rr_chans rr c in
          (True, if length (ch_buf ch) < ch_cap ch
                 then rr\<lparr>rr_chans := (rr_chans rr)(c := ch\<lparr>ch_buf := ch_buf ch @ [()]\<rparr>)\<rparr> else rr))"

section \<open>The goroutines of one source\<close>

datatype workerPc = WorkerIdle | WorkerRequest
datatype selectPc = TailSelect | TailSetPending | TailStartIfPending
datatype repairPc = RepairLoop | RecordRepairing | RepairRunning | RecordReady | RecordFailed bool
  | ClearPending | RepairExit

record repairSys =
  rp_debt :: bool
  rp_durable :: ReadModelState
  rp_pending :: bool
  rp_running :: bool
  rp_token :: bool
  rp_worker :: workerPc
  rp_select :: selectPc
  rp_repairs :: "repairPc multiset"

text \<open>A tail is started; \<open>p\<close>: the deferral of the startup scan has just been cleared.\<close>

definition repair_init :: "bool \<Rightarrow> repairSys" where
  "repair_init p = \<lparr>rp_debt = p, rp_durable = (if p then ReadModelRepairPending else ReadModelReady), rp_pending = p,
     rp_running = False, rp_token = False, rp_worker = WorkerIdle, rp_select = TailStartIfPending, rp_repairs = {#}\<rparr>"

text \<open>The commit of a batch whose read models are left out.\<close>

definition markReadModelRepairPending :: "repairSys \<Rightarrow> repairSys" where
  "markReadModelRepairPending s =
     (if rp_durable s \<noteq> ReadModelRepairPending
      then s\<lparr>rp_debt := True, rp_durable := ReadModelRepairPending, rp_worker := WorkerRequest\<rparr>
      else s\<lparr>rp_debt := True\<rparr>)"

definition startRepairIfPending :: "repairSys \<Rightarrow> repairSys" where
  "startRepairIfPending s =
     (if \<not> rp_pending s \<or> rp_running s then s\<lparr>rp_select := TailSelect\<rparr>
      else s\<lparr>rp_running := True, rp_repairs := add_mset RepairLoop (rp_repairs s), rp_select := TailSelect\<rparr>)"

text \<open>
  The steps. With \<open>late = False\<close> no such commit falls between the repair's last reading and
  its recording of success.
\<close>

inductive repair_step :: "bool \<Rightarrow> repairSys \<Rightarrow> repairSys \<Rightarrow> bool" for late where
  commit: "rp_worker s = WorkerIdle \<Longrightarrow> late \<or> RecordReady \<notin># rp_repairs s \<Longrightarrow>
    repair_step late s (markReadModelRepairPending s)"
| request: "rp_worker s = WorkerRequest \<Longrightarrow> repair_step late s (s\<lparr>rp_worker := WorkerIdle, rp_token := True\<rparr>)"
| receive: "rp_select s = TailSelect \<Longrightarrow> rp_token s \<Longrightarrow>
    repair_step late s (s\<lparr>rp_token := False, rp_select := TailSetPending\<rparr>)"
| set_pending: "rp_select s = TailSetPending \<Longrightarrow>
    repair_step late s (s\<lparr>rp_pending := True, rp_select := TailStartIfPending\<rparr>)"
| start: "rp_select s = TailStartIfPending \<Longrightarrow> repair_step late s (startRepairIfPending s)"
| restart_tail: "rp_select s = TailSelect \<Longrightarrow> repair_step late s (s\<lparr>rp_select := TailStartIfPending\<rparr>)"
| loop_ends: "rp_repairs s = add_mset RepairLoop rest \<Longrightarrow> \<not> rp_pending s \<Longrightarrow> repair_step late s (s\<lparr>rp_repairs := add_mset RepairExit rest\<rparr>)"
| loop_goes_on: "rp_repairs s = add_mset RepairLoop rest \<Longrightarrow> rp_pending s \<Longrightarrow> repair_step late s (s\<lparr>rp_repairs := add_mset RecordRepairing rest\<rparr>)"
| repairing: "rp_repairs s = add_mset RecordRepairing rest \<Longrightarrow>
    repair_step late s (s\<lparr>rp_durable := ReadModelRepairing, rp_repairs := add_mset RepairRunning rest\<rparr>)"
| repaired: "rp_repairs s = add_mset RepairRunning rest \<Longrightarrow>
    repair_step late s (s\<lparr>rp_debt := False, rp_repairs := add_mset RecordReady rest\<rparr>)"
| repair_fails: "rp_repairs s = add_mset RepairRunning rest \<Longrightarrow>
    repair_step late s (s\<lparr>rp_repairs := add_mset (RecordFailed timeout) rest\<rparr>)"
| failed: "rp_repairs s = add_mset (RecordFailed timeout) rest \<Longrightarrow> repair_step late s (s\<lparr>rp_repairs := add_mset RepairLoop rest,
    rp_durable := (if timeout then ReadModelRepairTimeout else ReadModelRepairFailed)\<rparr>)"
| ready: "rp_repairs s = add_mset RecordReady rest \<Longrightarrow>
    repair_step late s (s\<lparr>rp_durable := ReadModelReady, rp_repairs := add_mset ClearPending rest\<rparr>)"
| clear_pending: "rp_repairs s = add_mset ClearPending rest \<Longrightarrow>
    repair_step late s (s\<lparr>rp_pending := False, rp_repairs := add_mset RepairExit rest\<rparr>)"
| exit: "rp_repairs s = add_mset RepairExit rest \<Longrightarrow> repair_step late s (s\<lparr>rp_running := False, rp_repairs := rest\<rparr>)"

inductive repair_reach :: "bool \<Rightarrow> bool \<Rightarrow> repairSys \<Rightarrow> bool" for late p where
  init: "repair_reach late p (repair_init p)"
| step: "repair_reach late p s \<Longrightarrow> repair_step late s s' \<Longrightarrow> repair_reach late p s'"

section \<open>What holds and what does not\<close>

definition repair_inv :: "bool \<Rightarrow> repairSys \<Rightarrow> bool" where
  "repair_inv late s \<longleftrightarrow> size (rp_repairs s) = (if rp_running s then 1 else 0) \<and>
     (late \<or> \<not> rp_debt s \<or> rp_durable s \<noteq> ReadModelReady \<and> RecordReady \<notin># rp_repairs s)"

lemma repair_step_inv: "repair_step late s s' \<Longrightarrow> repair_inv late s \<Longrightarrow> repair_inv late s'"
  by (induction rule: repair_step.induct)
    (auto simp: repair_inv_def markReadModelRepairPending_def startRepairIfPending_def split: if_splits)

lemma repair_reach_inv: "repair_reach late p s \<Longrightarrow> repair_inv late s"
proof (induction rule: repair_reach.induct)
  case init
  then show ?case by (simp add: repair_inv_def repair_init_def)
next
  case (step s s')
  then show ?case using repair_step_inv by blast
qed

text \<open>
  C25. A source never has more than one repair goroutine, and the flag that says one is
  running is exact. As long as no batch is committed between a repair's last reading and its recording of
  success, a source whose read models lack committed rows is never durably marked as ready,
  so that the next start of the daemon repairs it.
\<close>

theorem repair_debt_recorded:
  assumes "repair_reach late p s"
  shows "size (rp_repairs s) = (if rp_running s then 1 else 0) \<and> (late \<or> \<not> rp_debt s \<or> rp_durable s \<noteq> ReadModelReady)"
  using repair_reach_inv [OF assms] by (auto simp: repair_inv_def)

text \<open>A repair that nobody is going to do: nothing is pending, running or requested.\<close>

definition stalled :: "repairSys \<Rightarrow> bool" where
  "stalled s \<longleftrightarrow> rp_debt s \<and> rp_durable s = ReadModelRepairPending \<and> \<not> rp_pending s \<and> \<not> rp_running s \<and>
     \<not> rp_token s \<and> rp_worker s = WorkerIdle \<and> rp_select s \<in> {TailSelect, TailStartIfPending} \<and> rp_repairs s = {#}"

lemma stalled_step: "repair_step late s s' \<Longrightarrow> stalled s \<Longrightarrow> stalled s'"
  by (induction rule: repair_step.induct)
    (auto simp: stalled_def markReadModelRepairPending_def startRepairIfPending_def)

text \<open>A run given by the state after each step.\<close>

definition st :: "bool \<Rightarrow> ReadModelState \<Rightarrow> bool \<Rightarrow> bool \<Rightarrow> bool \<Rightarrow> workerPc \<Rightarrow> selectPc \<Rightarrow> repairPc multiset \<Rightarrow> repairSys" where
  "st debt durable pending running token w sel rep = \<lparr>rp_debt = debt, rp_durable = durable, rp_pending = pending,
     rp_running = running, rp_token = token, rp_worker = w, rp_select = sel, rp_repairs = rep\<rparr>"

lemma reach_repaired:
  "repair_reach late False (st False ReadModelRepairing True True False WorkerIdle TailSelect {#RecordReady#})"
proof -
  note S = repair_reach.step [where late = late and p = False]
  have "repair_reach late False (st False ReadModelReady False False False WorkerIdle TailStartIfPending {#})"
    using repair_reach.init [of late False] by (simp add: repair_init_def st_def)
  from S [OF this repair_step.start] have "repair_reach late False (st False ReadModelReady False False False WorkerIdle TailSelect {#})"
    by (simp add: st_def startRepairIfPending_def)
  from S [OF this repair_step.commit] have "repair_reach late False (st True ReadModelRepairPending False False False WorkerRequest TailSelect {#})"
    by (simp add: st_def markReadModelRepairPending_def)
  from S [OF this repair_step.request] have "repair_reach late False (st True ReadModelRepairPending False False True WorkerIdle TailSelect {#})"
    by (simp add: st_def)
  from S [OF this repair_step.receive] have "repair_reach late False (st True ReadModelRepairPending False False False WorkerIdle TailSetPending {#})"
    by (simp add: st_def)
  from S [OF this repair_step.set_pending] have "repair_reach late False (st True ReadModelRepairPending True False False WorkerIdle TailStartIfPending {#})"
    by (simp add: st_def)
  from S [OF this repair_step.start] have "repair_reach late False (st True ReadModelRepairPending True True False WorkerIdle TailSelect {#RepairLoop#})"
    by (simp add: st_def startRepairIfPending_def)
  from S [OF this repair_step.loop_goes_on] have "repair_reach late False (st True ReadModelRepairPending True True False WorkerIdle TailSelect {#RecordRepairing#})"
    by (simp add: st_def)
  from S [OF this repair_step.repairing] have "repair_reach late False (st True ReadModelRepairing True True False WorkerIdle TailSelect {#RepairRunning#})"
    by (simp add: st_def)
  from S [OF this repair_step.repaired] show ?thesis by (simp add: st_def)
qed

lemma reach_commit_repair:
  "repair_reach False False (st False ReadModelReady True True False WorkerIdle TailSelect {#ClearPending#})"
  using repair_reach.step [OF reach_repaired repair_step.ready, where late = False] by (simp add: st_def)

lemma reach_stalled:
  "repair_reach False False (st True ReadModelRepairPending False False False WorkerIdle TailSelect {#})"
proof -
  note S = repair_reach.step [where late = False and p = False]
  from S [OF reach_commit_repair repair_step.commit]
  have "repair_reach False False (st True ReadModelRepairPending True True False WorkerRequest TailSelect {#ClearPending#})"
    by (simp add: st_def markReadModelRepairPending_def)
  from S [OF this repair_step.request] have "repair_reach False False (st True ReadModelRepairPending True True True WorkerIdle TailSelect {#ClearPending#})"
    by (simp add: st_def)
  from S [OF this repair_step.receive] have "repair_reach False False (st True ReadModelRepairPending True True False WorkerIdle TailSetPending {#ClearPending#})"
    by (simp add: st_def)
  from S [OF this repair_step.set_pending] have "repair_reach False False (st True ReadModelRepairPending True True False WorkerIdle TailStartIfPending {#ClearPending#})"
    by (simp add: st_def)
  from S [OF this repair_step.start] have "repair_reach False False (st True ReadModelRepairPending True True False WorkerIdle TailSelect {#ClearPending#})"
    by (simp add: st_def startRepairIfPending_def)
  from S [OF this repair_step.clear_pending] have "repair_reach False False (st True ReadModelRepairPending False True False WorkerIdle TailSelect {#RepairExit#})"
    by (simp add: st_def)
  from S [OF this repair_step.exit] show ?thesis by (simp add: st_def)
qed

lemma repair_debt_recorded_witness:
  "repair_reach False False (st False ReadModelReady True True False WorkerIdle TailSelect {#ClearPending#}) \<and>
   rp_running (st False ReadModelReady True True False WorkerIdle TailSelect {#ClearPending#})"
  using reach_commit_repair repair_debt_recorded [OF reach_commit_repair] by (simp add: st_def)

text \<open>
  C26. A repair request can be lost for the life of the daemon: a batch committed after a
  repair has recorded its success but before it clears the pending flag has its request
  consumed and erased, and from then on nothing the source's goroutines do (further batches
  find the durable state already pending and send no request, restarted tails find no pending
  flag) ever repairs it.
\<close>

theorem repair_request_lost:
  "(\<exists>s. repair_reach False False s \<and> stalled s) \<and>
   {s'. \<exists>s late. stalled s \<and> repair_step late s s'} \<subseteq> Collect stalled"
proof
  show "\<exists>s. repair_reach False False s \<and> stalled s"
    using reach_stalled by (intro exI conjI) (assumption, simp add: stalled_def st_def)
  show "{s'. \<exists>s late. stalled s \<and> repair_step late s s'} \<subseteq> Collect stalled" using stalled_step by blast
qed

text \<open>With a late commit the debt even ends up marked as ready.\<close>

lemma late_commit_marked_ready:
  "\<exists>s. repair_reach True False s \<and> rp_debt s \<and> rp_durable s = ReadModelReady"
proof -
  note S = repair_reach.step [where late = True and p = False]
  from S [OF reach_repaired repair_step.commit]
  have "repair_reach True False (st True ReadModelRepairPending True True False WorkerRequest TailSelect {#RecordReady#})"
    by (simp add: st_def markReadModelRepairPending_def)
  from S [OF this repair_step.ready] have "repair_reach True False (st True ReadModelReady True True False WorkerRequest TailSelect {#ClearPending#})"
    by (simp add: st_def)
  then show ?thesis by (intro exI conjI) (assumption, simp_all add: st_def)
qed

end
