(* ===== verification/Coalescer.thy ===== *)
theory Coalescer
  imports Prelude
begin

text \<open>
  The single writer goroutine of the ingester (\<open>internal/ingest/coalescer.go\<close>): merger
  goroutines forward the events of the sources into one bounded channel, the run loop batches
  them and flushes each batch in one transaction, with retries; a shutdown drains the mergers
  and the channel.

  The transaction body of one source (\<open>worker.flushBody\<close>), what a commit does to its writer
  and the database are arguments of \<open>flushBatch\<close>; the goroutines are a step relation whose
  steps are the channel operations and the iterations of the loop. A flush succeeds or fails
  as the environment decides.
\<close>

section \<open>One batch\<close>

type_synonym 'e taggedEvent = "string \<times> 'e"

text \<open>Grouping by source in the order of first appearance: \<open>bySource\<close> and \<open>order\<close>.\<close>

fun group_events :: "'e taggedEvent list \<Rightarrow> (string \<times> 'e list) list \<Rightarrow> (string \<times> 'e list) list" where
  "group_events [] acc = acc"
| "group_events ((sid, ev) # rest) acc =
     group_events rest (case map_of acc sid of
         None \<Rightarrow> acc @ [(sid, [ev])]
       | Some evs \<Rightarrow> alist_put sid (evs @ [ev]) acc)"

text \<open>
  The sources of the batch one after another in one transaction; \<open>registered\<close> says which
  sources have a writer, a body that fails ends the transaction without effect.
\<close>

fun apply_sources ::
    "(string \<Rightarrow> 'e list \<Rightarrow> 'db \<Rightarrow> 'db option) \<Rightarrow> (string \<Rightarrow> bool) \<Rightarrow> (string \<times> 'e list) list \<Rightarrow> 'db \<Rightarrow> string list \<Rightarrow>
     ('db \<times> string list) option" where
  "apply_sources body registered [] db applied = Some (db, applied)"
| "apply_sources body registered ((sid, evs) # rest) db applied =
     (if \<not> registered sid then apply_sources body registered rest db applied
      else case body sid evs db of
        None \<Rightarrow> None
      | Some db' \<Rightarrow> apply_sources body registered rest db' (applied @ [sid]))"

text \<open>The result: whether it committed, the database, the sources promoted after the commit.\<close>

definition flushBatch ::
    "(string \<Rightarrow> 'e list \<Rightarrow> 'db \<Rightarrow> 'db option) \<Rightarrow> (string \<Rightarrow> bool) \<Rightarrow> bool \<Rightarrow> bool \<Rightarrow> 'e taggedEvent list \<Rightarrow> 'db \<Rightarrow>
     bool \<times> 'db \<times> string list" where
  "flushBatch body registered begins commits batch db =
     (if batch = [] then (True, db, [])
      else if \<not> begins then (False, db, [])
      else case apply_sources body registered (group_events batch []) db [] of
        None \<Rightarrow> (False, db, [])
      | Some (db', applied) \<Rightarrow> if commits then (True, db', applied) else (False, db, []))"

section \<open>The goroutines\<close>

definition flushMaxRetries :: nat where "flushMaxRetries = 3"

text \<open>
  Where the merger of a source is: forwarding what is buffered when the source registers, at
  its select, holding an event at the inner select, holding one it must forward after the
  stop, draining after the stop, done.
\<close>

datatype 'e mergerPc =
    Unregistered
  | Registering
  | RegisterHold 'e
  | Receiving
  | Holding 'e
  | LastHold 'e
  | Draining
  | MergerDone

datatype loopPc = Running | Flushing nat bool | WaitMergers | FinalDrain | FinalFlush nat | Returned

record 'e coalescer =
  co_in :: "string \<Rightarrow> 'e list"
  co_closed :: "string \<Rightarrow> bool"
  co_merger :: "string \<Rightarrow> 'e mergerPc"
  co_merged :: "'e taggedEvent list"
  co_cap :: nat
  co_batch :: "'e taggedEvent list"
  co_batchSize :: nat
  co_loop :: loopPc
  co_timer :: bool
  co_pendingRollups :: bool
  co_stop :: bool
  co_ctxDone :: bool
  co_done :: "(bool \<times> 'e taggedEvent list) list"
  co_sent :: "string \<Rightarrow> 'e list"

text \<open>\<open>co_done\<close>, the batches committed (\<open>True\<close>) or dropped in order, and \<open>co_sent\<close>, what the
  adapters have sent, are a record of the execution.\<close>

definition newCoalescer :: "nat \<Rightarrow> nat \<Rightarrow> 'e coalescer" where
  "newCoalescer cap batchSize = \<lparr>co_in = (\<lambda>_. []), co_closed = (\<lambda>_. False), co_merger = (\<lambda>_. Unregistered),
     co_merged = [], co_cap = cap, co_batch = [], co_batchSize = batchSize, co_loop = Running, co_timer = False,
     co_pendingRollups = False, co_stop = False, co_ctxDone = False, co_done = [], co_sent = (\<lambda>_. [])\<rparr>"

definition set_merger :: "string \<Rightarrow> 'e mergerPc \<Rightarrow> 'e coalescer \<Rightarrow> 'e coalescer" where
  "set_merger sid pc s = s\<lparr>co_merger := (co_merger s)(sid := pc)\<rparr>"

definition take_event :: "string \<Rightarrow> 'e list \<Rightarrow> 'e mergerPc \<Rightarrow> 'e coalescer \<Rightarrow> 'e coalescer" where
  "take_event sid rest pc s = set_merger sid pc (s\<lparr>co_in := (co_in s)(sid := rest)\<rparr>)"

definition forward :: "string \<Rightarrow> 'e \<Rightarrow> 'e mergerPc \<Rightarrow> 'e coalescer \<Rightarrow> 'e coalescer" where
  "forward sid ev pc s = set_merger sid pc (s\<lparr>co_merged := co_merged s @ [(sid, ev)]\<rparr>)"

definition has_space :: "'e coalescer \<Rightarrow> bool" where
  "has_space s \<longleftrightarrow> length (co_merged s) < co_cap s"

definition in_waitgroup :: "'e mergerPc \<Rightarrow> bool" where
  "in_waitgroup pc = (case pc of Receiving \<Rightarrow> True | Holding _ \<Rightarrow> True | LastHold _ \<Rightarrow> True | Draining \<Rightarrow> True | _ \<Rightarrow> False)"

inductive merger_step :: "'e coalescer \<Rightarrow> 'e coalescer \<Rightarrow> bool" where
  register: "co_merger s sid = Unregistered \<Longrightarrow> merger_step s (set_merger sid Registering s)"
| register_take: "co_merger s sid = Registering \<Longrightarrow> co_in s sid = ev # rest \<Longrightarrow>
    merger_step s (take_event sid rest (RegisterHold ev) s)"
| register_send: "co_merger s sid = RegisterHold ev \<Longrightarrow> has_space s \<Longrightarrow> merger_step s (forward sid ev Registering s)"
| register_end: "co_merger s sid = Registering \<Longrightarrow> co_in s sid = [] \<Longrightarrow> merger_step s (set_merger sid Receiving s)"
| take: "co_merger s sid = Receiving \<Longrightarrow> co_in s sid = ev # rest \<Longrightarrow> merger_step s (take_event sid rest (Holding ev) s)"
| take_closed: "co_merger s sid = Receiving \<Longrightarrow> co_in s sid = [] \<Longrightarrow> co_closed s sid \<Longrightarrow>
    merger_step s (set_merger sid MergerDone s)"
| take_stop: "co_merger s sid = Receiving \<Longrightarrow> co_stop s \<Longrightarrow> merger_step s (set_merger sid Draining s)"
| send: "co_merger s sid = Holding ev \<Longrightarrow> has_space s \<Longrightarrow> merger_step s (forward sid ev Receiving s)"
| send_stop: "co_merger s sid = Holding ev \<Longrightarrow> co_stop s \<Longrightarrow> merger_step s (set_merger sid (LastHold ev) s)"
| drain_take: "co_merger s sid = Draining \<Longrightarrow> co_in s sid = ev # rest \<Longrightarrow>
    merger_step s (take_event sid rest (LastHold ev) s)"
| drain_send: "co_merger s sid = LastHold ev \<Longrightarrow> has_space s \<Longrightarrow> merger_step s (forward sid ev Draining s)"
| drain_end: "co_merger s sid = Draining \<Longrightarrow> co_in s sid = [] \<Longrightarrow> merger_step s (set_merger sid MergerDone s)"

text \<open>
  The run loop. A flush has its attempt number and whether the timer started it; after one
  started by the timer come the idle refresh of the rollups and the rearming of the timer.
\<close>

definition finish_batch :: "bool \<Rightarrow> 'e coalescer \<Rightarrow> 'e coalescer" where
  "finish_batch committed s = s\<lparr>co_done := co_done s @ [(committed, co_batch s)], co_batch := []\<rparr>"

definition after_flush :: "bool \<Rightarrow> bool \<Rightarrow> 'e coalescer \<Rightarrow> 'e coalescer" where
  "after_flush by_timer pending s =
     s\<lparr>co_loop := Running, co_pendingRollups := pending, co_timer := (if by_timer then pending else False)\<rparr>"

inductive loop_step :: "'e coalescer \<Rightarrow> 'e coalescer \<Rightarrow> bool" where
  receive: "co_loop s = Running \<Longrightarrow> co_merged s = te # rest \<Longrightarrow> length (co_batch s) + 1 < co_batchSize s \<Longrightarrow>
    loop_step s (s\<lparr>co_merged := rest, co_batch := co_batch s @ [te],
      co_timer := (co_timer s \<or> co_batch s = [])\<rparr>)"
| receive_full: "co_loop s = Running \<Longrightarrow> co_merged s = te # rest \<Longrightarrow> co_batchSize s \<le> length (co_batch s) + 1 \<Longrightarrow>
    loop_step s (s\<lparr>co_merged := rest, co_batch := co_batch s @ [te], co_loop := Flushing 0 False\<rparr>)"
| interval: "co_loop s = Running \<Longrightarrow> co_timer s \<Longrightarrow> co_batch s \<noteq> [] \<Longrightarrow>
    loop_step s (s\<lparr>co_timer := False, co_loop := Flushing 0 True\<rparr>)"
| idle: "co_loop s = Running \<Longrightarrow> co_timer s \<Longrightarrow> co_batch s = [] \<Longrightarrow> loop_step s (after_flush True pending s)"
| flush_ok: "co_loop s = Flushing n by_timer \<Longrightarrow>
    loop_step s (after_flush by_timer pending (finish_batch True s))"
| flush_retry: "co_loop s = Flushing n by_timer \<Longrightarrow> n < flushMaxRetries \<Longrightarrow>
    loop_step s (s\<lparr>co_loop := Flushing (Suc n) by_timer\<rparr>)"
| flush_suppressed: "co_loop s = Flushing n by_timer \<Longrightarrow> co_ctxDone s \<Longrightarrow> loop_step s (after_flush by_timer pending s)"
| flush_dropped: "co_loop s = Flushing n by_timer \<Longrightarrow> n = flushMaxRetries \<Longrightarrow> \<not> co_ctxDone s \<Longrightarrow>
    loop_step s (after_flush by_timer pending (finish_batch False s))"
| shutdown: "co_loop s = Running \<Longrightarrow> co_ctxDone s \<Longrightarrow> loop_step s (s\<lparr>co_stop := True, co_loop := WaitMergers\<rparr>)"
| mergers_done: "co_loop s = WaitMergers \<Longrightarrow> \<not> (\<exists>sid. in_waitgroup (co_merger s sid)) \<Longrightarrow>
    loop_step s (s\<lparr>co_loop := FinalDrain\<rparr>)"
| final_take: "co_loop s = FinalDrain \<Longrightarrow> co_merged s = te # rest \<Longrightarrow>
    loop_step s (s\<lparr>co_merged := rest, co_batch := co_batch s @ [te]\<rparr>)"
| final_drained: "co_loop s = FinalDrain \<Longrightarrow> co_merged s = [] \<Longrightarrow>
    loop_step s (s\<lparr>co_loop := (if co_batch s = [] then Returned else FinalFlush 0)\<rparr>)"
| final_ok: "co_loop s = FinalFlush n \<Longrightarrow> loop_step s ((finish_batch True s)\<lparr>co_loop := Returned\<rparr>)"
| final_retry: "co_loop s = FinalFlush n \<Longrightarrow> n < flushMaxRetries \<Longrightarrow> loop_step s (s\<lparr>co_loop := FinalFlush (Suc n)\<rparr>)"
| final_dropped: "co_loop s = FinalFlush n \<Longrightarrow> n = flushMaxRetries \<Longrightarrow>
    loop_step s ((finish_batch False s)\<lparr>co_loop := Returned\<rparr>)"

text \<open>All steps: the adapters (sending on or closing their channels), the cancellation, the goroutines.\<close>

inductive coalescer_step :: "'e coalescer \<Rightarrow> 'e coalescer \<Rightarrow> bool" where
  adapter_send: "\<not> co_closed s sid \<Longrightarrow>
    coalescer_step s (s\<lparr>co_in := (co_in s)(sid := co_in s sid @ [ev]), co_sent := (co_sent s)(sid := co_sent s sid @ [ev])\<rparr>)"
| adapter_close: "coalescer_step s (s\<lparr>co_closed := (co_closed s)(sid := True)\<rparr>)"
| cancel: "coalescer_step s (s\<lparr>co_ctxDone := True\<rparr>)"
| merger: "merger_step s s' \<Longrightarrow> coalescer_step s s'"
| loop: "loop_step s s' \<Longrightarrow> coalescer_step s s'"

inductive coalescer_reach :: "nat \<Rightarrow> nat \<Rightarrow> 'e coalescer \<Rightarrow> bool" for cap n where
  init: "coalescer_reach cap n (newCoalescer cap n)"
| step: "coalescer_reach cap n s \<Longrightarrow> coalescer_step s s' \<Longrightarrow> coalescer_reach cap n s'"

section \<open>No event is lost, duplicated or reordered on its way\<close>

definition events_of :: "string \<Rightarrow> 'e taggedEvent list \<Rightarrow> 'e list" where
  "events_of sid tes = map snd (filter (\<lambda>te. fst te = sid) tes)"

lemma events_of_simps [simp]:
  "events_of sid [] = []" "events_of sid (te # tes) = (if fst te = sid then [snd te] else []) @ events_of sid tes"
  "events_of sid (xs @ ys) = events_of sid xs @ events_of sid ys"
  by (simp_all add: events_of_def)

fun held :: "'e mergerPc \<Rightarrow> 'e list" where
  "held (RegisterHold ev) = [ev]"
| "held (Holding ev) = [ev]"
| "held (LastHold ev) = [ev]"
| "held _ = []"

text \<open>What is on its way from the adapter of a source to the database, oldest first.\<close>

definition in_flight :: "string \<Rightarrow> 'e coalescer \<Rightarrow> 'e list" where
  "in_flight sid s = events_of sid (co_batch s) @ events_of sid (co_merged s) @ held (co_merger s sid) @ co_in s sid"

definition handled :: "string \<Rightarrow> 'e coalescer \<Rightarrow> 'e list" where
  "handled sid s = events_of sid (concat (map snd (co_done s)))"

definition coalescer_inv :: "nat \<Rightarrow> 'e coalescer \<Rightarrow> bool" where
  "coalescer_inv cap s \<longleftrightarrow> (\<forall>sid. handled sid s @ in_flight sid s = co_sent s sid) \<and>
     length (co_merged s) \<le> co_cap s \<and> co_cap s = cap \<and>
     (co_loop s = Returned \<longrightarrow> co_batch s = [])"

lemmas coalescer_defs = set_merger_def take_event_def forward_def finish_batch_def after_flush_def has_space_def

text \<open>A step of a merger or of the loop moves events along; the capacity is respected.\<close>

lemma merger_step_moves:
  "merger_step s s' \<Longrightarrow> handled x s' = handled x s \<and> in_flight x s' = in_flight x s \<and> co_sent s' = co_sent s \<and>
     co_cap s' = co_cap s \<and> co_loop s' = co_loop s \<and> co_batch s' = co_batch s \<and>
     (length (co_merged s) \<le> co_cap s \<longrightarrow> length (co_merged s') \<le> co_cap s)"
  by (induction rule: merger_step.induct) (auto simp: handled_def in_flight_def coalescer_defs)

lemma loop_step_moves:
  "loop_step s s' \<Longrightarrow> handled x s' @ in_flight x s' = handled x s @ in_flight x s \<and> co_sent s' = co_sent s \<and>
     co_cap s' = co_cap s \<and> length (co_merged s') \<le> length (co_merged s) \<and> (co_loop s' = Returned \<longrightarrow> co_batch s' = [])"
  by (induction rule: loop_step.induct) (simp_all add: handled_def in_flight_def coalescer_defs)

lemma merger_step_inv: "merger_step s s' \<Longrightarrow> coalescer_inv cap s \<Longrightarrow> coalescer_inv cap s'"
  using merger_step_moves [of s s'] by (simp add: coalescer_inv_def)

lemma loop_step_inv: "loop_step s s' \<Longrightarrow> coalescer_inv cap s \<Longrightarrow> coalescer_inv cap s'"
  using loop_step_moves [of s s'] by (force simp: coalescer_inv_def)

lemma coalescer_step_inv: "coalescer_step s s' \<Longrightarrow> coalescer_inv cap s \<Longrightarrow> coalescer_inv cap s'"
proof (induction rule: coalescer_step.induct)
  case (adapter_send s sid ev)
  then show ?case by (auto simp: coalescer_inv_def handled_def in_flight_def)
next
  case (merger s s')
  then show ?case using merger_step_inv by blast
next
  case (loop s s')
  then show ?case using loop_step_inv by blast
qed (simp_all add: coalescer_inv_def handled_def in_flight_def)

lemma coalescer_reach_inv: "coalescer_reach cap n s \<Longrightarrow> coalescer_inv cap s"
proof (induction rule: coalescer_reach.induct)
  case init
  then show ?case by (simp add: coalescer_inv_def handled_def in_flight_def newCoalescer_def)
next
  case (step s s')
  then show ?case using coalescer_step_inv by blast
qed

text \<open>
  C27. Between an adapter and the database no event is lost, duplicated or reordered: in every
  reachable state, for every source, the events of the batches finished so far (committed, or
  dropped after four failed attempts), of the current batch, of the channel, in the merger's
  hand and in the source's channel are together, in this order, exactly what its adapter has
  sent. The channel never holds more than its capacity, and nothing is left in the batch when
  the loop returns.
\<close>

theorem coalescer_keeps_order:
  assumes "coalescer_reach cap n s"
  shows "handled sid s @ in_flight sid s = co_sent s sid \<and> length (co_merged s) \<le> cap \<and>
    (co_loop s = Returned \<longrightarrow> co_batch s = [])"
  using coalescer_reach_inv [OF assms] by (simp add: coalescer_inv_def)

section \<open>A shutdown that never ends\<close>

text \<open>The loop waits for the mergers while one of them waits for space in the channel.\<close>

definition shutdown_deadlock :: "'e coalescer \<Rightarrow> bool" where
  "shutdown_deadlock s \<longleftrightarrow> co_loop s = WaitMergers \<and> \<not> has_space s \<and> (\<exists>sid ev. co_merger s sid = LastHold ev)"

lemma last_hold_waits:
  "merger_step s s' \<Longrightarrow> \<not> has_space s \<Longrightarrow> co_merger s sid = LastHold ev \<Longrightarrow>
     co_merger s' sid = LastHold ev \<and> \<not> has_space s' \<and> co_loop s' = co_loop s"
  by (induction rule: merger_step.induct) (auto simp: coalescer_defs)

lemma deadlock_merger_step: "merger_step s s' \<Longrightarrow> shutdown_deadlock s \<Longrightarrow> shutdown_deadlock s'"
  using last_hold_waits [of s s'] by (force simp: shutdown_deadlock_def)

lemma deadlock_step: "coalescer_step s s' \<Longrightarrow> shutdown_deadlock s \<Longrightarrow> shutdown_deadlock s'"
proof (induction rule: coalescer_step.induct)
  case (merger s s')
  then show ?case using deadlock_merger_step by blast
next
  case (loop s s')
  then show ?case
  proof (cases rule: loop_step.cases)
    case mergers_done
    then show ?thesis using loop.prems by (force simp: in_waitgroup_def shutdown_deadlock_def split: mergerPc.splits)
  qed (auto simp: shutdown_deadlock_def)
qed (auto simp: shutdown_deadlock_def has_space_def)

text \<open>The channel is filled by one source while the loop is not scheduled.\<close>

definition filling :: "nat \<Rightarrow> nat \<Rightarrow> nat \<Rightarrow> 'e \<Rightarrow> 'e coalescer" where
  "filling cap n k ev = (newCoalescer cap n)\<lparr>co_merger := (\<lambda>_. Unregistered)(''a'' := Receiving),
     co_merged := replicate k (''a'', ev), co_sent := (\<lambda>_. [])(''a'' := replicate k ev)\<rparr>"

lemma reach_holding:
  assumes "coalescer_reach cap n (filling cap n k ev)"
  shows "coalescer_reach cap n ((filling cap n k ev)\<lparr>co_merger := (\<lambda>_. Unregistered)(''a'' := Holding ev),
    co_sent := (\<lambda>_. [])(''a'' := replicate k ev @ [ev])\<rparr>)"
proof -
  have "coalescer_step (filling cap n k ev) ((filling cap n k ev)\<lparr>co_in := (\<lambda>_. [])(''a'' := [ev]),
      co_sent := (\<lambda>_. [])(''a'' := replicate k ev @ [ev])\<rparr>)" (is "coalescer_step _ ?s1")
    using adapter_send [of "filling cap n k ev" "''a''" ev] by (simp add: filling_def newCoalescer_def)
  then have 1: "coalescer_reach cap n ?s1" by (rule coalescer_reach.step [OF assms])
  have "merger_step ?s1 (take_event ''a'' [] (Holding ev) ?s1)"
    by (rule merger_step.take) (simp_all add: filling_def newCoalescer_def)
  from coalescer_reach.step [OF 1 coalescer_step.merger [OF this]] show ?thesis
    by (simp add: filling_def newCoalescer_def take_event_def set_merger_def fun_upd_idem)
qed

lemma reach_filling: "k \<le> cap \<Longrightarrow> coalescer_reach cap n (filling cap n k ev)"
proof (induction k)
  case 0
  have 0: "coalescer_reach cap n (newCoalescer cap n :: 'e coalescer)" by (rule coalescer_reach.init)
  have "merger_step (newCoalescer cap n) (set_merger ''a'' Registering (newCoalescer cap n :: 'e coalescer))"
    by (rule merger_step.register) (simp add: newCoalescer_def)
  then have 1: "coalescer_reach cap n (set_merger ''a'' Registering (newCoalescer cap n :: 'e coalescer))"
    by (rule coalescer_reach.step [OF 0 coalescer_step.merger])
  have "merger_step (set_merger ''a'' Registering (newCoalescer cap n))
      (set_merger ''a'' Receiving (set_merger ''a'' Registering (newCoalescer cap n :: 'e coalescer)))"
    by (rule merger_step.register_end) (simp_all add: newCoalescer_def set_merger_def)
  from coalescer_reach.step [OF 1 coalescer_step.merger [OF this]] show ?case
    by (simp add: filling_def newCoalescer_def set_merger_def fun_upd_idem)
next
  case (Suc k)
  let ?s = "(filling cap n k ev)\<lparr>co_merger := (\<lambda>_. Unregistered)(''a'' := Holding ev),
    co_sent := (\<lambda>_. [])(''a'' := replicate k ev @ [ev])\<rparr>"
  have 1: "coalescer_reach cap n ?s" using Suc reach_holding by simp
  have "merger_step ?s (forward ''a'' ev Receiving ?s)"
    using Suc.prems by (intro merger_step.send) (simp_all add: filling_def newCoalescer_def has_space_def)
  from coalescer_reach.step [OF 1 coalescer_step.merger [OF this]] show ?case
    by (simp add: filling_def newCoalescer_def forward_def set_merger_def replicate_append_same)
qed

lemma coalescer_keeps_order_witness:
  "coalescer_reach 4 9 (filling 4 9 2 (7 :: nat)) \<and> in_flight ''a'' (filling 4 9 2 (7 :: nat)) = [7, 7]"
proof -
  have r: "coalescer_reach 4 9 (filling 4 9 2 (7 :: nat))" by (rule reach_filling) simp
  have "handled ''a'' (filling 4 9 2 (7 :: nat)) = []" by (simp add: handled_def filling_def newCoalescer_def)
  moreover have "co_sent (filling 4 9 2 (7 :: nat)) ''a'' = [7, 7]" by (simp add: filling_def numeral_2_eq_2)
  ultimately show ?thesis using r coalescer_keeps_order [OF r, of "''a''"] by simp
qed

text \<open>
  C28. The shutdown can deadlock, for every capacity of the channel: if the channel is full
  when the context is cancelled and a merger still holds an event, the run loop has stopped
  receiving and waits for the mergers, while the merger waits for space. No step of any
  goroutine, adapter or context leads out of such a state, so the loop never returns and the
  batch, the channel and the mergers' events are never flushed.
\<close>

theorem coalescer_shutdown_deadlock:
  "(\<exists>s. coalescer_reach cap n s \<and> shutdown_deadlock s) \<and>
   {s'. \<exists>s. shutdown_deadlock s \<and> coalescer_step s s'} \<subseteq> Collect shutdown_deadlock"
proof
  obtain ev :: 'e where True by blast
  let ?s0 = "(filling cap n cap ev)\<lparr>co_merger := (\<lambda>_. Unregistered)(''a'' := Holding ev),
    co_sent := (\<lambda>_. [])(''a'' := replicate cap ev @ [ev])\<rparr>"
  have 0: "coalescer_reach cap n ?s0" using reach_filling [of cap cap n ev] reach_holding by simp
  note 1 = coalescer_reach.step [OF 0 coalescer_step.cancel]
  have "loop_step (?s0\<lparr>co_ctxDone := True\<rparr>) (?s0\<lparr>co_ctxDone := True, co_stop := True, co_loop := WaitMergers\<rparr>)" (is "loop_step _ ?s2")
    using loop_step.shutdown [of "?s0\<lparr>co_ctxDone := True\<rparr>"] by (simp add: filling_def newCoalescer_def)
  note 2 = coalescer_reach.step [OF 1 coalescer_step.loop [OF this]]
  have "merger_step ?s2 (set_merger ''a'' (LastHold ev) ?s2)"
    by (rule merger_step.send_stop) (simp_all add: filling_def newCoalescer_def)
  note 3 = coalescer_reach.step [OF 2 coalescer_step.merger [OF this]]
  have "shutdown_deadlock (set_merger ''a'' (LastHold ev) ?s2)"
    by (simp add: shutdown_deadlock_def has_space_def set_merger_def filling_def newCoalescer_def)
  then show "\<exists>s :: 'e coalescer. coalescer_reach cap n s \<and> shutdown_deadlock s" using 3 by blast
  show "{s'. \<exists>s :: 'e coalescer. shutdown_deadlock s \<and> coalescer_step s s'} \<subseteq> Collect shutdown_deadlock"
    using deadlock_step by blast
qed

section \<open>The transaction of a batch\<close>

fun first_seen :: "'e taggedEvent list \<Rightarrow> string list" where
  "first_seen [] = []"
| "first_seen (te # rest) = fst te # filter (\<lambda>sid. sid \<noteq> fst te) (first_seen rest)"

lemma set_first_seen [simp]: "set (first_seen batch) = fst ` set batch"
  by (induction batch) auto

lemma distinct_first_seen [simp]: "distinct (first_seen batch)"
  by (induction batch) auto

lemma group_events_keys:
  "map fst (group_events batch acc) = map fst acc @ filter (\<lambda>sid. sid \<notin> fst ` set acc) (first_seen batch)"
proof (induction batch acc rule: group_events.induct)
  case (2 sid ev rest acc)
  show ?case
  proof (cases "map_of acc sid")
    case None
    then have new: "sid \<notin> fst ` set acc" by (simp add: map_of_eq_None_iff)
    have "filter (\<lambda>s. s \<notin> insert sid (fst ` set acc)) (first_seen rest) =
        filter (\<lambda>s. s \<notin> fst ` set acc) (filter (\<lambda>s. s \<noteq> sid) (first_seen rest))"
      unfolding filter_filter by (rule filter_cong) auto
    then show ?thesis using 2 None new by (simp add: fst_alist_put)
  next
    case (Some evs)
    then have old: "sid \<in> fst ` set acc" by (metis map_of_eq_None_iff option.distinct(1))
    have "filter (\<lambda>s. s \<notin> fst ` set acc) (first_seen rest) =
        filter (\<lambda>s. s \<notin> fst ` set acc) (filter (\<lambda>s. s \<noteq> sid) (first_seen rest))"
      unfolding filter_filter by (rule filter_cong) (use old in auto)
    then show ?thesis using 2 Some old by (simp add: keys_alist_put fst_alist_put insert_absorb)
  qed
qed simp

lemma group_events_lookup:
  "map_of (group_events batch acc) sid =
     (case map_of acc sid of
        Some evs \<Rightarrow> Some (evs @ events_of sid batch)
      | None \<Rightarrow> if sid \<in> fst ` set batch then Some (events_of sid batch) else None)"
proof (induction batch acc rule: group_events.induct)
  case (1 acc)
  then show ?case by (simp split: option.split)
next
  case (2 s ev rest acc)
  then show ?case by (cases "map_of acc s") (auto simp: map_add_def split: option.split)
qed

lemma group_events_eq: "group_events batch [] = map (\<lambda>sid. (sid, events_of sid batch)) (first_seen batch)"
proof -
  have k: "map fst (group_events batch []) = first_seen batch" by (simp add: group_events_keys)
  then have d: "distinct (map fst (group_events batch []))" by simp
  have "snd p = events_of (fst p) batch" if "p \<in> set (group_events batch [])" for p
    using map_of_is_SomeI [OF d, of "fst p" "snd p"] that group_events_lookup [of batch "[]" "fst p"]
    by (auto split: if_splits)
  then have "group_events batch [] = map (\<lambda>p. (fst p, events_of (fst p) batch)) (group_events batch [])"
    by (intro map_idI [symmetric]) (metis prod.collapse)
  also have "\<dots> = map (\<lambda>sid. (sid, events_of sid batch)) (map fst (group_events batch []))" by simp
  finally show ?thesis unfolding k .
qed

text \<open>The bodies of the registered sources in turn.\<close>

definition apply_in_turn ::
    "(string \<Rightarrow> 'e list \<Rightarrow> 'db \<Rightarrow> 'db option) \<Rightarrow> 'e taggedEvent list \<Rightarrow> string list \<Rightarrow> 'db \<Rightarrow> 'db option" where
  "apply_in_turn body batch sids db = fold (\<lambda>sid d. Option.bind d (body sid (events_of sid batch))) sids (Some db)"

lemma fold_None: "fold (\<lambda>sid d. Option.bind d (f sid)) sids None = None"
  by (induction sids) simp_all

lemma apply_sources_eq:
  "apply_sources body registered (map (\<lambda>sid. (sid, events_of sid batch)) sids) db applied =
     map_option (\<lambda>db'. (db', applied @ filter registered sids)) (apply_in_turn body batch (filter registered sids) db)"
proof (induction sids arbitrary: db applied)
  case (Cons sid sids)
  then show ?case
    by (cases "body sid (events_of sid batch) db") (simp_all add: apply_in_turn_def fold_None)
qed (simp add: apply_in_turn_def)

text \<open>
  C29. A batch is one transaction. If it fails, at its beginning, in a source's body or at
  its commit, the database is unchanged and no source is promoted. If it succeeds, each
  registered source of the batch has been applied once, in the order in which the sources
  first appear in the batch, to all of its events in their order, and exactly these sources
  are promoted.
\<close>

theorem coalescer_flush_atomic:
  "case flushBatch body registered begins commits batch db of
     (False, db', promoted) \<Rightarrow> db' = db \<and> promoted = [] \<and> batch \<noteq> [] \<and>
       \<not> (begins \<and> commits \<and> apply_in_turn body batch (filter registered (first_seen batch)) db \<noteq> None)
   | (True, db', promoted) \<Rightarrow>
       promoted = filter registered (first_seen batch) \<and> apply_in_turn body batch promoted db = Some db'"
proof (cases "batch = []")
  case True
  then show ?thesis by (simp add: flushBatch_def apply_in_turn_def)
next
  case False
  then show ?thesis
    by (cases begins; cases commits; cases "apply_in_turn body batch (filter registered (first_seen batch)) db")
      (simp_all add: flushBatch_def group_events_eq apply_sources_eq)
qed

text \<open>
  A flush started by the batch size stops the timer and does not rearm it, although rollup
  buckets may be pending; without further events the loop has no step that refreshes them.
\<close>

lemma coalescer_timer_lost:
  "\<exists>s :: 'e coalescer. coalescer_reach 4 1 s \<and> co_pendingRollups s \<and> co_batch s = [] \<and> \<not> (\<exists>s'. loop_step s s')"
proof -
  obtain ev :: 'e where True by blast
  let ?s0 = "filling 4 1 1 ev"
  have 0: "coalescer_reach 4 1 ?s0" by (rule reach_filling) simp
  have "loop_step ?s0 (?s0\<lparr>co_merged := [], co_batch := [(''a'', ev)], co_loop := Flushing 0 False\<rparr>)" (is "loop_step _ ?s1")
    using loop_step.receive_full [of ?s0 "(''a'', ev)" "[]"] by (simp add: filling_def newCoalescer_def)
  note 1 = coalescer_reach.step [OF 0 coalescer_step.loop [OF this]]
  have "loop_step ?s1 (after_flush False True (finish_batch True ?s1))" (is "loop_step _ ?s2")
    by (rule loop_step.flush_ok [where n = 0]) simp
  note 2 = coalescer_reach.step [OF 1 coalescer_step.loop [OF this]]
  have "\<not> loop_step ?s2 s'" for s'
    by (auto elim!: loop_step.cases simp: after_flush_def finish_batch_def filling_def newCoalescer_def)
  then show ?thesis using 2 by (intro exI [of _ ?s2]) (auto simp: after_flush_def finish_batch_def)
qed

end
