(* ===== verification/Canonical.thy ===== *)
theory Canonical
  imports Prelude
begin

text \<open>
  The canonical events of \<open>internal/canonical/events.go\<close> and the JSON values that travel in
  their extras, with the part of SQLite's JSON functions the ingester's SQL uses
  (\<open>json_extract\<close>, \<open>json_type\<close>, \<open>json_set\<close>, \<open>json_patch\<close>).

  A Go \<open>map[string]any\<close> is an association list. The model keeps JSON numbers to integers: the
  ingester never computes with a number of an extras object, it only compares one with 1.
\<close>

section \<open>JSON\<close>

datatype json = JNull | JBool bool | JNum int | JStr string | JArr "json list" | JObj "(string \<times> json) list"

type_synonym extras = "(string \<times> json) list"

text \<open>The value at a path of object keys; \<open>json_type\<close> is not NULL when there is one.\<close>

fun json_at :: "json \<Rightarrow> string list \<Rightarrow> json option" where
  "json_at j [] = Some j"
| "json_at (JObj m) (k # ks) = (case map_of m k of None \<Rightarrow> None | Some v \<Rightarrow> json_at v ks)"
| "json_at j (k # ks) = None"

text \<open>
  \<open>json_extract\<close> of a nullable column: NULL for a NULL column, a missing path and a JSON null.
  Later SQL operators see the JSON value as an SQL value; a nested \<open>json_set\<close> takes it as it is.
\<close>

definition sql_value :: "json option \<Rightarrow> json option" where
  "sql_value v = (if v = Some JNull then None else v)"

definition json_extract :: "json option \<Rightarrow> string list \<Rightarrow> json option" where
  "json_extract col path = (case col of None \<Rightarrow> None | Some j \<Rightarrow> sql_value (json_at j path))"

text \<open>\<open>json_set\<close> replaces the value at the path or adds it, with the objects on the way.\<close>

fun json_make :: "string list \<Rightarrow> json \<Rightarrow> json" where
  "json_make [] v = v"
| "json_make (k # ks) v = JObj [(k, json_make ks v)]"

fun json_set :: "json \<Rightarrow> string list \<Rightarrow> json \<Rightarrow> json" where
  "json_set j [] v = v"
| "json_set (JObj m) (k # ks) v =
     JObj (alist_put k (case map_of m k of None \<Rightarrow> json_make ks v | Some x \<Rightarrow> json_set x ks v) m)"
| "json_set j (k # ks) v = j"

text \<open>\<open>json_patch\<close>, the merge patch of RFC 7396: null deletes a key, objects merge.\<close>

function (sequential) json_patch :: "json \<Rightarrow> json \<Rightarrow> json"
  and patch_members :: "(string \<times> json) list \<Rightarrow> (string \<times> json) list \<Rightarrow> (string \<times> json) list" where
  "json_patch t (JObj p) = JObj (patch_members (case t of JObj m \<Rightarrow> m | _ \<Rightarrow> []) p)"
| "json_patch t v = v"
| "patch_members m [] = m"
| "patch_members m ((k, v) # ps) = patch_members
     (case v of JNull \<Rightarrow> filter (\<lambda>e. fst e \<noteq> k) m
      | _ \<Rightarrow> alist_put k (json_patch (case map_of m k of None \<Rightarrow> JNull | Some x \<Rightarrow> x) v) m) ps"
  by pat_completeness auto
termination
  by (relation "measure (\<lambda>x. case x of Inl (t, p) \<Rightarrow> size p
      | Inr (m, ps) \<Rightarrow> size_list (size_prod (\<lambda>_. 0) size) ps)") auto

section \<open>Events\<close>

record EventBase =
  SourceID :: string
  SourceSeq :: u64
  Ts :: i64

text \<open>Kinds and statuses are string types in Go.\<close>

definition KindRoot :: string where "KindRoot = ''root''"
definition StatusRunning :: string where "StatusRunning = ''running''"
definition StatusCompleted :: string where "StatusCompleted = ''completed''"
definition StatusFailed :: string where "StatusFailed = ''failed''"
definition OpLLM :: string where "OpLLM = ''llm''"
definition OpTool :: string where "OpTool = ''tool''"

record SessionStartedEvent = EventBase +
  sst_NativeID :: string
  sst_RootNativeID :: string
  sst_ParentNativeID :: string
  sst_ParentOpKey :: string
  sst_Kind :: string
  sst_AgentName :: string
  sst_Model :: string
  sst_Cwd :: string
  sst_CallPath :: string
  sst_Provider :: string
  sst_ProviderAlias :: string
  sst_Extras :: extras

record SessionUpdatedEvent = EventBase +
  su_NativeID :: string
  su_AgentName :: string
  su_Model :: string
  su_Cwd :: string
  su_Status :: string
  su_Provider :: string
  su_ProviderAlias :: string
  su_Extras :: extras

record SessionFinalizedEvent = EventBase +
  sf_NativeID :: string
  sf_Status :: string
  sf_ErrorClass :: string
  sf_ErrorMessage :: string
  sf_EndTs :: i64

record TurnStartedEvent = EventBase +
  ts_SessionNativeID :: string
  ts_Seq :: int

record 'c TurnFinalizedEvent = EventBase +
  tf_SessionNativeID :: string
  tf_Seq :: int
  tf_Status :: string
  tf_ErrorClass :: string
  tf_EndTs :: i64
  tf_TokensIn :: i64
  tf_TokensOut :: i64
  tf_TokensCacheRead :: i64
  tf_TokensCacheWrite :: i64
  tf_CostUSD :: 'c
  tf_Extras :: extras

record OpStartedEvent = EventBase +
  os_SessionNativeID :: string
  os_TurnSeq :: int
  os_Seq :: int
  os_ParentOpSeq :: int
  os_Kind :: string
  os_Name :: string
  os_ToolNamespace :: string
  os_Model :: string
  os_Provider :: string
  os_ProviderAlias :: string
  os_ReasoningKind :: string
  os_ChildSessionNativeID :: string
  os_Extras :: extras

record 'c OpFinalizedEvent = EventBase +
  of_SessionNativeID :: string
  of_TurnSeq :: int
  of_Seq :: int
  of_Status :: string
  of_ErrorClass :: string
  of_ErrorMessage :: string
  of_EndTs :: i64
  of_TokensIn :: i64
  of_TokensOut :: i64
  of_TokensCacheRead :: i64
  of_TokensCacheWrite :: i64
  of_CostUSD :: 'c
  of_BytesIn :: i64
  of_BytesOut :: i64
  of_CharsIn :: i64
  of_CharsOut :: i64
  of_CtxUsed :: i64
  of_CtxMax :: i64

record PayloadRefEvent = EventBase +
  pr_SessionNativeID :: string
  pr_TurnSeq :: int
  pr_OpSeq :: int
  pr_PayloadKind :: string
  pr_Format :: string
  pr_Compression :: string
  pr_LocationURI :: string
  pr_OriginalBytes :: i64
  pr_StoredBytes :: i64
  pr_SHA256 :: string

record LogEntryEvent = EventBase +
  le_SessionNativeID :: string
  le_TurnSeq :: int
  le_OpSeq :: int
  le_Severity :: string
  le_Source :: string
  le_Message :: string
  le_Extras :: extras

record SourceProgressEvent = EventBase +
  sp_Cursor :: string

record SourceErrorEvent = EventBase +
  se_File :: string
  se_Offset :: i64
  se_Message :: string

datatype 'c Event =
    EvSessionStarted SessionStartedEvent
  | EvSessionUpdated SessionUpdatedEvent
  | EvSessionFinalized SessionFinalizedEvent
  | EvTurnStarted TurnStartedEvent
  | EvTurnFinalized "'c TurnFinalizedEvent"
  | EvOpStarted OpStartedEvent
  | EvOpFinalized "'c OpFinalizedEvent"
  | EvPayloadRef PayloadRefEvent
  | EvLogEntry LogEntryEvent
  | EvSourceProgress SourceProgressEvent
  | EvSourceError SourceErrorEvent

fun EventSourceSeq :: "'c Event \<Rightarrow> u64" where
  "EventSourceSeq (EvSessionStarted e) = SourceSeq e"
| "EventSourceSeq (EvSessionUpdated e) = SourceSeq e"
| "EventSourceSeq (EvSessionFinalized e) = SourceSeq e"
| "EventSourceSeq (EvTurnStarted e) = SourceSeq e"
| "EventSourceSeq (EvTurnFinalized e) = SourceSeq e"
| "EventSourceSeq (EvOpStarted e) = SourceSeq e"
| "EventSourceSeq (EvOpFinalized e) = SourceSeq e"
| "EventSourceSeq (EvPayloadRef e) = SourceSeq e"
| "EventSourceSeq (EvLogEntry e) = SourceSeq e"
| "EventSourceSeq (EvSourceProgress e) = SourceSeq e"
| "EventSourceSeq (EvSourceError e) = SourceSeq e"

fun EventTs :: "'c Event \<Rightarrow> i64" where
  "EventTs (EvSessionStarted e) = Ts e"
| "EventTs (EvSessionUpdated e) = Ts e"
| "EventTs (EvSessionFinalized e) = Ts e"
| "EventTs (EvTurnStarted e) = Ts e"
| "EventTs (EvTurnFinalized e) = Ts e"
| "EventTs (EvOpStarted e) = Ts e"
| "EventTs (EvOpFinalized e) = Ts e"
| "EventTs (EvPayloadRef e) = Ts e"
| "EventTs (EvLogEntry e) = Ts e"
| "EventTs (EvSourceProgress e) = Ts e"
| "EventTs (EvSourceError e) = Ts e"

end
