(* ===== verification/Extras.thy ===== *)
theory Extras
  imports Canonical
begin

text \<open>
  The extras of sessions, turns and ops (\<open>internal/ingest/writer.go\<close>): merging maps, the
  \<open>aiViewer\<close> object with the join keys of the resolver, and the \<open>ON CONFLICT\<close> expressions that
  graft those keys when a row is written again.

  \<open>existing\<close> is the stored \<open>extras_json\<close>, \<open>excluded\<close> the new one; NULL is \<open>None\<close>.
\<close>

definition marshalExtras :: "extras \<Rightarrow> json option" where
  "marshalExtras extras = (if extras = [] then None else Some (JObj extras))"

definition merge_member :: "string \<times> json \<Rightarrow> extras \<Rightarrow> extras" where
  "merge_member kv out = (case kv of (k, v) \<Rightarrow>
     case map_of out k of
       Some (JObj am) \<Rightarrow> (case v of
           JObj bm \<Rightarrow> alist_put k (JObj (fold (\<lambda>(kk, vv). alist_put kk vv) bm am)) out
         | _ \<Rightarrow> alist_put k v out)
     | _ \<Rightarrow> alist_put k v out)"

definition mergeExtras :: "extras \<Rightarrow> extras \<Rightarrow> extras" where
  "mergeExtras a b = fold merge_member b a"

definition marshalSessionAiViewerStash :: "string \<Rightarrow> string \<Rightarrow> string \<Rightarrow> json option" where
  "marshalSessionAiViewerStash parentNativeID parentOpKey rootNativeID =
     (if parentNativeID = [] \<and> parentOpKey = [] \<and> rootNativeID = [] then None
      else Some (JObj [(''aiViewer'', JObj (filter (\<lambda>e. snd e \<noteq> JStr [])
        [(''parentNativeId'', JStr parentNativeID), (''parentOpKey'', JStr parentOpKey),
         (''rootNativeId'', JStr rootNativeID)]))]))"

section \<open>Grafting the join keys\<close>

definition aiViewerStashKeys :: "string list" where
  "aiViewerStashKeys = [''toolUseId'', ''childNativeId'']"

definition sessionSyntheticLinkageKeys :: "string list" where
  "sessionSyntheticLinkageKeys = [''parentNativeId'', ''parentOpKey'', ''rootNativeId'', ''toolUseId'', ''childNativeId'']"

abbreviation ai_path :: "string \<Rightarrow> string list" where
  "ai_path key \<equiv> [''aiViewer'', key]"

definition graftAiViewerKey :: "json option \<Rightarrow> string \<Rightarrow> json \<Rightarrow> json" where
  "graftAiViewerKey existing key base = (case json_extract existing (ai_path key) of
       None \<Rightarrow> base
     | Some v \<Rightarrow> if json_extract (Some base) (ai_path key) = None then json_set base (ai_path key) v else base)"

definition graftAiViewerKeyOnto :: "json option \<Rightarrow> string \<Rightarrow> json \<Rightarrow> json" where
  "graftAiViewerKeyOnto existing key base = (case json_extract existing (ai_path key) of
       None \<Rightarrow> base | Some v \<Rightarrow> json_set base (ai_path key) v)"

definition graftAiViewerExtras :: "json option \<Rightarrow> json option \<Rightarrow> json option" where
  "graftAiViewerExtras existing excluded = (case excluded of
       None \<Rightarrow> (let stashOnly = fold (graftAiViewerKeyOnto existing) aiViewerStashKeys (JObj [])
               in if json_extract (Some stashOnly) [''aiViewer''] = None then None else Some stashOnly)
     | Some base \<Rightarrow> (case existing of None \<Rightarrow> excluded
         | Some _ \<Rightarrow> Some (fold (graftAiViewerKey existing) aiViewerStashKeys base)))"

text \<open>A session synthesized from its parent does not replace what a real start has written.\<close>

definition preserveRealSessionMetadata :: "json option \<Rightarrow> json option \<Rightarrow> bool" where
  "preserveRealSessionMetadata existing excluded \<longleftrightarrow>
     (json_extract excluded [''synthesizedFromParent''] = Some (JNum 1) \<or>
      json_extract excluded [''synthesizedFromParent''] = Some (JBool True)) \<and>
     (case existing of None \<Rightarrow> False | Some j \<Rightarrow> json_at j [''capturePayloads''] \<noteq> None)"

definition sql_nonempty :: "json option \<Rightarrow> bool" where
  "sql_nonempty v \<longleftrightarrow> v \<noteq> None \<and> v \<noteq> Some (JStr [])"

definition syntheticConflictsWithExistingSessionLineage :: "string \<Rightarrow> json option \<Rightarrow> json option \<Rightarrow> bool" where
  "syntheticConflictsWithExistingSessionLineage key existing excluded \<longleftrightarrow>
     preserveRealSessionMetadata existing excluded \<and> sql_nonempty (json_extract existing (ai_path key)) \<and>
     (\<not> sql_nonempty (json_extract excluded (ai_path key)) \<or>
      json_extract excluded (ai_path key) \<noteq> json_extract existing (ai_path key))"

definition graftIncomingSessionLinkageKey :: "json option \<Rightarrow> string \<Rightarrow> json \<Rightarrow> json" where
  "graftIncomingSessionLinkageKey incoming key base =
     (if sql_nonempty (json_extract incoming (ai_path key)) \<and> \<not> sql_nonempty (json_extract (Some base) (ai_path key))
      then json_set base (ai_path key) (the (json_extract incoming (ai_path key))) else base)"

definition sessionStartedExtras :: "json option \<Rightarrow> json option \<Rightarrow> json option" where
  "sessionStartedExtras existing excluded =
     (if preserveRealSessionMetadata existing excluded
      then map_option (fold (graftIncomingSessionLinkageKey excluded) sessionSyntheticLinkageKeys) existing
      else graftAiViewerExtras existing excluded)"

section \<open>Join keys survive\<close>

text \<open>The extras whose \<open>aiViewer\<close>, if there is one, is an object.\<close>

fun is_object :: "json \<Rightarrow> bool" where
  "is_object (JObj _) = True"
| "is_object _ = False"

fun object_at_ai :: "json \<Rightarrow> bool" where
  "object_at_ai (JObj m) = (case map_of m ''aiViewer'' of None \<Rightarrow> True | Some a \<Rightarrow> is_object a)"
| "object_at_ai _ = False"

lemma is_objectE: "is_object j \<Longrightarrow> \<exists>m. j = JObj m"
  by (cases j) auto

lemma object_at_aiE:
  assumes "object_at_ai j"
  obtains m where "j = JObj m" "map_of m ''aiViewer'' = None"
  | m a where "j = JObj m" "map_of m ''aiViewer'' = Some (JObj a)"
  using assms by (cases j) (auto dest!: is_objectE split: option.splits)

lemma json_set_ai:
  assumes "object_at_ai j"
  shows "json_at (json_set j (ai_path k) v) (ai_path k') = (if k' = k then Some v else json_at j (ai_path k'))"
    and "object_at_ai (json_set j (ai_path k) v)"
  using assms by (auto elim!: object_at_aiE split: option.splits)

lemma json_extract_not_null: "json_extract col path = Some v \<Longrightarrow> sql_value (Some v) = Some v"
  by (auto simp: json_extract_def sql_value_def split: option.splits if_splits)

lemma graftAiViewerKey_extract:
  assumes "object_at_ai j"
  shows "json_extract (Some (graftAiViewerKey existing k j)) (ai_path k') =
      (if k' = k \<and> json_extract (Some j) (ai_path k) = None then json_extract existing (ai_path k)
       else json_extract (Some j) (ai_path k'))"
    and "object_at_ai (graftAiViewerKey existing k j)"
proof -
  show "object_at_ai (graftAiViewerKey existing k j)"
    using assms json_set_ai(2) by (simp add: graftAiViewerKey_def split: option.splits)
  show "json_extract (Some (graftAiViewerKey existing k j)) (ai_path k') =
      (if k' = k \<and> json_extract (Some j) (ai_path k) = None then json_extract existing (ai_path k)
       else json_extract (Some j) (ai_path k'))"
  proof (cases "json_extract existing (ai_path k)")
    case (Some v)
    have set: "json_extract (Some (json_set j (ai_path k) v)) (ai_path k') =
        (if k' = k then sql_value (Some v) else json_extract (Some j) (ai_path k'))"
      by (simp only: json_extract_def option.case json_set_ai(1) [OF assms] if_distrib [of sql_value] cong: if_cong)
    show ?thesis
      unfolding graftAiViewerKey_def Some option.case
      by (cases "json_extract (Some j) (ai_path k)") (simp_all only: set json_extract_not_null [OF Some] if_True if_False
          option.distinct simp_thms)
  qed (simp add: graftAiViewerKey_def)
qed

text \<open>
  Writing a row again keeps each join key: the new value where the new extras have one, the
  stored one otherwise.
\<close>

lemma graftAiViewerExtras_keeps:
  assumes "object_at_ai new" "key \<in> set aiViewerStashKeys"
  shows "json_extract (graftAiViewerExtras (Some old) (Some new)) (ai_path key) =
    (if json_extract (Some new) (ai_path key) = None then json_extract (Some old) (ai_path key)
     else json_extract (Some new) (ai_path key))"
proof -
  have k: "key = ''toolUseId'' \<or> key = ''childNativeId''" using assms(2) by (simp add: aiViewerStashKeys_def)
  let ?g = "graftAiViewerKey (Some old)"
  have "json_extract (Some (?g ''childNativeId'' (?g ''toolUseId'' new))) (ai_path key) =
    (if json_extract (Some new) (ai_path key) = None then json_extract (Some old) (ai_path key)
     else json_extract (Some new) (ai_path key))"
    using k by (elim disjE) (simp_all only: graftAiViewerKey_extract(1) [OF graftAiViewerKey_extract(2) [OF assms(1)]]
      graftAiViewerKey_extract(1) [OF assms(1)], simp_all)
  then show ?thesis
    by (simp only: graftAiViewerExtras_def option.case aiViewerStashKeys_def fold_simps o_def)
qed

end
