(* ===== verification/Ingest_Store.thy ===== *)
theory Ingest_Store
  imports Canonical Rollups
begin

text \<open>
  The tables the ingester's writer works on (\<open>internal/store/migrations\<close>) and the identifiers
  of their rows (\<open>internal/ingest/ids.go\<close>).

  A table with a primary key is an association list from the key to the row, in the order of
  insertion; a nullable column is an option. The natural keys (a source and a native id, a
  session and a turn number, a turn and an op number) determine the hashed primary keys; two
  natural keys with the same hash, which the database would refuse, are not modelled.
  Counters are 64-bit words; SQLite's promotion of an overflowing sum to a float is not
  modelled. Costs are of an abstract type \<open>'c\<close>.
\<close>

section \<open>Identifiers\<close>

text \<open>\<open>hash\<close> is SHA-256 cut to 16 bytes, in hexadecimal.\<close>

definition hashID :: "(string \<Rightarrow> string) \<Rightarrow> string list \<Rightarrow> string" where
  "hashID hash parts = hash (concat parts)"

definition canonicalSessionID :: "(string \<Rightarrow> string) \<Rightarrow> string \<Rightarrow> string \<Rightarrow> string" where
  "canonicalSessionID hash sourceID nativeID = hashID hash [sourceID, ''|'', nativeID]"

definition canonicalTurnID :: "(string \<Rightarrow> string) \<Rightarrow> string \<Rightarrow> int \<Rightarrow> string" where
  "canonicalTurnID hash sessionID seq = hashID hash [sessionID, ''|t|'', itoa seq]"

definition canonicalOpID :: "(string \<Rightarrow> string) \<Rightarrow> string \<Rightarrow> int \<Rightarrow> string" where
  "canonicalOpID hash turnID seq = hashID hash [turnID, ''|o|'', itoa seq]"

section \<open>NULL\<close>

definition nullIfEmpty :: "string \<Rightarrow> string option" where
  "nullIfEmpty s = (if s = [] then None else Some s)"

definition nullIfZero :: "i64 \<Rightarrow> i64 option" where
  "nullIfZero v = (if v = 0 then None else Some v)"

definition nonEmpty :: "string \<Rightarrow> string \<Rightarrow> string" where
  "nonEmpty s fallback = (if s = [] then fallback else s)"

text \<open>\<open>COALESCE\<close> of two columns, \<open>COALESCE(NULLIF(x, ''), y)\<close>, a nullable string read as one.\<close>

definition coalesce :: "'a option \<Rightarrow> 'a option \<Rightarrow> 'a option" where
  "coalesce a b = (case a of None \<Rightarrow> b | Some _ \<Rightarrow> a)"

definition coalesce_nonempty :: "string option \<Rightarrow> string option \<Rightarrow> string option" where
  "coalesce_nonempty a b = coalesce (case a of None \<Rightarrow> None | Some s \<Rightarrow> nullIfEmpty s) b"

definition nullableString :: "string option \<Rightarrow> string" where
  "nullableString s = (case s of None \<Rightarrow> [] | Some x \<Rightarrow> x)"

definition min64 :: "i64 \<Rightarrow> i64 \<Rightarrow> i64" where
  "min64 a b = (if i64_less b a then b else a)"

definition max64 :: "i64 \<Rightarrow> i64 \<Rightarrow> i64" where
  "max64 a b = (if i64_less a b then b else a)"

lemma max64_ge: "sint a \<le> sint (max64 a b)" "sint b \<le> sint (max64 a b)"
  by (simp_all add: max64_def)

lemma fold_max64_from: "sint t \<le> sint (fold max64 ts t)"
proof (induction ts arbitrary: t)
  case (Cons a ts)
  show ?case using Cons [of "max64 a t"] max64_ge(2) [of t a] by simp
qed simp

lemma fold_max64_ge: "x \<in> set ts \<Longrightarrow> sint x \<le> sint (fold max64 ts t)"
proof (induction ts arbitrary: t)
  case (Cons a ts)
  then show ?case using order_trans [OF max64_ge(1) [of a t] fold_max64_from [of "max64 a t" ts]] by auto
qed simp

lemma nullableString_coalesce_nonempty:
  "nullableString (coalesce_nonempty (nullIfEmpty s) b) = (if s \<noteq> [] then s else nullableString b)"
  by (simp add: nullableString_def coalesce_nonempty_def nullIfEmpty_def coalesce_def)

lemma nullableString_simps [simp]:
  "nullableString None = []" "nullableString (nullIfEmpty s) = s"
  by (simp_all add: nullableString_def nullIfEmpty_def)

section \<open>Rows\<close>

record 'c session_row =
  s_source_id :: string
  s_native_id :: string
  s_parent_session_id :: "string option"
  s_root_session_id :: string
  s_kind :: string
  s_agent_name :: "string option"
  s_model :: "string option"
  s_provider :: "string option"
  s_provider_alias :: "string option"
  s_cwd :: "string option"
  s_call_path :: "string option"
  s_status :: string
  s_error_class :: "string option"
  s_error_message :: "string option"
  s_start_ts :: i64
  s_end_ts :: "i64 option"
  s_last_activity_ts :: i64
  s_tokens_in :: i64
  s_tokens_out :: i64
  s_tokens_cache_read :: i64
  s_tokens_cache_write :: i64
  s_cost_usd :: 'c
  s_turn_count :: i64
  s_op_count :: i64
  s_failure_count :: i64
  s_extras_json :: "json option"

record 'c turn_row =
  t_session_id :: string
  t_seq :: int
  t_start_ts :: i64
  t_end_ts :: "i64 option"
  t_status :: string
  t_error_class :: "string option"
  t_tokens_in :: i64
  t_tokens_out :: i64
  t_tokens_cache_read :: i64
  t_tokens_cache_write :: i64
  t_cost_usd :: 'c
  t_op_count :: i64
  t_extras_json :: "json option"

record 'c op_row =
  op_turn_id :: string
  op_session_id :: string
  op_parent_op_id :: "string option"
  op_seq :: int
  op_kind :: string
  op_name :: string
  op_tool_namespace :: "string option"
  op_model :: "string option"
  op_provider :: "string option"
  op_provider_alias :: "string option"
  op_reasoning_kind :: "string option"
  op_start_ts :: i64
  op_end_ts :: "i64 option"
  op_duration_us :: "i64 option"
  op_status :: string
  op_error_class :: "string option"
  op_error_message :: "string option"
  op_tokens_in :: i64
  op_tokens_out :: i64
  op_tokens_cache_read :: i64
  op_tokens_cache_write :: i64
  op_cost_usd :: 'c
  op_bytes_in :: i64
  op_bytes_out :: i64
  op_chars_in :: "i64 option"
  op_chars_out :: "i64 option"
  op_ctx_used :: "i64 option"
  op_ctx_max :: "i64 option"
  op_child_session_id :: "string option"
  op_extras_json :: "json option"

record payload_ref_row =
  pl_op_id :: string
  pl_kind :: string
  pl_format :: string
  pl_compression :: "string option"
  pl_location_uri :: string
  pl_original_bytes :: "i64 option"
  pl_stored_bytes :: "i64 option"
  pl_sha256 :: "string option"

record log_row =
  lg_session_id :: "string option"
  lg_source_id :: "string option"
  lg_turn_id :: "string option"
  lg_op_id :: "string option"
  lg_ts :: i64
  lg_severity :: string
  lg_source :: string
  lg_message :: string
  lg_extras_json :: "json option"

record source_row =
  so_format :: string
  so_location :: string
  so_last_seen_at :: "i64 option"
  so_enabled :: bool
  so_parse_errors :: i64
  so_fts5_index_logs :: bool
  so_meta_json :: "string option"

text \<open>
  The rows of \<open>catalog_providers\<close>, \<open>catalog_models\<close> and \<open>catalog_tools\<close>: the columns of all
  three, the ones a table does not have stay at their default. \<open>totals\<close> are the summed columns
  (and the shape of \<open>catalogTotalsDelta\<close>).
\<close>

datatype 'c totals = Totals
  (failure: i64) (tokensIn: i64) (tokensOut: i64) (cacheRead: i64) (cacheWrite: i64) (costUSD: 'c) (durationUS: i64)

record 'c catalog_row =
  c_first_seen :: i64
  c_last_seen :: i64
  c_call_count :: i64
  c_totals :: "'c totals"
  c_ctx_max :: "i64 option"

record seen_row =
  n_first_seen :: i64
  n_last_seen :: i64
  n_session_count :: i64

record notify_row =
  nt_ts_us :: i64
  nt_kind :: string
  nt_session_id :: "string option"
  nt_root_session_id :: "string option"
  nt_source_id :: "string option"

text \<open>Of \<open>source_progress\<close> the checkpoint and the read-model state that the writer updates.\<close>

record progress_row =
  p_last_seq :: i64
  p_last_ts_us :: i64
  p_cursor :: "string option"
  p_updated_at :: i64
  p_read_model_state :: string
  p_read_model_state_at :: i64
  p_read_model_error :: "string option"

text \<open>A row of \<open>fts_ops\<close>, under the id of its op; the op's rowid stands for its id.\<close>

record fts_op_row =
  fo_name :: string
  fo_model :: string
  fo_provider :: string
  fo_tool_namespace :: string
  fo_error_text :: string
  fo_session_id :: string

record 'c db =
  sources :: "(string \<times> source_row) list"
  sessions :: "(string \<times> 'c session_row) list"
  turns :: "(string \<times> 'c turn_row) list"
  ops :: "(string \<times> 'c op_row) list"
  payload_refs :: "payload_ref_row list"
  log_entries :: "log_row list"
  fts_logs :: "log_row list"
  fts_ops :: "(string \<times> fts_op_row) list"
  rollup_hourly :: "(rowKey \<times> 'c RollupRow) list"
  rollup_daily :: "(rowKey \<times> 'c RollupRow) list"
  catalog_providers :: "((string \<times> string) \<times> 'c catalog_row) list"
  catalog_models :: "((string \<times> string) \<times> 'c catalog_row) list"
  catalog_tools :: "((string \<times> string) \<times> 'c catalog_row) list"
  catalog_agents :: "((string \<times> string) \<times> seen_row) list"
  catalog_cwds :: "((string \<times> string) \<times> seen_row) list"
  source_progress :: "(string \<times> progress_row) list"
  notify :: "notify_row list"

definition empty_db :: "'c db" where
  "empty_db = \<lparr>sources = [], sessions = [], turns = [], ops = [], payload_refs = [], log_entries = [],
     fts_logs = [], fts_ops = [], rollup_hourly = [], rollup_daily = [], catalog_providers = [], catalog_models = [], catalog_tools = [], catalog_agents = [],
     catalog_cwds = [], source_progress = [], notify = []\<rparr>"

section \<open>Table operations\<close>

definition has_key :: "'k \<Rightarrow> ('k \<times> 'v) list \<Rightarrow> bool" where
  "has_key k tab \<longleftrightarrow> map_of tab k \<noteq> None"

text \<open>\<open>UPDATE ... WHERE key = k\<close>: nothing happens without a row.\<close>

definition update_row :: "'k \<Rightarrow> ('v \<Rightarrow> 'v) \<Rightarrow> ('k \<times> 'v) list \<Rightarrow> ('k \<times> 'v) list" where
  "update_row k f tab = (case map_of tab k of None \<Rightarrow> tab | Some r \<Rightarrow> alist_put k (f r) tab)"

text \<open>\<open>INSERT ... ON CONFLICT DO UPDATE\<close>, with the row to insert and the update of an existing one.\<close>

definition upsert_row :: "'k \<Rightarrow> 'v \<Rightarrow> ('v \<Rightarrow> 'v) \<Rightarrow> ('k \<times> 'v) list \<Rightarrow> ('k \<times> 'v) list" where
  "upsert_row k new f tab = alist_put k (case map_of tab k of None \<Rightarrow> new | Some r \<Rightarrow> f r) tab"

text \<open>\<open>INSERT ... ON CONFLICT DO NOTHING\<close>.\<close>

definition insert_missing :: "'k \<Rightarrow> 'v \<Rightarrow> ('k \<times> 'v) list \<Rightarrow> ('k \<times> 'v) list" where
  "insert_missing k new tab = (if has_key k tab then tab else alist_put k new tab)"

lemma has_key_iff: "has_key k tab \<longleftrightarrow> k \<in> fst ` set tab"
  by (simp add: has_key_def map_of_eq_None_iff)

lemma keys_update_row [simp]: "fst ` set (update_row k f tab) = fst ` set tab"
  using dom_map_of_conv_image_fst [of tab]
  by (auto simp: update_row_def fst_alist_put insert_absorb split: option.splits)

lemma keys_upsert_row [simp]: "fst ` set (upsert_row k new f tab) = insert k (fst ` set tab)"
  by (simp add: upsert_row_def fst_alist_put)

lemma keys_insert_missing [simp]: "fst ` set (insert_missing k new tab) = insert k (fst ` set tab)"
  by (auto simp: insert_missing_def fst_alist_put has_key_iff)

lemma distinct_update_row [simp]: "distinct (map fst tab) \<Longrightarrow> distinct (map fst (update_row k f tab))"
  by (simp add: update_row_def split: option.splits)

lemma distinct_upsert_row [simp]: "distinct (map fst tab) \<Longrightarrow> distinct (map fst (upsert_row k new f tab))"
  by (simp add: upsert_row_def)

lemma distinct_insert_missing [simp]: "distinct (map fst tab) \<Longrightarrow> distinct (map fst (insert_missing k new tab))"
  by (simp add: insert_missing_def)

lemma map_of_update_row:
  "map_of (update_row k f tab) = (case map_of tab k of None \<Rightarrow> map_of tab | Some r \<Rightarrow> (map_of tab)(k \<mapsto> f r))"
  by (simp add: update_row_def split: option.splits)

lemma map_of_upsert_row:
  "map_of (upsert_row k new f tab) = (map_of tab)(k \<mapsto> (case map_of tab k of None \<Rightarrow> new | Some r \<Rightarrow> f r))"
  by (simp add: upsert_row_def)

text \<open>A sum over the rows of a table after one row is replaced.\<close>

lemma sum_alist_put:
  fixes f :: "'v \<Rightarrow> 'a :: ab_group_add"
  assumes "distinct (map fst tab)"
  shows "(\<Sum>e\<leftarrow>alist_put k v tab. f (snd e)) =
    (\<Sum>e\<leftarrow>tab. f (snd e)) - (case map_of tab k of None \<Rightarrow> 0 | Some r \<Rightarrow> f r) + f v"
  using assms by (induction tab) (auto simp: algebra_simps simp del: map_of_eq_Some_iff split: option.splits)

end
