(* ===== verification/Catalog.thy ===== *)
theory Catalog
  imports Ingest_Store
begin

text \<open>
  The inline catalog of the ingester: \<open>internal/ingest/catalog.go\<close>, \<open>catalog_finalize.go\<close> and
  \<open>catalog_migrate.go\<close>. Providers, models and tools keep a call counter and running totals that
  move with every started and finalized op; agents and working directories count sessions.

  The locale \<open>ledger\<close> is the contract of the three op catalogs: every row is the sum over the
  ops that carry its key. It is interpreted on each of them.
\<close>

section \<open>Totals\<close>

instantiation totals :: (ab_group_add) ab_group_add
begin

definition "0 = Totals 0 0 0 0 0 0 0"

definition "a + b = Totals (failure a + failure b) (tokensIn a + tokensIn b) (tokensOut a + tokensOut b)
   (cacheRead a + cacheRead b) (cacheWrite a + cacheWrite b) (costUSD a + costUSD b) (durationUS a + durationUS b)"

definition "- a = Totals (- failure a) (- tokensIn a) (- tokensOut a) (- cacheRead a) (- cacheWrite a)
   (- costUSD a) (- durationUS a)"

definition "a - b = Totals (failure a - failure b) (tokensIn a - tokensIn b) (tokensOut a - tokensOut b)
   (cacheRead a - cacheRead b) (cacheWrite a - cacheWrite b) (costUSD a - costUSD b) (durationUS a - durationUS b)"

instance
  by standard (simp_all add: plus_totals_def zero_totals_def uminus_totals_def minus_totals_def add_ac)

end

lemmas totals_defs = plus_totals_def zero_totals_def uminus_totals_def minus_totals_def

definition failureInc :: "string \<Rightarrow> i64" where
  "failureInc status = (if status = StatusFailed then 1 else 0)"

record 'c prior_totals =
  pt_found :: bool
  pt_status :: string
  pt_tokensIn :: i64
  pt_tokensOut :: i64
  pt_tokensCacheRead :: i64
  pt_tokensCacheWrite :: i64
  pt_costUSD :: 'c
  pt_durationUS :: i64

definition no_prior_totals :: "('c :: zero) prior_totals" where
  "no_prior_totals = \<lparr>pt_found = False, pt_status = [], pt_tokensIn = 0, pt_tokensOut = 0,
     pt_tokensCacheRead = 0, pt_tokensCacheWrite = 0, pt_costUSD = 0, pt_durationUS = 0\<rparr>"

definition prior_totals_of :: "'c op_row \<Rightarrow> 'c prior_totals" where
  "prior_totals_of r = \<lparr>pt_found = True, pt_status = op_status r, pt_tokensIn = op_tokens_in r,
     pt_tokensOut = op_tokens_out r, pt_tokensCacheRead = op_tokens_cache_read r,
     pt_tokensCacheWrite = op_tokens_cache_write r, pt_costUSD = op_cost_usd r,
     pt_durationUS = (case op_duration_us r of None \<Rightarrow> 0 | Some d \<Rightarrow> d)\<rparr>"

definition opPriorTotals :: "string \<Rightarrow> ('c :: zero) db \<Rightarrow> 'c prior_totals" where
  "opPriorTotals opID db = (case map_of (ops db) opID of None \<Rightarrow> no_prior_totals | Some r \<Rightarrow> prior_totals_of r)"

text \<open>The arguments of a migration statement, and the columns each table has.\<close>

definition booked_totals :: "'c prior_totals \<Rightarrow> 'c totals" where
  "booked_totals t = Totals (failureInc (pt_status t)) (pt_tokensIn t) (pt_tokensOut t)
     (pt_tokensCacheRead t) (pt_tokensCacheWrite t) (pt_costUSD t) (pt_durationUS t)"

definition provider_columns :: "'c totals \<Rightarrow> 'c totals" where
  "provider_columns t = Totals (failure t) (tokensIn t) (tokensOut t) (cacheRead t) (cacheWrite t) (costUSD t) 0"

definition model_columns :: "'c totals \<Rightarrow> 'c totals" where
  "model_columns t = t"

definition tool_columns :: "'c totals \<Rightarrow> 'c totals" where
  "tool_columns t = Totals (failure t) (tokensIn t) (tokensOut t) 0 0 (costUSD t) (durationUS t)"

definition catalogTotalsDeltaFrom :: "'c op_row \<Rightarrow> ('c :: ab_group_add) prior_totals \<Rightarrow> 'c totals" where
  "catalogTotalsDeltaFrom row prior = Totals
     (failureInc (op_status row) - failureInc (pt_status prior))
     (op_tokens_in row - pt_tokensIn prior)
     (op_tokens_out row - pt_tokensOut prior)
     (op_tokens_cache_read row - pt_tokensCacheRead prior)
     (op_tokens_cache_write row - pt_tokensCacheWrite prior)
     (op_cost_usd row - pt_costUSD prior)
     ((case op_duration_us row of None \<Rightarrow> 0 | Some d \<Rightarrow> d) - pt_durationUS prior)"

section \<open>Statements\<close>

text \<open>The upsert of a started op: the inserted row counts one call, an existing one \<open>callInc\<close> more.\<close>

definition bump_call ::
    "'k \<Rightarrow> i64 \<Rightarrow> i64 \<Rightarrow> i64 option \<Rightarrow> ('k \<times> ('c :: ab_group_add) catalog_row) list \<Rightarrow> ('k \<times> 'c catalog_row) list" where
  "bump_call k ts callInc ctxMaxSeed = upsert_row k
     \<lparr>c_first_seen = ts, c_last_seen = ts, c_call_count = 1, c_totals = 0, c_ctx_max = ctxMaxSeed\<rparr>
     (\<lambda>r. r\<lparr>c_first_seen := min64 (c_first_seen r) ts, c_last_seen := max64 (c_last_seen r) ts,
            c_call_count := c_call_count r + callInc, c_ctx_max := coalesce (c_ctx_max r) ctxMaxSeed\<rparr>)"

definition upsertProvider :: "string \<Rightarrow> string \<Rightarrow> i64 \<Rightarrow> i64 \<Rightarrow> ('c :: ab_group_add) db \<Rightarrow> 'c db" where
  "upsertProvider name alias ts callInc db =
     db\<lparr>catalog_providers := bump_call (name, alias) ts callInc None (catalog_providers db)\<rparr>"

definition updateFinalizedProvider ::
    "string \<Rightarrow> string \<Rightarrow> i64 \<Rightarrow> ('c :: ab_group_add) totals \<Rightarrow> 'c db \<Rightarrow> 'c db" where
  "updateFinalizedProvider provider alias endTs delta db = db\<lparr>catalog_providers := update_row (provider, alias)
     (\<lambda>r. r\<lparr>c_totals := c_totals r + provider_columns delta, c_last_seen := max64 (c_last_seen r) endTs\<rparr>)
     (catalog_providers db)\<rparr>"

definition updateFinalizedModel ::
    "string \<Rightarrow> string \<Rightarrow> i64 \<Rightarrow> i64 \<Rightarrow> ('c :: ab_group_add) totals \<Rightarrow> 'c db \<Rightarrow> 'c db" where
  "updateFinalizedModel provider model endTs ctxMax delta db = db\<lparr>catalog_models := update_row (provider, model)
     (\<lambda>r. r\<lparr>c_totals := c_totals r + model_columns delta,
            c_ctx_max := (if i64_less 0 ctxMax
              then Some (max64 (case c_ctx_max r of None \<Rightarrow> 0 | Some m \<Rightarrow> m) ctxMax) else c_ctx_max r),
            c_last_seen := max64 (c_last_seen r) endTs\<rparr>)
     (catalog_models db)\<rparr>"

definition normalizeToolNamespace :: "string \<Rightarrow> string" where
  "normalizeToolNamespace ns = (if ns = [] then ''builtin'' else ns)"

definition updateFinalizedTool :: "'c op_row \<Rightarrow> ('c :: ab_group_add) totals \<Rightarrow> i64 \<Rightarrow> 'c db \<Rightarrow> 'c db" where
  "updateFinalizedTool row delta endTs db =
     (let ns = normalizeToolNamespace (nullableString (op_tool_namespace row)) in
      db\<lparr>catalog_tools := update_row (ns, op_name row)
        (\<lambda>r. r\<lparr>c_totals := c_totals r + tool_columns delta, c_last_seen := max64 (c_last_seen r) endTs\<rparr>)
        (catalog_tools db)\<rparr>)"

text \<open>The statements of a migration: out of the old row with its call, into the new one without.\<close>

datatype migrateDir = migrateOut | migrateIn

definition migrate_row ::
    "'k \<Rightarrow> 'c totals \<Rightarrow> migrateDir \<Rightarrow> ('k \<times> ('c :: ab_group_add) catalog_row) list \<Rightarrow> ('k \<times> 'c catalog_row) list" where
  "migrate_row k t dir = update_row k (\<lambda>r. case dir of
       migrateOut \<Rightarrow> r\<lparr>c_call_count := c_call_count r - 1, c_totals := c_totals r - t\<rparr>
     | migrateIn \<Rightarrow> r\<lparr>c_totals := c_totals r + t\<rparr>)"

definition migrateProviderTotals ::
    "string \<Rightarrow> string \<Rightarrow> ('c :: ab_group_add) prior_totals \<Rightarrow> migrateDir \<Rightarrow> 'c db \<Rightarrow> 'c db" where
  "migrateProviderTotals provider alias t dir db =
     (if provider = [] then db
      else db\<lparr>catalog_providers := migrate_row (provider, alias) (provider_columns (booked_totals t)) dir
             (catalog_providers db)\<rparr>)"

definition migrateModelTotals ::
    "string \<Rightarrow> string \<Rightarrow> ('c :: ab_group_add) prior_totals \<Rightarrow> migrateDir \<Rightarrow> 'c db \<Rightarrow> 'c db" where
  "migrateModelTotals provider model t dir db =
     (if provider = [] \<or> model = [] then db
      else db\<lparr>catalog_models := migrate_row (provider, model) (model_columns (booked_totals t)) dir (catalog_models db)\<rparr>)"

definition migrateToolTotals ::
    "string \<Rightarrow> string \<Rightarrow> ('c :: ab_group_add) prior_totals \<Rightarrow> migrateDir \<Rightarrow> 'c db \<Rightarrow> 'c db" where
  "migrateToolTotals namespace name t dir db =
     (if name = [] then db
      else db\<lparr>catalog_tools := migrate_row (normalizeToolNamespace namespace, name)
             (tool_columns (booked_totals t)) dir (catalog_tools db)\<rparr>)"

section \<open>Identity of an op\<close>

record 'c priorOpIdentity =
  pi_found :: bool
  pi_kind :: string
  pi_name :: string
  pi_toolNamespace :: string
  pi_model :: string
  pi_provider :: string
  pi_providerAlias :: string
  pi_totals :: "'c prior_totals"

definition opPriorIdentity :: "string \<Rightarrow> ('c :: zero) db \<Rightarrow> 'c priorOpIdentity" where
  "opPriorIdentity opID db = (case map_of (ops db) opID of
       None \<Rightarrow> \<lparr>pi_found = False, pi_kind = [], pi_name = [], pi_toolNamespace = [], pi_model = [],
                pi_provider = [], pi_providerAlias = [], pi_totals = no_prior_totals\<rparr>
     | Some r \<Rightarrow> \<lparr>pi_found = True, pi_kind = op_kind r, pi_name = op_name r,
                pi_toolNamespace = nullableString (op_tool_namespace r), pi_model = nullableString (op_model r),
                pi_provider = nullableString (op_provider r), pi_providerAlias = nullableString (op_provider_alias r),
                pi_totals = prior_totals_of r\<rparr>)"

record effectiveCatalogIdentity =
  ei_kind :: string
  ei_name :: string
  ei_toolNamespace :: string
  ei_model :: string
  ei_provider :: string
  ei_providerAlias :: string

definition effectiveOpIdentity :: "OpStartedEvent \<Rightarrow> 'c priorOpIdentity \<Rightarrow> effectiveCatalogIdentity" where
  "effectiveOpIdentity ev prior =
     \<lparr>ei_kind = os_Kind ev, ei_name = os_Name ev,
      ei_toolNamespace = nonEmpty (os_ToolNamespace ev) (pi_toolNamespace prior),
      ei_model = nonEmpty (os_Model ev) (pi_model prior),
      ei_provider = nonEmpty (os_Provider ev) (pi_provider prior),
      ei_providerAlias = nonEmpty (os_ProviderAlias ev) (pi_providerAlias prior)\<rparr>"

definition catalogIdentityChanged :: "effectiveCatalogIdentity \<Rightarrow> 'c priorOpIdentity \<Rightarrow> bool" where
  "catalogIdentityChanged eff prior \<longleftrightarrow>
     (if ei_kind eff \<noteq> pi_kind prior then True
      else if ei_kind eff = OpLLM then ei_provider eff \<noteq> pi_provider prior \<or>
        ei_providerAlias eff \<noteq> pi_providerAlias prior \<or> ei_model eff \<noteq> pi_model prior
      else if ei_kind eff = OpTool then
        normalizeToolNamespace (ei_toolNamespace eff) \<noteq> normalizeToolNamespace (pi_toolNamespace prior) \<or>
        ei_name eff \<noteq> pi_name prior
      else False)"

section \<open>The handlers\<close>

text \<open>A pricing table may know the context size of a model: \<open>ctxMaxOf\<close>, NULL for none.\<close>

definition ctxMaxSeed :: "(string \<Rightarrow> string \<Rightarrow> i64 option) \<Rightarrow> string \<Rightarrow> string \<Rightarrow> i64 option" where
  "ctxMaxSeed ctxMaxOf provider model = (case ctxMaxOf provider model of
     None \<Rightarrow> None | Some cm \<Rightarrow> if i64_less 0 cm then Some cm else None)"

definition upsertStartedModel ::
    "(string \<Rightarrow> string \<Rightarrow> i64 option) \<Rightarrow> effectiveCatalogIdentity \<Rightarrow> i64 \<Rightarrow> i64 \<Rightarrow> ('c :: ab_group_add) db \<Rightarrow> 'c db" where
  "upsertStartedModel ctxMaxOf eff ts callInc db =
     (if ei_provider eff = [] \<or> ei_model eff = [] then db
      else db\<lparr>catalog_models := bump_call (ei_provider eff, ei_model eff) ts callInc
             (ctxMaxSeed ctxMaxOf (ei_provider eff) (ei_model eff)) (catalog_models db)\<rparr>)"

definition upsertStartedLLM ::
    "(string \<Rightarrow> string \<Rightarrow> i64 option) \<Rightarrow> effectiveCatalogIdentity \<Rightarrow> i64 \<Rightarrow> i64 \<Rightarrow> ('c :: ab_group_add) db \<Rightarrow> 'c db" where
  "upsertStartedLLM ctxMaxOf eff ts callInc db =
     upsertStartedModel ctxMaxOf eff ts callInc
       (if ei_provider eff \<noteq> [] then upsertProvider (ei_provider eff) (ei_providerAlias eff) ts callInc db else db)"

definition upsertStartedTool ::
    "effectiveCatalogIdentity \<Rightarrow> i64 \<Rightarrow> i64 \<Rightarrow> ('c :: ab_group_add) db \<Rightarrow> 'c db" where
  "upsertStartedTool eff ts callInc db =
     (if ei_name eff = [] then db
      else db\<lparr>catalog_tools := bump_call (normalizeToolNamespace (ei_toolNamespace eff), ei_name eff) ts callInc None
             (catalog_tools db)\<rparr>)"

definition upsertStartedCatalog ::
    "(string \<Rightarrow> string \<Rightarrow> i64 option) \<Rightarrow> effectiveCatalogIdentity \<Rightarrow> i64 \<Rightarrow> i64 \<Rightarrow> ('c :: ab_group_add) db \<Rightarrow> 'c db" where
  "upsertStartedCatalog ctxMaxOf eff ts callInc db =
     (if ei_kind eff = OpLLM then upsertStartedLLM ctxMaxOf eff ts callInc db
      else if ei_kind eff = OpTool then upsertStartedTool eff ts callInc db
      else db)"

definition removeOpContribution :: "('c :: ab_group_add) priorOpIdentity \<Rightarrow> 'c db \<Rightarrow> 'c db" where
  "removeOpContribution prior db =
     (if pi_kind prior = OpLLM then
        migrateModelTotals (pi_provider prior) (pi_model prior) (pi_totals prior) migrateOut
          (migrateProviderTotals (pi_provider prior) (pi_providerAlias prior) (pi_totals prior) migrateOut db)
      else if pi_kind prior = OpTool then
        migrateToolTotals (pi_toolNamespace prior) (pi_name prior) (pi_totals prior) migrateOut db
      else db)"

definition addMigratedTotals ::
    "effectiveCatalogIdentity \<Rightarrow> ('c :: ab_group_add) prior_totals \<Rightarrow> 'c db \<Rightarrow> 'c db" where
  "addMigratedTotals eff t db =
     (if ei_kind eff = OpLLM then
        migrateModelTotals (ei_provider eff) (ei_model eff) t migrateIn
          (migrateProviderTotals (ei_provider eff) (ei_providerAlias eff) t migrateIn db)
      else if ei_kind eff = OpTool then
        migrateToolTotals (ei_toolNamespace eff) (ei_name eff) t migrateIn db
      else db)"

definition catalogCallIncrement :: "bool \<Rightarrow> bool \<Rightarrow> i64" where
  "catalogCallIncrement inserted identityChanged = (if inserted \<or> identityChanged then 1 else 0)"

definition onOpStarted ::
    "(string \<Rightarrow> string \<Rightarrow> i64 option) \<Rightarrow> OpStartedEvent \<Rightarrow> bool \<Rightarrow> ('c :: ab_group_add) priorOpIdentity \<Rightarrow> 'c db \<Rightarrow> 'c db" where
  "onOpStarted ctxMaxOf ev inserted prior db =
     (let eff = effectiveOpIdentity ev prior;
          identityChanged = (\<not> inserted \<and> pi_found prior \<and> catalogIdentityChanged eff prior);
          callInc = catalogCallIncrement inserted identityChanged;
          db = (if identityChanged then removeOpContribution prior db else db);
          db = upsertStartedCatalog ctxMaxOf eff (Ts ev) callInc db
      in if identityChanged then addMigratedTotals eff (pi_totals prior) db else db)"

definition updateFinalizedLLM ::
    "'c op_row \<Rightarrow> ('c :: ab_group_add) totals \<Rightarrow> 'c OpFinalizedEvent \<Rightarrow> 'c db \<Rightarrow> 'c db" where
  "updateFinalizedLLM row delta ev db =
     (let provider = nullableString (op_provider row); model = nullableString (op_model row);
          db = (if provider \<noteq> [] then
                  updateFinalizedProvider provider (nullableString (op_provider_alias row)) (of_EndTs ev) delta db
                else db)
      in if provider \<noteq> [] \<and> model \<noteq> [] then updateFinalizedModel provider model (of_EndTs ev) (of_CtxMax ev) delta db
         else db)"

definition onOpFinalized ::
    "string \<Rightarrow> 'c OpFinalizedEvent \<Rightarrow> ('c :: ab_group_add) prior_totals \<Rightarrow> 'c db \<Rightarrow> 'c db" where
  "onOpFinalized opID ev prior db = (case map_of (ops db) opID of
       None \<Rightarrow> db
     | Some row \<Rightarrow>
         (let delta = catalogTotalsDeltaFrom row prior in
          if op_kind row = OpLLM then updateFinalizedLLM row delta ev db
          else if op_kind row = OpTool then updateFinalizedTool row delta (of_EndTs ev) db
          else db))"

text \<open>Agents and working directories: every start of a session counts one more.\<close>

definition seen_session :: "'k \<Rightarrow> i64 \<Rightarrow> ('k \<times> seen_row) list \<Rightarrow> ('k \<times> seen_row) list" where
  "seen_session k ts = upsert_row k \<lparr>n_first_seen = ts, n_last_seen = ts, n_session_count = 1\<rparr>
     (\<lambda>r. \<lparr>n_first_seen = min64 (n_first_seen r) ts, n_last_seen = max64 (n_last_seen r) ts,
           n_session_count = n_session_count r + 1\<rparr>)"

definition onSessionStarted :: "string \<Rightarrow> SessionStartedEvent \<Rightarrow> 'c db \<Rightarrow> 'c db" where
  "onSessionStarted sourceFormat ev db =
     (let db = (if sst_AgentName ev \<noteq> [] then
                  db\<lparr>catalog_agents := seen_session (sourceFormat, sst_AgentName ev) (Ts ev) (catalog_agents db)\<rparr>
                else db)
      in if sst_Cwd ev \<noteq> [] then
           db\<lparr>catalog_cwds := seen_session (sourceFormat, sst_Cwd ev) (Ts ev) (catalog_cwds db)\<rparr>
         else db)"

section \<open>Accounts\<close>

definition contribution :: "'c op_row \<Rightarrow> 'c totals" where
  "contribution r = booked_totals (prior_totals_of r)"

definition calls_at :: "('k \<times> 'c catalog_row) list \<Rightarrow> 'k \<Rightarrow> i64" where
  "calls_at tab k = (case map_of tab k of None \<Rightarrow> 0 | Some r \<Rightarrow> c_call_count r)"

definition totals_at :: "('k \<times> ('c :: ab_group_add) catalog_row) list \<Rightarrow> 'k \<Rightarrow> 'c totals" where
  "totals_at tab k = (case map_of tab k of None \<Rightarrow> 0 | Some r \<Rightarrow> c_totals r)"

text \<open>The calls and totals a key should have, counted from the ops.\<close>

definition calls_of :: "('c op_row \<Rightarrow> 'k option) \<Rightarrow> (string \<times> 'c op_row) list \<Rightarrow> 'k \<Rightarrow> i64" where
  "calls_of key optab k = (\<Sum>e\<leftarrow>optab. if key (snd e) = Some k then 1 else 0)"

definition totals_of ::
    "('c op_row \<Rightarrow> 'k option) \<Rightarrow> (('c :: ab_group_add) totals \<Rightarrow> 'c totals) \<Rightarrow> (string \<times> 'c op_row) list \<Rightarrow> 'k \<Rightarrow> 'c totals" where
  "totals_of key columns optab k = (\<Sum>e\<leftarrow>optab. if key (snd e) = Some k then columns (contribution (snd e)) else 0)"

definition accounts ::
    "('c op_row \<Rightarrow> 'k option) \<Rightarrow> (('c :: ab_group_add) totals \<Rightarrow> 'c totals) \<Rightarrow> (string \<times> 'c op_row) list \<Rightarrow>
     ('k \<times> 'c catalog_row) list \<Rightarrow> bool" where
  "accounts key columns optab tab \<longleftrightarrow> distinct (map fst tab) \<and>
     (\<forall>id r k. map_of optab id = Some r \<longrightarrow> key r = Some k \<longrightarrow> has_key k tab) \<and>
     (\<forall>k. calls_at tab k = calls_of key optab k \<and> totals_at tab k = totals_of key columns optab k)"

lemma calls_at_bump:
  "calls_at (bump_call k ts n seed tab) k' =
     (if k' = k then (if has_key k tab then calls_at tab k + n else 1) else calls_at tab k')"
  by (simp add: calls_at_def bump_call_def map_of_upsert_row has_key_def split: option.splits)

lemma totals_at_bump: "totals_at (bump_call k ts n seed tab) k' = totals_at tab k'"
  by (simp add: totals_at_def bump_call_def map_of_upsert_row split: option.splits)

lemma calls_at_migrate:
  "calls_at (migrate_row k t dir tab) k' =
     (if k' = k \<and> has_key k tab \<and> dir = migrateOut then calls_at tab k - 1 else calls_at tab k')"
  by (simp add: calls_at_def migrate_row_def map_of_update_row has_key_def split: option.splits migrateDir.splits)

lemma totals_at_migrate:
  "totals_at (migrate_row k t dir tab) k' =
     (if k' = k \<and> has_key k tab then (if dir = migrateOut then totals_at tab k - t else totals_at tab k + t)
      else totals_at tab k')"
  by (simp add: totals_at_def migrate_row_def map_of_update_row has_key_def split: option.splits migrateDir.splits)

lemma keys_catalog [simp]:
  "fst ` set (bump_call k ts n seed tab) = insert k (fst ` set tab)"
  "fst ` set (migrate_row k t dir tab) = fst ` set tab"
  by (simp_all add: bump_call_def migrate_row_def)

lemma distinct_catalog [simp]:
  "distinct (map fst tab) \<Longrightarrow> distinct (map fst (bump_call k ts n seed tab))"
  "distinct (map fst tab) \<Longrightarrow> distinct (map fst (migrate_row k t dir tab))"
  by (simp_all add: bump_call_def migrate_row_def)

text \<open>A statement on the row of a key, when there is one.\<close>

definition on_key :: "'k option \<Rightarrow> ('k \<Rightarrow> 't \<Rightarrow> 't) \<Rightarrow> 't \<Rightarrow> 't" where
  "on_key k f t = (case k of None \<Rightarrow> t | Some k \<Rightarrow> f k t)"

locale ledger =
  fixes key :: "('c :: ab_group_add) op_row \<Rightarrow> 'k option"
    and columns :: "'c totals \<Rightarrow> 'c totals"
  assumes columns_diff: "columns (a - b) = columns a - columns b"
begin

lemma columns_0 [simp]: "columns 0 = 0"
  using columns_diff [of 0 0] by simp

text \<open>Replacing one op is balanced by moving its old share out and its new share in.\<close>

lemma accounts_move:
  assumes "accounts key columns optab tab" "distinct (map fst optab)" "distinct (map fst tab')"
    and "\<And>k. has_key k tab \<Longrightarrow> has_key k tab'"
    and "\<And>k. key new = Some k \<Longrightarrow> has_key k tab'"
    and "\<And>k. calls_at tab' k = calls_at tab k
      - (case map_of optab opid of None \<Rightarrow> 0 | Some r \<Rightarrow> if key r = Some k then 1 else 0)
      + (if key new = Some k then 1 else 0)"
    and "\<And>k. totals_at tab' k = totals_at tab k
      - (case map_of optab opid of None \<Rightarrow> 0 | Some r \<Rightarrow> if key r = Some k then columns (contribution r) else 0)
      + (if key new = Some k then columns (contribution new) else 0)"
  shows "accounts key columns (alist_put opid new optab) tab'"
proof -
  have "calls_of key (alist_put opid new optab) k = calls_of key optab k
      - (case map_of optab opid of None \<Rightarrow> 0 | Some r \<Rightarrow> if key r = Some k then 1 else 0)
      + (if key new = Some k then 1 else 0)" for k
    unfolding calls_of_def by (rule sum_alist_put [OF assms(2)])
  moreover have "totals_of key columns (alist_put opid new optab) k = totals_of key columns optab k
      - (case map_of optab opid of None \<Rightarrow> 0 | Some r \<Rightarrow> if key r = Some k then columns (contribution r) else 0)
      + (if key new = Some k then columns (contribution new) else 0)" for k
    unfolding totals_of_def by (rule sum_alist_put [OF assms(2)])
  moreover have "has_key k tab'" if "map_of (alist_put opid new optab) i = Some r" "key r = Some k" for i r k
    using that assms(1,4,5) by (auto simp: accounts_def split: if_splits)
  ultimately show ?thesis
    using assms(1,3,6,7) unfolding accounts_def by simp
qed

text \<open>A new op, without totals yet, counts one call.\<close>

lemma accounts_insert:
  assumes "accounts key columns optab tab" "distinct (map fst optab)" "map_of optab opid = None" "contribution new = 0"
  shows "accounts key columns (alist_put opid new optab) (on_key (key new) (\<lambda>k. bump_call k ts 1 (seed k)) tab)"
proof -
  have "distinct (map fst tab)" and "\<not> has_key k tab \<Longrightarrow> calls_at tab k = 0" for k
    using assms(1) by (auto simp: accounts_def calls_at_def has_key_def)
  then show ?thesis
    using assms(3,4)
    by (intro accounts_move [OF assms(1,2)]) (auto simp: calls_at_bump totals_at_bump has_key_iff on_key_def split: option.splits)
qed

text \<open>An op started again with the same key and totals counts nothing.\<close>

lemma accounts_same:
  assumes "accounts key columns optab tab" "distinct (map fst optab)" "map_of optab opid = Some old"
    and "key new = key old" "contribution new = contribution old"
  shows "accounts key columns (alist_put opid new optab) (on_key (key new) (\<lambda>k. bump_call k ts 0 (seed k)) tab)"
proof -
  have "distinct (map fst tab)" and "key old = Some k \<Longrightarrow> has_key k tab" for k
    using assms(1,3) by (auto simp: accounts_def)
  then show ?thesis
    using assms(3,4,5)
    by (intro accounts_move [OF assms(1,2)]) (auto simp: calls_at_bump totals_at_bump has_key_iff on_key_def split: option.splits)
qed

text \<open>An op that changes its key takes its call and totals along.\<close>

lemma accounts_migrate:
  assumes "accounts key columns optab tab" "distinct (map fst optab)" "map_of optab opid = Some old"
    and "contribution new = contribution old"
  shows "accounts key columns (alist_put opid new optab)
    (on_key (key new) (\<lambda>k. migrate_row k (columns (contribution old)) migrateIn)
      (on_key (key new) (\<lambda>k. bump_call k ts 1 (seed k))
        (on_key (key old) (\<lambda>k. migrate_row k (columns (contribution old)) migrateOut) tab)))"
proof -
  define out where "out = on_key (key old) (\<lambda>k. migrate_row k (columns (contribution old)) migrateOut) tab"
  have d: "distinct (map fst tab)" and old: "key old = Some k \<Longrightarrow> has_key k tab"
    and none: "\<not> has_key k tab \<Longrightarrow> calls_at tab k = 0 \<and> totals_at tab k = 0" for k
    using assms(1,3) by (auto simp: accounts_def calls_at_def totals_at_def has_key_def)
  have keys: "fst ` set out = fst ` set tab" and "distinct (map fst out)"
    using d by (simp_all add: out_def on_key_def split: option.splits)
  moreover have "calls_at out k = calls_at tab k - (if key old = Some k then 1 else 0)"
    "totals_at out k = totals_at tab k - (if key old = Some k then columns (contribution old) else 0)" for k
    using old by (auto simp: out_def on_key_def calls_at_migrate totals_at_migrate split: option.splits)
  moreover have "has_key k out \<longleftrightarrow> has_key k tab" for k using keys by (simp add: has_key_iff)
  ultimately show ?thesis
    using assms(3,4) old none unfolding out_def [symmetric]
    by (intro accounts_move [OF assms(1,2)])
      (auto simp: calls_at_bump totals_at_bump calls_at_migrate totals_at_migrate has_key_iff on_key_def split: option.splits)
qed

text \<open>A finalized op moves its totals by the difference.\<close>

lemma accounts_delta:
  assumes "accounts key columns optab tab" "distinct (map fst optab)" "map_of optab opid = Some old"
    and "key new = key old" "delta = contribution new - contribution old"
    and "\<And>r. c_call_count (f r) = c_call_count r" "\<And>r. c_totals (f r) = c_totals r + columns delta"
  shows "accounts key columns (alist_put opid new optab) (on_key (key new) (\<lambda>k. update_row k f) tab)"
proof -
  have d: "distinct (map fst tab)" and old: "key old = Some k \<Longrightarrow> has_key k tab" for k
    using assms(1,3) by (auto simp: accounts_def)
  have "calls_at (update_row k f tab) k' = calls_at tab k'" for k k'
    using assms(6) by (simp add: calls_at_def map_of_update_row split: option.splits)
  moreover have "totals_at (update_row k f tab) k' = totals_at tab k' + (if k' = k \<and> has_key k tab then columns delta else 0)" for k k'
    using assms(7) by (simp add: totals_at_def map_of_update_row has_key_def split: option.splits)
  ultimately show ?thesis
    using assms(3,4,5) d old
    by (intro accounts_move [OF assms(1,2)]) (auto simp: has_key_iff columns_diff on_key_def split: option.splits)
qed

end

end
