(* ===== verification/Writer.thy ===== *)
theory Writer
  imports Extras Catalog Rollups
begin

text \<open>
  The writer of a source (\<open>internal/ingest/writer.go\<close>): one handler per canonical event, in the
  transaction of the current batch, with the in-memory state that spans the events of a batch
  and of the worker's life.

  A handler takes and returns the writer and the database; \<open>None\<close> is an error of the handler, on
  which the caller rolls the transaction back. A statement fails when a foreign key it writes
  has no row. Failures of the connection itself and failures to marshal a JSON value are not
  modelled. What a failed handler leaves in the writer's memory is not modelled either.
\<close>

section \<open>State\<close>

text \<open>
  The pricer: the cost, whether it is a hit, and the kind of miss. \<open>px_detailed\<close> says whether it
  reports misses.
\<close>

record 'c pricer =
  px_cost :: "string \<Rightarrow> string \<Rightarrow> i64 \<Rightarrow> i64 \<Rightarrow> i64 \<Rightarrow> i64 \<Rightarrow> i64 \<Rightarrow> 'c \<times> bool \<times> string"
  px_detailed :: bool
  px_ctxMax :: "string \<Rightarrow> string \<Rightarrow> i64 option"

type_synonym pricingMissKey = "string \<times> string \<times> string"

record 'c writer =
  sourceID :: string
  sourceFormat :: string
  hash :: "string \<Rightarrow> string"
  lower_uni :: "string \<Rightarrow> string"
  the_pricer :: "'c pricer option"
  fts5IndexLogs :: bool
  dirtySessionIDs :: "string list"
  dirtyTurnIDs :: "string list"
  dirtyOpIDs :: "string list"
  affectedSessionIDs :: "string list"
  batchMaxSeq :: u64
  lastCursor :: string
  hasCursor :: bool
  sourceStatusChanged :: bool
  readModelRepairRequested :: bool
  pricingMissDedup :: "pricingMissKey list"
  pendingMissDedup :: "pricingMissKey list"
  batchObservabilityErrs :: nat
  dirtyRollupBuckets :: "i64 list"
  dirtyRollupDays :: "i64 list"
  pendingMaterializedBuckets :: "i64 list"
  pendingMaterializedDays :: "i64 list"
  rollupTouchedThisBatch :: bool
  rollupMaterializedThisRefresh :: bool
  batchSessionIDs :: "(string \<times> string) list"
  batchTurns :: "string list"
  maxRollupRowsPerBucket :: int

type_synonym 'c wstate = "'c writer \<times> 'c db"

definition newWriter :: "string \<Rightarrow> string \<Rightarrow> (string \<Rightarrow> string) \<Rightarrow> (string \<Rightarrow> string) \<Rightarrow> 'c pricer option \<Rightarrow> bool \<Rightarrow> 'c writer" where
  "newWriter src format h uni pricer fts =
     \<lparr>sourceID = src, sourceFormat = format, hash = h, lower_uni = uni, the_pricer = pricer, fts5IndexLogs = fts,
      dirtySessionIDs = [], dirtyTurnIDs = [], dirtyOpIDs = [], affectedSessionIDs = [], batchMaxSeq = 0,
      lastCursor = [], hasCursor = False, sourceStatusChanged = False, readModelRepairRequested = False,
      pricingMissDedup = [], pendingMissDedup = [], batchObservabilityErrs = 0, dirtyRollupBuckets = [],
      dirtyRollupDays = [], pendingMaterializedBuckets = [], pendingMaterializedDays = [],
      rollupTouchedThisBatch = False, rollupMaterializedThisRefresh = False, batchSessionIDs = [], batchTurns = [], maxRollupRowsPerBucket = 0\<rparr>"

definition resetBatch :: "'c writer \<Rightarrow> 'c writer" where
  "resetBatch w = w\<lparr>dirtySessionIDs := [], dirtyTurnIDs := [], affectedSessionIDs := [], pendingMissDedup := [],
     pendingMaterializedBuckets := [], pendingMaterializedDays := [], dirtyOpIDs := [], batchSessionIDs := [],
     batchTurns := [], batchMaxSeq := 0, lastCursor := [], hasCursor := False, sourceStatusChanged := False,
     readModelRepairRequested := False, rollupTouchedThisBatch := False, rollupMaterializedThisRefresh := False,
     batchObservabilityErrs := 0\<rparr>"

definition promotePendingMissDedup :: "'c writer \<Rightarrow> 'c writer" where
  "promotePendingMissDedup w = w\<lparr>pricingMissDedup := fold List.insert (pendingMissDedup w) (pricingMissDedup w)\<rparr>"

definition promoteMaterializedRollupBuckets :: "'c writer \<Rightarrow> 'c writer" where
  "promoteMaterializedRollupBuckets w =
     w\<lparr>dirtyRollupBuckets := filter (\<lambda>h. h \<notin> set (pendingMaterializedBuckets w)) (dirtyRollupBuckets w),
       dirtyRollupDays := filter (\<lambda>d. d \<notin> set (pendingMaterializedDays w)) (dirtyRollupDays w)\<rparr>"

definition hasPendingRollupBuckets :: "'c writer \<Rightarrow> bool" where
  "hasPendingRollupBuckets w \<longleftrightarrow> dirtyRollupBuckets w \<noteq> [] \<or> dirtyRollupDays w \<noteq> []"

section \<open>Marks\<close>

definition markDirtySession :: "string \<Rightarrow> 'c writer \<Rightarrow> 'c writer" where
  "markDirtySession sid w = w\<lparr>dirtySessionIDs := List.insert sid (dirtySessionIDs w),
     affectedSessionIDs := List.insert sid (affectedSessionIDs w)\<rparr>"

definition markDirtyTurn :: "string \<Rightarrow> 'c writer \<Rightarrow> 'c writer" where
  "markDirtyTurn tid w = w\<lparr>dirtyTurnIDs := List.insert tid (dirtyTurnIDs w)\<rparr>"

definition markDirtyOp :: "string \<Rightarrow> 'c writer \<Rightarrow> 'c writer" where
  "markDirtyOp opid w = w\<lparr>dirtyOpIDs := List.insert opid (dirtyOpIDs w)\<rparr>"

definition markDirtyRollupBucket :: "i64 \<Rightarrow> 'c writer \<Rightarrow> 'c writer" where
  "markDirtyRollupBucket ts w = w\<lparr>dirtyRollupBuckets := List.insert (BucketTS ts Hourly) (dirtyRollupBuckets w),
     dirtyRollupDays := List.insert (BucketTS ts Daily) (dirtyRollupDays w), rollupTouchedThisBatch := True\<rparr>"

text \<open>The starts a change of a session's agent or directory affects: its own and its ops'.\<close>

definition loadSessionOpStartTs :: "string \<Rightarrow> 'c db \<Rightarrow> i64 list" where
  "loadSessionOpStartTs sid db = map (\<lambda>e. op_start_ts (snd e)) (filter (\<lambda>e. op_session_id (snd e) = sid) (ops db))"

definition markSessionRollupBucketsDirty :: "string \<Rightarrow> 'c db \<Rightarrow> 'c writer \<Rightarrow> 'c writer" where
  "markSessionRollupBucketsDirty sid db w =
     (let w = (case map_of (sessions db) sid of None \<Rightarrow> w | Some r \<Rightarrow> markDirtyRollupBucket (s_start_ts r) w)
      in fold markDirtyRollupBucket (loadSessionOpStartTs sid db) w)"

section \<open>Sessions\<close>

abbreviation session_id_of :: "'c writer \<Rightarrow> string \<Rightarrow> string" where
  "session_id_of w nativeID \<equiv> canonicalSessionID (hash w) (sourceID w) nativeID"

definition lookupSessionID :: "string \<Rightarrow> 'c wstate \<Rightarrow> string option" where
  "lookupSessionID nativeID st = (case st of (w, db) \<Rightarrow>
     if has_key (session_id_of w nativeID) (sessions db) then Some (session_id_of w nativeID) else None)"

definition new_session_row :: "string \<Rightarrow> string \<Rightarrow> string \<Rightarrow> i64 \<Rightarrow> ('c :: zero) session_row" where
  "new_session_row src nativeID root ts =
     \<lparr>s_source_id = src, s_native_id = nativeID, s_parent_session_id = None, s_root_session_id = root,
      s_kind = KindRoot, s_agent_name = None, s_model = None, s_provider = None, s_provider_alias = None,
      s_cwd = None, s_call_path = None, s_status = StatusRunning, s_error_class = None, s_error_message = None,
      s_start_ts = ts, s_end_ts = None, s_last_activity_ts = ts, s_tokens_in = 0, s_tokens_out = 0,
      s_tokens_cache_read = 0, s_tokens_cache_write = 0, s_cost_usd = 0, s_turn_count = 0, s_op_count = 0,
      s_failure_count = 0, s_extras_json = None\<rparr>"

text \<open>An event of a session not seen yet inserts a stub.\<close>

definition requireSessionID :: "string \<Rightarrow> i64 \<Rightarrow> ('c :: zero) wstate \<Rightarrow> (string \<times> 'c wstate) option" where
  "requireSessionID nativeID ts st = (case st of (w, db) \<Rightarrow>
     if nativeID = [] then None
     else case map_of (batchSessionIDs w) nativeID of
       Some sid \<Rightarrow> Some (sid, w, db)
     | None \<Rightarrow> (case lookupSessionID nativeID (w, db) of
         Some sid \<Rightarrow> Some (sid, w\<lparr>batchSessionIDs := alist_put nativeID sid (batchSessionIDs w)\<rparr>, db)
       | None \<Rightarrow>
           (let sid = session_id_of w nativeID in
            if \<not> has_key (sourceID w) (sources db) then None
            else Some (sid, markDirtySession sid (w\<lparr>batchSessionIDs := alist_put nativeID sid (batchSessionIDs w)\<rparr>),
              db\<lparr>sessions := insert_missing sid (new_session_row (sourceID w) nativeID sid ts) (sessions db)\<rparr>))))"

text \<open>The \<open>ON CONFLICT\<close> clause of a session start: \<open>r\<close> is the stored row, \<open>x\<close> the excluded one.\<close>

definition session_on_conflict :: "'c session_row \<Rightarrow> 'c session_row \<Rightarrow> 'c session_row" where
  "session_on_conflict x r =
     (let keep = preserveRealSessionMetadata (s_extras_json r) (s_extras_json x);
          col = (\<lambda>old new. if keep then old else coalesce_nonempty new old) in
      r\<lparr>s_parent_session_id :=
          (if syntheticConflictsWithExistingSessionLineage ''parentNativeId'' (s_extras_json r) (s_extras_json x)
           then s_parent_session_id r else coalesce (s_parent_session_id r) (s_parent_session_id x)),
        s_root_session_id :=
          (if syntheticConflictsWithExistingSessionLineage ''rootNativeId'' (s_extras_json r) (s_extras_json x)
           then s_root_session_id r else s_root_session_id x),
        s_kind := (if keep then s_kind r else s_kind x),
        s_agent_name := col (s_agent_name r) (s_agent_name x),
        s_model := col (s_model r) (s_model x),
        s_provider := col (s_provider r) (s_provider x),
        s_provider_alias := col (s_provider_alias r) (s_provider_alias x),
        s_cwd := col (s_cwd r) (s_cwd x),
        s_call_path := col (s_call_path r) (s_call_path x),
        s_start_ts := min64 (s_start_ts r) (s_start_ts x),
        s_last_activity_ts := max64 (s_last_activity_ts r) (s_last_activity_ts x),
        s_extras_json := sessionStartedExtras (s_extras_json r) (s_extras_json x)\<rparr>)"

definition session_extras :: "SessionStartedEvent \<Rightarrow> json option" where
  "session_extras ev =
     (if sst_Extras ev = [] then
        marshalSessionAiViewerStash (sst_ParentNativeID ev) (sst_ParentOpKey ev) (sst_RootNativeID ev)
      else marshalExtras (mergeExtras (sst_Extras ev) [(''aiViewer'', JObj
        [(''parentNativeId'', JStr (sst_ParentNativeID ev)), (''parentOpKey'', JStr (sst_ParentOpKey ev)),
         (''rootNativeId'', JStr (sst_RootNativeID ev))])]))"

definition started_session_row :: "SessionStartedEvent \<Rightarrow> ('c :: zero) wstate \<Rightarrow> 'c session_row" where
  "started_session_row ev st =
     (let w = fst st; sid = session_id_of w (sst_NativeID ev);
          rootID = (if sst_RootNativeID ev \<noteq> [] \<and> sst_RootNativeID ev \<noteq> sst_NativeID ev
            then (case lookupSessionID (sst_RootNativeID ev) st of Some rid \<Rightarrow> rid | None \<Rightarrow> sid) else sid) in
      (new_session_row (sourceID w) (sst_NativeID ev) rootID (Ts ev))
        \<lparr>s_parent_session_id := (if sst_ParentNativeID ev \<noteq> [] then lookupSessionID (sst_ParentNativeID ev) st else None),
         s_kind := nonEmpty (sst_Kind ev) KindRoot,
         s_agent_name := nullIfEmpty (sst_AgentName ev), s_model := nullIfEmpty (sst_Model ev),
         s_provider := nullIfEmpty (sst_Provider ev), s_provider_alias := nullIfEmpty (sst_ProviderAlias ev),
         s_cwd := nullIfEmpty (sst_Cwd ev), s_call_path := nullIfEmpty (sst_CallPath ev),
         s_extras_json := session_extras ev\<rparr>)"

definition applySessionStarted :: "SessionStartedEvent \<Rightarrow> ('c :: zero) wstate \<Rightarrow> 'c wstate option" where
  "applySessionStarted ev st = (case st of (w, db) \<Rightarrow>
     if sst_NativeID ev = [] \<or> \<not> has_key (sourceID w) (sources db) then None
     else
       (let sid = session_id_of w (sst_NativeID ev);
            x = started_session_row ev st;
            prior = map_of (sessions db) sid;
            db' = db\<lparr>sessions := upsert_row sid x (session_on_conflict x) (sessions db)\<rparr>;
            w = markDirtyRollupBucket (Ts ev) (markDirtySession sid w);
            w = (case prior of None \<Rightarrow> w | Some r \<Rightarrow>
              (let w = (if sst_AgentName ev \<noteq> [] \<or> sst_Cwd ev \<noteq> [] then markSessionRollupBucketsDirty sid db' w else w)
               in if i64_less (Ts ev) (s_start_ts r) then markDirtyRollupBucket (s_start_ts r) w else w))
        in Some (w, onSessionStarted (sourceFormat w) ev db')))"

definition session_update :: "SessionUpdatedEvent \<Rightarrow> 'c session_row \<Rightarrow> 'c session_row" where
  "session_update ev r =
     r\<lparr>s_agent_name := coalesce_nonempty (Some (su_AgentName ev)) (s_agent_name r),
       s_model := coalesce_nonempty (Some (su_Model ev)) (s_model r),
       s_provider := coalesce_nonempty (Some (su_Provider ev)) (s_provider r),
       s_provider_alias := coalesce_nonempty (Some (su_ProviderAlias ev)) (s_provider_alias r),
       s_cwd := coalesce_nonempty (Some (su_Cwd ev)) (s_cwd r),
       s_status := nonEmpty (su_Status ev) (s_status r),
       s_last_activity_ts := max64 (s_last_activity_ts r) (Ts ev),
       s_extras_json := (case marshalExtras (su_Extras ev) of None \<Rightarrow> s_extras_json r
         | Some p \<Rightarrow> (case s_extras_json r of None \<Rightarrow> Some p | Some t \<Rightarrow> Some (json_patch t p)))\<rparr>"

definition applySessionUpdated :: "SessionUpdatedEvent \<Rightarrow> ('c :: zero) wstate \<Rightarrow> 'c wstate option" where
  "applySessionUpdated ev st = do {
     (sid, w, db) \<leftarrow> requireSessionID (su_NativeID ev) (Ts ev) st;
     let db = db\<lparr>sessions := update_row sid (session_update ev) (sessions db)\<rparr>;
     let w = markDirtySession sid w;
     Some (if su_AgentName ev \<noteq> [] \<or> su_Cwd ev \<noteq> [] then markSessionRollupBucketsDirty sid db w else w, db) }"

definition applySessionFinalized :: "SessionFinalizedEvent \<Rightarrow> ('c :: zero) wstate \<Rightarrow> 'c wstate option" where
  "applySessionFinalized ev st = do {
     (sid, w, db) \<leftarrow> requireSessionID (sf_NativeID ev) (Ts ev) st;
     let db = db\<lparr>sessions := update_row sid
       (\<lambda>r. r\<lparr>s_status := nonEmpty (sf_Status ev) StatusCompleted, s_error_class := nullIfEmpty (sf_ErrorClass ev),
              s_error_message := nullIfEmpty (sf_ErrorMessage ev), s_end_ts := nullIfZero (sf_EndTs ev),
              s_last_activity_ts := max64 (s_last_activity_ts r) (Ts ev)\<rparr>) (sessions db)\<rparr>;
     Some (markDirtySession sid w, db) }"

section \<open>Turns\<close>

definition new_turn_row :: "string \<Rightarrow> int \<Rightarrow> i64 \<Rightarrow> ('c :: zero) turn_row" where
  "new_turn_row sid seq ts =
     \<lparr>t_session_id = sid, t_seq = seq, t_start_ts = ts, t_end_ts = None, t_status = StatusRunning,
      t_error_class = None, t_tokens_in = 0, t_tokens_out = 0, t_tokens_cache_read = 0, t_tokens_cache_write = 0,
      t_cost_usd = 0, t_op_count = 0, t_extras_json = None\<rparr>"

text \<open>Writing a turn: the session of a new row must exist.\<close>

definition upsert_turn :: "string \<Rightarrow> 'c turn_row \<Rightarrow> ('c turn_row \<Rightarrow> 'c turn_row) \<Rightarrow> 'c db \<Rightarrow> 'c db option" where
  "upsert_turn tid x f db =
     (if has_key tid (turns db) \<or> has_key (t_session_id x) (sessions db)
      then Some (db\<lparr>turns := upsert_row tid x f (turns db)\<rparr>) else None)"

abbreviation turn_id_of :: "'c writer \<Rightarrow> string \<Rightarrow> int \<Rightarrow> string" where
  "turn_id_of w sid seq \<equiv> canonicalTurnID (hash w) sid seq"

abbreviation op_id_of :: "'c writer \<Rightarrow> string \<Rightarrow> int \<Rightarrow> string" where
  "op_id_of w tid seq \<equiv> canonicalOpID (hash w) tid seq"

definition applyTurnStarted :: "TurnStartedEvent \<Rightarrow> ('c :: zero) wstate \<Rightarrow> 'c wstate option" where
  "applyTurnStarted ev st = do {
     (sid, w, db) \<leftarrow> requireSessionID (ts_SessionNativeID ev) (Ts ev) st;
     let tid = turn_id_of w sid (ts_Seq ev);
     db \<leftarrow> upsert_turn tid (new_turn_row sid (ts_Seq ev) (Ts ev)) (\<lambda>r. r\<lparr>t_start_ts := min64 (t_start_ts r) (Ts ev)\<rparr>) db;
     Some (markDirtySession sid (markDirtyTurn tid w), db) }"

definition applyTurnFinalized :: "('c :: zero) TurnFinalizedEvent \<Rightarrow> 'c wstate \<Rightarrow> 'c wstate option" where
  "applyTurnFinalized ev st = do {
     (sid, w, db) \<leftarrow> requireSessionID (tf_SessionNativeID ev) (Ts ev) st;
     let tid = turn_id_of w sid (tf_Seq ev);
     let final = (\<lambda>r. r\<lparr>t_end_ts := nullIfZero (tf_EndTs ev), t_status := nonEmpty (tf_Status ev) StatusCompleted,
       t_error_class := nullIfEmpty (tf_ErrorClass ev), t_extras_json := marshalExtras (tf_Extras ev)\<rparr>);
     db \<leftarrow> upsert_turn tid (final (new_turn_row sid (tf_Seq ev) (Ts ev))) final db;
     Some (markDirtySession sid (markDirtyTurn tid w), db) }"

section \<open>Ops\<close>

text \<open>The foreign keys of an op's row; the row itself may be its parent.\<close>

definition op_fk_ok :: "'c db \<Rightarrow> string \<Rightarrow> 'c op_row \<Rightarrow> bool" where
  "op_fk_ok db opid r \<longleftrightarrow> has_key (op_turn_id r) (turns db) \<and> has_key (op_session_id r) (sessions db) \<and>
     (case op_parent_op_id r of None \<Rightarrow> True | Some p \<Rightarrow> p = opid \<or> has_key p (ops db)) \<and>
     (case op_child_session_id r of None \<Rightarrow> True | Some c \<Rightarrow> has_key c (sessions db))"

definition upsert_op :: "string \<Rightarrow> 'c op_row \<Rightarrow> ('c op_row \<Rightarrow> 'c op_row) \<Rightarrow> 'c db \<Rightarrow> 'c db option" where
  "upsert_op opid x f db =
     (let r = (case map_of (ops db) opid of None \<Rightarrow> x | Some r \<Rightarrow> f r)
      in if op_fk_ok db opid r then Some (db\<lparr>ops := alist_put opid r (ops db)\<rparr>) else None)"

definition op_on_conflict :: "'c op_row \<Rightarrow> 'c op_row \<Rightarrow> 'c op_row" where
  "op_on_conflict x r =
     r\<lparr>op_kind := op_kind x, op_name := op_name x,
       op_tool_namespace := coalesce_nonempty (op_tool_namespace x) (op_tool_namespace r),
       op_model := coalesce_nonempty (op_model x) (op_model r),
       op_provider := coalesce_nonempty (op_provider x) (op_provider r),
       op_provider_alias := coalesce_nonempty (op_provider_alias x) (op_provider_alias r),
       op_reasoning_kind := coalesce_nonempty (op_reasoning_kind x) (op_reasoning_kind r),
       op_start_ts := min64 (op_start_ts r) (op_start_ts x),
       op_parent_op_id := coalesce (op_parent_op_id r) (op_parent_op_id x),
       op_child_session_id := coalesce (op_child_session_id r) (op_child_session_id x),
       op_extras_json := graftAiViewerExtras (op_extras_json r) (op_extras_json x)\<rparr>"

definition resolveOpStartedParent :: "'c writer \<Rightarrow> string \<Rightarrow> int \<Rightarrow> string option" where
  "resolveOpStartedParent w tid parentOpSeq = (if parentOpSeq < 0 then None else Some (op_id_of w tid parentOpSeq))"

definition resolveOpStartedChild :: "OpStartedEvent \<Rightarrow> 'c wstate \<Rightarrow> string option \<times> extras" where
  "resolveOpStartedChild ev st =
     (if os_ChildSessionNativeID ev = [] then (None, os_Extras ev)
      else case lookupSessionID (os_ChildSessionNativeID ev) st of
        Some cid \<Rightarrow> (Some cid, os_Extras ev)
      | None \<Rightarrow> (None, mergeExtras (os_Extras ev)
          [(''aiViewer'', JObj [(''childNativeId'', JStr (os_ChildSessionNativeID ev))])]))"

definition started_op_row ::
    "OpStartedEvent \<Rightarrow> string \<Rightarrow> string \<Rightarrow> string option \<Rightarrow> string option \<Rightarrow> json option \<Rightarrow> ('c :: zero) op_row" where
  "started_op_row ev sid tid parent child extras =
     \<lparr>op_turn_id = tid, op_session_id = sid, op_parent_op_id = parent, op_seq = os_Seq ev, op_kind = os_Kind ev,
      op_name = os_Name ev, op_tool_namespace = nullIfEmpty (os_ToolNamespace ev), op_model = nullIfEmpty (os_Model ev),
      op_provider = nullIfEmpty (os_Provider ev), op_provider_alias = nullIfEmpty (os_ProviderAlias ev),
      op_reasoning_kind = nullIfEmpty (os_ReasoningKind ev), op_start_ts = Ts ev, op_end_ts = None,
      op_duration_us = None, op_status = StatusRunning, op_error_class = None, op_error_message = None,
      op_tokens_in = 0, op_tokens_out = 0, op_tokens_cache_read = 0, op_tokens_cache_write = 0, op_cost_usd = 0,
      op_bytes_in = 0, op_bytes_out = 0, op_chars_in = None, op_chars_out = None, op_ctx_used = None,
      op_ctx_max = None, op_child_session_id = child, op_extras_json = extras\<rparr>"

text \<open>The turn of an op that comes before its turn's start is synthesized, once per batch.\<close>

definition synthesize_turn :: "string \<Rightarrow> string \<Rightarrow> int \<Rightarrow> i64 \<Rightarrow> ('c :: zero) wstate \<Rightarrow> 'c wstate option" where
  "synthesize_turn tid sid seq ts st = (case st of (w, db) \<Rightarrow>
     if tid \<in> set (batchTurns w) then Some (w, db)
     else do {
       db \<leftarrow> upsert_turn tid (new_turn_row sid seq ts) (\<lambda>r. r) db;
       Some (w\<lparr>batchTurns := List.insert tid (batchTurns w)\<rparr>, db) })"

definition ctxMax_of :: "'c writer \<Rightarrow> string \<Rightarrow> string \<Rightarrow> i64 option" where
  "ctxMax_of w = (case the_pricer w of None \<Rightarrow> (\<lambda>_ _. None) | Some p \<Rightarrow> px_ctxMax p)"

definition applyOpStarted :: "OpStartedEvent \<Rightarrow> ('c :: ab_group_add) wstate \<Rightarrow> 'c wstate option" where
  "applyOpStarted ev st = do {
     (sid, w, db) \<leftarrow> requireSessionID (os_SessionNativeID ev) (Ts ev) st;
     let tid = turn_id_of w sid (os_TurnSeq ev);
     (w, db) \<leftarrow> synthesize_turn tid sid (os_TurnSeq ev) (Ts ev) (w, db);
     let opid = op_id_of w tid (os_Seq ev);
     let prior = opPriorIdentity opid db;
     let parent = resolveOpStartedParent w tid (os_ParentOpSeq ev);
     let (child, extras) = resolveOpStartedChild ev (w, db);
     let x = started_op_row ev sid tid parent child (marshalExtras extras);
     db \<leftarrow> upsert_op opid x (op_on_conflict x) db;
     let w = markDirtyOp opid (markDirtyRollupBucket (Ts ev) (markDirtySession sid (markDirtyTurn tid w)));
     Some (w, onOpStarted (ctxMax_of w) ev (\<not> pi_found prior) prior db) }"

section \<open>Logs and source errors\<close>

text \<open>The identity of a log row: every column, NULL as the empty string.\<close>

definition log_identity :: "log_row \<Rightarrow> string \<times> string \<times> string \<times> string \<times> i64 \<times> string \<times> string \<times> string \<times> json option" where
  "log_identity r = (nullableString (lg_session_id r), nullableString (lg_source_id r), nullableString (lg_op_id r),
     nullableString (lg_turn_id r), lg_ts r, lg_severity r, lg_source r, lg_message r, lg_extras_json r)"

definition log_fk_ok :: "'c db \<Rightarrow> log_row \<Rightarrow> bool" where
  "log_fk_ok db r \<longleftrightarrow>
     (case lg_session_id r of None \<Rightarrow> True | Some x \<Rightarrow> has_key x (sessions db)) \<and>
     (case lg_source_id r of None \<Rightarrow> True | Some x \<Rightarrow> has_key x (sources db)) \<and>
     (case lg_turn_id r of None \<Rightarrow> True | Some x \<Rightarrow> has_key x (turns db)) \<and>
     (case lg_op_id r of None \<Rightarrow> True | Some x \<Rightarrow> has_key x (ops db))"

text \<open>The result says whether a row was inserted; a duplicate is skipped.\<close>

definition insert_log :: "log_row \<Rightarrow> 'c db \<Rightarrow> (bool \<times> 'c db) option" where
  "insert_log r db =
     (if log_identity r \<in> log_identity ` set (log_entries db) then Some (False, db)
      else if log_fk_ok db r then Some (True, db\<lparr>log_entries := log_entries db @ [r]\<rparr>) else None)"

definition bumpSourceErrorCounter :: "i64 \<Rightarrow> 'c wstate \<Rightarrow> 'c wstate" where
  "bumpSourceErrorCounter ts st = (case st of (w, db) \<Rightarrow>
     (w\<lparr>sourceStatusChanged := True\<rparr>,
      db\<lparr>sources := update_row (sourceID w)
        (\<lambda>r. r\<lparr>so_parse_errors := so_parse_errors r + 1,
               so_last_seen_at := Some (max64 (case so_last_seen_at r of None \<Rightarrow> 0 | Some t \<Rightarrow> t) ts)\<rparr>) (sources db)\<rparr>))"

definition source_log :: "'c writer \<Rightarrow> i64 \<Rightarrow> string \<Rightarrow> string \<Rightarrow> json \<Rightarrow> log_row" where
  "source_log w ts severity message extras =
     \<lparr>lg_session_id = None, lg_source_id = Some (sourceID w), lg_turn_id = None, lg_op_id = None, lg_ts = ts,
      lg_severity = severity, lg_source = sourceFormat w, lg_message = message, lg_extras_json = Some extras\<rparr>"

definition applySourceError :: "SourceErrorEvent \<Rightarrow> 'c wstate \<Rightarrow> 'c wstate option" where
  "applySourceError ev st =
     (let (w, db) = bumpSourceErrorCounter (Ts ev) st in do {
       (_, db) \<leftarrow> insert_log (source_log w (Ts ev) ''ERR'' (se_Message ev)
         (JObj [(''file'', JStr (se_File ev)), (''offset'', JNum (sint (se_Offset ev)))])) db;
       Some (w, db) })"

definition applySourceProgress :: "SourceProgressEvent \<Rightarrow> 'c wstate \<Rightarrow> 'c wstate" where
  "applySourceProgress ev st = (case st of (w, db) \<Rightarrow> (w\<lparr>lastCursor := sp_Cursor ev, hasCursor := True\<rparr>, db))"

definition log_severity :: "string \<Rightarrow> string" where
  "log_severity s = nonEmpty (map upper_char (TrimSpace s)) ''INF''"

definition session_log :: "LogEntryEvent \<Rightarrow> 'c writer \<Rightarrow> string \<Rightarrow> log_row" where
  "session_log ev w sid =
     (let turnID = (if 0 < le_TurnSeq ev then Some (turn_id_of w sid (le_TurnSeq ev)) else None);
          opID = (case turnID of None \<Rightarrow> None | Some tid \<Rightarrow> if 0 < le_OpSeq ev then Some (op_id_of w tid (le_OpSeq ev)) else None)
      in \<lparr>lg_session_id = Some sid, lg_source_id = None, lg_turn_id = turnID, lg_op_id = opID, lg_ts = Ts ev,
          lg_severity = log_severity (le_Severity ev), lg_source = le_Source ev, lg_message = le_Message ev,
          lg_extras_json = marshalExtras (le_Extras ev)\<rparr>)"

definition indexLogEntryFTS :: "log_row \<Rightarrow> bool \<Rightarrow> 'c writer \<Rightarrow> 'c db \<Rightarrow> 'c db" where
  "indexLogEntryFTS r inserted w db =
     (if \<not> inserted \<or> \<not> fts5IndexLogs w then db else db\<lparr>fts_logs := fts_logs db @ [r]\<rparr>)"

definition applyLogEntry :: "LogEntryEvent \<Rightarrow> ('c :: zero) wstate \<Rightarrow> 'c wstate option" where
  "applyLogEntry ev st = do {
     (sid, w, db) \<leftarrow> requireSessionID (le_SessionNativeID ev) (Ts ev) st;
     let r = session_log ev w sid;
     (inserted, db) \<leftarrow> insert_log r db;
     let w = markDirtySession sid w;
     Some (w, indexLogEntryFTS r inserted w db) }"

section \<open>Finalized ops and their price\<close>

definition isPriceableOp :: "string option \<Rightarrow> string option \<Rightarrow> string option \<Rightarrow> bool" where
  "isPriceableOp kind provider model \<longleftrightarrow>
     nullableString provider \<noteq> [] \<and> nullableString model \<noteq> [] \<and>
     (nullableString kind = [] \<or> nullableString kind = OpLLM)"

text \<open>A miss is reported once per provider, model and kind; a failing report does not stop the op.\<close>

definition emitPricingMiss :: "string \<Rightarrow> string \<Rightarrow> string \<Rightarrow> i64 \<Rightarrow> 'c wstate \<Rightarrow> 'c wstate" where
  "emitPricingMiss provider model missKind ts st =
     (let w = fst st; key = (ToLower (lower_uni w) provider, ToLower (lower_uni w) model, missKind) in
      if key \<in> set (pricingMissDedup w) \<or> key \<in> set (pendingMissDedup w) then st
      else
        (let (w, db) = bumpSourceErrorCounter ts st;
             msg = ''unknown pricing for provider '' @ go_quote provider @ '' model '' @ go_quote model @ '' ('' @ missKind @ '')'' in
         case insert_log (source_log w ts ''WRN'' msg
           (JObj [(''miss_kind'', JStr missKind), (''model'', JStr model), (''provider'', JStr provider)])) db of
           None \<Rightarrow> (w\<lparr>batchObservabilityErrs := batchObservabilityErrs w + 1\<rparr>, db)
         | Some (_, db) \<Rightarrow> (w\<lparr>pendingMissDedup := List.insert key (pendingMissDedup w)\<rparr>, db)))"

definition priceOp :: "'c pricer \<Rightarrow> string \<Rightarrow> string \<Rightarrow> i64 \<Rightarrow> 'c OpFinalizedEvent \<Rightarrow> 'c wstate \<Rightarrow> 'c \<times> 'c wstate" where
  "priceOp p provider model ts ev st =
     (let (cost, hit, missKind) = px_cost p provider model ts (of_TokensIn ev) (of_TokensOut ev)
        (of_TokensCacheRead ev) (of_TokensCacheWrite ev)
      in (cost, if px_detailed p \<and> \<not> hit then emitPricingMiss provider model missKind ts st else st))"

definition resolveFinalizedOpCost ::
    "('c :: zero) OpFinalizedEvent \<Rightarrow> 'c op_row option \<Rightarrow> 'c wstate \<Rightarrow> 'c \<times> 'c wstate" where
  "resolveFinalizedOpCost ev row st =
     (let kind = map_option op_kind row; provider = Option.bind row op_provider; model = Option.bind row op_model in
      case the_pricer (fst st) of
        None \<Rightarrow> (of_CostUSD ev, st)
      | Some p \<Rightarrow>
          if of_CostUSD ev \<noteq> 0 \<or> \<not> isPriceableOp kind provider model then (of_CostUSD ev, st)
          else priceOp p (nullableString provider) (nullableString model)
            (case row of None \<Rightarrow> Ts ev | Some r \<Rightarrow> if i64_less 0 (op_start_ts r) then op_start_ts r else Ts ev) ev st)"

definition resolveFinalizedOpTiming :: "'c OpFinalizedEvent \<Rightarrow> i64 option \<Rightarrow> i64 option \<times> i64 option" where
  "resolveFinalizedOpTiming ev startTs = (case startTs of None \<Rightarrow> (None, None) | Some start \<Rightarrow>
     if \<not> i64_less 0 (of_EndTs ev) \<or> \<not> i64_less 0 start \<or> i64_less (of_EndTs ev) start then (None, None)
     else (Some (of_EndTs ev), Some (of_EndTs ev - start)))"

definition updateFinalizedOp :: "'c OpFinalizedEvent \<Rightarrow> i64 option \<times> i64 option \<Rightarrow> 'c \<Rightarrow> 'c op_row \<Rightarrow> 'c op_row" where
  "updateFinalizedOp ev timing cost r =
     r\<lparr>op_end_ts := coalesce (fst timing) (op_end_ts r), op_duration_us := coalesce (snd timing) (op_duration_us r),
       op_status := nonEmpty (of_Status ev) StatusCompleted, op_error_class := nullIfEmpty (of_ErrorClass ev),
       op_error_message := nullIfEmpty (of_ErrorMessage ev), op_tokens_in := of_TokensIn ev,
       op_tokens_out := of_TokensOut ev, op_tokens_cache_read := of_TokensCacheRead ev,
       op_tokens_cache_write := of_TokensCacheWrite ev, op_cost_usd := cost, op_bytes_in := of_BytesIn ev,
       op_bytes_out := of_BytesOut ev, op_chars_in := nullIfZero (of_CharsIn ev), op_chars_out := nullIfZero (of_CharsOut ev),
       op_ctx_used := nullIfZero (of_CtxUsed ev), op_ctx_max := nullIfZero (of_CtxMax ev)\<rparr>"

definition markOpFinalizedDirty :: "string \<Rightarrow> string \<Rightarrow> string \<Rightarrow> i64 option \<Rightarrow> 'c writer \<Rightarrow> 'c writer" where
  "markOpFinalizedDirty tid sid opid startTs w =
     (let w = markDirtySession sid (markDirtyTurn tid w);
          w = (case startTs of None \<Rightarrow> w | Some ts \<Rightarrow> markDirtyRollupBucket ts w)
      in markDirtyOp opid w)"

definition applyOpFinalized :: "('c :: ab_group_add) OpFinalizedEvent \<Rightarrow> 'c wstate \<Rightarrow> 'c wstate option" where
  "applyOpFinalized ev st = do {
     (sid, w, db) \<leftarrow> requireSessionID (of_SessionNativeID ev) (Ts ev) st;
     let tid = turn_id_of w sid (of_TurnSeq ev);
     let opid = op_id_of w tid (of_Seq ev);
     let prior = opPriorTotals opid db;
     let persisted = map_of (ops db) opid;
     let (cost, w, db) = resolveFinalizedOpCost ev persisted (w, db);
     let timing = resolveFinalizedOpTiming ev (map_option op_start_ts persisted);
     let db = db\<lparr>ops := update_row opid (updateFinalizedOp ev timing cost) (ops db)\<rparr>;
     let w = markOpFinalizedDirty tid sid opid (map_option op_start_ts persisted) w;
     Some (w, onOpFinalized opid (ev\<lparr>of_CostUSD := cost\<rparr>) prior db) }"

section \<open>Payload references\<close>

definition payload_identity :: "payload_ref_row \<Rightarrow> string \<times> string \<times> string" where
  "payload_identity r = (pl_op_id r, pl_kind r, pl_location_uri r)"

definition insert_payload_ref :: "payload_ref_row \<Rightarrow> 'c db \<Rightarrow> 'c db" where
  "insert_payload_ref r db =
     (if payload_identity r \<in> payload_identity ` set (payload_refs db) then db
      else db\<lparr>payload_refs := payload_refs db @ [r]\<rparr>)"

definition reportOrphanPayloadRef :: "PayloadRefEvent \<Rightarrow> string \<Rightarrow> 'c wstate \<Rightarrow> 'c wstate option" where
  "reportOrphanPayloadRef ev opid st =
     (let (w, db) = bumpSourceErrorCounter (Ts ev) st in do {
       (_, db) \<leftarrow> insert_log (source_log w (Ts ev) ''ERR''
         (''payload_ref references unknown op '' @ opid @ ''; dropped to protect the batch'')
         (JObj [(''location_uri'', JStr (pr_LocationURI ev)), (''op_id'', JStr opid), (''op_seq'', JNum (pr_OpSeq ev)),
           (''payload_kind'', JStr (pr_PayloadKind ev)), (''turn_seq'', JNum (pr_TurnSeq ev))])) db;
       Some (w, db) })"

definition applyPayloadRef :: "PayloadRefEvent \<Rightarrow> ('c :: zero) wstate \<Rightarrow> 'c wstate option" where
  "applyPayloadRef ev st = do {
     (sid, w, db) \<leftarrow> requireSessionID (pr_SessionNativeID ev) (Ts ev) st;
     let tid = turn_id_of w sid (pr_TurnSeq ev);
     let opid = op_id_of w tid (pr_OpSeq ev);
     if \<not> has_key opid (ops db) then reportOrphanPayloadRef ev opid (w, db)
     else Some (markDirtySession sid (markDirtyTurn tid w),
       insert_payload_ref
         \<lparr>pl_op_id = opid, pl_kind = pr_PayloadKind ev, pl_format = pr_Format ev,
          pl_compression = nullIfEmpty (pr_Compression ev), pl_location_uri = pr_LocationURI ev,
          pl_original_bytes = nullIfZero (pr_OriginalBytes ev), pl_stored_bytes = nullIfZero (pr_StoredBytes ev),
          pl_sha256 = nullIfEmpty (pr_SHA256 ev)\<rparr> db) }"

section \<open>Dispatch\<close>

fun dispatchEvent :: "('c :: ab_group_add) Event \<Rightarrow> 'c wstate \<Rightarrow> 'c wstate option" where
  "dispatchEvent (EvSessionStarted e) st = applySessionStarted e st"
| "dispatchEvent (EvSessionUpdated e) st = applySessionUpdated e st"
| "dispatchEvent (EvSessionFinalized e) st = applySessionFinalized e st"
| "dispatchEvent (EvTurnStarted e) st = applyTurnStarted e st"
| "dispatchEvent (EvTurnFinalized e) st = applyTurnFinalized e st"
| "dispatchEvent (EvOpStarted e) st = applyOpStarted e st"
| "dispatchEvent (EvOpFinalized e) st = applyOpFinalized e st"
| "dispatchEvent (EvPayloadRef e) st = applyPayloadRef e st"
| "dispatchEvent (EvLogEntry e) st = applyLogEntry e st"
| "dispatchEvent (EvSourceProgress e) st = Some (applySourceProgress e st)"
| "dispatchEvent (EvSourceError e) st = applySourceError e st"

definition apply_event :: "('c :: ab_group_add) Event \<Rightarrow> 'c wstate \<Rightarrow> 'c wstate option" where
  "apply_event ev st = (case st of (w, db) \<Rightarrow>
     dispatchEvent ev (if batchMaxSeq w < EventSourceSeq ev then w\<lparr>batchMaxSeq := EventSourceSeq ev\<rparr> else w, db))"

text \<open>The rows of a batch: \<open>worker.writeBatchRows\<close>.\<close>

definition ensureSourceRow :: "string \<Rightarrow> string \<Rightarrow> string \<Rightarrow> bool \<Rightarrow> string \<Rightarrow> 'c db \<Rightarrow> 'c db" where
  "ensureSourceRow src format location fts metaJSON db =
     db\<lparr>sources := upsert_row src
       \<lparr>so_format = format, so_location = location, so_last_seen_at = None, so_enabled = True, so_parse_errors = 0,
        so_fts5_index_logs = fts, so_meta_json = nullIfEmpty metaJSON\<rparr>
       (\<lambda>r. r\<lparr>so_format := format, so_location := location, so_fts5_index_logs := fts,
              so_meta_json := nullIfEmpty metaJSON\<rparr>) (sources db)\<rparr>"

fun apply_all :: "('c :: ab_group_add) Event list \<Rightarrow> 'c wstate \<Rightarrow> 'c wstate option" where
  "apply_all [] st = Some st"
| "apply_all (ev # evs) st = do { st \<leftarrow> apply_event ev st; apply_all evs st }"

definition writeBatchRows :: "string \<Rightarrow> string \<Rightarrow> ('c :: ab_group_add) Event list \<Rightarrow> 'c wstate \<Rightarrow> 'c wstate option" where
  "writeBatchRows location metaJSON batch st = (case st of (w, db) \<Rightarrow>
     apply_all batch (w, ensureSourceRow (sourceID w) (sourceFormat w) location (fts5IndexLogs w) metaJSON db))"

end
