(* ===== verification/Catalog_Facts.thy ===== *)
theory Catalog_Facts
  imports Catalog
begin

text \<open>
  The three op catalogs as instances of \<open>ledger\<close>: which row an op counts in, and that the
  handlers of \<open>catalog.go\<close> keep every row the sum over its ops.
\<close>

section \<open>Keys\<close>

definition provider_of :: "effectiveCatalogIdentity \<Rightarrow> (string \<times> string) option" where
  "provider_of i = (if ei_kind i = OpLLM \<and> ei_provider i \<noteq> [] then Some (ei_provider i, ei_providerAlias i) else None)"

definition model_of :: "effectiveCatalogIdentity \<Rightarrow> (string \<times> string) option" where
  "model_of i = (if ei_kind i = OpLLM \<and> ei_provider i \<noteq> [] \<and> ei_model i \<noteq> [] then Some (ei_provider i, ei_model i) else None)"

definition tool_of :: "effectiveCatalogIdentity \<Rightarrow> (string \<times> string) option" where
  "tool_of i = (if ei_kind i = OpTool \<and> ei_name i \<noteq> []
     then Some (normalizeToolNamespace (ei_toolNamespace i), ei_name i) else None)"

lemmas key_defs = provider_of_def model_of_def tool_of_def

definition row_identity :: "'c op_row \<Rightarrow> effectiveCatalogIdentity" where
  "row_identity r = \<lparr>ei_kind = op_kind r, ei_name = op_name r, ei_toolNamespace = nullableString (op_tool_namespace r),
     ei_model = nullableString (op_model r), ei_provider = nullableString (op_provider r),
     ei_providerAlias = nullableString (op_provider_alias r)\<rparr>"

definition provider_key :: "'c op_row \<Rightarrow> (string \<times> string) option" where "provider_key r = provider_of (row_identity r)"
definition model_key :: "'c op_row \<Rightarrow> (string \<times> string) option" where "model_key r = model_of (row_identity r)"
definition tool_key :: "'c op_row \<Rightarrow> (string \<times> string) option" where "tool_key r = tool_of (row_identity r)"

lemmas row_key_defs = provider_key_def model_key_def tool_key_def

interpretation providers: ledger provider_key provider_columns
  by unfold_locales (simp add: provider_columns_def totals_defs)

interpretation models: ledger model_key model_columns
  by unfold_locales (simp add: model_columns_def)

interpretation tools: ledger tool_key tool_columns
  by unfold_locales (simp add: tool_columns_def totals_defs)

text \<open>The tools catalog has no row of a nameless tool.\<close>

definition all_named :: "((string \<times> string) \<times> 'c catalog_row) list \<Rightarrow> bool" where
  "all_named tab \<longleftrightarrow> [] \<notin> snd ` fst ` set tab"

lemma all_named_simps [simp]:
  "all_named [] " "snd k \<noteq> [] \<Longrightarrow> all_named (bump_call k ts n seed tab) = all_named tab"
  "all_named (migrate_row k t dir tab) = all_named tab" "all_named (update_row k f tab) = all_named tab"
  unfolding all_named_def by auto

lemma tool_of_named: "tool_of i = Some k \<Longrightarrow> snd k \<noteq> []"
  by (auto simp: tool_of_def split: if_splits)

lemma all_named_on_key [simp]:
  "all_named (on_key (tool_of i) (\<lambda>k. bump_call k ts n (seed k)) tab) = all_named tab"
  "all_named (on_key i' (\<lambda>k. migrate_row k t dir) tab) = all_named tab"
  "all_named (on_key i' (\<lambda>k. update_row k f) tab) = all_named tab"
  using tool_of_named [of i] by (simp_all add: on_key_def split: option.splits)

lemma all_named_unnamed: "all_named tab \<Longrightarrow> map_of tab (ns, []) = None"
  by (force simp: all_named_def map_of_eq_None_iff)

definition balanced :: "('c :: ab_group_add) db \<Rightarrow> bool" where
  "balanced db \<longleftrightarrow> distinct (map fst (ops db)) \<and>
     accounts provider_key provider_columns (ops db) (catalog_providers db) \<and>
     accounts model_key model_columns (ops db) (catalog_models db) \<and>
     accounts tool_key tool_columns (ops db) (catalog_tools db) \<and>
     all_named (catalog_tools db)"

section \<open>The statements by key\<close>

lemma OpLLM_OpTool [simp]: "OpLLM \<noteq> OpTool" "OpTool \<noteq> OpLLM"
  by (simp_all add: OpLLM_def OpTool_def)

definition prior_identity :: "'c priorOpIdentity \<Rightarrow> effectiveCatalogIdentity" where
  "prior_identity p = \<lparr>ei_kind = pi_kind p, ei_name = pi_name p, ei_toolNamespace = pi_toolNamespace p,
     ei_model = pi_model p, ei_provider = pi_provider p, ei_providerAlias = pi_providerAlias p\<rparr>"

lemma upsertStartedCatalog_tables:
  fixes ctxMaxOf eff ts n db
  defines "db' \<equiv> upsertStartedCatalog ctxMaxOf eff ts n db"
  shows "ops db' = ops db"
    and "catalog_providers db' = on_key (provider_of eff) (\<lambda>k. bump_call k ts n None) (catalog_providers db)"
    and "catalog_models db' = on_key (model_of eff) (\<lambda>k. bump_call k ts n (ctxMaxSeed ctxMaxOf (fst k) (snd k))) (catalog_models db)"
    and "catalog_tools db' = on_key (tool_of eff) (\<lambda>k. bump_call k ts n None) (catalog_tools db)"
  by (simp_all add: db'_def upsertStartedCatalog_def upsertStartedLLM_def upsertStartedModel_def upsertProvider_def
      upsertStartedTool_def key_defs on_key_def)

lemmas migrate_defs = migrateProviderTotals_def migrateModelTotals_def migrateToolTotals_def

lemma removeOpContribution_tables:
  fixes p db
  defines "db' \<equiv> removeOpContribution p db" and "t \<equiv> booked_totals (pi_totals p)"
  shows "ops db' = ops db"
    and "catalog_providers db' =
      on_key (provider_of (prior_identity p)) (\<lambda>k. migrate_row k (provider_columns t) migrateOut) (catalog_providers db)"
    and "catalog_models db' =
      on_key (model_of (prior_identity p)) (\<lambda>k. migrate_row k (model_columns t) migrateOut) (catalog_models db)"
    and "catalog_tools db' =
      on_key (tool_of (prior_identity p)) (\<lambda>k. migrate_row k (tool_columns t) migrateOut) (catalog_tools db)"
  by (simp_all add: db'_def t_def removeOpContribution_def migrate_defs key_defs on_key_def prior_identity_def)

lemma addMigratedTotals_tables:
  fixes eff t db
  defines "db' \<equiv> addMigratedTotals eff t db" and "b \<equiv> booked_totals t"
  shows "ops db' = ops db"
    and "catalog_providers db' =
      on_key (provider_of eff) (\<lambda>k. migrate_row k (provider_columns b) migrateIn) (catalog_providers db)"
    and "catalog_models db' =
      on_key (model_of eff) (\<lambda>k. migrate_row k (model_columns b) migrateIn) (catalog_models db)"
    and "catalog_tools db' =
      on_key (tool_of eff) (\<lambda>k. migrate_row k (tool_columns b) migrateIn) (catalog_tools db)"
  by (simp_all add: db'_def b_def addMigratedTotals_def migrate_defs key_defs on_key_def)

lemmas catalog_tables = upsertStartedCatalog_tables removeOpContribution_tables addMigratedTotals_tables

lemma unchanged_identity_keys:
  assumes "\<not> catalogIdentityChanged eff p"
  shows "provider_of eff = provider_of (prior_identity p)" "model_of eff = model_of (prior_identity p)"
    "tool_of eff = tool_of (prior_identity p)"
  using assms by (auto simp: catalogIdentityChanged_def key_defs prior_identity_def split: if_splits)

lemma opPriorIdentity_found:
  "map_of (ops db) opid = Some r \<Longrightarrow> pi_found (opPriorIdentity opid db) \<and>
     prior_identity (opPriorIdentity opid db) = row_identity r \<and>
     booked_totals (pi_totals (opPriorIdentity opid db)) = contribution r"
  by (simp add: opPriorIdentity_def prior_identity_def row_identity_def contribution_def)

lemma opPriorIdentity_new:
  "map_of (ops db) opid = None \<Longrightarrow> \<not> pi_found (opPriorIdentity opid db)"
  by (simp add: opPriorIdentity_def)

section \<open>The handlers keep the accounts\<close>

lemma onOpStarted_balanced:
  assumes bal: "balanced db"
    and new: "row_identity new = effectiveOpIdentity ev (opPriorIdentity opid db)"
    and contrib: "contribution new = (case map_of (ops db) opid of None \<Rightarrow> 0 | Some r \<Rightarrow> contribution r)"
  shows "balanced (onOpStarted ctxMaxOf ev (\<not> pi_found (opPriorIdentity opid db)) (opPriorIdentity opid db)
    (db\<lparr>ops := alist_put opid new (ops db)\<rparr>))" (is "balanced ?db'")
proof -
  define p where "p = opPriorIdentity opid db"
  define eff where "eff = effectiveOpIdentity ev p"
  have keys: "provider_key new = provider_of eff" "model_key new = model_of eff" "tool_key new = tool_of eff"
    using new by (simp_all add: row_key_defs eff_def p_def)
  have d: "distinct (map fst (ops db))"
    and acc: "accounts provider_key provider_columns (ops db) (catalog_providers db)"
      "accounts model_key model_columns (ops db) (catalog_models db)"
      "accounts tool_key tool_columns (ops db) (catalog_tools db)"
    and named: "all_named (catalog_tools db)"
    using bal by (simp_all add: balanced_def)
  show ?thesis
  proof (cases "map_of (ops db) opid")
    case None
    have "?db' = upsertStartedCatalog ctxMaxOf eff (Ts ev) 1 (db\<lparr>ops := alist_put opid new (ops db)\<rparr>)"
      using opPriorIdentity_new [OF None] by (simp add: onOpStarted_def catalogCallIncrement_def eff_def p_def Let_def)
    moreover have "contribution new = 0" using contrib None by simp
    note ins = providers.accounts_insert [OF acc(1) d None this] models.accounts_insert [OF acc(2) d None this]
      tools.accounts_insert [OF acc(3) d None this]
    ultimately show ?thesis
      using d named ins by (simp add: balanced_def catalog_tables keys)
  next
    case (Some old)
    note prior = opPriorIdentity_found [OF Some, folded p_def]
    have same: "contribution new = contribution old" using contrib Some by simp
    show ?thesis
    proof (cases "catalogIdentityChanged eff p")
      case False
      have db': "?db' = upsertStartedCatalog ctxMaxOf eff (Ts ev) 0 (db\<lparr>ops := alist_put opid new (ops db)\<rparr>)"
        using prior False by (simp add: onOpStarted_def catalogCallIncrement_def eff_def [symmetric] p_def [symmetric] Let_def)
      have "provider_key new = provider_key old" "model_key new = model_key old" "tool_key new = tool_key old"
        unfolding keys using unchanged_identity_keys [OF False] prior by (simp_all add: row_key_defs)
      note sm = providers.accounts_same [OF acc(1) d Some this(1) same] models.accounts_same [OF acc(2) d Some this(2) same]
        tools.accounts_same [OF acc(3) d Some this(3) same]
      show ?thesis
        using d named sm unfolding db' by (simp add: balanced_def catalog_tables keys)
    next
      case True
      have db': "?db' = addMigratedTotals eff (pi_totals p) (upsertStartedCatalog ctxMaxOf eff (Ts ev) 1
          (removeOpContribution p (db\<lparr>ops := alist_put opid new (ops db)\<rparr>)))"
        using prior True by (simp add: onOpStarted_def catalogCallIncrement_def eff_def [symmetric] p_def [symmetric] Let_def)
      have old_keys: "provider_key old = provider_of (prior_identity p)" "model_key old = model_of (prior_identity p)"
        "tool_key old = tool_of (prior_identity p)"
        using prior by (simp_all add: row_key_defs)
      note mg = providers.accounts_migrate [OF acc(1) d Some same, unfolded old_keys keys]
        models.accounts_migrate [OF acc(2) d Some same, unfolded old_keys keys]
        tools.accounts_migrate [OF acc(3) d Some same, unfolded old_keys keys]
      show ?thesis
        using d named mg prior unfolding db' by (simp add: balanced_def catalog_tables)
    qed
  qed
qed

text \<open>A finalized op keeps its identity and moves its totals.\<close>

lemma onOpFinalized_tables:
  fixes ev prior and db :: "('c :: ab_group_add) db"
  assumes "map_of (ops db) opid = Some row"
  defines "db' \<equiv> onOpFinalized opid ev prior db" and "delta \<equiv> catalogTotalsDeltaFrom row prior"
  shows "ops db' = ops db"
    and "catalog_providers db' = on_key (provider_key row) (\<lambda>k. update_row k
      (\<lambda>r. r\<lparr>c_totals := c_totals r + provider_columns delta, c_last_seen := max64 (c_last_seen r) (of_EndTs ev)\<rparr>))
      (catalog_providers db)"
    and "catalog_models db' = on_key (model_key row) (\<lambda>k. update_row k
      (\<lambda>r. r\<lparr>c_totals := c_totals r + model_columns delta,
            c_ctx_max := (if i64_less 0 (of_CtxMax ev)
              then Some (max64 (case c_ctx_max r of None \<Rightarrow> 0 | Some m \<Rightarrow> m) (of_CtxMax ev)) else c_ctx_max r),
            c_last_seen := max64 (c_last_seen r) (of_EndTs ev)\<rparr>)) (catalog_models db)"
  using assms(1)
  by (simp_all add: db'_def delta_def onOpFinalized_def updateFinalizedLLM_def updateFinalizedProvider_def
      updateFinalizedModel_def updateFinalizedTool_def row_key_defs key_defs row_identity_def on_key_def Let_def)

lemma onOpFinalized_tools:
  fixes ev prior and db :: "('c :: ab_group_add) db"
  assumes "map_of (ops db) opid = Some row" "all_named (catalog_tools db)"
  shows "catalog_tools (onOpFinalized opid ev prior db) = on_key (tool_key row) (\<lambda>k. update_row k
      (\<lambda>r. r\<lparr>c_totals := c_totals r + tool_columns (catalogTotalsDeltaFrom row prior),
            c_last_seen := max64 (c_last_seen r) (of_EndTs ev)\<rparr>)) (catalog_tools db)"
  using assms(1) all_named_unnamed [OF assms(2)]
  by (simp add: onOpFinalized_def updateFinalizedLLM_def updateFinalizedProvider_def updateFinalizedModel_def
      updateFinalizedTool_def tool_key_def tool_of_def row_identity_def on_key_def update_row_def Let_def)

lemma onOpFinalized_balanced:
  assumes bal: "balanced db"
    and new: "\<And>r. map_of (ops db) opid = Some r \<Longrightarrow> row_identity (f r) = row_identity r"
  shows "balanced (onOpFinalized opid ev (opPriorTotals opid db) (db\<lparr>ops := update_row opid f (ops db)\<rparr>))"
proof (cases "map_of (ops db) opid")
  case None
  then show ?thesis using bal by (simp add: onOpFinalized_def update_row_def)
next
  case (Some old)
  let ?db = "db\<lparr>ops := alist_put opid (f old) (ops db)\<rparr>" and ?prior = "opPriorTotals opid db"
  have row: "map_of (ops ?db) opid = Some (f old)" by simp
  have delta: "catalogTotalsDeltaFrom (f old) ?prior = contribution (f old) - contribution old"
    using Some by (simp add: opPriorTotals_def catalogTotalsDeltaFrom_def contribution_def booked_totals_def
        prior_totals_of_def minus_totals_def)
  have keys: "provider_key (f old) = provider_key old" "model_key (f old) = model_key old" "tool_key (f old) = tool_key old"
    using new [OF Some] by (simp_all add: row_key_defs)
  have d: "distinct (map fst (ops db))" and named: "all_named (catalog_tools ?db)"
    and acc: "accounts provider_key provider_columns (ops db) (catalog_providers db)"
      "accounts model_key model_columns (ops db) (catalog_models db)"
      "accounts tool_key tool_columns (ops db) (catalog_tools db)"
    using bal by (simp_all add: balanced_def)
  note dl = providers.accounts_delta [OF acc(1) d Some keys(1) delta] models.accounts_delta [OF acc(2) d Some keys(2) delta]
    tools.accounts_delta [OF acc(3) d Some keys(3) delta]
  have upd: "db\<lparr>ops := update_row opid f (ops db)\<rparr> = ?db" using Some by (simp add: update_row_def)
  show ?thesis
    using d named unfolding upd balanced_def onOpFinalized_tables [OF row] onOpFinalized_tools [OF row named]
    by (simp add: dl)
qed

end
