(* ===== verification/Writer_Facts.thy ===== *)
theory Writer_Facts
  imports Writer Catalog_Facts
begin

text \<open>
  What the handlers of the writer do to the keys of the tables, when they fail, and that the op
  catalogs stay balanced.
\<close>

section \<open>Effects\<close>

abbreviation keys :: "('k \<times> 'v) list \<Rightarrow> 'k set" where
  "keys tab \<equiv> fst ` set tab"

definition same_source :: "'c writer \<Rightarrow> 'c writer \<Rightarrow> bool" where
  "same_source w w' \<longleftrightarrow> sourceID w' = sourceID w \<and> hash w' = hash w"

text \<open>Every op's row has the rows it refers to.\<close>

definition ops_ok :: "'c db \<Rightarrow> bool" where
  "ops_ok db \<longleftrightarrow> (\<forall>opid r. map_of (ops db) opid = Some r \<longrightarrow> op_fk_ok db opid r)"

text \<open>The source is registered and the caches of the batch tell what the database holds.\<close>

definition caches_ok :: "'c writer \<Rightarrow> string set \<Rightarrow> bool" where
  "caches_ok w S \<longleftrightarrow> (\<forall>nativeID sid. map_of (batchSessionIDs w) nativeID = Some sid \<longrightarrow>
     sid = session_id_of w nativeID \<and> sid \<in> S)"

definition valid_state :: "'c wstate \<Rightarrow> bool" where
  "valid_state st \<longleftrightarrow> (case st of (w, db) \<Rightarrow> sourceID w \<in> keys (sources db) \<and>
     caches_ok w (keys (sessions db)) \<and> set (batchTurns w) \<subseteq> keys (turns db) \<and> ops_ok db)"

lemma caches_ok_mono:
  "caches_ok w S \<Longrightarrow> same_source w w' \<Longrightarrow> batchSessionIDs w' = batchSessionIDs w \<Longrightarrow> S \<subseteq> S' \<Longrightarrow> caches_ok w' S'"
  unfolding caches_ok_def same_source_def by (metis subsetD)

definition has_parent :: "'c db \<Rightarrow> string \<Rightarrow> bool" where
  "has_parent db opid \<longleftrightarrow> (case map_of (ops db) opid of None \<Rightarrow> False | Some r \<Rightarrow> op_parent_op_id r \<noteq> None)"

definition grows :: "'c db \<Rightarrow> 'c db \<Rightarrow> bool" where
  "grows db db' \<longleftrightarrow> log_identity ` set (log_entries db) \<subseteq> log_identity ` set (log_entries db') \<and>
     Collect (has_parent db) \<subseteq> Collect (has_parent db')"

text \<open>Which keys a step adds to sessions, turns and ops; what is there stays.\<close>

definition effect :: "string set \<Rightarrow> string set \<Rightarrow> string set \<Rightarrow> 'c wstate \<Rightarrow> 'c wstate \<Rightarrow> bool" where
  "effect S T P st st' \<longleftrightarrow> same_source (fst st) (fst st') \<and> valid_state st' \<and> grows (snd st) (snd st') \<and>
     keys (sources (snd st')) = keys (sources (snd st)) \<and>
     keys (sessions (snd st')) = keys (sessions (snd st)) \<union> S \<and>
     keys (turns (snd st')) = keys (turns (snd st)) \<union> T \<and> keys (ops (snd st')) = keys (ops (snd st)) \<union> P"

lemma effect_trans:
  "effect S T P st st' \<Longrightarrow> effect S' T' P' st' st'' \<Longrightarrow> effect (S \<union> S') (T \<union> T') (P \<union> P') st st''"
  unfolding effect_def same_source_def grows_def by auto

lemma op_fk_ok_mono:
  "op_fk_ok db opid r \<Longrightarrow> keys (sessions db) \<subseteq> keys (sessions db') \<Longrightarrow> keys (turns db) \<subseteq> keys (turns db') \<Longrightarrow>
   keys (ops db) \<subseteq> keys (ops db') \<Longrightarrow> op_fk_ok db' opid r"
  by (auto simp: op_fk_ok_def has_key_iff split: option.splits)

text \<open>Steps that only mark rows dirty, and steps that leave the ops alone.\<close>

lemma effect_marks:
  assumes "valid_state (w, db)" "same_source w w'" "batchSessionIDs w' = batchSessionIDs w" "batchTurns w' = batchTurns w"
  shows "effect {} {} {} (w, db) (w', db)"
  using assms caches_ok_mono [of w "keys (sessions db)" w' "keys (sessions db)"]
  by (simp add: effect_def valid_state_def grows_def) (simp add: same_source_def)

lemma effect_rows:
  assumes "valid_state (w, db)" "keys (sources db') = keys (sources db)" "keys (sessions db') = keys (sessions db) \<union> S"
    "keys (turns db') = keys (turns db) \<union> T" "ops db' = ops db"
    "log_identity ` set (log_entries db) \<subseteq> log_identity ` set (log_entries db')"
  shows "effect S T {} (w, db) (w, db')"
proof -
  have "op_fk_ok db' opid r" if "op_fk_ok db opid r" for opid r
    using that by (rule op_fk_ok_mono) (simp_all add: assms(3-5))
  then have "ops_ok db'" using assms(1,5) by (simp add: valid_state_def ops_ok_def)
  moreover have "has_parent db' = has_parent db" by (rule ext) (simp add: has_parent_def assms(5))
  moreover have "caches_ok w (keys (sessions db'))"
    using assms(1,3) caches_ok_mono [of w "keys (sessions db)" w "keys (sessions db')"] by (simp add: valid_state_def same_source_def)
  ultimately show ?thesis
    using assms by (auto simp: effect_def valid_state_def grows_def same_source_def)
qed

lemma effect_sessions:
  assumes "valid_state (w, db)"
  shows "effect {sid} {} {} (w, db) (w, db\<lparr>sessions := upsert_row sid x f (sessions db)\<rparr>)"
    and "effect {sid} {} {} (w, db) (w, db\<lparr>sessions := insert_missing sid x (sessions db)\<rparr>)"
  by (rule effect_rows [OF assms]; simp)+

lemma effect_turn:
  assumes "valid_state (w, db)" "upsert_turn tid x f db = Some db'"
  shows "effect {} {tid} {} (w, db) (w, db')"
proof -
  have "db' = db\<lparr>turns := upsert_row tid x f (turns db)\<rparr>" using assms(2) by (simp add: upsert_turn_def split: if_splits)
  then show ?thesis by (intro effect_rows [OF assms(1)]) simp_all
qed

lemma effect_op:
  assumes "valid_state (w, db)" "upsert_op opid x f db = Some db'"
    and "\<And>r. op_parent_op_id r \<noteq> None \<Longrightarrow> op_parent_op_id (f r) \<noteq> None"
  shows "effect {} {} {opid} (w, db) (w, db')"
proof -
  define r where "r = (case map_of (ops db) opid of None \<Rightarrow> x | Some r \<Rightarrow> f r)"
  have ok: "op_fk_ok db opid r" and db': "db' = db\<lparr>ops := alist_put opid r (ops db)\<rparr>"
    using assms(2) by (auto simp: upsert_op_def r_def Let_def split: if_splits)
  have mono: "op_fk_ok db' opid' r'" if "op_fk_ok db opid' r'" for opid' r'
    using that by (rule op_fk_ok_mono) (auto simp: db' fst_alist_put)
  have "ops_ok db'"
    using assms(1) ok mono by (auto simp: ops_ok_def valid_state_def db' split: if_splits)
  moreover have "has_parent db' opid'" if "has_parent db opid'" for opid'
    using that assms(3) by (auto simp: has_parent_def db' r_def split: option.splits if_splits)
  ultimately show ?thesis
    using assms(1) by (auto simp: effect_def valid_state_def same_source_def grows_def db' fst_alist_put)
qed

lemma cached_session:
  assumes "valid_state (w, db)" "map_of (batchSessionIDs w) nativeID = Some sid"
  shows "sid = session_id_of w nativeID" "sid \<in> keys (sessions db)"
  using assms unfolding valid_state_def caches_ok_def prod.case by blast+

lemma valid_cache_put:
  assumes "valid_state (w, db)" "session_id_of w nativeID \<in> keys (sessions db)"
  shows "valid_state (w\<lparr>batchSessionIDs := alist_put nativeID (session_id_of w nativeID) (batchSessionIDs w)\<rparr>, db)"
    (is "valid_state (?w, db)")
proof -
  have cached: "sid = session_id_of ?w n \<and> sid \<in> keys (sessions db)" if "map_of (batchSessionIDs ?w) n = Some sid" for n sid
  proof (cases "n = nativeID")
    case True
    then show ?thesis using that assms(2) by simp
  next
    case False
    then have "map_of (batchSessionIDs w) n = Some sid" using that by simp
    from cached_session [OF assms(1) this] show ?thesis by simp
  qed
  have "caches_ok ?w (keys (sessions db))" unfolding caches_ok_def by (intro allI impI) (erule cached)
  moreover have "sourceID ?w = sourceID w" "batchTurns ?w = batchTurns w" by simp_all
  ultimately show ?thesis using assms(1) unfolding valid_state_def prod.case by metis
qed

lemma requireSessionID_Some:
  assumes v: "valid_state (w, db)" and n: "nativeID \<noteq> []"
  obtains w' db' where "requireSessionID nativeID ts (w, db) = Some (session_id_of w nativeID, w', db')"
    "effect {session_id_of w nativeID} {} {} (w, db) (w', db')"
    "turns db' = turns db" "ops db' = ops db" "log_entries db' = log_entries db" "batchTurns w' = batchTurns w"
    "map_of (batchSessionIDs w') nativeID = Some (session_id_of w nativeID)"
proof (cases "map_of (batchSessionIDs w) nativeID")
  case (Some sid)
  note sid = cached_session [OF v Some]
  have "effect {session_id_of w nativeID} {} {} (w, db) (w, db)"
    using v sid by (auto simp: effect_def same_source_def grows_def insert_absorb)
  moreover have "requireSessionID nativeID ts (w, db) = Some (session_id_of w nativeID, w, db)"
    using n Some sid(1) by (simp add: requireSessionID_def)
  ultimately show ?thesis using Some sid(1) by (intro that) simp_all
next
  case None
  let ?sid = "session_id_of w nativeID"
  let ?w1 = "w\<lparr>batchSessionIDs := alist_put nativeID ?sid (batchSessionIDs w)\<rparr>"
  show ?thesis
  proof (cases "has_key ?sid (sessions db)")
    case True
    have "requireSessionID nativeID ts (w, db) = Some (?sid, ?w1, db)"
      using n None True by (simp add: requireSessionID_def lookupSessionID_def)
    moreover have "effect {?sid} {} {} (w, db) (?w1, db)"
      using valid_cache_put [OF v] True
      by (simp add: effect_def same_source_def grows_def insert_absorb has_key_iff)
    ultimately show ?thesis by (rule that) simp_all
  next
    case False
    let ?w2 = "markDirtySession ?sid ?w1"
    let ?db' = "db\<lparr>sessions := insert_missing ?sid (new_session_row (sourceID w) nativeID ?sid ts) (sessions db)\<rparr>"
    have src: "has_key (sourceID w) (sources db)" using v by (simp add: valid_state_def has_key_iff)
    have "requireSessionID nativeID ts (w, db) = Some (?sid, ?w2, ?db')"
      using n None False src by (simp add: requireSessionID_def lookupSessionID_def Let_def)
    moreover have e1: "effect {?sid} {} {} (w, db) (w, ?db')" by (rule effect_sessions(2) [OF v])
    have v1: "valid_state (?w1, ?db')"
      using e1 by (intro valid_cache_put) (simp_all add: effect_def)
    have "effect {?sid} {} {} (w, db) (?w2, ?db')"
      using e1 effect_marks [OF v1, of ?w2]
      by (simp add: effect_def same_source_def markDirtySession_def)
    ultimately show ?thesis by (rule that) (simp_all add: markDirtySession_def)
  qed
qed

lemma requireSessionID_empty [simp]: "requireSessionID [] ts st = None"
  by (simp add: requireSessionID_def split: prod.splits)

lemma same_source_marks [simp]:
  "same_source w (markDirtySession x w') = same_source w w'" "same_source w (markDirtyTurn x w') = same_source w w'"
  "same_source w (markDirtyOp x w') = same_source w w'" "same_source w (markDirtyRollupBucket ts w') = same_source w w'"
  by (simp_all add: same_source_def markDirtySession_def markDirtyTurn_def markDirtyOp_def markDirtyRollupBucket_def)

lemma caches_marks [simp]:
  "batchSessionIDs (markDirtySession x w) = batchSessionIDs w" "batchTurns (markDirtySession x w) = batchTurns w"
  "batchSessionIDs (markDirtyTurn x w) = batchSessionIDs w" "batchTurns (markDirtyTurn x w) = batchTurns w"
  "batchSessionIDs (markDirtyOp x w) = batchSessionIDs w" "batchTurns (markDirtyOp x w) = batchTurns w"
  "batchSessionIDs (markDirtyRollupBucket ts w) = batchSessionIDs w" "batchTurns (markDirtyRollupBucket ts w) = batchTurns w"
  by (simp_all add: markDirtySession_def markDirtyTurn_def markDirtyOp_def markDirtyRollupBucket_def)

lemma fold_markDirtyRollupBucket [simp]:
  "same_source w (fold markDirtyRollupBucket tss w') = same_source w w'"
  "batchSessionIDs (fold markDirtyRollupBucket tss w') = batchSessionIDs w'"
  "batchTurns (fold markDirtyRollupBucket tss w') = batchTurns w'"
  by (induction tss arbitrary: w') simp_all

lemma marks_session_buckets [simp]:
  "same_source w (markSessionRollupBucketsDirty sid db w') = same_source w w'"
  "batchSessionIDs (markSessionRollupBucketsDirty sid db w') = batchSessionIDs w'"
  "batchTurns (markSessionRollupBucketsDirty sid db w') = batchTurns w'"
  by (simp_all add: markSessionRollupBucketsDirty_def split: option.splits)

lemma same_source_refl [simp]: "same_source w w"
  by (simp add: same_source_def)

section \<open>When a handler fails\<close>

text \<open>
  Without a session's native id nothing is written. Besides, only two statements can meet a
  missing row: a started op whose parent op is not there, and a log entry of a turn or op that
  is not there.
\<close>

fun native_id :: "'c Event \<Rightarrow> string option" where
  "native_id (EvSessionStarted e) = Some (sst_NativeID e)"
| "native_id (EvSessionUpdated e) = Some (su_NativeID e)"
| "native_id (EvSessionFinalized e) = Some (sf_NativeID e)"
| "native_id (EvTurnStarted e) = Some (ts_SessionNativeID e)"
| "native_id (EvTurnFinalized e) = Some (tf_SessionNativeID e)"
| "native_id (EvOpStarted e) = Some (os_SessionNativeID e)"
| "native_id (EvOpFinalized e) = Some (of_SessionNativeID e)"
| "native_id (EvPayloadRef e) = Some (pr_SessionNativeID e)"
| "native_id (EvLogEntry e) = Some (le_SessionNativeID e)"
| "native_id (EvSourceProgress e) = None"
| "native_id (EvSourceError e) = None"

definition event_turn :: "'c writer \<Rightarrow> string \<Rightarrow> int \<Rightarrow> string" where
  "event_turn w nativeID seq = turn_id_of w (session_id_of w nativeID) seq"

fun missing_row :: "'c Event \<Rightarrow> 'c wstate \<Rightarrow> bool" where
  "missing_row (EvOpStarted e) (w, db) =
     (let tid = event_turn w (os_SessionNativeID e) (os_TurnSeq e); opid = op_id_of w tid (os_Seq e) in
      case resolveOpStartedParent w tid (os_ParentOpSeq e) of None \<Rightarrow> False
      | Some p \<Rightarrow> p \<noteq> opid \<and> p \<notin> keys (ops db) \<and> \<not> has_parent db opid)"
| "missing_row (EvLogEntry e) (w, db) =
     (let r = session_log e w (session_id_of w (le_SessionNativeID e)) in
      log_identity r \<notin> log_identity ` set (log_entries db) \<and>
      ((case lg_turn_id r of None \<Rightarrow> False | Some t \<Rightarrow> t \<notin> keys (turns db)) \<or>
       (case lg_op_id r of None \<Rightarrow> False | Some p \<Rightarrow> p \<notin> keys (ops db))))"
| "missing_row _ _ = False"

definition rejects :: "'c Event \<Rightarrow> 'c wstate \<Rightarrow> bool" where
  "rejects ev st \<longleftrightarrow> native_id ev = Some [] \<or> missing_row ev st"

text \<open>The keys an event adds.\<close>

definition touched_sessions :: "'c writer \<Rightarrow> 'c Event \<Rightarrow> string set" where
  "touched_sessions w ev = (case native_id ev of None \<Rightarrow> {} | Some n \<Rightarrow> {session_id_of w n})"

fun touched_turns :: "'c writer \<Rightarrow> 'c Event \<Rightarrow> string set" where
  "touched_turns w (EvTurnStarted e) = {event_turn w (ts_SessionNativeID e) (ts_Seq e)}"
| "touched_turns w (EvTurnFinalized e) = {event_turn w (tf_SessionNativeID e) (tf_Seq e)}"
| "touched_turns w (EvOpStarted e) = {event_turn w (os_SessionNativeID e) (os_TurnSeq e)}"
| "touched_turns w _ = {}"

fun touched_ops :: "'c writer \<Rightarrow> 'c Event \<Rightarrow> string set" where
  "touched_ops w (EvOpStarted e) = {op_id_of w (event_turn w (os_SessionNativeID e) (os_TurnSeq e)) (os_Seq e)}"
| "touched_ops w _ = {}"

section \<open>Composing steps\<close>

lemma effect_valid: "effect S T P st st' \<Longrightarrow> valid_state st'"
  by (simp add: effect_def)

lemma then_marks:
  assumes "effect S T P st (w, db)" "same_source w w'" "batchSessionIDs w' = batchSessionIDs w" "batchTurns w' = batchTurns w"
  shows "effect S T P st (w', db)"
  using effect_trans [OF assms(1) effect_marks [OF effect_valid [OF assms(1)] assms(2-4)]] by simp

lemma then_rows:
  assumes "effect S T P st (w, db)" "keys (sources db') = keys (sources db)"
    "keys (sessions db') = keys (sessions db) \<union> S'" "keys (turns db') = keys (turns db) \<union> T'" "ops db' = ops db"
    "log_identity ` set (log_entries db) \<subseteq> log_identity ` set (log_entries db')"
  shows "effect (S \<union> S') (T \<union> T') P st (w, db')"
  using effect_trans [OF assms(1) effect_rows [OF effect_valid [OF assms(1)] assms(2-6)]] by simp

lemma then_turn:
  assumes "effect S T P st (w, db)" "upsert_turn tid x f db = Some db'"
  shows "effect S (insert tid T) P st (w, db')"
  using effect_trans [OF assms(1) effect_turn [OF effect_valid [OF assms(1)] assms(2)]] by simp

lemma then_op:
  assumes "effect S T P st (w, db)" "upsert_op opid x f db = Some db'"
    and "\<And>r. op_parent_op_id r \<noteq> None \<Longrightarrow> op_parent_op_id (f r) \<noteq> None"
  shows "effect S T (insert opid P) st (w, db')"
  using effect_trans [OF assms(1) effect_op [OF effect_valid [OF assms(1)] assms(2,3)]] by simp

lemma effect_same_source: "effect S T P st (w, db) \<Longrightarrow> sourceID w = sourceID (fst st)" "effect S T P st (w, db) \<Longrightarrow> hash w = hash (fst st)"
  by (simp_all add: effect_def same_source_def)

lemma effect_keys:
  "effect S T P st (w, db) \<Longrightarrow> S \<subseteq> keys (sessions db)" "effect S T P st (w, db) \<Longrightarrow> T \<subseteq> keys (turns db)"
  by (auto simp: effect_def)

lemma effect_writer_cong:
  assumes "same_source w w'" "batchSessionIDs w' = batchSessionIDs w" "batchTurns w' = batchTurns w"
  shows "effect S T P st (w', db) = effect S T P st (w, db)"
proof -
  have r: "same_source w' w" using assms(1) by (simp add: same_source_def)
  show ?thesis using then_marks [OF _ assms] then_marks [OF _ r] assms(2,3) by metis
qed

lemma effect_marks_simps [simp]:
  "effect S T P st (markDirtySession x w, db) = effect S T P st (w, db)"
  "effect S T P st (markDirtyTurn x w, db) = effect S T P st (w, db)"
  "effect S T P st (markDirtyOp x w, db) = effect S T P st (w, db)"
  "effect S T P st (markDirtyRollupBucket ts w, db) = effect S T P st (w, db)"
  "effect S T P st (markSessionRollupBucketsDirty x db' w, db) = effect S T P st (w, db)"
  by (rule effect_writer_cong; simp)+

lemma effect_fields_simps [simp]:
  "effect S T P st (w\<lparr>sourceStatusChanged := b\<rparr>, db) = effect S T P st (w, db)"
  "effect S T P st (w\<lparr>batchObservabilityErrs := n\<rparr>, db) = effect S T P st (w, db)"
  "effect S T P st (w\<lparr>pendingMissDedup := m\<rparr>, db) = effect S T P st (w, db)"
  "effect S T P st (w\<lparr>lastCursor := c, hasCursor := b\<rparr>, db) = effect S T P st (w, db)"
  by (rule effect_writer_cong; simp add: same_source_def)+

lemma then_update_session:
  "effect S T P st (w, db) \<Longrightarrow> effect S T P st (w, db\<lparr>sessions := update_row sid f (sessions db)\<rparr>)"
  using then_rows [of S T P st w db "db\<lparr>sessions := update_row sid f (sessions db)\<rparr>" "{}" "{}"] by simp

section \<open>The handlers\<close>

lemma sessions_rows [simp]:
  "keys (sources (onSessionStarted f e db)) = keys (sources db)" "sessions (onSessionStarted f e db) = sessions db"
  "turns (onSessionStarted f e db) = turns db" "ops (onSessionStarted f e db) = ops db"
  "log_entries (onSessionStarted f e db) = log_entries db"
  by (simp_all add: onSessionStarted_def)

lemma applySessionStarted_effect:
  assumes "valid_state (w, db)" "sst_NativeID e \<noteq> []"
  shows "\<exists>st'. applySessionStarted e (w, db) = Some st' \<and> effect {session_id_of w (sst_NativeID e)} {} {} (w, db) st'"
proof -
  have src: "has_key (sourceID w) (sources db)" using assms(1) by (simp add: valid_state_def has_key_iff)
  let ?sid = "session_id_of w (sst_NativeID e)"
  obtain x f w' where st: "applySessionStarted e (w, db) =
      Some (w', onSessionStarted (sourceFormat w') e (db\<lparr>sessions := upsert_row ?sid x f (sessions db)\<rparr>))"
    and w': "same_source w w'" "batchSessionIDs w' = batchSessionIDs w" "batchTurns w' = batchTurns w"
    using assms(2) src unfolding applySessionStarted_def
    by (simp add: Let_def split: option.split)
  have "effect {?sid} {} {} (w, db) (w, db\<lparr>sessions := upsert_row ?sid x f (sessions db)\<rparr>)"
    by (rule effect_sessions(1) [OF assms(1)])
  note then_rows [OF this, of "onSessionStarted (sourceFormat w') e (db\<lparr>sessions := upsert_row ?sid x f (sessions db)\<rparr>)" "{}" "{}"]
  then show ?thesis using st then_marks [OF _ w'] by simp
qed

text \<open>A handler that starts with the session's id: what the rest does from there.\<close>

lemma after_session:
  assumes v: "valid_state (w, db)" and n: "nativeID \<noteq> []"
    and rest: "\<And>w' db'. effect {session_id_of w nativeID} {} {} (w, db) (w', db') \<Longrightarrow>
      turns db' = turns db \<Longrightarrow> ops db' = ops db \<Longrightarrow> log_entries db' = log_entries db \<Longrightarrow>
      sourceID w' = sourceID w \<Longrightarrow> hash w' = hash w \<Longrightarrow>
      \<exists>st'. k (session_id_of w nativeID) (w', db') = Some st' \<and> effect S T P (w, db) st'"
  shows "\<exists>st'. Option.bind (requireSessionID nativeID ts (w, db)) (\<lambda>(sid, st'). k sid st') = Some st' \<and> effect S T P (w, db) st'"
proof -
  obtain w' db' where "requireSessionID nativeID ts (w, db) = Some (session_id_of w nativeID, w', db')"
    "effect {session_id_of w nativeID} {} {} (w, db) (w', db')" "turns db' = turns db" "ops db' = ops db"
    "log_entries db' = log_entries db"
    by (rule requireSessionID_Some [OF v n])
  then show ?thesis using rest [of w' db'] effect_same_source [of _ _ _ "(w, db)" w' db'] by simp
qed

lemma applySessionUpdated_effect:
  assumes v: "valid_state (w, db)" and n: "su_NativeID e \<noteq> []"
  shows "\<exists>st'. applySessionUpdated e (w, db) = Some st' \<and> effect {session_id_of w (su_NativeID e)} {} {} (w, db) st'"
  unfolding applySessionUpdated_def by (rule after_session [OF v n]) (simp add: Let_def then_update_session)

lemma applySessionFinalized_effect:
  assumes v: "valid_state (w, db)" and n: "sf_NativeID e \<noteq> []"
  shows "\<exists>st'. applySessionFinalized e (w, db) = Some st' \<and> effect {session_id_of w (sf_NativeID e)} {} {} (w, db) st'"
  unfolding applySessionFinalized_def by (rule after_session [OF v n]) (simp add: Let_def then_update_session)

text \<open>A turn of a session that is there can be written.\<close>

lemma upsert_turn_ok:
  assumes "effect S T P st (w, db)" "t_session_id x \<in> keys (sessions db)"
  shows "upsert_turn tid x f db = Some (db\<lparr>turns := upsert_row tid x f (turns db)\<rparr>)"
    and "effect S (insert tid T) P st (w, db\<lparr>turns := upsert_row tid x f (turns db)\<rparr>)"
proof -
  show "upsert_turn tid x f db = Some (db\<lparr>turns := upsert_row tid x f (turns db)\<rparr>)"
    using assms(2) by (simp add: upsert_turn_def has_key_iff)
  then show "effect S (insert tid T) P st (w, db\<lparr>turns := upsert_row tid x f (turns db)\<rparr>)"
    using then_turn [OF assms(1)] by simp
qed

lemma t_session_id_new [simp]: "t_session_id (new_turn_row sid seq ts) = sid"
  by (simp add: new_turn_row_def)

lemma applyTurnStarted_effect:
  assumes v: "valid_state (w, db)" and n: "ts_SessionNativeID e \<noteq> []"
  shows "\<exists>st'. applyTurnStarted e (w, db) = Some st' \<and>
    effect {session_id_of w (ts_SessionNativeID e)} {event_turn w (ts_SessionNativeID e) (ts_Seq e)} {} (w, db) st'"
  unfolding applyTurnStarted_def
proof (rule after_session [OF v n], goal_cases)
  case e: (1 w' db')
  from effect_keys(1) [OF e(1)] have "session_id_of w (ts_SessionNativeID e) \<in> keys (sessions db')" by simp
  then show ?case
    using e(6) by (simp add: Let_def upsert_turn_ok [OF e(1)] event_turn_def)
qed

lemma applyTurnFinalized_effect:
  assumes v: "valid_state (w, db)" and n: "tf_SessionNativeID e \<noteq> []"
  shows "\<exists>st'. applyTurnFinalized e (w, db) = Some st' \<and>
    effect {session_id_of w (tf_SessionNativeID e)} {event_turn w (tf_SessionNativeID e) (tf_Seq e)} {} (w, db) st'"
  unfolding applyTurnFinalized_def
proof (rule after_session [OF v n], goal_cases)
  case e: (1 w' db')
  from effect_keys(1) [OF e(1)] have "session_id_of w (tf_SessionNativeID e) \<in> keys (sessions db')" by simp
  then show ?case
    using e(6) by (simp add: Let_def upsert_turn_ok [OF e(1)] event_turn_def)
qed

subsection \<open>Ops\<close>

lemma frame_onOpStarted [simp]:
  fixes c ev b p and db :: "('c :: ab_group_add) db"
  defines "db' \<equiv> onOpStarted c ev b p db"
  shows "sources db' = sources db" "sessions db' = sessions db" "turns db' = turns db" "ops db' = ops db"
    "log_entries db' = log_entries db"
  by (simp_all add: db'_def onOpStarted_def Let_def upsertStartedCatalog_def upsertStartedLLM_def upsertStartedModel_def
      upsertProvider_def upsertStartedTool_def removeOpContribution_def addMigratedTotals_def migrate_defs)

lemma frame_onOpFinalized [simp]:
  fixes opid ev p and db :: "('c :: ab_group_add) db"
  defines "db' \<equiv> onOpFinalized opid ev p db"
  shows "sources db' = sources db" "sessions db' = sessions db" "turns db' = turns db" "ops db' = ops db"
    "log_entries db' = log_entries db"
  by (simp_all add: db'_def onOpFinalized_def Let_def updateFinalizedLLM_def updateFinalizedProvider_def
      updateFinalizedModel_def updateFinalizedTool_def split: option.splits)

lemma synthesize_turn_ok:
  assumes e: "effect S T P st (w, db)" and sid: "sid \<in> keys (sessions db)"
  shows "\<exists>w' db'. synthesize_turn tid sid seq ts (w, db) = Some (w', db') \<and> effect S (insert tid T) P st (w', db') \<and>
    sourceID w' = sourceID w \<and> hash w' = hash w \<and> ops db' = ops db \<and> sessions db' = sessions db \<and> tid \<in> keys (turns db')"
proof (cases "tid \<in> set (batchTurns w)")
  case True
  then have "tid \<in> keys (turns db)" using effect_valid [OF e] by (auto simp: valid_state_def)
  then show ?thesis using e True by (auto simp: synthesize_turn_def effect_def insert_absorb)
next
  case False
  let ?db = "db\<lparr>turns := upsert_row tid (new_turn_row sid seq ts) (\<lambda>r. r) (turns db)\<rparr>"
  let ?w = "w\<lparr>batchTurns := List.insert tid (batchTurns w)\<rparr>"
  note up = upsert_turn_ok [OF e, of "new_turn_row sid seq ts", simplified, OF sid]
  have "caches_ok ?w (keys (sessions db))"
    by (rule caches_ok_mono [of w "keys (sessions db)"])
      (use effect_valid [OF e] in \<open>simp_all add: valid_state_def same_source_def\<close>)
  then have "effect S (insert tid T) P st (?w, ?db)"
    using up(2) [of tid "\<lambda>r. r"] by (simp add: effect_def valid_state_def same_source_def) metis
  then show ?thesis using False up(1) by (simp add: synthesize_turn_def)
qed

lemma resolveOpStartedChild_exists:
  "fst (resolveOpStartedChild e (w, db)) = Some c \<Longrightarrow> c \<in> keys (sessions db)"
  by (auto simp: resolveOpStartedChild_def lookupSessionID_def has_key_iff split: if_splits option.splits)

lemma op_fk_started:
  assumes "ops_ok db" "op_turn_id x \<in> keys (turns db)" "op_session_id x \<in> keys (sessions db)"
    "\<And>c. op_child_session_id x = Some c \<Longrightarrow> c \<in> keys (sessions db)"
  shows "op_fk_ok db opid (case map_of (ops db) opid of None \<Rightarrow> x | Some r \<Rightarrow> op_on_conflict x r) \<longleftrightarrow>
    (case op_parent_op_id x of None \<Rightarrow> True | Some p \<Rightarrow> p = opid \<or> p \<in> keys (ops db) \<or> has_parent db opid)"
proof (cases "map_of (ops db) opid")
  case None
  then show ?thesis
    using assms(2-4) by (auto simp: op_fk_ok_def has_key_iff has_parent_def split: option.splits)
next
  case (Some r)
  then have "op_fk_ok db opid r" using assms(1) by (simp add: ops_ok_def)
  then show ?thesis
    using Some assms(4)
    by (auto simp: op_fk_ok_def op_on_conflict_def has_key_iff has_parent_def coalesce_def split: option.splits)
qed

lemma op_on_conflict_parent: "op_parent_op_id r \<noteq> None \<Longrightarrow> op_parent_op_id (op_on_conflict x r) \<noteq> None"
  by (auto simp: op_on_conflict_def coalesce_def)

lemma applyOpStarted_effect:
  assumes v: "valid_state (w, db)" and n: "os_SessionNativeID e \<noteq> []"
  shows "if missing_row (EvOpStarted e) (w, db) then applyOpStarted e (w, db) = None
    else \<exists>st'. applyOpStarted e (w, db) = Some st' \<and> effect {session_id_of w (os_SessionNativeID e)}
      (touched_turns w (EvOpStarted e)) (touched_ops w (EvOpStarted e)) (w, db) st'"
proof -
  let ?sid = "session_id_of w (os_SessionNativeID e)"
  let ?tid = "turn_id_of w ?sid (os_TurnSeq e)"
  let ?opid = "op_id_of w ?tid (os_Seq e)"
  obtain w1 db1 where r1: "requireSessionID (os_SessionNativeID e) (Ts e) (w, db) = Some (?sid, w1, db1)"
    and e1: "effect {?sid} {} {} (w, db) (w1, db1)" and o1: "ops db1 = ops db"
    by (rule requireSessionID_Some [OF v n])
  have s1: "?sid \<in> keys (sessions db1)" using effect_keys(1) [OF e1] by simp
  from synthesize_turn_ok [OF e1 s1, of ?tid "os_TurnSeq e" "Ts e"] obtain w2 db2 where
    r2: "synthesize_turn ?tid ?sid (os_TurnSeq e) (Ts e) (w1, db1) = Some (w2, db2)"
    and e2: "effect {?sid} {?tid} {} (w, db) (w2, db2)" and o2: "ops db2 = ops db" and t2: "?tid \<in> keys (turns db2)"
    and s2: "?sid \<in> keys (sessions db2)"
    by (metis o1 s1)
  have h: "hash w1 = hash w" "hash w2 = hash w"
    using effect_same_source(2) [OF e1] effect_same_source(2) [OF e2] by simp_all
  obtain child extras where ce: "resolveOpStartedChild e (w2, db2) = (child, extras)" by fastforce
  let ?parent = "resolveOpStartedParent w ?tid (os_ParentOpSeq e)"
  let ?x = "started_op_row e ?sid ?tid ?parent child (marshalExtras extras) :: 'a op_row"
  have x: "op_turn_id ?x = ?tid" "op_session_id ?x = ?sid" "op_child_session_id ?x = child" "op_parent_op_id ?x = ?parent"
    by (simp_all add: started_op_row_def)
  have "ops_ok db2" using effect_valid [OF e2] by (simp add: valid_state_def)
  then have fk: "op_fk_ok db2 ?opid (case map_of (ops db2) ?opid of None \<Rightarrow> ?x | Some r \<Rightarrow> op_on_conflict ?x r) \<longleftrightarrow>
      \<not> missing_row (EvOpStarted e) (w, db)"
    using t2 s2 resolveOpStartedChild_exists [of e w2 db2] ce o2
    by (subst op_fk_started) (auto simp: x event_turn_def has_parent_def Let_def split: option.splits)
  have run: "applyOpStarted e (w, db) = do {
      db \<leftarrow> upsert_op ?opid ?x (op_on_conflict ?x) db2;
      let w = markDirtyOp ?opid (markDirtyRollupBucket (Ts e) (markDirtySession ?sid (markDirtyTurn ?tid w2)));
      Some (w, onOpStarted (ctxMax_of w) e (\<not> pi_found (opPriorIdentity ?opid db2)) (opPriorIdentity ?opid db2) db) }"
    using h by (simp add: applyOpStarted_def r1 r2 ce Let_def resolveOpStartedParent_def)
  show ?thesis
  proof (cases "missing_row (EvOpStarted e) (w, db)")
    case True
    then show ?thesis using fk by (simp add: run upsert_op_def Let_def del: missing_row.simps)
  next
    case False
    then obtain db3 where up: "upsert_op ?opid ?x (op_on_conflict ?x) db2 = Some db3"
      using fk by (simp add: upsert_op_def Let_def del: missing_row.simps)
    have "effect {?sid} {?tid} {?opid} (w, db) (w2, db3)"
      by (rule then_op [OF e2 up op_on_conflict_parent])
    then have "effect {?sid} {?tid} {?opid} (w, db) (w2, onOpStarted c e b p db3)" for c b p
      using then_rows [of "{?sid}" "{?tid}" "{?opid}" "(w, db)" w2 db3 _ "{}" "{}"] by simp
    then show ?thesis
      using False up by (simp add: run Let_def event_turn_def del: missing_row.simps)
  qed
qed

subsection \<open>Logs, errors, payload references and finalized ops\<close>

lemma then_other:
  assumes "effect S T P st (w, db)" "keys (sources db') = keys (sources db)" "sessions db' = sessions db"
    "turns db' = turns db" "ops db' = ops db" "set (log_entries db) \<subseteq> set (log_entries db')"
  shows "effect S T P st (w, db')"
proof -
  have "log_identity ` set (log_entries db) \<subseteq> log_identity ` set (log_entries db')" using assms(6) by (rule image_mono)
  then show ?thesis using then_rows [OF assms(1,2), of "{}" "{}"] assms(3-5) by simp
qed

lemma bump_effect:
  "effect S T P st (w, db) \<Longrightarrow> effect S T P st (bumpSourceErrorCounter ts (w, db))"
  by (simp add: bumpSourceErrorCounter_def then_other)

lemma insert_log_effect:
  assumes "effect S T P st (w, db)" "insert_log r db = Some (b, db')"
  shows "effect S T P st (w, db')" "ops db' = ops db"
proof -
  have "db' = db \<or> db' = db\<lparr>log_entries := log_entries db @ [r]\<rparr>"
    using assms(2) by (auto simp: insert_log_def split: if_splits)
  then show "effect S T P st (w, db')" "ops db' = ops db"
    using assms(1) by (auto intro!: then_other [OF assms(1)])
qed

lemma insert_log_total:
  "log_fk_ok db r \<Longrightarrow> \<exists>b db'. insert_log r db = Some (b, db')"
  by (auto simp: insert_log_def)

lemma insert_source_log:
  assumes "effect S T P st (w, db)"
  shows "\<exists>b db'. insert_log (source_log w ts sev msg extras) db = Some (b, db')"
proof (rule insert_log_total)
  have "has_key (sourceID w) (sources db)" using effect_valid [OF assms] by (simp add: valid_state_def has_key_iff)
  then show "log_fk_ok db (source_log w ts sev msg extras)" by (simp add: log_fk_ok_def source_log_def)
qed

lemma after_bump:
  assumes "effect S T P st (w, db)"
  shows "\<exists>st'. (let (w, db) = bumpSourceErrorCounter ts (w, db) in do {
      (_, db) \<leftarrow> insert_log (source_log w ts sev msg extras) db; Some (w, db) }) = Some st' \<and> effect S T P st st'"
proof -
  obtain w' db' where b: "bumpSourceErrorCounter ts (w, db) = (w', db')" by fastforce
  have e: "effect S T P st (w', db')" using bump_effect [OF assms, of ts] by (simp add: b)
  obtain i db'' where i: "insert_log (source_log w' ts sev msg extras) db' = Some (i, db'')"
    using insert_source_log [OF e] by blast
  show ?thesis using insert_log_effect(1) [OF e i] by (simp add: b i)
qed

lemma effect_refl: "valid_state st \<Longrightarrow> effect {} {} {} st st"
  by (simp add: effect_def grows_def)

lemma applySourceError_effect:
  "valid_state (w, db) \<Longrightarrow> \<exists>st'. applySourceError e (w, db) = Some st' \<and> effect {} {} {} (w, db) st'"
  unfolding applySourceError_def by (rule after_bump) (rule effect_refl)

lemma applyLogEntry_effect:
  fixes db :: "('c :: zero) db"
  assumes v: "valid_state (w, db)" and n: "le_SessionNativeID e \<noteq> []"
  shows "if missing_row (EvLogEntry e) (w, db) then applyLogEntry e (w, db) = None
    else \<exists>st'. applyLogEntry e (w, db) = Some st' \<and> effect {session_id_of w (le_SessionNativeID e)} {} {} (w, db) st'"
proof -
  let ?sid = "session_id_of w (le_SessionNativeID e)"
  obtain w1 db1 where r1: "requireSessionID (le_SessionNativeID e) (Ts e) (w, db) = Some (?sid, w1, db1)"
    and e1: "effect {?sid} {} {} (w, db) (w1, db1)"
    and same: "turns db1 = turns db" "ops db1 = ops db" "log_entries db1 = log_entries db"
    by (rule requireSessionID_Some [OF v n])
  let ?r = "session_log e w ?sid"
  have r: "session_log e w1 ?sid = ?r" using effect_same_source(2) [OF e1] by (simp add: session_log_def)
  have "?sid \<in> keys (sessions db1)" using effect_keys(1) [OF e1] by simp
  then have fk: "log_fk_ok db1 ?r \<longleftrightarrow> \<not> ((case lg_turn_id ?r of None \<Rightarrow> False | Some t \<Rightarrow> t \<notin> keys (turns db)) \<or>
      (case lg_op_id ?r of None \<Rightarrow> False | Some p \<Rightarrow> p \<notin> keys (ops db)))"
    by (auto simp: log_fk_ok_def session_log_def has_key_iff same Let_def split: option.splits)
  have run: "applyLogEntry e (w, db) = do {
      (inserted, db) \<leftarrow> insert_log ?r db1;
      let w = markDirtySession ?sid w1; Some (w, indexLogEntryFTS ?r inserted w db) }"
    by (simp add: applyLogEntry_def r1 r Let_def)
  show ?thesis
  proof (cases "missing_row (EvLogEntry e) (w, db)")
    case True
    then show ?thesis using fk by (simp add: run insert_log_def same Let_def)
  next
    case False
    then obtain b db2 where ins: "insert_log ?r db1 = Some (b, db2)"
      using fk insert_log_total [of db1 ?r] by (auto simp: insert_log_def same Let_def split: if_splits)
    have "effect {?sid} {} {} (w, db) (w1, indexLogEntryFTS ?r b w' db2)" for w'
      by (rule then_other [OF insert_log_effect(1) [OF e1 ins]]) (simp_all add: indexLogEntryFTS_def)
    then show ?thesis using False ins by (simp add: run Let_def)
  qed
qed

lemma applyPayloadRef_effect:
  assumes v: "valid_state (w, db)" and n: "pr_SessionNativeID e \<noteq> []"
  shows "\<exists>st'. applyPayloadRef e (w, db) = Some st' \<and> effect {session_id_of w (pr_SessionNativeID e)} {} {} (w, db) st'"
  unfolding applyPayloadRef_def
proof (rule after_session [OF v n], goal_cases)
  case e: (1 w' db')
  have "effect {session_id_of w (pr_SessionNativeID e)} {} {} (w, db) (w', insert_payload_ref r db')" for r
    by (rule then_other [OF e(1)]) (simp_all add: insert_payload_ref_def)
  moreover have "\<exists>st'. reportOrphanPayloadRef e opid (w', db') = Some st' \<and>
      effect {session_id_of w (pr_SessionNativeID e)} {} {} (w, db) st'" for opid
    unfolding reportOrphanPayloadRef_def by (rule after_bump [OF e(1)])
  ultimately show ?case by (simp add: Let_def)
qed

lemma emitPricingMiss_effect:
  assumes "effect S T P st (w, db)"
  shows "effect S T P st (emitPricingMiss p m k ts (w, db)) \<and> ops (snd (emitPricingMiss p m k ts (w, db))) = ops db"
proof -
  obtain w1 db1 where b: "bumpSourceErrorCounter ts (w, db) = (w1, db1)" by fastforce
  have e1: "effect S T P st (w1, db1)" using bump_effect [OF assms, of ts] by (simp add: b)
  have o1: "ops db1 = ops db" using b by (auto simp: bumpSourceErrorCounter_def)
  show ?thesis
  proof (cases "emitPricingMiss p m k ts (w, db) = (w, db)")
    case False
    then obtain msg extras key where run: "emitPricingMiss p m k ts (w, db) =
        (case insert_log (source_log w1 ts ''WRN'' msg extras) db1 of
           None \<Rightarrow> (w1\<lparr>batchObservabilityErrs := batchObservabilityErrs w1 + 1\<rparr>, db1)
         | Some (_, db) \<Rightarrow> (w1\<lparr>pendingMissDedup := List.insert key (pendingMissDedup w1)\<rparr>, db))"
      by (simp add: emitPricingMiss_def b Let_def split: if_splits)
    obtain i db2 where i: "insert_log (source_log w1 ts ''WRN'' msg extras) db1 = Some (i, db2)"
      using insert_source_log [OF e1] by blast
    show ?thesis using insert_log_effect [OF e1 i] o1 by (simp add: run i)
  qed (use assms in simp)
qed

lemma resolveFinalizedOpCost_effect:
  assumes "effect S T P st (w, db)" "resolveFinalizedOpCost ev row (w, db) = (cost, w', db')"
  shows "effect S T P st (w', db')" "ops db' = ops db"
proof -
  have "(w', db') = (w, db) \<or> (\<exists>p m k ts. (w', db') = emitPricingMiss p m k ts (w, db))"
    using assms(2)
    by (auto simp: resolveFinalizedOpCost_def priceOp_def Let_def split: option.splits if_splits prod.splits)
      (metis+)?
  then show "effect S T P st (w', db')" "ops db' = ops db"
    using assms(1) emitPricingMiss_effect [OF assms(1)] by (metis prod.inject snd_conv)+
qed

lemma then_update_op:
  assumes e: "effect S T P st (w, db)"
    and f: "\<And>r. op_turn_id (f r) = op_turn_id r \<and> op_session_id (f r) = op_session_id r \<and>
      op_parent_op_id (f r) = op_parent_op_id r \<and> op_child_session_id (f r) = op_child_session_id r"
  shows "effect S T P st (w, db\<lparr>ops := update_row opid f (ops db)\<rparr>)"
proof -
  let ?db = "db\<lparr>ops := update_row opid f (ops db)\<rparr>"
  have ok: "ops_ok db" using effect_valid [OF e] by (simp add: valid_state_def)
  have fk: "op_fk_ok ?db i r \<longleftrightarrow> op_fk_ok db i r" for i r
    by (simp add: op_fk_ok_def has_key_iff split: option.splits)
  have "op_fk_ok db i (f r) = op_fk_ok db i r" for i r using f by (simp add: op_fk_ok_def)
  then have "ops_ok ?db" using ok by (simp add: ops_ok_def fk map_of_update_row split: option.splits)
  moreover have "has_parent ?db = has_parent db"
    using f by (auto simp: has_parent_def map_of_update_row fun_eq_iff split: option.splits)
  ultimately show ?thesis using e by (simp add: effect_def valid_state_def grows_def split: prod.splits) metis
qed

lemma applyOpFinalized_effect:
  fixes db :: "('c :: ab_group_add) db"
  assumes v: "valid_state (w, db)" and n: "of_SessionNativeID e \<noteq> []"
  shows "\<exists>st'. applyOpFinalized e (w, db) = Some st' \<and> effect {session_id_of w (of_SessionNativeID e)} {} {} (w, db) st'"
  unfolding applyOpFinalized_def
proof (rule after_session [OF v n], goal_cases)
  case e: (1 w1 db1)
  let ?sid = "session_id_of w (of_SessionNativeID e)"
  let ?tid = "turn_id_of w ?sid (of_TurnSeq e)"
  let ?opid = "op_id_of w ?tid (of_Seq e)"
  obtain cost w2 db2 where c: "resolveFinalizedOpCost e (map_of (ops db1) ?opid) (w1, db1) = (cost, w2, db2)"
    by (metis prod_cases3)
  note e2 = resolveFinalizedOpCost_effect(1) [OF e(1) c]
  define timing where "timing = resolveFinalizedOpTiming e (map_option op_start_ts (map_of (ops db1) ?opid))"
  have "effect {?sid} {} {} (w, db) (w2, db2\<lparr>ops := update_row ?opid (updateFinalizedOp e timing cost) (ops db2)\<rparr>)"
    by (rule then_update_op [OF e2]) (simp add: updateFinalizedOp_def)
  then have "effect {?sid} {} {} (w, db) (w2, onOpFinalized ?opid ev prior
      (db2\<lparr>ops := update_row ?opid (updateFinalizedOp e timing cost) (ops db2)\<rparr>))" for ev prior
    by (rule then_other) simp_all
  then show ?case
    using e(6) by (simp add: c timing_def [symmetric] Let_def markOpFinalizedDirty_def split: option.split)
qed

section \<open>One event\<close>

theorem apply_event_effect:
  fixes db :: "('c :: ab_group_add) db"
  assumes v: "valid_state (w, db)"
  shows "if rejects ev (w, db) then apply_event ev (w, db) = None
    else \<exists>st'. apply_event ev (w, db) = Some st' \<and>
      effect (touched_sessions w ev) (touched_turns w ev) (touched_ops w ev) (w, db) st'"
proof -
  define w0 where "w0 = (if batchMaxSeq w < EventSourceSeq ev then w\<lparr>batchMaxSeq := EventSourceSeq ev\<rparr> else w)"
  have same: "same_source w w0" "batchSessionIDs w0 = batchSessionIDs w" "batchTurns w0 = batchTurns w"
    by (simp_all add: w0_def same_source_def)
  have v0: "valid_state (w0, db)" using effect_valid [OF effect_marks [OF v same]] .
  have ids: "sourceID w0 = sourceID w" "hash w0 = hash w" using same(1) by (simp_all add: same_source_def)
  have eff: "effect S T P (w0, db) st' \<longleftrightarrow> effect S T P (w, db) st'" for S T P and st' :: "'c wstate"
    using ids by (simp add: effect_def same_source_def)
  have run: "apply_event ev (w, db) = dispatchEvent ev (w0, db)" by (simp add: apply_event_def w0_def)
  have miss: "missing_row ev (w0, db) = missing_row ev (w, db)"
    using ids by (cases ev) (simp_all add: event_turn_def resolveOpStartedParent_def session_log_def Let_def)
  note ids' = ids event_turn_def touched_sessions_def
  show ?thesis
  proof (cases "native_id ev = Some []")
    case True
    then show ?thesis
      unfolding run
      by (cases ev) (simp_all add: rejects_def applySessionStarted_def applySessionUpdated_def applySessionFinalized_def
          applyTurnStarted_def applyTurnFinalized_def applyOpStarted_def applyOpFinalized_def applyPayloadRef_def
          applyLogEntry_def)
  next
    case False
    show ?thesis
      unfolding run eff [symmetric] rejects_def miss [symmetric]
    proof (cases ev)
      case (EvOpStarted e)
      then show "if native_id ev = Some [] \<or> missing_row ev (w0, db) then dispatchEvent ev (w0, db) = None
        else \<exists>st'. dispatchEvent ev (w0, db) = Some st' \<and>
          effect (touched_sessions w ev) (touched_turns w ev) (touched_ops w ev) (w0, db) st'"
        using applyOpStarted_effect [OF v0, of e] False
        by (cases "missing_row (EvOpStarted e) (w0, db)") (simp_all add: ids' del: missing_row.simps)
    next
      case (EvLogEntry e)
      then show "if native_id ev = Some [] \<or> missing_row ev (w0, db) then dispatchEvent ev (w0, db) = None
        else \<exists>st'. dispatchEvent ev (w0, db) = Some st' \<and>
          effect (touched_sessions w ev) (touched_turns w ev) (touched_ops w ev) (w0, db) st'"
        using applyLogEntry_effect [OF v0, of e] False
        by (cases "missing_row (EvLogEntry e) (w0, db)") (simp_all add: ids' del: missing_row.simps)
    qed (use False applySessionStarted_effect [OF v0] applySessionUpdated_effect [OF v0]
        applySessionFinalized_effect [OF v0] applyTurnStarted_effect [OF v0] applyTurnFinalized_effect [OF v0]
        applyOpFinalized_effect [OF v0] applyPayloadRef_effect [OF v0] applySourceError_effect [OF v0]
        effect_refl [OF v0] in \<open>simp_all add: ids' applySourceProgress_def\<close>)
  qed
qed

end
