(* ===== verification/Writer_Props.thy ===== *)
theory Writer_Props
  imports Writer_Facts
begin

text \<open>
  Properties of the writer: the op catalogs are the sums over the ops in every reachable
  database, an event fails exactly when a row it refers to is missing, events received again
  add no rows, and what the caches of a rolled-back transaction do to the next attempt.
\<close>

section \<open>The books of the ops\<close>

definition books :: "'c db \<Rightarrow> (string \<times> 'c op_row) list \<times> ((string \<times> string) \<times> 'c catalog_row) list \<times>
    ((string \<times> string) \<times> 'c catalog_row) list \<times> ((string \<times> string) \<times> 'c catalog_row) list" where
  "books db = (ops db, catalog_providers db, catalog_models db, catalog_tools db)"

lemma balanced_cong: "books db' = books db \<Longrightarrow> balanced db' = balanced db"
  by (simp add: books_def balanced_def)

lemma requireSessionID_books: "requireSessionID n ts (w, db) = Some (sid, w', db') \<Longrightarrow> books db' = books db"
  by (auto simp: requireSessionID_def books_def Let_def split: if_splits option.splits)

lemma upsert_turn_books: "upsert_turn tid x f db = Some db' \<Longrightarrow> books db' = books db"
  by (auto simp: upsert_turn_def books_def split: if_splits)

lemma insert_log_books: "insert_log r db = Some (b, db') \<Longrightarrow> books db' = books db"
  by (auto simp: insert_log_def books_def split: if_splits)

lemma synthesize_turn_books: "synthesize_turn tid sid seq ts (w, db) = Some (w', db') \<Longrightarrow> books db' = books db"
  by (auto simp: synthesize_turn_def bind_eq_Some_conv dest: upsert_turn_books split: if_splits)

lemma bump_books: "bumpSourceErrorCounter ts (w, db) = (w', db') \<Longrightarrow> books db' = books db"
  by (auto simp: bumpSourceErrorCounter_def books_def)

lemma after_bump_books:
  "(let (w, db) = bumpSourceErrorCounter ts (w, db) in do {
      (_, db) \<leftarrow> insert_log (source_log w ts sev msg extras) db; Some (w, db) }) = Some (w', db') \<Longrightarrow> books db' = books db"
  by (auto simp: Let_def bind_eq_Some_conv dest!: bump_books insert_log_books split: prod.splits)

lemma source_error_books:
  "applySourceError e (w, db) = Some (w', db') \<Longrightarrow> books db' = books db"
  "reportOrphanPayloadRef p opid (w, db) = Some (w', db') \<Longrightarrow> books db' = books db"
  unfolding applySourceError_def reportOrphanPayloadRef_def by (rule after_bump_books, assumption)+

lemma emitPricingMiss_books: "books (snd (emitPricingMiss p m k ts (w, db))) = books db"
  using insert_log_books [of _ "snd (bumpSourceErrorCounter ts (w, db))"] bump_books [of ts w db]
  by (auto simp: emitPricingMiss_def Let_def split: prod.splits option.splits)

lemma resolveFinalizedOpCost_books:
  assumes "resolveFinalizedOpCost ev row (w, db) = (cost, w', db')" shows "books db' = books db"
proof -
  have "(w', db') = (w, db) \<or> (\<exists>p m k ts. (w', db') = emitPricingMiss p m k ts (w, db))"
    using assms
    by (auto simp: resolveFinalizedOpCost_def priceOp_def Let_def split: option.splits if_splits prod.splits) (metis+)?
  then show ?thesis using emitPricingMiss_books by (metis prod.inject snd_conv)
qed

lemma session_books [simp]: "books (db\<lparr>sessions := t\<rparr>) = books db" "books (onSessionStarted f e db) = books db"
  "books (indexLogEntryFTS r b w db) = books db" "books (insert_payload_ref p db) = books db"
  by (simp_all add: books_def onSessionStarted_def indexLogEntryFTS_def insert_payload_ref_def)

lemmas handler_books = requireSessionID_books upsert_turn_books insert_log_books synthesize_turn_books

lemma upsert_op_started:
  assumes "upsert_op opid x (op_on_conflict x) db = Some db'" "balanced db"
    and x: "x = started_op_row e sid tid parent child extras"
  shows "balanced (onOpStarted c e (\<not> pi_found (opPriorIdentity opid db)) (opPriorIdentity opid db) db')"
proof -
  define r where "r = (case map_of (ops db) opid of None \<Rightarrow> x | Some r \<Rightarrow> op_on_conflict x r)"
  have db': "db' = db\<lparr>ops := alist_put opid r (ops db)\<rparr>"
    using assms(1) by (simp add: upsert_op_def r_def Let_def split: if_splits)
  have "row_identity r = effectiveOpIdentity e (opPriorIdentity opid db)"
    by (cases "map_of (ops db) opid")
      (simp_all add: r_def x started_op_row_def op_on_conflict_def row_identity_def effectiveOpIdentity_def
        opPriorIdentity_def nullableString_coalesce_nonempty nonEmpty_def)
  moreover have "contribution r = (case map_of (ops db) opid of None \<Rightarrow> 0 | Some r \<Rightarrow> contribution r)"
    by (cases "map_of (ops db) opid")
      (simp_all add: r_def x started_op_row_def op_on_conflict_def contribution_def booked_totals_def
        prior_totals_of_def failureInc_def StatusRunning_def StatusFailed_def zero_totals_def)
  ultimately show ?thesis
    using onOpStarted_balanced [OF assms(2), of r e opid c] by (simp add: db')
qed

lemma applyOpStarted_balanced:
  assumes run: "applyOpStarted e (w, db) = Some (w', db')" and bal: "balanced db"
  shows "balanced db'"
proof -
  obtain sid w1 db1 where r1: "requireSessionID (os_SessionNativeID e) (Ts e) (w, db) = Some (sid, w1, db1)"
    using run unfolding applyOpStarted_def bind_eq_Some_conv by auto
  let ?tid = "turn_id_of w1 sid (os_TurnSeq e)"
  obtain w2 db2 where r2: "synthesize_turn ?tid sid (os_TurnSeq e) (Ts e) (w1, db1) = Some (w2, db2)"
    using run
    by (cases "synthesize_turn ?tid sid (os_TurnSeq e) (Ts e) (w1, db1)") (auto simp: applyOpStarted_def r1 Let_def)
  let ?opid = "op_id_of w2 ?tid (os_Seq e)"
  obtain child extras where ce: "resolveOpStartedChild e (w2, db2) = (child, extras)" by fastforce
  let ?x = "started_op_row e sid ?tid (resolveOpStartedParent w2 ?tid (os_ParentOpSeq e)) child (marshalExtras extras)"
  obtain db3 where r3: "upsert_op ?opid ?x (op_on_conflict ?x) db2 = Some db3"
    using run by (auto simp: applyOpStarted_def r1 r2 ce bind_eq_Some_conv Let_def)
  have "balanced db2" using bal balanced_cong requireSessionID_books [OF r1] synthesize_turn_books [OF r2] by metis
  from upsert_op_started [OF r3 this] show ?thesis
    using run by (auto simp: applyOpStarted_def r1 r2 r3 ce Let_def)
qed

lemma applyOpFinalized_balanced:
  assumes run: "applyOpFinalized e (w, db) = Some (w', db')" and bal: "balanced db"
  shows "balanced db'"
proof -
  obtain sid w1 db1 where r1: "requireSessionID (of_SessionNativeID e) (Ts e) (w, db) = Some (sid, w1, db1)"
    using run unfolding applyOpFinalized_def bind_eq_Some_conv by auto
  let ?tid = "turn_id_of w1 sid (of_TurnSeq e)"
  let ?opid = "op_id_of w1 ?tid (of_Seq e)"
  obtain cost w2 db2 where c: "resolveFinalizedOpCost e (map_of (ops db1) ?opid) (w1, db1) = (cost, w2, db2)"
    by (metis prod_cases3)
  have same: "books db2 = books db1" "balanced db2"
    using resolveFinalizedOpCost_books [OF c] requireSessionID_books [OF r1] bal balanced_cong by metis+
  have prior: "opPriorTotals ?opid db1 = opPriorTotals ?opid db2"
    using same(1) by (simp add: opPriorTotals_def books_def)
  define f where "f = updateFinalizedOp e (resolveFinalizedOpTiming e (map_option op_start_ts (map_of (ops db1) ?opid))) cost"
  have "db' = onOpFinalized ?opid (e\<lparr>of_CostUSD := cost\<rparr>) (opPriorTotals ?opid db2) (db2\<lparr>ops := update_row ?opid f (ops db2)\<rparr>)"
    using run by (simp add: applyOpFinalized_def r1 c f_def prior Let_def)
  then show ?thesis
    using onOpFinalized_balanced [OF same(2), of ?opid f]
    by (simp add: f_def updateFinalizedOp_def row_identity_def)
qed

lemma apply_event_balanced:
  assumes "apply_event ev (w, db) = Some (w', db')" "balanced db"
  shows "balanced db'"
proof -
  obtain w0 where run: "dispatchEvent ev (w0, db) = Some (w', db')"
    using assms(1) by (auto simp: apply_event_def)
  show ?thesis
  proof (cases ev)
    case (EvOpStarted e)
    then show ?thesis using run assms(2) applyOpStarted_balanced by simp
  next
    case (EvOpFinalized e)
    then show ?thesis using run assms(2) applyOpFinalized_balanced by simp
  next
    case (EvSourceError e)
    then show ?thesis using run assms(2) by (auto dest!: source_error_books intro: balanced_cong [THEN iffD2])
  next
    case (EvPayloadRef e)
    then have "books db' = books db"
      using run
      by (auto simp: applyPayloadRef_def bind_eq_Some_conv Let_def split: if_splits
          dest!: requireSessionID_books source_error_books)
    then show ?thesis using assms(2) balanced_cong by blast
  qed (use run assms(2) in \<open>auto simp: applySessionStarted_def applySessionUpdated_def applySessionFinalized_def
      applyTurnStarted_def applyTurnFinalized_def applyLogEntry_def applySourceProgress_def
      bind_eq_Some_conv Let_def split: if_splits dest!: handler_books intro: balanced_cong [THEN iffD2]\<close>)
qed

section \<open>Reachable databases\<close>

text \<open>
  What writers, of any sources and with any caches, can make of an empty database. A batch that
  is rolled back leaves no trace here.
\<close>

inductive ingested :: "('c :: ab_group_add) db \<Rightarrow> bool" where
  empty: "ingested empty_db"
| source: "ingested db \<Longrightarrow> ingested (ensureSourceRow src format location fts metaJSON db)"
| event: "ingested db \<Longrightarrow> apply_event ev (w, db) = Some (w', db') \<Longrightarrow> ingested db'"

lemma ingested_balanced: "ingested db \<Longrightarrow> balanced db"
proof (induction rule: ingested.induct)
  case empty
  then show ?case
    by (simp add: balanced_def empty_db_def accounts_def calls_at_def totals_at_def calls_of_def totals_of_def all_named_def)
next
  case (source db src format location fts metaJSON)
  then show ?case by (simp add: balanced_def ensureSourceRow_def)
next
  case (event db ev w w' db')
  then show ?case using apply_event_balanced by blast
qed

lemma ingested_apply_all: "apply_all evs (w, db) = Some (w', db') \<Longrightarrow> ingested db \<Longrightarrow> ingested db'"
  by (induction evs arbitrary: w db) (auto simp: bind_eq_Some_conv intro: ingested.event)

text \<open>
  C30. The catalogs are what the ops say. In every database the writers can reach, for every
  provider, model and tool, the number of calls is the number of ops that carry this key in
  their current row, and each summed column (failures, tokens, cost, duration) is the sum of
  these ops' columns: however often an op was started and finalized again, with other totals
  or under another identity, it counts once and under its present key.
\<close>

theorem catalogs_count_ops:
  assumes "ingested db"
  shows "calls_at (catalog_providers db) k = calls_of provider_key (ops db) k \<and>
    totals_at (catalog_providers db) k = totals_of provider_key provider_columns (ops db) k \<and>
    calls_at (catalog_models db) k = calls_of model_key (ops db) k \<and>
    totals_at (catalog_models db) k = totals_of model_key model_columns (ops db) k \<and>
    calls_at (catalog_tools db) k = calls_of tool_key (ops db) k \<and>
    totals_at (catalog_tools db) k = totals_of tool_key tool_columns (ops db) k"
  using ingested_balanced [OF assms] unfolding balanced_def accounts_def by blast

definition demo_writer :: "int writer" where
  "demo_writer = newWriter ''src'' ''codex'' (\<lambda>s. s) (\<lambda>s. s) None True"

definition demo_db :: "int db" where
  "demo_db = ensureSourceRow ''src'' ''codex'' ''/tmp'' True [] empty_db"

definition demo_op :: "string \<Rightarrow> int Event" where
  "demo_op namespace = EvOpStarted \<lparr>SourceID = ''src'', SourceSeq = 1, Ts = 1000, os_SessionNativeID = ''s'',
     os_TurnSeq = 1, os_Seq = 1, os_ParentOpSeq = - 1, os_Kind = ''tool'', os_Name = ''f'',
     os_ToolNamespace = namespace, os_Model = [], os_Provider = [], os_ProviderAlias = [], os_ReasoningKind = [],
     os_ChildSessionNativeID = [], os_Extras = []\<rparr>"

definition demo_end :: "int Event" where
  "demo_end = EvOpFinalized \<lparr>SourceID = ''src'', SourceSeq = 2, Ts = 1500, of_SessionNativeID = ''s'', of_TurnSeq = 1,
     of_Seq = 1, of_Status = ''failed'', of_ErrorClass = [], of_ErrorMessage = [], of_EndTs = 1500, of_TokensIn = 7,
     of_TokensOut = 2, of_TokensCacheRead = 0, of_TokensCacheWrite = 0, of_CostUSD = 3, of_BytesIn = 0,
     of_BytesOut = 0, of_CharsIn = 0, of_CharsOut = 0, of_CtxUsed = 0, of_CtxMax = 0\<rparr>"

definition demo_events :: "int Event list" where
  "demo_events = [demo_op ''custom'', demo_end, demo_op ''mcp:x'']"

lemma demo_run:
  "case apply_all demo_events (demo_writer, demo_db) of None \<Rightarrow> False
   | Some (_, db) \<Rightarrow> calls_of tool_key (ops db) (''mcp:x'', ''f'') = 1 \<and> calls_of tool_key (ops db) (''custom'', ''f'') = 0 \<and>
       totals_of tool_key tool_columns (ops db) (''mcp:x'', ''f'') = Totals 1 7 2 0 0 3 500 \<and>
       length (catalog_tools db) = 2"
  by code_simp

lemma demo_ingested:
  obtains db where "ingested db" "calls_of tool_key (ops db) (''mcp:x'', ''f'') = 1"
    "calls_of tool_key (ops db) (''custom'', ''f'') = 0"
    "totals_of tool_key tool_columns (ops db) (''mcp:x'', ''f'') = Totals 1 7 2 0 0 (3 :: int) 500"
proof -
  have "ingested demo_db" unfolding demo_db_def by (intro ingested.intros)
  then show ?thesis using demo_run that by (auto split: option.splits prod.splits dest: ingested_apply_all)
qed

text \<open>A tool call counted under a first namespace, finalized, then started again under another.\<close>

lemma catalogs_count_ops_witness:
  "\<exists>db :: int db. ingested db \<and> calls_at (catalog_tools db) (''mcp:x'', ''f'') = 1 \<and>
     calls_at (catalog_tools db) (''custom'', ''f'') = 0 \<and>
     totals_at (catalog_tools db) (''mcp:x'', ''f'') = Totals 1 7 2 0 0 3 500"
  by (rule demo_ingested) (metis catalogs_count_ops)

section \<open>Failing events\<close>

text \<open>
  A batch starts in a valid state: the source is registered, the foreign keys of the stored ops
  hold and the caches are empty.
\<close>

lemma batch_start_valid:
  "sourceID w \<in> keys (sources db) \<Longrightarrow> ops_ok db \<Longrightarrow> valid_state (resetBatch w, db)"
  by (simp add: valid_state_def resetBatch_def caches_ok_def)

text \<open>
  C31. Which events fail, and with them the whole batch, in a valid state: the source of the writer
  is registered, its caches name only sessions and turns that are stored, and the stored ops
  satisfy their foreign keys. It is exactly those without a native id, a started op that names a
  parent op that is not there (unless the op already has one or is its own parent), and a log
  entry of a turn or op that is not there (unless the same entry is already stored). Every other
  event is applied, in particular a payload reference of an unknown op, and leaves a valid state
  for the next one. With stale caches other events can fail.
\<close>

theorem event_rejected_iff:
  assumes "valid_state (w, db)"
  shows "(apply_event ev (w, db) = None \<longleftrightarrow> native_id ev = Some [] \<or> missing_row ev (w, db)) \<and>
    (case apply_event ev (w, db) of None \<Rightarrow> True | Some st' \<Rightarrow> valid_state st')"
  using apply_event_effect [OF assms, of ev] by (auto simp: rejects_def effect_def split: if_splits)

definition demo_log :: "int \<Rightarrow> int Event" where
  "demo_log turn = EvLogEntry \<lparr>SourceID = ''src'', SourceSeq = 3, Ts = 2000, le_SessionNativeID = ''s'', le_TurnSeq = turn,
     le_OpSeq = 0, le_Severity = '' wrn'', le_Source = ''x'', le_Message = ''m'', le_Extras = []\<rparr>"

lemma demo_valid: "valid_state (demo_writer, demo_db)"
  by (simp add: valid_state_def demo_writer_def demo_db_def newWriter_def ensureSourceRow_def empty_db_def caches_ok_def
      ops_ok_def upsert_row_def)

lemma event_rejected_iff_witness:
  "valid_state (demo_writer, demo_db) \<and> apply_event (demo_log 4) (demo_writer, demo_db) = None \<and>
   apply_event (demo_log 0) (demo_writer, demo_db) \<noteq> None"
proof -
  have "missing_row (demo_log 4) (demo_writer, demo_db)" by code_simp
  moreover have "\<not> missing_row (demo_log 0) (demo_writer, demo_db)" "native_id (demo_log 0) \<noteq> Some []" by code_simp+
  ultimately show ?thesis using demo_valid event_rejected_iff [OF demo_valid] by blast
qed

section \<open>Events received again\<close>

definition extends :: "'c db \<Rightarrow> 'c db \<Rightarrow> bool" where
  "extends db db' \<longleftrightarrow> grows db db' \<and> keys (sessions db) \<subseteq> keys (sessions db') \<and>
     keys (turns db) \<subseteq> keys (turns db') \<and> keys (ops db) \<subseteq> keys (ops db')"

lemma effect_extends: "effect S T P (w, db) (w', db') \<Longrightarrow> extends db db'"
  by (auto simp: effect_def extends_def)

lemma extends_trans: "extends db db' \<Longrightarrow> extends db' db'' \<Longrightarrow> extends db db''"
  unfolding extends_def grows_def by (elim conjE, intro conjI) (erule (1) subset_trans)+

text \<open>An event whose rows are all there.\<close>

definition settled :: "'c writer \<Rightarrow> 'c db \<Rightarrow> 'c Event \<Rightarrow> bool" where
  "settled w db ev \<longleftrightarrow> \<not> rejects ev (w, db) \<and> touched_sessions w ev \<subseteq> keys (sessions db) \<and>
     touched_turns w ev \<subseteq> keys (turns db) \<and> touched_ops w ev \<subseteq> keys (ops db)"

lemma missing_row_anti:
  assumes "extends db db'" "missing_row ev (w, db')" shows "missing_row ev (w, db)"
proof (cases ev)
  case (EvOpStarted e)
  then show ?thesis
    using assms by (auto simp: extends_def grows_def Let_def split: option.splits)
next
  case (EvLogEntry e)
  have sub: "log_identity ` set (log_entries db) \<subseteq> log_identity ` set (log_entries db')"
    "keys (turns db) \<subseteq> keys (turns db')" "keys (ops db) \<subseteq> keys (ops db')"
    using assms(1) unfolding extends_def grows_def by simp_all
  let ?r = "session_log e w (session_id_of w (le_SessionNativeID e))"
  have "case lg_turn_id ?r of None \<Rightarrow> False | Some t \<Rightarrow> t \<notin> keys (turns db)"
    if "case lg_turn_id ?r of None \<Rightarrow> False | Some t \<Rightarrow> t \<notin> keys (turns db')"
    using that subsetD [OF sub(2)] by (cases "lg_turn_id ?r") (simp, simp only: option.case, blast)
  moreover have "case lg_op_id ?r of None \<Rightarrow> False | Some p \<Rightarrow> p \<notin> keys (ops db)"
    if "case lg_op_id ?r of None \<Rightarrow> False | Some p \<Rightarrow> p \<notin> keys (ops db')"
    using that subsetD [OF sub(3)] by (cases "lg_op_id ?r") (simp, simp only: option.case, blast)
  moreover have "log_identity ?r \<notin> log_identity ` set (log_entries db)"
    if "log_identity ?r \<notin> log_identity ` set (log_entries db')"
    using that by (rule contra_subsetD [OF sub(1)])
  ultimately show ?thesis using assms(2) unfolding EvLogEntry missing_row.simps Let_def by blast
qed (use assms in simp_all)

lemma settled_mono: "settled w db ev \<Longrightarrow> extends db db' \<Longrightarrow> settled w db' ev"
  using missing_row_anti [of db db' ev w] by (auto simp: settled_def rejects_def extends_def)

lemma same_source_ids:
  assumes "same_source w w'"
  shows "touched_sessions w' ev = touched_sessions w ev" "touched_turns w' ev = touched_turns w ev"
    "touched_ops w' ev = touched_ops w ev" "missing_row ev (w', db) = missing_row ev (w, db)"
  using assms
  by (cases ev; simp add: same_source_def touched_sessions_def event_turn_def resolveOpStartedParent_def session_log_def Let_def)+

lemma settled_cong: "same_source w w' \<Longrightarrow> settled w' db ev = settled w db ev"
  using same_source_ids [of w w'] by (simp add: settled_def rejects_def)

lemma apply_event_Some:
  assumes "valid_state (w, db)" "apply_event ev (w, db) = Some (w', db')"
  shows "effect (touched_sessions w ev) (touched_turns w ev) (touched_ops w ev) (w, db) (w', db')" "settled w db' ev"
proof -
  have nr: "\<not> rejects ev (w, db)" using apply_event_effect [OF assms(1), of ev] assms(2) by (auto split: if_splits)
  then show e: "effect (touched_sessions w ev) (touched_turns w ev) (touched_ops w ev) (w, db) (w', db')"
    using apply_event_effect [OF assms(1), of ev] assms(2) by auto
  have "\<not> missing_row ev (w, db')" using nr missing_row_anti [OF effect_extends [OF e]] by (auto simp: rejects_def)
  then show "settled w db' ev" using nr e by (auto simp: settled_def rejects_def effect_def)
qed

lemma apply_all_settled:
  assumes "valid_state (w, db)" "apply_all evs (w, db) = Some (w', db')"
  shows "same_source w w' \<and> extends db db' \<and> list_all (settled w db') evs"
  using assms
proof (induction evs arbitrary: w db)
  case Nil
  then show ?case by (simp add: extends_def grows_def)
next
  case (Cons ev evs)
  then obtain w1 db1 where 1: "apply_event ev (w, db) = Some (w1, db1)" "apply_all evs (w1, db1) = Some (w', db')"
    by (auto simp: bind_eq_Some_conv)
  note e = apply_event_Some [OF Cons.prems(1) 1(1)]
  have same: "same_source w w1" using e(1) by (simp add: effect_def)
  from Cons.IH [OF effect_valid [OF e(1)] 1(2)]
  have ih: "same_source w1 w'" "extends db1 db'" "list_all (settled w1 db') evs" by simp_all
  have "settled w1 db' = settled w db'" by (rule ext) (rule settled_cong [OF same])
  then show ?case
    using ih same settled_mono [OF e(2) ih(2)] extends_trans [OF effect_extends [OF e(1)] ih(2)]
    by (simp add: same_source_def)
qed

lemma apply_all_valid:
  "valid_state (w, db) \<Longrightarrow> apply_all evs (w, db) = Some (w', db') \<Longrightarrow> valid_state (w', db')"
proof (induction evs arbitrary: w db)
  case (Cons ev evs)
  then obtain w1 db1 where 1: "apply_event ev (w, db) = Some (w1, db1)" "apply_all evs (w1, db1) = Some (w', db')"
    by (auto simp: bind_eq_Some_conv)
  then show ?case using Cons.IH effect_valid [OF apply_event_Some(1) [OF Cons.prems(1) 1(1)]] by blast
qed simp

lemma settled_replay:
  assumes "valid_state (w, db)" "list_all (settled w db) evs"
  shows "\<exists>w' db'. apply_all evs (w, db) = Some (w', db') \<and> keys (sessions db') = keys (sessions db) \<and>
    keys (turns db') = keys (turns db) \<and> keys (ops db') = keys (ops db)"
  using assms
proof (induction evs arbitrary: w db)
  case (Cons ev evs)
  then have s: "settled w db ev" by simp
  then obtain w1 db1 where 1: "apply_event ev (w, db) = Some (w1, db1)"
    and e: "effect (touched_sessions w ev) (touched_turns w ev) (touched_ops w ev) (w, db) (w1, db1)"
    using apply_event_effect [OF Cons.prems(1), of ev] by (auto simp: settled_def)
  have k: "keys (sessions db1) = keys (sessions db)" "keys (turns db1) = keys (turns db)" "keys (ops db1) = keys (ops db)"
    using s e unfolding settled_def effect_def by auto
  have same: "same_source w w1" using e by (simp add: effect_def)
  have "list_all (settled w1 db1) evs"
    using Cons.prems(2) settled_mono [OF _ effect_extends [OF e]] settled_cong [OF same] by (auto simp: list_all_iff)
  from Cons.IH [OF effect_valid [OF e] this] show ?case using 1 k by auto
qed simp

text \<open>
  C32. Receiving events again is harmless for the rows: when a batch has been applied, any
  selection of its events, in any order and any number of times, can be applied again by a
  writer of the same source whose caches are right. No event is rejected, and no session, turn
  or op is added.
\<close>

theorem replay_adds_no_rows:
  assumes "valid_state (w, db)" "apply_all evs (w, db) = Some (w1, db1)"
    and "same_source w w2" "valid_state (w2, db1)" "set replay \<subseteq> set evs"
  shows "\<exists>w3 db3. apply_all replay (w2, db1) = Some (w3, db3) \<and> keys (sessions db3) = keys (sessions db1) \<and>
    keys (turns db3) = keys (turns db1) \<and> keys (ops db3) = keys (ops db1)"
proof (rule settled_replay [OF assms(4)])
  show "list_all (settled w2 db1) replay"
    using apply_all_settled [OF assms(1,2)] settled_cong [OF assms(3)] assms(5) by (auto simp: list_all_iff)
qed

text \<open>The demo batch, then its first op start again, by a writer whose batch has been reset.\<close>

lemma same_source_reset [simp]: "same_source w (resetBatch w') = same_source w w'"
  by (simp add: same_source_def resetBatch_def)

lemma valid_reset: "valid_state (w, db) \<Longrightarrow> valid_state (resetBatch w, db)"
  by (simp add: valid_state_def resetBatch_def caches_ok_def)

lemma replay_adds_no_rows_witness:
  "\<exists>w1 db1 w3 db3. apply_all demo_events (demo_writer, demo_db) = Some (w1, db1) \<and>
     apply_all [demo_op ''custom'', demo_op ''custom''] (resetBatch w1, db1) = Some (w3, db3) \<and>
     keys (ops db3) = keys (ops db1)"
proof -
  obtain w1 db1 where 1: "apply_all demo_events (demo_writer, demo_db) = Some (w1, db1)"
    using demo_run by (auto split: option.splits)
  have s: "same_source demo_writer (resetBatch w1)" using apply_all_settled [OF demo_valid 1] by simp
  have v: "valid_state (resetBatch w1, db1)"
    using apply_all_valid [OF demo_valid 1] by (rule valid_reset)
  have "set [demo_op ''custom'', demo_op ''custom''] \<subseteq> set demo_events" by (simp add: demo_events_def)
  from replay_adds_no_rows [OF demo_valid 1 s v this] obtain w3 db3 where
    "apply_all [demo_op ''custom'', demo_op ''custom''] (resetBatch w1, db1) = Some (w3, db3)" "keys (ops db3) = keys (ops db1)"
    by (elim exE conjE)
  with 1 show ?thesis by (intro exI conjI)
qed

section \<open>A retry after a rollback\<close>

text \<open>A started op leaves its session and its turn in the caches.\<close>

lemma applyOpStarted_caches:
  assumes v: "valid_state (w, db)" and run: "applyOpStarted e (w, db) = Some (w', db')"
  shows "map_of (batchSessionIDs w') (os_SessionNativeID e) = Some (session_id_of w (os_SessionNativeID e)) \<and>
    event_turn w (os_SessionNativeID e) (os_TurnSeq e) \<in> set (batchTurns w')"
proof -
  let ?sid = "session_id_of w (os_SessionNativeID e)"
  have n: "os_SessionNativeID e \<noteq> []" using run by (auto simp: applyOpStarted_def)
  obtain w1 db1 where r1: "requireSessionID (os_SessionNativeID e) (Ts e) (w, db) = Some (?sid, w1, db1)"
    and e1: "effect {?sid} {} {} (w, db) (w1, db1)"
    and c1: "map_of (batchSessionIDs w1) (os_SessionNativeID e) = Some ?sid"
    by (rule requireSessionID_Some [OF v n])
  have h1: "hash w1 = hash w" using effect_same_source(2) [OF e1] by simp
  let ?tid = "turn_id_of w ?sid (os_TurnSeq e)"
  obtain w2 db2 where r2: "synthesize_turn ?tid ?sid (os_TurnSeq e) (Ts e) (w1, db1) = Some (w2, db2)"
    using run
    by (cases "synthesize_turn ?tid ?sid (os_TurnSeq e) (Ts e) (w1, db1)") (auto simp: applyOpStarted_def r1 h1 Let_def)
  have "batchSessionIDs w2 = batchSessionIDs w1" "?tid \<in> set (batchTurns w2)"
    using r2 by (auto simp: synthesize_turn_def bind_eq_Some_conv split: if_splits)
  moreover have "batchSessionIDs w' = batchSessionIDs w2" "batchTurns w' = batchTurns w2"
    using run by (auto simp: applyOpStarted_def r1 r2 h1 bind_eq_Some_conv Let_def split: prod.splits)
  ultimately show ?thesis using c1 by (simp add: event_turn_def)
qed

text \<open>With a turn in the caches that is not in the database a new op cannot be inserted.\<close>

lemma applyOpStarted_stale:
  assumes "map_of (batchSessionIDs w) (os_SessionNativeID e) = Some (session_id_of w (os_SessionNativeID e))"
    and "event_turn w (os_SessionNativeID e) (os_TurnSeq e) \<in> set (batchTurns w)"
    and "event_turn w (os_SessionNativeID e) (os_TurnSeq e) \<notin> keys (turns db)"
    and "op_id_of w (event_turn w (os_SessionNativeID e) (os_TurnSeq e)) (os_Seq e) \<notin> keys (ops db)"
  shows "applyOpStarted e (w, db) = None"
proof (cases "os_SessionNativeID e = []")
  case False
  let ?sid = "session_id_of w (os_SessionNativeID e)"
  let ?tid = "turn_id_of w ?sid (os_TurnSeq e)"
  have r1: "requireSessionID (os_SessionNativeID e) (Ts e) (w, db) = Some (?sid, w, db)"
    using False assms(1) by (simp add: requireSessionID_def)
  have r2: "synthesize_turn ?tid ?sid (os_TurnSeq e) (Ts e) (w, db) = Some (w, db)"
    using assms(2) by (simp add: synthesize_turn_def event_turn_def)
  have new: "map_of (ops db) (op_id_of w ?tid (os_Seq e)) = None" "\<not> has_key ?tid (turns db)"
    using assms(3,4) by (simp_all add: map_of_eq_None_iff has_key_iff event_turn_def)
  have "upsert_op (op_id_of w ?tid (os_Seq e)) x f db = None" if "op_turn_id x = ?tid" for x f
    using that new by (simp add: upsert_op_def op_fk_ok_def)
  then show ?thesis
    by (simp add: applyOpStarted_def r1 r2 Let_def started_op_row_def split: prod.splits)
qed (simp add: applyOpStarted_def)

text \<open>
  C33. A retry needs \<open>resetBatch\<close>. Take a writer whose caches are right and a started op whose turn
  and op are new: the event is applied. If its transaction is then rolled back and the event
  retried by the writer as it is, which remembers the session and the turn as present, the
  event fails, in every retry; after \<open>resetBatch\<close> it is applied.
\<close>

theorem stale_cache_poisons_retry:
  assumes "valid_state (w, db)"
    and "apply_event (EvOpStarted e) (w, db) = Some (w1, db1)"
    and "event_turn w (os_SessionNativeID e) (os_TurnSeq e) \<notin> keys (turns db)"
    and "op_id_of w (event_turn w (os_SessionNativeID e) (os_TurnSeq e)) (os_Seq e) \<notin> keys (ops db)"
  shows "apply_event (EvOpStarted e) (w1, db) = None \<and> apply_event (EvOpStarted e) (resetBatch w1, db) \<noteq> None"
proof
  define bump where "bump v = (if batchMaxSeq v < EventSourceSeq (EvOpStarted e)
    then v\<lparr>batchMaxSeq := EventSourceSeq (EvOpStarted e)\<rparr> else v)" for v :: "'a writer"
  have bump: "sourceID (bump v) = sourceID v" "hash (bump v) = hash v" "batchSessionIDs (bump v) = batchSessionIDs v"
    "batchTurns (bump v) = batchTurns v" for v
    by (simp_all add: bump_def)
  have run: "apply_event (EvOpStarted e) (v, d) = applyOpStarted e (bump v, d)" for v and d :: "'a db"
    by (simp add: apply_event_def bump_def)
  have v0: "valid_state (bump w, db)"
    by (rule effect_valid [OF effect_marks [OF assms(1)]]) (simp_all add: bump same_source_def)
  note e = apply_event_Some [OF assms(1,2)]
  have same: "sourceID w1 = sourceID w" "hash w1 = hash w" using e(1) by (simp_all add: effect_def same_source_def)
  have caches: "map_of (batchSessionIDs w1) (os_SessionNativeID e) = Some (session_id_of w (os_SessionNativeID e))"
    "event_turn w (os_SessionNativeID e) (os_TurnSeq e) \<in> set (batchTurns w1)"
    using applyOpStarted_caches [OF v0 assms(2) [unfolded run]] by (simp_all add: bump event_turn_def)
  show "apply_event (EvOpStarted e) (w1, db) = None"
    unfolding run by (rule applyOpStarted_stale) (use caches same assms(3,4) in \<open>simp_all add: bump event_turn_def\<close>)
  have vr: "valid_state (resetBatch w1, db)"
    using assms(1) same by (simp add: valid_state_def resetBatch_def caches_ok_def)
  have "\<not> rejects (EvOpStarted e) (w, db)"
    using apply_event_effect [OF assms(1), of "EvOpStarted e"] assms(2) by (auto split: if_splits)
  moreover have "same_source w (resetBatch w1)" using same by (simp add: same_source_def resetBatch_def)
  ultimately have "\<not> rejects (EvOpStarted e) (resetBatch w1, db)"
    using same_source_ids(4) [of w "resetBatch w1"] unfolding rejects_def by blast
  then show "apply_event (EvOpStarted e) (resetBatch w1, db) \<noteq> None"
    using apply_event_effect [OF vr, of "EvOpStarted e"] by auto
qed

lemma stale_cache_poisons_retry_witness:
  "\<exists>w1 db1. apply_event (demo_op ''custom'') (demo_writer, demo_db) = Some (w1, db1) \<and>
     apply_event (demo_op ''custom'') (w1, demo_db) = None \<and>
     apply_event (demo_op ''custom'') (resetBatch w1, demo_db) \<noteq> None"
proof -
  obtain w1 db1 where 1: "apply_event (demo_op ''custom'') (demo_writer, demo_db) = Some (w1, db1)"
    using demo_run by (auto simp: demo_events_def bind_eq_Some_conv split: option.splits)
  have "turns demo_db = []" "ops demo_db = []"
    by (simp_all add: demo_db_def ensureSourceRow_def empty_db_def)
  then show ?thesis
    using 1 stale_cache_poisons_retry [OF demo_valid 1 [unfolded demo_op_def], folded demo_op_def]
    by (simp add: exI [of _ w1])
qed

end
