(* ===== verification/Flush.thy ===== *)
theory Flush
  imports Writer
begin

text \<open>
  The transaction body of one source (\<open>worker.flushBody\<close> in \<open>internal/ingest/worker.go\<close>): after
  the events of a batch the read models are refreshed from the rows the batch has marked,
  the rollups (\<open>rollup_refresh.go\<close>), the full-text index of the ops (\<open>fts_refresh.go\<close>), the
  aggregates of turns and sessions (\<open>aggregates.go\<close>); then the checkpoint of the source and the
  notifications are written (\<open>notify_producer.go\<close>). The one-shot rebuild of the rollups is
  \<open>rollup_backfill.go\<close>.

  Clock readings are arguments. What Go and SQL leave open, the order of maps and of rows
  without \<open>ORDER BY\<close>, is a record of permutations.
\<close>

section \<open>Unspecified orders\<close>

record 'c orders =
  ord_acc :: "'c acc \<Rightarrow> 'c acc"
  ord_groups :: "(groupKey \<times> nat list) list \<Rightarrow> (groupKey \<times> nat list) list"
  ord_starts :: "SessionStart list \<Rightarrow> SessionStart list"
  ord_buckets :: "i64 list \<Rightarrow> i64 list"
  ord_ids :: "string list \<Rightarrow> string list"

definition orders_ok :: "'c orders \<Rightarrow> bool" where
  "orders_ok ord \<longleftrightarrow> iteration (ord_acc ord) \<and> iteration (ord_groups ord) \<and> iteration (ord_starts ord) \<and>
     iteration (ord_buckets ord) \<and> iteration (ord_ids ord)"

section \<open>Reading ops and session starts\<close>

text \<open>An op joined with its session and source; without them the inner join drops it.\<close>

definition scanOpRow :: "'c db \<Rightarrow> 'c op_row \<Rightarrow> 'c OpRow option" where
  "scanOpRow db r = do {
     s \<leftarrow> map_of (sessions db) (op_session_id r);
     src \<leftarrow> map_of (sources db) (s_source_id s);
     Some \<lparr>o_StartTS = op_start_ts r, o_EndTS = op_end_ts r,
       o_DurationUS = (case op_duration_us r of None \<Rightarrow> 0 | Some d \<Rightarrow> d), o_SourceFormat = so_format src,
       o_Kind = op_kind r, o_Model = nullableString (op_model r), o_Provider = nullableString (op_provider r),
       o_ToolNamespace = nullableString (op_tool_namespace r), o_ToolName = op_name r,
       o_AgentName = nullableString (s_agent_name s), o_Cwd = nullableString (s_cwd s),
       o_CostUSD = op_cost_usd r, o_TokensIn = op_tokens_in r, o_TokensOut = op_tokens_out r,
       o_TokensCacheRead = op_tokens_cache_read r, o_TokensCacheWrite = op_tokens_cache_write r,
       o_Failed = (op_status r = ''failed'')\<rparr> }"

definition scanSessionStart :: "'c db \<Rightarrow> 'c session_row \<Rightarrow> SessionStart option" where
  "scanSessionStart db s = do {
     src \<leftarrow> map_of (sources db) (s_source_id s);
     Some \<lparr>ss_StartTS = s_start_ts s, ss_SourceFormat = so_format src, ss_AgentName = nullableString (s_agent_name s),
       ss_Cwd = nullableString (s_cwd s)\<rparr> }"

text \<open>\<open>ORDER BY o.start_ts ASC, o.id ASC\<close>.\<close>

definition joined_ops :: "'c db \<Rightarrow> 'c OpRow list" where
  "joined_ops db = List.map_filter (\<lambda>e. scanOpRow db (snd e))
     (sort_key (\<lambda>e. (sint (op_start_ts (snd e)), fst e)) (ops db))"

definition joined_starts :: "'c db \<Rightarrow> SessionStart list" where
  "joined_starts db = List.map_filter (\<lambda>e. scanSessionStart db (snd e)) (sessions db)"

definition in_window :: "i64 \<Rightarrow> i64 \<Rightarrow> i64 \<Rightarrow> bool" where
  "in_window start end ts \<longleftrightarrow> \<not> i64_less ts start \<and> i64_less ts end"

section \<open>The rollup tables\<close>

fun rollupTable :: "Bucket \<Rightarrow> 'c db \<Rightarrow> (rowKey \<times> 'c RollupRow) list" where
  "rollupTable Hourly db = rollup_hourly db"
| "rollupTable Daily db = rollup_daily db"

fun set_rollupTable :: "Bucket \<Rightarrow> (rowKey \<times> 'c RollupRow) list \<Rightarrow> 'c db \<Rightarrow> 'c db" where
  "set_rollupTable Hourly t db = db\<lparr>rollup_hourly := t\<rparr>"
| "set_rollupTable Daily t db = db\<lparr>rollup_daily := t\<rparr>"

definition upsert_rollup :: "'c RollupRow \<Rightarrow> (rowKey \<times> 'c RollupRow) list \<Rightarrow> (rowKey \<times> 'c RollupRow) list" where
  "upsert_rollup r = upsert_row (r_BucketTS r, r_SourceFormat r, r_Dimension r, r_DimensionValue r) r (\<lambda>_. r)"

definition upsertRollups :: "Bucket \<Rightarrow> 'c RollupRow list \<Rightarrow> 'c db \<Rightarrow> 'c db" where
  "upsertRollups bucket rows db = set_rollupTable bucket (fold upsert_rollup rows (rollupTable bucket db)) db"

subsection \<open>The incremental refresh\<close>

definition loadWindowOps :: "string \<Rightarrow> i64 \<Rightarrow> i64 \<Rightarrow> 'c db \<Rightarrow> 'c OpRow list" where
  "loadWindowOps format start end db =
     filter (\<lambda>op. o_SourceFormat op = format \<and> in_window start end (o_StartTS op)) (joined_ops db)"

definition loadWindowSessionStarts :: "'c orders \<Rightarrow> string \<Rightarrow> i64 \<Rightarrow> i64 \<Rightarrow> 'c db \<Rightarrow> SessionStart list" where
  "loadWindowSessionStarts ord format start end db =
     ord_starts ord (filter (\<lambda>s. ss_SourceFormat s = format \<and> in_window start end (ss_StartTS s)) (joined_starts db))"

definition deleteBucketRows :: "string \<Rightarrow> Bucket \<Rightarrow> i64 \<Rightarrow> 'c db \<Rightarrow> 'c db" where
  "deleteBucketRows format bucket bucketStart db = set_rollupTable bucket
     (filter (\<lambda>e. \<not> (fst (fst e) = bucketStart \<and> fst (snd (fst e)) = format)) (rollupTable bucket db)) db"

definition recomputeBucket ::
    "'c orders \<Rightarrow> ('c :: {zero,plus}) writer \<Rightarrow> i64 \<Rightarrow> i64 \<Rightarrow> Bucket \<Rightarrow> 'c db \<Rightarrow> 'c db" where
  "recomputeBucket ord w bucketStart bucketEnd bucket db =
     (let window = loadWindowOps (sourceFormat w) bucketStart bucketEnd db;
          starts = loadWindowSessionStarts ord (sourceFormat w) bucketStart bucketEnd db;
          db = deleteBucketRows (sourceFormat w) bucket bucketStart db;
          rows = Rollup (ord_acc ord) (ord_groups ord) window starts bucket (maxRollupRowsPerBucket w)
      in upsertRollups bucket rows db)"

record 'c rollupPass =
  rp_dirty :: "'c writer \<Rightarrow> i64 list"
  rp_stage :: "i64 \<Rightarrow> 'c writer \<Rightarrow> 'c writer"
  rp_bucket :: Bucket
  rp_spanUS :: i64
  rp_openFrom :: i64

definition hourPass :: "i64 \<Rightarrow> 'c rollupPass" where
  "hourPass openHourStart = \<lparr>rp_dirty = dirtyRollupBuckets,
     rp_stage = (\<lambda>b w. w\<lparr>pendingMaterializedBuckets := List.insert b (pendingMaterializedBuckets w)\<rparr>),
     rp_bucket = Hourly, rp_spanUS = hourSpanUS, rp_openFrom = openHourStart\<rparr>"

definition dayPass :: "i64 \<Rightarrow> 'c rollupPass" where
  "dayPass openDayStart = \<lparr>rp_dirty = dirtyRollupDays,
     rp_stage = (\<lambda>b w. w\<lparr>pendingMaterializedDays := List.insert b (pendingMaterializedDays w)\<rparr>),
     rp_bucket = Daily, rp_spanUS = daySpanUS, rp_openFrom = openDayStart\<rparr>"

definition materialize :: "'c orders \<Rightarrow> 'c rollupPass \<Rightarrow> i64 \<Rightarrow> ('c :: {zero,plus}) wstate \<Rightarrow> 'c wstate" where
  "materialize ord p b st = (case st of (w, db) \<Rightarrow>
     if \<not> i64_less b (rp_openFrom p) then (w, db)
     else ((rp_stage p b w)\<lparr>rollupMaterializedThisRefresh := True\<rparr>,
           recomputeBucket ord w b (b + rp_spanUS p) (rp_bucket p) db))"

definition refreshRollupBucketPass :: "'c orders \<Rightarrow> 'c rollupPass \<Rightarrow> ('c :: {zero,plus}) wstate \<Rightarrow> 'c wstate" where
  "refreshRollupBucketPass ord p st = fold (materialize ord p) (ord_buckets ord (rp_dirty p (fst st))) st"

definition refreshRollups :: "'c orders \<Rightarrow> i64 \<Rightarrow> ('c :: {zero,plus}) wstate \<Rightarrow> 'c wstate" where
  "refreshRollups ord now st =
     (if dirtyRollupBuckets (fst st) = [] \<and> dirtyRollupDays (fst st) = [] then st
      else refreshRollupBucketPass ord (dayPass (BucketTS now Daily))
        (refreshRollupBucketPass ord (hourPass (BucketTS now Hourly)) st))"

subsection \<open>The one-shot rebuild\<close>

text \<open>
  The backfill runs in transactions of its own: one that clears both tables, then one per UTC
  day. Between them it may be asked to stop, here by the argument \<open>yield\<close>, which tells of
  each call, in their order, whether it lets the backfill go on.
\<close>

definition truncateRollups :: "'c db \<Rightarrow> 'c db" where
  "truncateRollups db = db\<lparr>rollup_hourly := [], rollup_daily := []\<rparr>"

definition loadSessionStarts :: "'c orders \<Rightarrow> i64 \<Rightarrow> 'c db \<Rightarrow> SessionStart list" where
  "loadSessionStarts ord openHourStart db =
     ord_starts ord (filter (\<lambda>s. i64_less (ss_StartTS s) openHourStart) (joined_starts db))"

definition startsByDay :: "SessionStart list \<Rightarrow> i64 \<Rightarrow> SessionStart list" where
  "startsByDay starts day = filter (\<lambda>s. BucketTS (ss_StartTS s) Daily = day) starts"

text \<open>SQLite divides towards zero.\<close>

definition closedDays :: "i64 \<Rightarrow> SessionStart list \<Rightarrow> 'c db \<Rightarrow> i64 list" where
  "closedDays openHourStart starts db =
     (let opDays = map (\<lambda>e. go_quo (op_start_ts (snd e)) daySpanUS * daySpanUS)
            (filter (\<lambda>e. i64_less (op_start_ts (snd e)) openHourStart) (ops db));
          startDays = map (\<lambda>s. BucketTS (ss_StartTS s) Daily) starts
      in sort_key sint (remdups (opDays @ startDays)))"

definition loadDayOps :: "i64 \<Rightarrow> i64 \<Rightarrow> 'c db \<Rightarrow> 'c OpRow list" where
  "loadDayOps day openHourStart db =
     filter (\<lambda>op. in_window day (min64 (day + daySpanUS) openHourStart) (o_StartTS op)) (joined_ops db)"

definition flushDay ::
    "'c orders \<Rightarrow> int \<Rightarrow> i64 \<Rightarrow> i64 \<Rightarrow> SessionStart list \<Rightarrow> i64 \<Rightarrow> ('c :: {zero,plus}) db \<Rightarrow> 'c db" where
  "flushDay ord cap openHourStart openDayStart starts day db =
     (let window = loadDayOps day openHourStart db;
          rollup = (\<lambda>bucket. Rollup (ord_acc ord) (ord_groups ord) window (startsByDay starts day) bucket cap);
          db = upsertRollups Hourly (rollup Hourly) db
      in if i64_less day openDayStart then upsertRollups Daily (rollup Daily) db else db)"

fun runBackfillDays :: "(nat \<Rightarrow> bool) \<Rightarrow> nat \<Rightarrow> (i64 \<Rightarrow> 'c db \<Rightarrow> 'c db) \<Rightarrow> i64 list \<Rightarrow> 'c db \<Rightarrow> bool \<times> 'c db" where
  "runBackfillDays yield n flush [] db = (True, db)"
| "runBackfillDays yield n flush (day # days) db =
     (if yield n then runBackfillDays yield (n + 1) flush days (flush day db) else (False, db))"

definition BackfillRollups ::
    "'c orders \<Rightarrow> int \<Rightarrow> (nat \<Rightarrow> bool) \<Rightarrow> i64 \<Rightarrow> ('c :: {zero,plus}) db \<Rightarrow> bool \<times> 'c db" where
  "BackfillRollups ord cap yield now db =
     (let openHourStart = BucketTS now Hourly; openDayStart = BucketTS now Daily in
      if \<not> yield 0 then (False, db)
      else let db = truncateRollups db in
      if \<not> yield 1 then (False, db)
      else let starts = loadSessionStarts ord openHourStart db in
      if \<not> yield 2 then (False, db)
      else runBackfillDays yield 3 (flushDay ord cap openHourStart openDayStart starts)
        (closedDays openHourStart starts db) db)"

section \<open>The index of the ops\<close>

definition composeErrorText :: "string \<Rightarrow> string \<Rightarrow> string" where
  "composeErrorText errorClass errorMessage =
     (if errorClass = [] then errorMessage
      else if errorMessage = [] then errorClass else errorClass @ '' '' @ errorMessage)"

definition fts_row :: "'c op_row \<Rightarrow> fts_op_row" where
  "fts_row r = \<lparr>fo_name = op_name r, fo_model = nullableString (op_model r),
     fo_provider = nullableString (op_provider r), fo_tool_namespace = nullableString (op_tool_namespace r),
     fo_error_text = composeErrorText (nullableString (op_error_class r)) (nullableString (op_error_message r)),
     fo_session_id = op_session_id r\<rparr>"

definition reindexOp :: "string \<Rightarrow> 'c db \<Rightarrow> 'c db" where
  "reindexOp opID db = (case map_of (ops db) opID of None \<Rightarrow> db
     | Some r \<Rightarrow> db\<lparr>fts_ops := filter (\<lambda>e. fst e \<noteq> opID) (fts_ops db) @ [(opID, fts_row r)]\<rparr>)"

definition refreshFTS :: "'c orders \<Rightarrow> 'c wstate \<Rightarrow> 'c wstate" where
  "refreshFTS ord st = (case st of (w, db) \<Rightarrow> (w, fold reindexOp (ord_ids ord (dirtyOpIDs w)) db))"

section \<open>The aggregates of turns and sessions\<close>

abbreviation sum_col :: "('r \<Rightarrow> 'm) \<Rightarrow> (string \<times> 'r) list \<Rightarrow> 'm :: comm_monoid_add" where
  "sum_col col tab \<equiv> (\<Sum>e\<leftarrow>tab. col (snd e))"

definition ops_of_turn :: "string \<Rightarrow> 'c db \<Rightarrow> (string \<times> 'c op_row) list" where
  "ops_of_turn tid db = filter (\<lambda>e. op_turn_id (snd e) = tid) (ops db)"

definition ops_of_session :: "string \<Rightarrow> 'c db \<Rightarrow> (string \<times> 'c op_row) list" where
  "ops_of_session sid db = filter (\<lambda>e. op_session_id (snd e) = sid) (ops db)"

definition turns_of_session :: "string \<Rightarrow> 'c db \<Rightarrow> (string \<times> 'c turn_row) list" where
  "turns_of_session sid db = filter (\<lambda>e. t_session_id (snd e) = sid) (turns db)"

definition turn_aggregates :: "(string \<times> ('c :: comm_monoid_add) op_row) list \<Rightarrow> 'c turn_row \<Rightarrow> 'c turn_row" where
  "turn_aggregates es r = r\<lparr>t_tokens_in := sum_col op_tokens_in es, t_tokens_out := sum_col op_tokens_out es,
     t_tokens_cache_read := sum_col op_tokens_cache_read es, t_tokens_cache_write := sum_col op_tokens_cache_write es,
     t_cost_usd := sum_col op_cost_usd es, t_op_count := of_nat (length es)\<rparr>"

text \<open>\<open>COALESCE((SELECT MAX(end_ts) ...), 0)\<close>.\<close>

definition max_end :: "(string \<times> 'c op_row) list \<Rightarrow> i64" where
  "max_end es = (case List.map_filter (\<lambda>e. op_end_ts (snd e)) es of [] \<Rightarrow> 0 | t # ts \<Rightarrow> fold max64 ts t)"

definition session_aggregates ::
    "(string \<times> ('c :: comm_monoid_add) turn_row) list \<Rightarrow> (string \<times> 'c op_row) list \<Rightarrow> 'c session_row \<Rightarrow> 'c session_row" where
  "session_aggregates ts es r = r\<lparr>s_tokens_in := sum_col t_tokens_in ts, s_tokens_out := sum_col t_tokens_out ts,
     s_tokens_cache_read := sum_col t_tokens_cache_read ts, s_tokens_cache_write := sum_col t_tokens_cache_write ts,
     s_cost_usd := sum_col t_cost_usd ts, s_turn_count := of_nat (length ts), s_op_count := sum_col t_op_count ts,
     s_failure_count := of_nat (length (filter (\<lambda>e. op_status (snd e) = ''failed'') es)),
     s_last_activity_ts := max64 (s_last_activity_ts r) (max_end es)\<rparr>"

definition refreshTurnAggregates :: "string list \<Rightarrow> ('c :: comm_monoid_add) db \<Rightarrow> 'c db" where
  "refreshTurnAggregates dirty db = db\<lparr>turns := map (\<lambda>(tid, r).
     (tid, if tid \<in> set dirty then turn_aggregates (ops_of_turn tid db) r else r)) (turns db)\<rparr>"

definition refreshSessionAggregates :: "string list \<Rightarrow> ('c :: comm_monoid_add) db \<Rightarrow> 'c db" where
  "refreshSessionAggregates dirty db = db\<lparr>sessions := map (\<lambda>(sid, r).
     (sid, if sid \<in> set dirty then session_aggregates (turns_of_session sid db) (ops_of_session sid db) r else r))
     (sessions db)\<rparr>"

definition refreshAggregates :: "string list \<Rightarrow> string list \<Rightarrow> ('c :: comm_monoid_add) db \<Rightarrow> 'c db" where
  "refreshAggregates dirtyTurns dirtySessions db =
     refreshSessionAggregates dirtySessions (refreshTurnAggregates dirtyTurns db)"

section \<open>The read models of a batch\<close>

text \<open>
  The settings of a flush: the worker's source, the switches that defer the read models, the
  writer's clock, the time of the commit.
\<close>

record 'c flush_env =
  fe_location :: string
  fe_metaJSON :: string
  fe_deferReadModels :: bool
  fe_readModelRebuildActive :: bool
  fe_now :: i64
  fe_updatedAt :: i64
  fe_commitTS :: i64
  fe_orders :: "'c orders"

definition ReadModelRepairPending :: string where "ReadModelRepairPending = ''repair_pending''"
definition ReadModelUnknown :: string where "ReadModelUnknown = ''unknown''"

definition markReadModelRepairPending :: "i64 \<Rightarrow> 'c wstate \<Rightarrow> 'c wstate" where
  "markReadModelRepairPending ts st = (case st of (w, db) \<Rightarrow>
     (let changed = (case map_of (source_progress db) (sourceID w) of None \<Rightarrow> True
            | Some r \<Rightarrow> p_read_model_state r \<noteq> ReadModelRepairPending);
          progress = upsert_row (sourceID w)
            \<lparr>p_last_seq = 0, p_last_ts_us = 0, p_cursor = None, p_updated_at = ts,
             p_read_model_state = ReadModelRepairPending, p_read_model_state_at = ts, p_read_model_error = None\<rparr>
            (\<lambda>r. r\<lparr>p_read_model_state := ReadModelRepairPending, p_read_model_state_at := ts,
                   p_read_model_error := None\<rparr>) (source_progress db)
      in if changed then (w\<lparr>sourceStatusChanged := True, readModelRepairRequested := True\<rparr>, db\<lparr>source_progress := progress\<rparr>)
         else (w, db)))"

definition refreshBatchReadModels :: "'c flush_env \<Rightarrow> ('c :: ab_group_add) wstate \<Rightarrow> 'c wstate" where
  "refreshBatchReadModels env st =
     (let st = (if fe_deferReadModels env \<or> fe_readModelRebuildActive env
                then markReadModelRepairPending (fe_now env) st
                else refreshFTS (fe_orders env) (refreshRollups (fe_orders env) (fe_now env) st))
      in (fst st, refreshAggregates (dirtyTurnIDs (fst st)) (dirtySessionIDs (fst st)) (snd st)))"

section \<open>Checkpoint and notifications\<close>

text \<open>\<open>seq & 0x7FFFFFFFFFFFFFFF\<close>.\<close>

definition clamp_seq :: "u64 \<Rightarrow> i64" where
  "clamp_seq seq = take_bit 63 seq"

definition upsertSourceProgress ::
    "i64 \<Rightarrow> string \<Rightarrow> u64 \<Rightarrow> i64 \<Rightarrow> string \<Rightarrow> bool \<Rightarrow> 'c db \<Rightarrow> 'c db" where
  "upsertSourceProgress updatedAt src seq lastTs cursor withCursor db =
     (if seq = 0 \<and> \<not> withCursor then db
      else db\<lparr>source_progress := upsert_row src
        \<lparr>p_last_seq = clamp_seq seq, p_last_ts_us = lastTs, p_cursor = (if withCursor then Some cursor else None),
         p_updated_at = updatedAt, p_read_model_state = ReadModelUnknown, p_read_model_state_at = 0,
         p_read_model_error = None\<rparr>
        (\<lambda>r. r\<lparr>p_last_seq := max64 (p_last_seq r) (clamp_seq seq), p_last_ts_us := max64 (p_last_ts_us r) lastTs,
               p_cursor := (if withCursor then Some cursor else p_cursor r), p_updated_at := updatedAt\<rparr>)
        (source_progress db)\<rparr>)"

definition batchMaxTs :: "'c Event list \<Rightarrow> i64" where
  "batchMaxTs batch = fold (\<lambda>ev maxTs. if i64_less maxTs (EventTs ev) then EventTs ev else maxTs) batch 0"

definition notify_of :: "i64 \<Rightarrow> string \<Rightarrow> notify_row" where
  "notify_of tsUS kind = \<lparr>nt_ts_us = tsUS, nt_kind = kind, nt_session_id = None, nt_root_session_id = None, nt_source_id = None\<rparr>"

definition insert_notify :: "notify_row \<Rightarrow> 'c db \<Rightarrow> 'c db" where
  "insert_notify n db = db\<lparr>notify := notify db @ [n]\<rparr>"

definition lookupRootSessionID :: "string \<Rightarrow> 'c db \<Rightarrow> string option" where
  "lookupRootSessionID sid db = map_option s_root_session_id (map_of (sessions db) sid)"

fun emitSessionChangedNotify :: "i64 \<Rightarrow> string list \<Rightarrow> 'c db \<Rightarrow> 'c db option" where
  "emitSessionChangedNotify tsUS [] db = Some db"
| "emitSessionChangedNotify tsUS (sid # sids) db = do {
     root \<leftarrow> lookupRootSessionID sid db;
     emitSessionChangedNotify tsUS sids
       (insert_notify ((notify_of tsUS ''session_changed'')\<lparr>nt_session_id := Some sid, nt_root_session_id := Some root\<rparr>) db) }"

definition shouldEmitStatsInvalidatedNotify :: "'c writer \<Rightarrow> bool" where
  "shouldEmitStatsInvalidatedNotify w \<longleftrightarrow>
     affectedSessionIDs w \<noteq> [] \<or> rollupTouchedThisBatch w \<or> rollupMaterializedThisRefresh w"

definition emitStatsInvalidatedNotify :: "i64 \<Rightarrow> 'c writer \<Rightarrow> 'c db \<Rightarrow> 'c db" where
  "emitStatsInvalidatedNotify tsUS w db =
     (if shouldEmitStatsInvalidatedNotify w then insert_notify (notify_of tsUS ''stats_invalidated'') db else db)"

definition emitSourceStatusChangedNotify :: "i64 \<Rightarrow> 'c writer \<Rightarrow> 'c db \<Rightarrow> 'c db" where
  "emitSourceStatusChangedNotify tsUS w db =
     (if sourceStatusChanged w
      then insert_notify ((notify_of tsUS ''source_status_changed'')\<lparr>nt_source_id := Some (sourceID w)\<rparr>) db else db)"

definition emitNotify :: "'c orders \<Rightarrow> i64 \<Rightarrow> 'c wstate \<Rightarrow> 'c db option" where
  "emitNotify ord tsUS st = (case st of (w, db) \<Rightarrow> do {
     db \<leftarrow> emitSessionChangedNotify tsUS (ord_ids ord (affectedSessionIDs w)) db;
     Some (emitSourceStatusChangedNotify tsUS w (emitStatsInvalidatedNotify tsUS w db)) })"

definition notifyRetention :: i64 where "notifyRetention = 300000000"

definition pruneNotify :: "i64 \<Rightarrow> 'c db \<Rightarrow> 'c db" where
  "pruneNotify nowUS db = db\<lparr>notify := filter (\<lambda>n. \<not> i64_less (nt_ts_us n) (nowUS - notifyRetention)) (notify db)\<rparr>"

definition emitNotifyAndPrune :: "'c orders \<Rightarrow> i64 \<Rightarrow> 'c wstate \<Rightarrow> 'c db option" where
  "emitNotifyAndPrune ord commitTS st = map_option (pruneNotify commitTS) (emitNotify ord commitTS st)"

section \<open>The flush of a source\<close>

definition writeBatchProgressAndNotify :: "'c flush_env \<Rightarrow> 'c Event list \<Rightarrow> 'c wstate \<Rightarrow> 'c wstate option" where
  "writeBatchProgressAndNotify env batch st = (case st of (w, db) \<Rightarrow>
     (let db = upsertSourceProgress (fe_updatedAt env) (sourceID w) (batchMaxSeq w) (batchMaxTs batch) (lastCursor w)
            (hasCursor w) db
      in map_option (Pair w) (emitNotifyAndPrune (fe_orders env) (fe_commitTS env) (w, db))))"

definition flushBody :: "'c flush_env \<Rightarrow> ('c :: ab_group_add) Event list \<Rightarrow> 'c wstate \<Rightarrow> 'c wstate option" where
  "flushBody env batch st = do {
     st \<leftarrow> writeBatchRows (fe_location env) (fe_metaJSON env) batch st;
     writeBatchProgressAndNotify env batch (refreshBatchReadModels env st) }"

text \<open>The cache of the highest sequence numbers (\<open>dedup.go\<close>).\<close>

type_synonym hwmCache = "(string \<times> u64) list"

definition hwm_Get :: "hwmCache \<Rightarrow> string \<Rightarrow> u64" where
  "hwm_Get c src = (case map_of c src of None \<Rightarrow> 0 | Some n \<Rightarrow> n)"

definition hwm_Advance :: "string \<Rightarrow> u64 \<Rightarrow> hwmCache \<Rightarrow> hwmCache" where
  "hwm_Advance src seq c = (if hwm_Get c src < seq then alist_put src seq c else c)"

definition hwm_Load :: "'c db \<Rightarrow> hwmCache \<Rightarrow> hwmCache" where
  "hwm_Load db c = fold (\<lambda>(src, r). alist_put src (if i64_less (p_last_seq r) 0 then 0 else p_last_seq r)) (source_progress db) c"

text \<open>After the commit; the result says whether a repair of the read models is requested.\<close>

definition promoteCommittedBatch :: "'c writer \<Rightarrow> hwmCache \<Rightarrow> 'c writer \<times> hwmCache \<times> bool" where
  "promoteCommittedBatch w c =
     (let w = promoteMaterializedRollupBuckets (promotePendingMissDedup w)
      in (w\<lparr>batchObservabilityErrs := 0\<rparr>, if 0 < batchMaxSeq w then hwm_Advance (sourceID w) (batchMaxSeq w) c else c,
          readModelRepairRequested w))"

text \<open>
  A flush in a transaction of its own; \<open>commits\<close> says whether the commit succeeds. \<open>None\<close> is an
  error, on which the transaction is rolled back and the database stays as it was.
\<close>

definition flush :: "'c flush_env \<Rightarrow> bool \<Rightarrow> ('c :: ab_group_add) Event list \<Rightarrow> 'c wstate \<Rightarrow> hwmCache \<Rightarrow>
    ('c wstate \<times> hwmCache \<times> bool) option" where
  "flush env commits batch st c = do {
     (w, db) \<leftarrow> flushBody env batch st;
     if \<not> commits then None
     else let (w, c, repair) = promoteCommittedBatch w c in Some ((w, db), c, repair) }"

definition clearRollupNotifySignals :: "'c writer \<Rightarrow> 'c writer" where
  "clearRollupNotifySignals w = w\<lparr>rollupTouchedThisBatch := False, rollupMaterializedThisRefresh := False\<rparr>"

text \<open>The refresh of an idle source; without a bucket to write the transaction is rolled back.\<close>

definition refreshRollupsOnly :: "'c flush_env \<Rightarrow> bool \<Rightarrow> ('c :: {zero,plus}) wstate \<Rightarrow> bool \<times> 'c wstate" where
  "refreshRollupsOnly env commits st =
     (if fe_readModelRebuildActive env \<or> fe_deferReadModels env then (True, st)
      else let w0 = clearRollupNotifySignals (fst st);
               (w, db) = refreshRollups (fe_orders env) (fe_now env) (w0, snd st)
      in if \<not> rollupMaterializedThisRefresh w then (True, w, snd st)
         else case emitNotifyAndPrune (fe_orders env) (fe_commitTS env) (w, db) of
           None \<Rightarrow> (False, w, snd st)
         | Some db \<Rightarrow> if commits then (True, promoteMaterializedRollupBuckets w, db) else (False, w, snd st))"

end
