(* ===== verification/Flush_Rollups.thy ===== *)
theory Flush_Rollups
  imports Flush Rollup_Props Writer_Props
begin

text \<open>
  The two ways to the rollup tables, the refresh of the buckets a batch has marked and the
  one-shot rebuild, write the same rows: those of one rollup over all ops and session starts.
\<close>

section \<open>Time\<close>

text \<open>Times more than a day away from the ends of \<open>int64\<close>.\<close>

definition plausible :: "i64 \<Rightarrow> bool" where
  "plausible ts \<longleftrightarrow> - (2 ^ 63) + 86400000000 < sint ts \<and> sint ts + 86400000000 < 2 ^ 63"

definition plausible_times :: "'c db \<Rightarrow> bool" where
  "plausible_times db \<longleftrightarrow> (\<forall>e\<in>set (ops db). plausible (op_start_ts (snd e))) \<and>
     (\<forall>e\<in>set (sessions db). plausible (s_start_ts (snd e)))"

fun span_of :: "Bucket \<Rightarrow> i64" where
  "span_of Hourly = hourSpanUS"
| "span_of Daily = daySpanUS"

fun span :: "Bucket \<Rightarrow> int" where
  "span Hourly = 3600000000"
| "span Daily = 86400000000"

lemma sint_span_of [simp]: "sint (span_of bucket) = span bucket"
  by (cases bucket) (simp_all add: hourSpanUS_def daySpanUS_def)

lemma span_bounds: "0 < span bucket" "span bucket \<le> 86400000000"
  by (cases bucket; simp)+

lemma span_if: "sint (if bucket = Daily then daySpanUS else hourSpanUS) = span bucket"
  by (cases bucket) (simp_all add: hourSpanUS_def daySpanUS_def)

lemma sint_BucketTS: "plausible ts \<Longrightarrow> sint (BucketTS ts bucket) = sint ts div span bucket * span bucket"
  using BucketTS_bounds [OF _ refl, of ts bucket] by (simp add: plausible_def span_if)

lemma floor_mult: "0 < (s :: int) \<Longrightarrow> x div s * s \<le> x \<and> x < x div s * s + s"
  using div_mult_mod_eq [of x s] pos_mod_bound [of s x] pos_mod_sign [of s x] by linarith

lemma floor_mult_eq:
  assumes "0 < (s :: int)" shows "x div s * s = y div s * s \<longleftrightarrow> y div s * s \<le> x \<and> x < y div s * s + s"
proof -
  have "x div s = y div s" if "y div s * s \<le> x" "x < y div s * s + s"
    using that by (intro int_div_pos_eq [where r = "x - y div s * s"]) (simp_all add: algebra_simps)
  then show ?thesis using floor_mult [OF assms, of x] by auto
qed

lemma sint_add_plausible:
  assumes "- (2 ^ 63) \<le> sint a + sint b" "sint a + sint b < 2 ^ 63"
  shows "sint (a + b :: i64) = sint a + sint b"
  using sint_word_of_int_64 [OF assms] by simp

lemma in_window_iff: "in_window a b ts \<longleftrightarrow> sint a \<le> sint ts \<and> sint ts < sint b"
  by (auto simp: in_window_def)

lemma sint_bucket_end:
  assumes "plausible t" "b = BucketTS t bucket"
  shows "sint (b + span_of bucket) = sint b + span bucket"
proof -
  have "sint b \<le> sint t" "sint t < sint b + span bucket"
    using assms floor_mult [OF span_bounds(1)] by (simp_all add: sint_BucketTS)
  then show ?thesis
    using assms(1) span_bounds [of bucket] sint_add_plausible [of b "span_of bucket"] by (simp add: plausible_def)
qed

lemma window_cell:
  assumes "plausible t" "b = BucketTS t bucket" "plausible ts"
  shows "in_window b (b + span_of bucket) ts \<longleftrightarrow> BucketTS ts bucket = b"
proof -
  have "in_window b (b + span_of bucket) ts \<longleftrightarrow> sint b \<le> sint ts \<and> sint ts < sint b + span bucket"
    by (simp only: in_window_iff sint_bucket_end [OF assms(1,2)])
  also have "\<dots> \<longleftrightarrow> sint ts div span bucket * span bucket = sint b"
    using floor_mult_eq [OF span_bounds(1), of "sint ts" bucket "sint t"] assms(1,2) by (simp only: sint_BucketTS)
  also have "\<dots> \<longleftrightarrow> BucketTS ts bucket = b"
    using sint_BucketTS [OF assms(3), of bucket] sint_eq_iff [of "BucketTS ts bucket" b] by simp
  finally show ?thesis .
qed

section \<open>Tables\<close>

definition bucket_rows :: "Bucket \<Rightarrow> i64 \<Rightarrow> string \<Rightarrow> 'c db \<Rightarrow> (rowKey \<times> 'c RollupRow) list" where
  "bucket_rows bucket b f db = filter (\<lambda>e. in_cells (\<lambda>c. c = (b, f)) (fst e)) (rollupTable bucket db)"

text \<open>The rows a bucket and format should have.\<close>

definition due_rows :: "int \<Rightarrow> Bucket \<Rightarrow> i64 \<Rightarrow> string \<Rightarrow> ('c :: {zero,plus}) db \<Rightarrow> (rowKey \<times> 'c RollupRow) list" where
  "due_rows cap bucket b f db = map (\<lambda>r. (row_key r, r)) (filter (\<lambda>r. in_cells (\<lambda>c. c = (b, f)) (row_key r))
     (Rollup (\<lambda>xs. xs) (\<lambda>xs. xs) (joined_ops db) (joined_starts db) bucket cap))"

lemma upsert_rollup_put: "upsert_rollup r t = alist_put (row_key r) r t"
  by (simp add: upsert_rollup_def upsert_row_def row_key_def split: option.split)

lemma filter_alist_put:
  "filter (\<lambda>e. P (fst e)) (alist_put k v t) =
     (if P k then alist_put k v (filter (\<lambda>e. P (fst e)) t) else filter (\<lambda>e. P (fst e)) t)"
  by (induction t) auto

lemma filter_fold_upsert:
  "filter (\<lambda>e. P (fst e)) (fold upsert_rollup rows t) =
     fold upsert_rollup (filter (\<lambda>r. P (row_key r)) rows) (filter (\<lambda>e. P (fst e)) t)"
  by (induction rows arbitrary: t) (simp_all add: upsert_rollup_put filter_alist_put)

lemma alist_put_new: "k \<notin> fst ` set t \<Longrightarrow> alist_put k v t = t @ [(k, v)]"
  by (induction t) auto

lemma fold_upsert_new:
  "distinct (map row_key rows) \<Longrightarrow> row_key ` set rows \<inter> fst ` set t = {} \<Longrightarrow>
   fold upsert_rollup rows t = t @ map (\<lambda>r. (row_key r, r)) rows"
proof (induction rows arbitrary: t)
  case (Cons r rows)
  then show ?case by (simp add: upsert_rollup_put alist_put_new)
qed simp

lemma rollupTable_set [simp]:
  "rollupTable bucket (set_rollupTable bucket' t db) = (if bucket = bucket' then t else rollupTable bucket db)"
  by (cases bucket; cases bucket') simp_all

lemma set_rollupTable_frame [simp]:
  "ops (set_rollupTable bucket t db) = ops db" "sessions (set_rollupTable bucket t db) = sessions db"
  "sources (set_rollupTable bucket t db) = sources db" "turns (set_rollupTable bucket t db) = turns db"
  by (cases bucket; simp)+

text \<open>What a rollup reads.\<close>

definition same_facts :: "'c db \<Rightarrow> 'c db \<Rightarrow> bool" where
  "same_facts db db' \<longleftrightarrow> ops db' = ops db \<and> sessions db' = sessions db \<and> sources db' = sources db"

lemma joined_same: "same_facts db db' \<Longrightarrow> joined_ops db' = joined_ops db" "same_facts db db' \<Longrightarrow> joined_starts db' = joined_starts db"
  by (simp_all add: same_facts_def joined_ops_def joined_starts_def scanOpRow_def scanSessionStart_def cong: if_cong)

lemma same_facts_set [simp]: "same_facts db (set_rollupTable bucket t db) " "same_facts db db"
  by (simp_all add: same_facts_def)

lemma upsertRollups_facts [simp]: "same_facts db (upsertRollups bucket rows db)"
  by (simp add: upsertRollups_def)

lemma same_facts_trans: "same_facts db db' \<Longrightarrow> same_facts db' db'' \<Longrightarrow> same_facts db db''"
  by (simp add: same_facts_def)

lemma joined_ops_from: "op \<in> set (joined_ops db) \<Longrightarrow> \<exists>e\<in>set (ops db). o_StartTS op = op_start_ts (snd e)"
  by (force simp: joined_ops_def map_filter_def scanOpRow_def bind_eq_Some_conv)

lemma joined_starts_from: "s \<in> set (joined_starts db) \<Longrightarrow> \<exists>e\<in>set (sessions db). ss_StartTS s = s_start_ts (snd e)"
  by (force simp: joined_starts_def map_filter_def scanSessionStart_def bind_eq_Some_conv)

lemma joined_plausible:
  assumes "plausible_times db"
  shows "op \<in> set (joined_ops db) \<Longrightarrow> plausible (o_StartTS op)" "s \<in> set (joined_starts db) \<Longrightarrow> plausible (ss_StartTS s)"
  using assms joined_ops_from [of op db] joined_starts_from [of s db] by (auto simp: plausible_times_def)

text \<open>The rollup of a part of the ops and starts, up to the order of the starts.\<close>

lemma due_rows_part:
  assumes it: "iteration it" "iteration itg" and no: "no_other bucket (joined_ops db) (joined_starts db)"
    and window: "filter (\<lambda>op. op_cell bucket op = (b, f)) window = filter (\<lambda>op. op_cell bucket op = (b, f)) (joined_ops db)"
    and starts: "mset (filter (\<lambda>s. start_cell bucket s = (b, f)) starts) =
      mset (filter (\<lambda>s. start_cell bucket s = (b, f)) (joined_starts db))"
    and sub: "set window \<subseteq> set (joined_ops db)" "set starts \<subseteq> set (joined_starts db)"
  shows "map (\<lambda>r. (row_key r, r)) (filter (\<lambda>r. in_cells (\<lambda>c. c = (b, f)) (row_key r)) (Rollup it itg window starts bucket cap))
    = due_rows cap bucket b f db"
proof -
  let ?Q = "\<lambda>c. c = (b, f)"
  have "filter (\<lambda>r. in_cells ?Q (row_key r)) (Rollup it itg window starts bucket cap) =
      Rollup (\<lambda>xs. xs) (\<lambda>xs. xs) (filter (\<lambda>op. ?Q (op_cell bucket op)) window)
        (filter (\<lambda>s. ?Q (start_cell bucket s)) starts) bucket cap"
    by (rule Rollup_select [symmetric, OF it iteration_id iteration_id no_other_select [OF no sub] refl])
  also have "\<dots> = filter (\<lambda>r. in_cells ?Q (row_key r))
      (Rollup (\<lambda>xs. xs) (\<lambda>xs. xs) (joined_ops db) (joined_starts db) bucket cap)"
    unfolding window by (rule Rollup_select [OF iteration_id iteration_id iteration_id iteration_id no starts])
  finally show ?thesis by (simp add: due_rows_def)
qed

section \<open>The refresh\<close>

lemma due_rows_distinct:
  assumes "no_other bucket (joined_ops db) (joined_starts db)"
  shows "distinct (map fst (due_rows cap bucket b f db))"
  using Rollup_keys [OF iteration_id iteration_id assms, of cap]
  by (simp add: due_rows_def comp_def distinct_map_filter)

lemma recomputeBucket_facts [simp]: "same_facts db (recomputeBucket ord w b e bucket db)"
  unfolding recomputeBucket_def Let_def
  by (rule same_facts_trans [OF _ upsertRollups_facts]) (simp add: deleteBucketRows_def)

lemma recomputeBucket_rows:
  assumes ord: "orders_ok ord" and t: "plausible_times db"
    and no: "no_other bucket (joined_ops db) (joined_starts db)" and b: "plausible t" "b = BucketTS t bucket"
  shows "bucket_rows bucket b' f' (recomputeBucket ord w b (b + span_of bucket) bucket db) =
      (if b' = b \<and> f' = sourceFormat w then due_rows (maxRollupRowsPerBucket w) bucket b f' db else bucket_rows bucket b' f' db)"
    and "bucket \<noteq> bucket' \<Longrightarrow> bucket_rows bucket' b' f' (recomputeBucket ord w b (b + span_of bucket) bucket db) = bucket_rows bucket' b' f' db"
proof -
  let ?f = "sourceFormat w" and ?cap = "maxRollupRowsPerBucket w"
  let ?window = "loadWindowOps ?f b (b + span_of bucket) db"
    and ?starts = "loadWindowSessionStarts ord ?f b (b + span_of bucket) db"
  let ?rows = "Rollup (ord_acc ord) (ord_groups ord) ?window ?starts bucket ?cap"
  let ?cell = "\<lambda>k. in_cells (\<lambda>c. c = (b, ?f)) k"
  have it: "iteration (ord_acc ord)" "iteration (ord_groups ord)" "iteration (ord_starts ord)"
    using ord by (simp_all add: orders_ok_def)
  have window: "?window = filter (\<lambda>op. op_cell bucket op = (b, ?f)) (joined_ops db)"
    unfolding loadWindowOps_def using window_cell [OF b] joined_plausible(1) [OF t]
    by (intro filter_cong refl) (auto simp: op_cell_def)
  have starts: "mset ?starts = mset (filter (\<lambda>s. start_cell bucket s = (b, ?f)) (joined_starts db))"
    unfolding loadWindowSessionStarts_def iterationD [OF it(3)] using window_cell [OF b] joined_plausible(2) [OF t]
    by (intro arg_cong [where f = mset] filter_cong refl) (auto simp: start_cell_def)
  have sub: "set ?window \<subseteq> set (joined_ops db)" "set ?starts \<subseteq> set (joined_starts db)"
    using window starts [THEN arg_cong, of set_mset] by auto
  have no': "no_other bucket ?window ?starts" by (rule no_other_select [OF no sub])
  have "Rollup (ord_acc ord) (ord_groups ord) (filter (\<lambda>op. op_cell bucket op = (b, ?f)) ?window) ?starts bucket ?cap =
      filter (\<lambda>r. ?cell (row_key r)) ?rows"
    by (rule Rollup_select [OF it(1,2) it(1,2) no']) (use starts in \<open>simp add: filter_filter_mset\<close>)
  then have all: "filter (\<lambda>r. ?cell (row_key r)) ?rows = ?rows" by (simp add: window)
  then have cell: "?cell (row_key r)" if "r \<in> set ?rows" for r
    using that by (metis (mono_tags, lifting) filter_id_conv)
  have due: "map (\<lambda>r. (row_key r, r)) ?rows = due_rows ?cap bucket b ?f db"
  proof -
    have "map (\<lambda>r. (row_key r, r)) (filter (\<lambda>r. ?cell (row_key r)) ?rows) = due_rows ?cap bucket b ?f db"
      by (rule due_rows_part [OF it(1,2) no _ _ sub]) (use starts in \<open>simp_all add: window filter_filter_mset\<close>)
    then show ?thesis by (simp only: all)
  qed
  let ?del = "filter (\<lambda>e. \<not> (fst (fst e) = b \<and> fst (snd (fst e)) = ?f)) (rollupTable bucket db)"
  have table: "rollupTable bucket (recomputeBucket ord w b (b + span_of bucket) bucket db) = fold upsert_rollup ?rows ?del"
    by (simp add: recomputeBucket_def upsertRollups_def deleteBucketRows_def Let_def)
  have new: "fold upsert_rollup ?rows ?del = ?del @ map (\<lambda>r. (row_key r, r)) ?rows"
  proof (rule fold_upsert_new)
    show "distinct (map row_key ?rows)" using Rollup_keys [OF it(1,2) no', of ?cap] by blast
    show "row_key ` set ?rows \<inter> fst ` set ?del = {}" using cell by (fastforce simp: in_cells_def)
  qed
  show "bucket_rows bucket b' f' (recomputeBucket ord w b (b + span_of bucket) bucket db) =
      (if b' = b \<and> f' = ?f then due_rows ?cap bucket b f' db else bucket_rows bucket b' f' db)"
  proof (cases "b' = b \<and> f' = ?f")
    case True
    have "filter (\<lambda>e. ?cell (fst e)) ?del = []" by (auto simp: in_cells_def filter_empty_conv)
    moreover have "filter (\<lambda>e. ?cell (fst e)) (map (\<lambda>r. (row_key r, r)) ?rows) = map (\<lambda>r. (row_key r, r)) ?rows"
      using cell by (auto simp: filter_id_conv)
    ultimately show ?thesis using True by (simp only: bucket_rows_def table new filter_append due) simp
  next
    case False
    have "filter (\<lambda>e. in_cells (\<lambda>c. c = (b', f')) (fst e)) ?del = bucket_rows bucket b' f' db"
      using False by (auto simp: bucket_rows_def in_cells_def intro!: filter_cong)
    moreover have "filter (\<lambda>e. in_cells (\<lambda>c. c = (b', f')) (fst e)) (map (\<lambda>r. (row_key r, r)) ?rows) = []"
      using cell False by (auto simp: in_cells_def filter_empty_conv)
    ultimately show ?thesis using False by (simp only: bucket_rows_def table new filter_append) auto
  qed
  show "bucket \<noteq> bucket' \<Longrightarrow> bucket_rows bucket' b' f' (recomputeBucket ord w b (b + span_of bucket) bucket db) = bucket_rows bucket' b' f' db"
    by (simp add: bucket_rows_def recomputeBucket_def upsertRollups_def deleteBucketRows_def Let_def)
qed

text \<open>One pass over the marked buckets, and both passes.\<close>

fun dirty_buckets :: "Bucket \<Rightarrow> 'c writer \<Rightarrow> i64 list" where
  "dirty_buckets Hourly w = dirtyRollupBuckets w"
| "dirty_buckets Daily w = dirtyRollupDays w"

fun pass_of :: "Bucket \<Rightarrow> i64 \<Rightarrow> 'c rollupPass" where
  "pass_of Hourly openFrom = hourPass openFrom"
| "pass_of Daily openFrom = dayPass openFrom"

lemma pass_of_fields [simp]:
  "rp_dirty (pass_of bucket openFrom) = dirty_buckets bucket" "rp_bucket (pass_of bucket openFrom) = bucket"
  "rp_spanUS (pass_of bucket openFrom) = span_of bucket" "rp_openFrom (pass_of bucket openFrom) = openFrom"
  by (cases bucket; simp add: hourPass_def dayPass_def fun_eq_iff)+

text \<open>A pass keeps the settings of the writer and its marks.\<close>

definition same_marks :: "'c writer \<Rightarrow> 'c writer \<Rightarrow> bool" where
  "same_marks w w' \<longleftrightarrow> sourceFormat w' = sourceFormat w \<and> maxRollupRowsPerBucket w' = maxRollupRowsPerBucket w \<and>
     (\<forall>bucket. dirty_buckets bucket w' = dirty_buckets bucket w)"

lemma dirty_buckets_more:
  "dirtyRollupBuckets w' = dirtyRollupBuckets w \<Longrightarrow> dirtyRollupDays w' = dirtyRollupDays w \<Longrightarrow>
   dirty_buckets bucket w' = dirty_buckets bucket w"
  by (cases bucket) simp_all

lemma same_marks_stage: "same_marks w ((rp_stage (pass_of bucket openFrom) b w)\<lparr>rollupMaterializedThisRefresh := m\<rparr>)"
  by (cases bucket) (auto simp: same_marks_def hourPass_def dayPass_def intro!: dirty_buckets_more)

definition bucket_starts :: "Bucket \<Rightarrow> i64 list \<Rightarrow> bool" where
  "bucket_starts bucket bs \<longleftrightarrow> (\<forall>b\<in>set bs. \<exists>t. plausible t \<and> b = BucketTS t bucket)"

definition refreshed :: "Bucket \<Rightarrow> i64 list \<Rightarrow> i64 \<Rightarrow> 'c writer \<Rightarrow> ('c :: {zero,plus}) db \<Rightarrow> 'c db \<Rightarrow> bool" where
  "refreshed bucket bs openFrom w db db' \<longleftrightarrow> (\<forall>bucket' b f. bucket_rows bucket' b f db' =
     (if bucket' = bucket \<and> b \<in> set bs \<and> i64_less b openFrom \<and> f = sourceFormat w
      then due_rows (maxRollupRowsPerBucket w) bucket' b f db else bucket_rows bucket' b f db))"

lemma due_rows_same: "same_facts db db' \<Longrightarrow> due_rows cap bucket b f db' = due_rows cap bucket b f db"
  by (simp add: due_rows_def joined_same)

lemma materialize_open: "\<not> i64_less b openFrom \<Longrightarrow> materialize ord (pass_of bucket openFrom) b (w, db) = (w, db)"
  by (simp add: materialize_def)

lemma materialize_closed:
  "i64_less b openFrom \<Longrightarrow> materialize ord (pass_of bucket openFrom) b (w, db) =
     ((rp_stage (pass_of bucket openFrom) b w)\<lparr>rollupMaterializedThisRefresh := True\<rparr>,
      recomputeBucket ord w b (b + span_of bucket) bucket db)"
  by (simp add: materialize_def)

lemma pass_refreshed:
  assumes "orders_ok ord" "plausible_times db" "no_other bucket (joined_ops db) (joined_starts db)" "bucket_starts bucket bs"
    and "fold (materialize ord (pass_of bucket openFrom)) bs (w, db) = (w', db')"
  shows "same_marks w w' \<and> same_facts db db' \<and> refreshed bucket bs openFrom w db db'"
  using assms
proof (induction bs arbitrary: w db)
  case Nil
  then show ?case by (simp add: same_marks_def same_facts_def refreshed_def)
next
  case (Cons b bs)
  let ?p = "pass_of bucket openFrom"
  obtain w1 db1 where 1: "materialize ord ?p b (w, db) = (w1, db1)" by fastforce
  obtain t where t: "plausible t" "b = BucketTS t bucket" using Cons.prems(4) by (auto simp: bucket_starts_def)
  have step: "same_marks w w1 \<and> same_facts db db1 \<and> refreshed bucket [b] openFrom w db db1"
  proof (cases "i64_less b openFrom")
    case True
    note rows = recomputeBucket_rows [OF Cons.prems(1-3) t]
    have db1: "db1 = recomputeBucket ord w b (b + span_of bucket) bucket db"
      using 1 unfolding materialize_closed [OF True] by simp
    have "refreshed bucket [b] openFrom w db db1"
      unfolding refreshed_def db1
    proof (intro allI)
      fix bucket' b' f
      show "bucket_rows bucket' b' f (recomputeBucket ord w b (b + span_of bucket) bucket db) =
        (if bucket' = bucket \<and> b' \<in> set [b] \<and> i64_less b' openFrom \<and> f = sourceFormat w
         then due_rows (maxRollupRowsPerBucket w) bucket' b' f db else bucket_rows bucket' b' f db)"
        using rows(1) [of b' f w] rows(2) [of bucket' b' f w] True by (cases "bucket' = bucket") auto
    qed
    then show ?thesis using 1 unfolding materialize_closed [OF True] by (auto simp: same_marks_stage)
  next
    case False
    then show ?thesis using 1 by (auto simp: materialize_open same_marks_def refreshed_def)
  qed
  have facts: "joined_ops db1 = joined_ops db" "joined_starts db1 = joined_starts db" "plausible_times db1"
    using step Cons.prems(2) joined_same [of db db1] by (auto simp: same_facts_def plausible_times_def)
  have "same_marks w1 w' \<and> same_facts db1 db' \<and> refreshed bucket bs openFrom w1 db1 db'"
    by (rule Cons.IH) (use Cons.prems facts 1 in \<open>simp_all add: bucket_starts_def\<close>)
  then have m: "same_marks w1 w'" and f: "same_facts db1 db'" and r: "refreshed bucket bs openFrom w1 db1 db'"
    by blast+
  have due: "due_rows cap bucket' b' f db1 = due_rows cap bucket' b' f db" for cap bucket' b' f
    using step by (intro due_rows_same) blast
  have w1: "sourceFormat w1 = sourceFormat w" "maxRollupRowsPerBucket w1 = maxRollupRowsPerBucket w"
    using step by (simp_all add: same_marks_def)
  have "refreshed bucket (b # bs) openFrom w db db'"
    unfolding refreshed_def
  proof (intro allI)
    fix bucket' b' f
    have "bucket_rows bucket' b' f db1 = (if bucket' = bucket \<and> b' \<in> set [b] \<and> i64_less b' openFrom \<and> f = sourceFormat w
        then due_rows (maxRollupRowsPerBucket w) bucket' b' f db else bucket_rows bucket' b' f db)"
      using step unfolding refreshed_def by blast
    moreover have "bucket_rows bucket' b' f db' = (if bucket' = bucket \<and> b' \<in> set bs \<and> i64_less b' openFrom \<and> f = sourceFormat w
        then due_rows (maxRollupRowsPerBucket w) bucket' b' f db else bucket_rows bucket' b' f db1)"
      using r unfolding refreshed_def w1 due by blast
    ultimately show "bucket_rows bucket' b' f db' =
      (if bucket' = bucket \<and> b' \<in> set (b # bs) \<and> i64_less b' openFrom \<and> f = sourceFormat w
       then due_rows (maxRollupRowsPerBucket w) bucket' b' f db else bucket_rows bucket' b' f db)"
      by auto
  qed
  moreover have "same_marks w w'" using step m by (simp add: same_marks_def)
  ultimately show ?case using step f same_facts_trans by blast
qed

lemma refreshRollups_rows:
  assumes "orders_ok ord" "plausible_times db" "\<And>bucket. no_other bucket (joined_ops db) (joined_starts db)"
    and "\<And>bucket. bucket_starts bucket (dirty_buckets bucket w)"
  shows "bucket_rows bucket b f (snd (refreshRollups ord now (w, db))) =
    (if b \<in> set (dirty_buckets bucket w) \<and> i64_less b (BucketTS now bucket) \<and> f = sourceFormat w
     then due_rows (maxRollupRowsPerBucket w) bucket b f db else bucket_rows bucket b f db)"
proof (cases "dirtyRollupBuckets w = [] \<and> dirtyRollupDays w = []")
  case True
  then have "dirty_buckets bucket w = []" by (cases bucket) simp_all
  then show ?thesis using True by (simp add: refreshRollups_def)
next
  case False
  let ?pass = "\<lambda>bucket (w :: 'a writer) db. fold (materialize ord (pass_of bucket (BucketTS now bucket)))
      (ord_buckets ord (dirty_buckets bucket w)) (w, db)"
  have ib: "set (ord_buckets ord bs) = set bs" for bs
    using assms(1) by (simp add: orders_ok_def)
  have starts: "bucket_starts bucket (ord_buckets ord bs) = bucket_starts bucket bs" for bucket bs
    by (simp add: bucket_starts_def ib)
  obtain w1 db1 where 1: "?pass Hourly w db = (w1, db1)" by fastforce
  obtain w2 db2 where 2: "?pass Daily w1 db1 = (w2, db2)" by fastforce
  have run: "snd (refreshRollups ord now (w, db)) = db2"
    using False 1 2 by (auto simp: refreshRollups_def refreshRollupBucketPass_def hourPass_def dayPass_def)
  have r1: "same_marks w w1 \<and> same_facts db db1 \<and>
      refreshed Hourly (ord_buckets ord (dirty_buckets Hourly w)) (BucketTS now Hourly) w db db1"
    by (rule pass_refreshed [OF assms(1,2) _ _ 1]) (simp_all only: starts assms(3,4))
  then have m: "dirty_buckets Daily w1 = dirty_buckets Daily w" by (simp add: same_marks_def)
  have facts: "joined_ops db1 = joined_ops db" "joined_starts db1 = joined_starts db" "plausible_times db1"
    using r1 assms(2) joined_same [of db db1] by (auto simp: same_facts_def plausible_times_def)
  have r2: "same_marks w1 w2 \<and> same_facts db1 db2 \<and>
      refreshed Daily (ord_buckets ord (dirty_buckets Daily w1)) (BucketTS now Daily) w1 db1 db2"
    by (rule pass_refreshed [OF assms(1) facts(3) _ _ 2]) (simp_all only: starts m assms(3,4) facts)
  have due: "due_rows cap bucket b f db1 = due_rows cap bucket b f db" for cap bucket b f
    using r1 by (intro due_rows_same) blast
  show ?thesis
    unfolding run using r1 r2 by (cases bucket) (simp_all add: refreshed_def same_marks_def ib due m)
qed

section \<open>The one-shot rebuild\<close>

definition day_rows ::
    "'c orders \<Rightarrow> int \<Rightarrow> i64 \<Rightarrow> i64 \<Rightarrow> SessionStart list \<Rightarrow> Bucket \<Rightarrow> i64 \<Rightarrow> ('c :: {zero,plus}) db \<Rightarrow> 'c RollupRow list" where
  "day_rows ord cap openHour openDay starts bucket day db =
     (if bucket = Hourly \<or> i64_less day openDay
      then Rollup (ord_acc ord) (ord_groups ord) (loadDayOps day openHour db) (startsByDay starts day) bucket cap else [])"

lemma flushDay_facts: "same_facts db (flushDay ord cap openHour openDay starts day db)"
  by (simp add: flushDay_def Let_def same_facts_trans [OF upsertRollups_facts upsertRollups_facts])

lemma flushDay_table:
  "rollupTable bucket (flushDay ord cap openHour openDay starts day db) =
     fold upsert_rollup (day_rows ord cap openHour openDay starts bucket day db) (rollupTable bucket db)"
  by (cases bucket) (simp_all add: flushDay_def day_rows_def upsertRollups_def Let_def)

lemma flushDays_table:
  "rollupTable bucket (fold (flushDay ord cap openHour openDay starts) days db) =
     fold (\<lambda>day. fold upsert_rollup (day_rows ord cap openHour openDay starts bucket day db)) days (rollupTable bucket db)"
proof (induction days arbitrary: db)
  case (Cons day days)
  let ?db = "flushDay ord cap openHour openDay starts day db"
  have "day_rows ord cap openHour openDay starts bucket d ?db = day_rows ord cap openHour openDay starts bucket d db" for d
    by (simp add: day_rows_def loadDayOps_def joined_same(1) [OF flushDay_facts])
  then show ?case by (simp add: Cons.IH flushDay_table)
qed simp

lemma filter_fold_days:
  "filter (\<lambda>e. P (fst e)) (fold (\<lambda>day. fold upsert_rollup (R day)) days t) =
     fold (\<lambda>day. fold upsert_rollup (filter (\<lambda>r. P (row_key r)) (R day))) days (filter (\<lambda>e. P (fst e)) t)"
  by (induction days arbitrary: t) (simp_all add: filter_fold_upsert)

lemma fold_one_day:
  assumes "distinct days" "\<And>day. day \<in> set days \<Longrightarrow> day \<noteq> d \<Longrightarrow> R day = []"
  shows "fold (\<lambda>day. fold upsert_rollup (R day)) days t = (if d \<in> set days then fold upsert_rollup (R d) t else t)"
  using assms
proof (induction days arbitrary: t)
  case (Cons day days)
  then show ?case by (cases "day = d") simp_all
qed simp

lemma runBackfillDays_all: "(\<And>n. yield n) \<Longrightarrow> runBackfillDays yield n f days db = (True, fold f days db)"
  by (induction days arbitrary: n db) simp_all

subsection \<open>Days and buckets\<close>

definition day_of :: "i64 \<Rightarrow> int" where
  "day_of ts = sint ts div 86400000000 * 86400000000"

lemma day_of_bucket:
  assumes "plausible ts" "b = BucketTS ts bucket"
  shows "day_of ts = day_of b"
proof (cases bucket)
  case Hourly
  have "x div 86400000000 = (x div 3600000000) div 24" for x :: int
    using zdiv_zmult2_eq [of 24 x 3600000000] by simp
  then show ?thesis using assms Hourly by (simp add: day_of_def sint_BucketTS)
next
  case Daily
  then show ?thesis using assms by (simp add: day_of_def sint_BucketTS)
qed

text \<open>An op of a closed bucket comes before the open hour.\<close>

lemma before_open_hour:
  assumes "plausible ts" "plausible now" "b = BucketTS ts bucket" "i64_less b (BucketTS now bucket)"
  shows "i64_less ts (BucketTS now Hourly)"
proof -
  let ?s = "span bucket" and ?x = "sint ts div span bucket" and ?y = "sint now div span bucket"
  have "?x * ?s < ?y * ?s" using assms by (simp add: sint_BucketTS)
  then have "?x + 1 \<le> ?y" using span_bounds(1) [of bucket] by simp
  then have "(?x + 1) * ?s \<le> ?y * ?s" using span_bounds(1) [of bucket] by (intro mult_right_mono) simp_all
  moreover have "sint ts < (?x + 1) * ?s"
    using floor_mult [OF span_bounds(1), of "sint ts" bucket] by (simp add: algebra_simps)
  moreover have "?y * ?s \<le> sint now div 3600000000 * 3600000000"
  proof (cases bucket)
    case Daily
    have "sint now div 86400000000 = (sint now div 3600000000) div 24"
      using zdiv_zmult2_eq [of 24 "sint now" 3600000000] by simp
    then show ?thesis using Daily floor_mult [of 24 "sint now div 3600000000"] by simp
  qed simp
  ultimately show ?thesis using assms(2) by (simp add: sint_BucketTS)
qed

definition day_start :: "i64 \<Rightarrow> bool" where
  "day_start day \<longleftrightarrow> day_of day = sint day \<and> sint (day + daySpanUS) = sint day + 86400000000"

lemma day_window:
  assumes "day_start day" "i64_less ts openHour"
  shows "in_window day (min64 (day + daySpanUS) openHour) ts \<longleftrightarrow> day_of ts = sint day"
proof -
  have "sint (min64 (day + daySpanUS) openHour) = min (sint day + 86400000000) (sint openHour)"
    using assms(1) by (auto simp: min64_def day_start_def)
  then show ?thesis
    using assms floor_mult_eq [of 86400000000 "sint ts" "sint day"]
    by (auto simp: in_window_iff day_start_def day_of_def)
qed

lemma day_start_BucketTS: "plausible ts \<Longrightarrow> day_start (BucketTS ts Daily) \<and> sint (BucketTS ts Daily) = day_of ts"
  using sint_bucket_end [of ts _ Daily, OF _ refl] by (simp add: day_start_def day_of_def sint_BucketTS)

lemma day_start_sql:
  assumes "plausible ts"
  shows "day_start (go_quo ts daySpanUS * daySpanUS)"
    and "0 \<le> sint ts \<Longrightarrow> sint (go_quo ts daySpanUS * daySpanUS) = day_of ts"
proof -
  let ?q = "sint ts sdiv 86400000000"
  have b: "\<bar>?q * 86400000000\<bar> \<le> \<bar>sint ts\<bar>"
    by (auto simp: signed_divide_int_def abs_mult sgn_if)
  have "go_quo ts daySpanUS * daySpanUS = word_of_int (?q * 86400000000)"
    by (simp add: go_quo_def daySpanUS_def)
  then have s: "sint (go_quo ts daySpanUS * daySpanUS) = ?q * 86400000000"
  proof -
    have "- (2 ^ 63) \<le> ?q * 86400000000" "?q * 86400000000 < 2 ^ 63" using b assms unfolding plausible_def by linarith+
    from sint_word_of_int_64 [OF this] show ?thesis using \<open>go_quo ts daySpanUS * daySpanUS = _\<close> by (simp only:)
  qed
  have "sint (go_quo ts daySpanUS * daySpanUS + daySpanUS) = ?q * 86400000000 + 86400000000"
  proof -
    have d: "sint daySpanUS = 86400000000" by (simp add: daySpanUS_def)
    have "- (2 ^ 63) \<le> ?q * 86400000000 + 86400000000" "?q * 86400000000 + 86400000000 < 2 ^ 63"
      using b assms unfolding plausible_def by linarith+
    then show ?thesis
      using sint_add_plausible [of "go_quo ts daySpanUS * daySpanUS" daySpanUS] unfolding s d by blast
  qed
  then show "day_start (go_quo ts daySpanUS * daySpanUS)" using s by (simp add: day_start_def day_of_def)
  show "sint (go_quo ts daySpanUS * daySpanUS) = day_of ts" if "0 \<le> sint ts"
    using that s by (simp add: day_of_def signed_divide_int_def sgn_if)
qed

subsection \<open>The rows of a closed bucket\<close>

lemma Rollup_empty [simp]: "Rollup (\<lambda>xs. xs) (\<lambda>xs. xs) [] [] bucket cap = []"
  by (simp add: Rollup_def collapse_def groupByBucketSourceDimension_def anyGroupExceeds_def sortRows_def sort_by_def Let_def)

lemma Rollup_no_cell:
  assumes "iteration it" "iteration itg" "no_other bucket xs starts"
    and "filter (\<lambda>op. op_cell bucket op = (b, f)) xs = []" "filter (\<lambda>s. start_cell bucket s = (b, f)) starts = []"
  shows "filter (\<lambda>r. in_cells (\<lambda>c. c = (b, f)) (row_key r)) (Rollup it itg xs starts bucket cap) = []"
  using Rollup_select [OF assms(1,2) iteration_id iteration_id assms(3), of "[]" "\<lambda>c. c = (b, f)" cap]
  by (simp add: assms(4,5))

lemma closedDays_distinct: "distinct (closedDays openHour starts db)"
  by (simp add: closedDays_def Let_def)

lemma BackfillRollups_rows:
  fixes db :: "('c :: {zero,plus}) db"
  assumes ord: "orders_ok ord" and times: "plausible_times db" and now: "plausible now"
    and no: "no_other bucket (joined_ops db) (joined_starts db)"
    and b: "plausible t" "b = BucketTS t bucket" "0 \<le> sint b" "i64_less b (BucketTS now bucket)"
    and yield: "\<And>n. yield n"
  shows "bucket_rows bucket b f (snd (BackfillRollups ord cap yield now db)) = due_rows cap bucket b f db"
proof -
  let ?H = "BucketTS now Hourly" and ?D0 = "BucketTS now Daily" and ?db = "truncateRollups db"
  let ?cell = "\<lambda>c. c = (b, f)"
  define starts where "starts = loadSessionStarts ord ?H ?db"
  define days where "days = closedDays ?H starts ?db"
  define rows where "rows day = day_rows ord cap ?H ?D0 starts bucket day ?db" for day
  define R where "R day = filter (\<lambda>r. in_cells ?cell (row_key r)) (rows day)" for day
  have it: "iteration (ord_acc ord)" "iteration (ord_groups ord)" "iteration (ord_starts ord)"
    using ord by (simp_all add: orders_ok_def)
  have "same_facts db ?db" by (simp add: same_facts_def truncateRollups_def)
  note joined = joined_same [OF this]
  have st: "starts = ord_starts ord (filter (\<lambda>s. i64_less (ss_StartTS s) ?H) (joined_starts db))"
    by (simp add: starts_def loadSessionStarts_def joined)
  have run: "snd (BackfillRollups ord cap yield now db) = fold (flushDay ord cap ?H ?D0 starts) days ?db"
    using yield by (simp add: BackfillRollups_def Let_def runBackfillDays_all starts_def days_def)
  have table: "bucket_rows bucket b f (snd (BackfillRollups ord cap yield now db)) =
      fold (\<lambda>day. fold upsert_rollup (R day)) days []"
  proof -
    have "rollupTable bucket ?db = []" by (cases bucket) (simp_all add: truncateRollups_def)
    then show ?thesis
      using filter_fold_days [of "in_cells ?cell" rows days "rollupTable bucket ?db"]
      by (simp add: run bucket_rows_def flushDays_table R_def rows_def)
  qed
  have cell: "i64_less ts ?H \<and> day_of ts = day_of b \<and> 0 \<le> sint ts" if "plausible ts" "BucketTS ts bucket = b" for ts
    using before_open_hour [OF that(1) now that(2) [symmetric] b(4)] day_of_bucket [OF that(1) that(2) [symmetric]]
      sint_BucketTS [OF that(1), of bucket] floor_mult [OF span_bounds(1), of "sint ts" bucket] that(2) b(3) by auto
  have op: "plausible (o_StartTS op) \<and> i64_less (o_StartTS op) ?H \<and> day_of (o_StartTS op) = day_of b \<and> 0 \<le> sint (o_StartTS op)"
    if "op \<in> set (joined_ops db)" "op_cell bucket op = (b, f)" for op
    using cell joined_plausible(1) [OF times that(1)] that(2) by (auto simp: op_cell_def)
  have start: "plausible (ss_StartTS s) \<and> i64_less (ss_StartTS s) ?H \<and> day_of (ss_StartTS s) = day_of b"
    if "s \<in> set (joined_starts db)" "start_cell bucket s = (b, f)" for s
    using cell joined_plausible(2) [OF times that(1)] that(2) by (auto simp: start_cell_def)
  have day_start: "day_start day" if "day \<in> set days" for day
    using that times day_start_sql(1) day_start_BucketTS joined_plausible(2) [OF times]
    by (auto simp: days_def closedDays_def st it(3) plausible_times_def truncateRollups_def Let_def)
  have window: "filter (\<lambda>op. ?cell (op_cell bucket op)) (loadDayOps day ?H ?db) =
      (if sint day = day_of b then filter (\<lambda>op. ?cell (op_cell bucket op)) (joined_ops db) else [])"
    if "day_start day" for day
    using day_window [OF that] op
    by (auto simp: loadDayOps_def joined filter_empty_conv intro!: filter_cong)
  have day_s: "BucketTS (ss_StartTS s) Daily = day \<longleftrightarrow> day_of (ss_StartTS s) = sint day" if "s \<in> set (joined_starts db)" for s day
    using day_start_BucketTS [OF joined_plausible(2) [OF times that]] by (metis sint_eq_iff)
  have by_day: "mset (filter (\<lambda>s. ?cell (start_cell bucket s)) (startsByDay starts day)) =
      (if sint day = day_of b then mset (filter (\<lambda>s. ?cell (start_cell bucket s)) (joined_starts db)) else {#})" for day
  proof -
    have "mset (filter (\<lambda>s. ?cell (start_cell bucket s)) (startsByDay starts day)) =
        mset (filter (\<lambda>s. ?cell (start_cell bucket s) \<and> BucketTS (ss_StartTS s) Daily = day \<and> i64_less (ss_StartTS s) ?H) (joined_starts db))"
      by (simp add: startsByDay_def st iterationD [OF it(3)] filter_filter_mset conj_ac)
    also have "filter (\<lambda>s. ?cell (start_cell bucket s) \<and> BucketTS (ss_StartTS s) Daily = day \<and> i64_less (ss_StartTS s) ?H) (joined_starts db)
        = filter (\<lambda>s. ?cell (start_cell bucket s) \<and> sint day = day_of b) (joined_starts db)"
      using start day_s by (intro filter_cong refl) auto
    finally show ?thesis by (cases "sint day = day_of b") simp_all
  qed
  have sub: "set (loadDayOps day ?H ?db) \<subseteq> set (joined_ops db)" "set (startsByDay starts day) \<subseteq> set (joined_starts db)" for day
    by (auto simp: loadDayOps_def joined startsByDay_def st it(3))
  have other: "R day = []" if "day \<in> set days" "sint day \<noteq> day_of b" for day
  proof -
    have "filter (\<lambda>s. ?cell (start_cell bucket s)) (startsByDay starts day) = []"
      using by_day [of day] that(2) by (simp only: if_False mset_zero_iff)
    then show ?thesis
      using Rollup_no_cell [OF it(1,2) no_other_select [OF no sub]] window [OF day_start [OF that(1)]] that(2)
      by (simp add: R_def rows_def day_rows_def)
  qed
  define d where "d = BucketTS t Daily"
  have d: "day_start d" "sint d = day_of b"
    using day_start_BucketTS [OF b(1)] day_of_bucket [OF b(1,2)] by (simp_all add: d_def)
  have "bucket = Hourly \<or> i64_less d ?D0" using b(2,4) by (cases bucket) (simp_all add: d_def)
  then have rd: "rows d = Rollup (ord_acc ord) (ord_groups ord) (loadDayOps d ?H ?db) (startsByDay starts d) bucket cap"
    by (simp add: rows_def day_rows_def)
  have due: "map (\<lambda>r. (row_key r, r)) (R d) = due_rows cap bucket b f db"
    unfolding R_def rd by (rule due_rows_part [OF it(1,2) no _ _ sub]) (use window [OF d(1)] by_day [of d] d(2) in simp_all)
  have "distinct (map row_key (R d))"
    using Rollup_keys [OF it(1,2) no_other_select [OF no sub], where maxRows = cap] by (simp add: R_def rd distinct_map_filter)
  then have put: "fold upsert_rollup (R d) [] = due_rows cap bucket b f db"
    by (subst fold_upsert_new) (simp_all add: due)
  have "fold (\<lambda>day. fold upsert_rollup (R day)) days [] = (if d \<in> set days then fold upsert_rollup (R d) [] else [])"
  proof (rule fold_one_day)
    show "distinct days" by (simp add: days_def closedDays_distinct)
    show "R day = []" if "day \<in> set days" "day \<noteq> d" for day
      using other [OF that(1)] that(2) d(2) by (metis sint_eq_iff)
  qed
  also have "\<dots> = due_rows cap bucket b f db"
  proof (cases "d \<in> set days")
    case False
    have "filter (\<lambda>op. ?cell (op_cell bucket op)) (joined_ops db) = []"
    proof (rule ccontr)
      assume "filter (\<lambda>op. ?cell (op_cell bucket op)) (joined_ops db) \<noteq> []"
      then obtain x where x: "x \<in> set (joined_ops db)" "op_cell bucket x = (b, f)" by (auto simp: filter_empty_conv)
      obtain e where e: "e \<in> set (ops db)" "o_StartTS x = op_start_ts (snd e)" using joined_ops_from [OF x(1)] by blast
      have "go_quo (o_StartTS x) daySpanUS * daySpanUS = d"
        using op [OF x] day_start_sql(2) [of "o_StartTS x"] d(2) by (metis sint_eq_iff)
      then have "d \<in> (\<lambda>e. go_quo (op_start_ts (snd e)) daySpanUS * daySpanUS) ` {e \<in> set (ops db). i64_less (op_start_ts (snd e)) ?H}"
        using e op [OF x] by (intro image_eqI [of _ _ e]) simp_all
      then have "d \<in> set days" by (simp add: days_def closedDays_def truncateRollups_def Let_def)
      then show False using False by blast
    qed
    moreover have "filter (\<lambda>s. ?cell (start_cell bucket s)) (joined_starts db) = []"
    proof (rule ccontr)
      assume "filter (\<lambda>s. ?cell (start_cell bucket s)) (joined_starts db) \<noteq> []"
      then obtain x where x: "x \<in> set (joined_starts db)" "start_cell bucket x = (b, f)" by (auto simp: filter_empty_conv)
      have "BucketTS (ss_StartTS x) Daily = d" using day_s [OF x(1)] start [OF x] d(2) by simp
      then have "d \<in> set days"
        using x start [OF x] by (auto simp: days_def closedDays_def st it(3) Let_def)
      then show False using False by blast
    qed
    ultimately show ?thesis
      using False Rollup_no_cell [OF iteration_id iteration_id no] by (simp add: due_rows_def)
  qed (simp add: put)
  finally show ?thesis by (simp only: table)
qed

section \<open>They agree\<close>

text \<open>
  C34. The incremental refresh and the one-shot rebuild agree on what the refresh recomputes. For
  every bucket, hour or day, from 1970 on that the batch has marked (marks are starts of buckets)
  and that is closed, the refresh leaves exactly the rows for the source's format that a rebuild
  at the same time, not interrupted, produces from the same ops and sessions, whatever the tables
  held before and in whatever order maps and unordered queries deliver; the rows of every other
  bucket and format stay as they were. The times of the ops and sessions are at least a day away
  from the ends of the integer range, and no dimension value is the reserved \<open>__other__\<close>. The
  costs are added in the same order by both, so this needs no law of addition.
\<close>

theorem refresh_equals_backfill:
  fixes db db' :: "('c :: {zero,plus}) db"
  assumes "orders_ok ord" and "orders_ok ord'" and "plausible_times db" and "plausible now"
    and "\<And>bucket. no_other bucket (joined_ops db) (joined_starts db)"
    and "\<And>bucket. bucket_starts bucket (dirty_buckets bucket w)"
    and "same_facts db db'" and "\<And>n. yield n" and "0 \<le> sint b"
  shows "bucket_rows bucket b f (snd (refreshRollups ord now (w, db))) =
    (if b \<in> set (dirty_buckets bucket w) \<and> i64_less b (BucketTS now bucket) \<and> f = sourceFormat w
     then bucket_rows bucket b f (snd (BackfillRollups ord' (maxRollupRowsPerBucket w) yield now db'))
     else bucket_rows bucket b f db)"
proof -
  note same = joined_same [OF assms(7)]
  have times: "plausible_times db'" using assms(3,7) by (simp add: plausible_times_def same_facts_def)
  have "bucket_rows bucket b f (snd (BackfillRollups ord' (maxRollupRowsPerBucket w) yield now db')) =
      due_rows (maxRollupRowsPerBucket w) bucket b f db"
    if marked: "b \<in> set (dirty_buckets bucket w)" and closed: "i64_less b (BucketTS now bucket)"
  proof -
    obtain t where t: "plausible t" "b = BucketTS t bucket"
      using assms(6) [of bucket] marked by (auto simp: bucket_starts_def)
    show ?thesis
      using BackfillRollups_rows [OF assms(2) times assms(4) _ t assms(9) closed assms(8), of f] assms(5) [of bucket]
      by (simp add: same due_rows_same [OF assms(7)])
  qed
  then show ?thesis unfolding refreshRollups_rows [OF assms(1,3,5,6)] by (intro if_cong refl) simp
qed

text \<open>The demonstration batch, refreshed and rebuilt two hours later.\<close>

definition demo_orders :: "int orders" where
  "demo_orders = \<lparr>ord_acc = rev, ord_groups = (\<lambda>xs. xs), ord_starts = rev, ord_buckets = rev, ord_ids = (\<lambda>xs. xs)\<rparr>"

definition demo_id_orders :: "int orders" where
  "demo_id_orders = \<lparr>ord_acc = (\<lambda>xs. xs), ord_groups = rev, ord_starts = (\<lambda>xs. xs), ord_buckets = (\<lambda>xs. xs), ord_ids = rev\<rparr>"

definition demo_tables :: "int db" where
  "demo_tables = empty_db
     \<lparr>sources := [(''src'', \<lparr>so_format = ''codex'', so_location = [], so_last_seen_at = None, so_enabled = True,
        so_parse_errors = 0, so_fts5_index_logs = True, so_meta_json = None\<rparr>)],
      sessions := [(''s'', new_session_row ''src'' ''n'' ''s'' 1000)],
      ops := [(''p'', (started_op_row \<lparr>SourceID = ''src'', SourceSeq = 1, Ts = 1000, os_SessionNativeID = ''n'',
        os_TurnSeq = 1, os_Seq = 1, os_ParentOpSeq = - 1, os_Kind = ''tool'', os_Name = ''f'',
        os_ToolNamespace = ''mcp'', os_Model = [], os_Provider = [], os_ProviderAlias = [], os_ReasoningKind = [],
        os_ChildSessionNativeID = [], os_Extras = []\<rparr> ''s'' ''t'' None None None)\<lparr>op_tokens_in := 7\<rparr>)]\<rparr>"

lemma demo_orders_ok: "orders_ok demo_orders" "orders_ok demo_id_orders"
  by (simp_all add: orders_ok_def demo_orders_def demo_id_orders_def)

definition demo_joined :: "int OpRow" where
  "demo_joined = \<lparr>o_StartTS = 1000, o_EndTS = None, o_DurationUS = 0, o_SourceFormat = ''codex'', o_Kind = ''tool'',
     o_Model = [], o_Provider = [], o_ToolNamespace = ''mcp'', o_ToolName = ''f'', o_AgentName = [], o_Cwd = [],
     o_CostUSD = 0, o_TokensIn = 7, o_TokensOut = 0, o_TokensCacheRead = 0, o_TokensCacheWrite = 0, o_Failed = False\<rparr>"

lemma demo_joined:
  "joined_ops demo_tables = [demo_joined]"
  "joined_starts demo_tables = [\<lparr>ss_StartTS = 1000, ss_SourceFormat = ''codex'', ss_AgentName = [], ss_Cwd = []\<rparr>]"
  by code_simp+

lemma demo_times:
  "plausible_times demo_tables" "plausible 1000" "plausible 7200000000"
  "BucketTS 1000 Hourly = 0" "BucketTS 1000 Daily = 0" "BucketTS 7200000000 Hourly = 7200000000"
  by code_simp+

lemma demo_no_other_joined: "no_other bucket (joined_ops demo_tables) (joined_starts demo_tables)"
  by (simp add: demo_joined no_other_def demo_joined_def op_keys_def start_keys_def toolID_def otherValue_def Let_def)

definition row_summary :: "(rowKey \<times> int RollupRow) list \<Rightarrow> ((string \<times> string) \<times> i64 \<times> i64) list" where
  "row_summary rows = map (\<lambda>e. (snd (snd (fst e)), r_OpCount (snd e), r_TokensIn (snd e))) rows"

lemma demo_due:
  "row_summary (due_rows 0 Hourly 0 ''codex'' demo_tables) = [((''tool'', ''mcp.f''), 1, 7), ((''total'', []), 1, 7)]"
  unfolding due_rows_def demo_joined by code_simp

lemma refresh_equals_backfill_witness:
  "row_summary (bucket_rows Hourly 0 ''codex'' (snd (BackfillRollups demo_id_orders 0 (\<lambda>_. True) 7200000000 demo_tables))) =
   [((''tool'', ''mcp.f''), 1, 7), ((''total'', []), 1, 7)]"
proof -
  let ?w = "demo_writer\<lparr>dirtyRollupBuckets := [0], dirtyRollupDays := [0]\<rparr>"
  have w: "dirty_buckets Hourly ?w = [0]" "dirty_buckets Daily ?w = [0]" "sourceFormat ?w = ''codex''" "maxRollupRowsPerBucket ?w = 0"
    by (simp_all add: demo_writer_def newWriter_def)
  have starts: "bucket_starts bucket (dirty_buckets bucket ?w)" for bucket
    by (cases bucket) (auto simp: w bucket_starts_def demo_times(2,4,5) intro!: exI [of _ 1000])
  have closed: "i64_less 0 (BucketTS 7200000000 Hourly)" by (simp add: demo_times)
  have "bucket_rows Hourly 0 ''codex'' (snd (refreshRollups demo_orders 7200000000 (?w, demo_tables))) =
    (if 0 \<in> set (dirty_buckets Hourly ?w) \<and> i64_less 0 (BucketTS 7200000000 Hourly) \<and> ''codex'' = sourceFormat ?w
     then bucket_rows Hourly 0 ''codex'' (snd (BackfillRollups demo_id_orders (maxRollupRowsPerBucket ?w)
       (\<lambda>_. True) 7200000000 demo_tables)) else bucket_rows Hourly 0 ''codex'' demo_tables)"
    by (rule refresh_equals_backfill [OF demo_orders_ok demo_times(1,3) demo_no_other_joined starts]) simp_all
  then show ?thesis
    using demo_due closed
    by (simp add: refreshRollups_rows [OF demo_orders_ok(1) demo_times(1) demo_no_other_joined starts] w)
qed

end
