(* ===== verification/Flush_Marks.thy ===== *)
theory Flush_Marks
  imports Flush Writer_Props
begin

text \<open>
  What the batch writer changes it marks: after an event handler (\<open>writer.go\<close>) every turn and
  session whose aggregates could differ is in the dirty lists, and the later steps of a flush
  leave the rows of turns, ops and sessions alone.
\<close>

section \<open>Identifiers without collisions\<close>

lemma itoa_no_bar: "CHR ''|'' \<notin> set (itoa i)"
proof -
  have "\<not> is_digit (CHR ''|'')" by (simp add: is_digit_def)
  then show ?thesis using itoa_nat_digits by (auto simp: itoa_def list_all_iff)
qed

lemma last_field:
  assumes "s @ sep @ [CHR ''|''] @ itoa i = s' @ sep @ [CHR ''|''] @ itoa j"
  shows "s = s' \<and> i = j"
proof -
  have "takeWhile (\<lambda>c. c \<noteq> CHR ''|'') (rev (s @ sep @ [CHR ''|''] @ itoa i)) = rev (itoa i)" for s i
    using itoa_no_bar [of i] by (simp add: takeWhile_append)
  from this [of s i] this [of s' j] have "itoa i = itoa j" using assms by (metis rev_rev_ident)
  then show ?thesis using assms by simp
qed

lemma turn_id_inject:
  assumes "inj h" shows "canonicalTurnID h s i = canonicalTurnID h s' j \<longleftrightarrow> s = s' \<and> i = j"
  using last_field [of s "''|t''" i s' j] assms by (auto simp: canonicalTurnID_def hashID_def inj_eq)

lemma op_id_inject:
  assumes "inj h" shows "canonicalOpID h s i = canonicalOpID h s' j \<longleftrightarrow> s = s' \<and> i = j"
  using last_field [of s "''|o''" i s' j] assms by (auto simp: canonicalOpID_def hashID_def inj_eq)

text \<open>Every turn and op has the id that its session, its turn and its number give.\<close>

definition turn_ok :: "(string \<Rightarrow> string) \<Rightarrow> string \<Rightarrow> 'c turn_row \<Rightarrow> bool" where
  "turn_ok h tid r \<longleftrightarrow> tid = canonicalTurnID h (t_session_id r) (t_seq r)"

definition op_ok :: "(string \<Rightarrow> string) \<Rightarrow> 'c db \<Rightarrow> string \<Rightarrow> 'c op_row \<Rightarrow> bool" where
  "op_ok h db pid r \<longleftrightarrow> pid = canonicalOpID h (op_turn_id r) (op_seq r) \<and>
     (\<exists>n. op_turn_id r = canonicalTurnID h (op_session_id r) n) \<and> op_turn_id r \<in> keys (turns db)"

definition ids_ok :: "(string \<Rightarrow> string) \<Rightarrow> 'c db \<Rightarrow> bool" where
  "ids_ok h db \<longleftrightarrow> distinct (map fst (sessions db)) \<and> distinct (map fst (turns db)) \<and> distinct (map fst (ops db)) \<and>
     (\<forall>tid r. map_of (turns db) tid = Some r \<longrightarrow> turn_ok h tid r) \<and>
     (\<forall>pid r. map_of (ops db) pid = Some r \<longrightarrow> op_ok h db pid r)"

lemma ids_okD:
  assumes "ids_ok h db"
  shows "distinct (map fst (sessions db))" "distinct (map fst (turns db))" "distinct (map fst (ops db))"
    "map_of (turns db) tid = Some r \<Longrightarrow> turn_ok h tid r" "map_of (ops db) pid = Some p \<Longrightarrow> op_ok h db pid p"
  using assms unfolding ids_ok_def by blast+

section \<open>What the aggregates depend on\<close>

definition op_cols :: "'c op_row \<Rightarrow> i64 \<times> i64 \<times> i64 \<times> i64 \<times> 'c" where
  "op_cols r = (op_tokens_in r, op_tokens_out r, op_tokens_cache_read r, op_tokens_cache_write r, op_cost_usd r)"

definition turn_cols :: "'c turn_row \<Rightarrow> i64 \<times> i64 \<times> i64 \<times> i64 \<times> 'c \<times> i64" where
  "turn_cols r = (t_tokens_in r, t_tokens_out r, t_tokens_cache_read r, t_tokens_cache_write r, t_cost_usd r, t_op_count r)"

definition session_cols :: "'c session_row \<Rightarrow> i64 \<times> i64 \<times> i64 \<times> i64 \<times> 'c \<times> i64 \<times> i64 \<times> i64 \<times> i64" where
  "session_cols r = (s_tokens_in r, s_tokens_out r, s_tokens_cache_read r, s_tokens_cache_write r, s_cost_usd r,
     s_turn_count r, s_op_count r, s_failure_count r, s_last_activity_ts r)"

definition turn_view :: "string \<Rightarrow> 'c db \<Rightarrow> (i64 \<times> i64 \<times> i64 \<times> i64 \<times> 'c) list \<times> (i64 \<times> i64 \<times> i64 \<times> i64 \<times> 'c \<times> i64) option" where
  "turn_view tid db = (map (\<lambda>e. op_cols (snd e)) (ops_of_turn tid db), map_option turn_cols (map_of (turns db) tid))"

definition session_view :: "string \<Rightarrow> 'c db \<Rightarrow> string list \<times> (string \<times> i64 option) list \<times>
    (i64 \<times> i64 \<times> i64 \<times> i64 \<times> 'c \<times> i64 \<times> i64 \<times> i64 \<times> i64) option" where
  "session_view sid db = (map fst (turns_of_session sid db),
     map (\<lambda>e. (op_status (snd e), op_end_ts (snd e))) (ops_of_session sid db),
     map_option session_cols (map_of (sessions db) sid))"

text \<open>A step that changes at most the aggregates of one session and of some turns.\<close>

definition touches :: "(string \<Rightarrow> string) \<Rightarrow> string \<Rightarrow> string set \<Rightarrow> 'c db \<Rightarrow> 'c db \<Rightarrow> bool" where
  "touches h sid T db db' \<longleftrightarrow> (ids_ok h db \<longrightarrow> ids_ok h db' \<and>
     (\<forall>tid. tid \<notin> T \<longrightarrow> turn_view tid db' = turn_view tid db) \<and>
     (\<forall>s. s \<noteq> sid \<longrightarrow> session_view s db' = session_view s db))"

lemma touches_trans: "touches h sid T db db' \<Longrightarrow> touches h sid T' db' db'' \<Longrightarrow> touches h sid (T \<union> T') db db''"
  unfolding touches_def by auto

lemma touches_frame:
  assumes "turns db' = turns db" "ops db' = ops db" "sessions db' = sessions db"
  shows "touches h sid {} db db'"
  using assms
  by (simp add: touches_def ids_ok_def op_ok_def turn_view_def session_view_def ops_of_turn_def ops_of_session_def turns_of_session_def)

lemma touches_then_frame:
  assumes "touches h sid T db db'" "turns db'' = turns db'" "ops db'' = ops db'" "sessions db'' = sessions db'"
  shows "touches h sid T db db''"
  using touches_trans [OF assms(1) touches_frame [OF assms(2-4)]] by simp

lemma touches_refl [simp]: "touches h sid {} db db"
  by (rule touches_frame) simp_all

text \<open>Writing one row of a table leaves the rows selected by another value alone.\<close>

lemma map_filter_put:
  assumes "map_of tab k = None \<Longrightarrow> \<not> P r"
    and "\<And>r0. map_of tab k = Some r0 \<Longrightarrow> P r0 = P r \<and> (P r \<longrightarrow> g k r0 = g k r)"
  shows "map (\<lambda>e. g (fst e) (snd e)) (filter (\<lambda>e. P (snd e)) (alist_put k r tab)) =
    map (\<lambda>e. g (fst e) (snd e)) (filter (\<lambda>e. P (snd e)) tab)"
  using assms by (induction tab) (auto split: if_splits)

lemma touches_session:
  assumes "\<exists>r. t = alist_put sid r (sessions db)"
  shows "touches h sid {} db (db\<lparr>sessions := t\<rparr>)"
  using assms
  by (auto simp: touches_def ids_ok_def op_ok_def turn_view_def session_view_def ops_of_turn_def ops_of_session_def turns_of_session_def)

lemma touches_session_ops:
  "touches h sid {} db (db\<lparr>sessions := upsert_row sid x f (sessions db)\<rparr>)"
  "touches h sid {} db (db\<lparr>sessions := insert_missing sid x (sessions db)\<rparr>)"
  "touches h sid {} db (db\<lparr>sessions := update_row sid f (sessions db)\<rparr>)"
proof -
  have "touches h sid {} db (db\<lparr>sessions := sessions db\<rparr>)" by (rule touches_frame) simp_all
  then show "touches h sid {} db (db\<lparr>sessions := upsert_row sid x f (sessions db)\<rparr>)"
    "touches h sid {} db (db\<lparr>sessions := insert_missing sid x (sessions db)\<rparr>)"
    "touches h sid {} db (db\<lparr>sessions := update_row sid f (sessions db)\<rparr>)"
    unfolding upsert_row_def insert_missing_def update_row_def
    by (auto intro: touches_session split: option.splits)
qed

lemma touches_turn:
  assumes inj: "inj h" and tid: "tid = canonicalTurnID h sid n"
    and x: "t_session_id x = sid" "t_seq x = n" and f: "\<And>r. t_session_id (f r) = t_session_id r \<and> t_seq (f r) = t_seq r"
  shows "touches h sid {tid} db (db\<lparr>turns := upsert_row tid x f (turns db)\<rparr>)"
proof -
  define r where "r = (case map_of (turns db) tid of None \<Rightarrow> x | Some r \<Rightarrow> f r)"
  let ?db = "db\<lparr>turns := alist_put tid r (turns db)\<rparr>"
  have "ids_ok h ?db \<and> (\<forall>t. t \<notin> {tid} \<longrightarrow> turn_view t ?db = turn_view t db) \<and>
      (\<forall>s. s \<noteq> sid \<longrightarrow> session_view s ?db = session_view s db)" if ok: "ids_ok h db"
  proof -
    have old: "t_session_id r0 = sid" "t_seq r0 = n" if "map_of (turns db) tid = Some r0" for r0
      using ids_okD(4) [OF ok that] tid by (simp_all add: turn_ok_def turn_id_inject [OF inj])
    have r: "t_session_id r = sid" "t_seq r = n"
      using x f old by (auto simp: r_def split: option.splits)
    have "op_ok h ?db pid p" if "map_of (ops db) pid = Some p" for pid p
      using ids_okD(5) [OF ok that] by (auto simp: op_ok_def fst_alist_put)
    moreover have "turn_ok h t r'" if "map_of (turns ?db) t = Some r'" for t r'
      using that ids_okD(4) [OF ok, of t r'] r tid by (auto simp: turn_ok_def split: if_splits)
    ultimately have "ids_ok h ?db" using ok by (auto simp: ids_ok_def)
    moreover have "turn_view t ?db = turn_view t db" if "t \<noteq> tid" for t
      using that by (simp add: turn_view_def ops_of_turn_def)
    moreover have "session_view s ?db = session_view s db" if "s \<noteq> sid" for s
      using that r old map_filter_put [of "turns db" tid "\<lambda>r. t_session_id r = s" r "\<lambda>k _. k"]
      by (auto simp: session_view_def turns_of_session_def ops_of_session_def)
    ultimately show ?thesis by blast
  qed
  then show ?thesis by (simp add: touches_def upsert_row_def r_def)
qed

lemma upsert_turn_touches:
  assumes "inj h" "tid = canonicalTurnID h sid n" "t_session_id x = sid" "t_seq x = n"
    "\<And>r. t_session_id (f r) = t_session_id r \<and> t_seq (f r) = t_seq r" "upsert_turn tid x f db = Some db'"
  shows "touches h sid {tid} db db'"
  using touches_turn [OF assms(1-5)] assms(6) by (auto simp: upsert_turn_def split: if_splits)

lemma op_row_of:
  assumes inj: "inj h" and ok: "ids_ok h db" and r: "map_of (ops db) pid = Some r"
    and tid: "tid = canonicalTurnID h sid n" and pid: "pid = canonicalOpID h tid m"
  shows "op_turn_id r = tid" "op_session_id r = sid" "op_seq r = m" "tid \<in> keys (turns db)"
proof -
  show t: "op_turn_id r = tid" and "op_seq r = m"
    using ids_okD(5) [OF ok r] pid by (simp_all add: op_ok_def op_id_inject [OF inj])
  then show "op_session_id r = sid" "tid \<in> keys (turns db)"
    using ids_okD(5) [OF ok r] tid by (auto simp: op_ok_def turn_id_inject [OF inj])
qed

lemma touches_op:
  assumes inj: "inj h" and tid: "tid = canonicalTurnID h sid n" and pid: "pid = canonicalOpID h tid m"
    and r: "op_turn_id r = tid" "op_session_id r = sid" "op_seq r = m" and fk: "tid \<in> keys (turns db)"
  shows "touches h sid {tid} db (db\<lparr>ops := alist_put pid r (ops db)\<rparr>)"
proof -
  let ?db = "db\<lparr>ops := alist_put pid r (ops db)\<rparr>"
  have "ids_ok h ?db \<and> (\<forall>t. t \<notin> {tid} \<longrightarrow> turn_view t ?db = turn_view t db) \<and>
      (\<forall>s. s \<noteq> sid \<longrightarrow> session_view s ?db = session_view s db)" if ok: "ids_ok h db"
  proof -
    note old = op_row_of [OF inj ok _ tid pid]
    have "op_ok h ?db q p" if "map_of (ops ?db) q = Some p" for q p
      using that ids_okD(5) [OF ok, of q p] r tid pid fk by (auto simp: op_ok_def split: if_splits)
    then have "ids_ok h ?db" using ok by (auto simp: ids_ok_def)
    moreover have "turn_view t ?db = turn_view t db" if "t \<noteq> tid" for t
      using that r old map_filter_put [of "ops db" pid "\<lambda>r. op_turn_id r = t" r "\<lambda>_. op_cols"]
      by (auto simp: turn_view_def ops_of_turn_def)
    moreover have "session_view s ?db = session_view s db" if "s \<noteq> sid" for s
      using that r old map_filter_put [of "ops db" pid "\<lambda>r. op_session_id r = s" r "\<lambda>_ r. (op_status r, op_end_ts r)"]
      by (auto simp: session_view_def turns_of_session_def ops_of_session_def)
    ultimately show ?thesis by blast
  qed
  then show ?thesis by (simp add: touches_def)
qed

lemma upsert_op_touches:
  assumes inj: "inj h" and tid: "tid = canonicalTurnID h sid n" and pid: "pid = canonicalOpID h tid m"
    and x: "op_turn_id x = tid" "op_session_id x = sid" "op_seq x = m"
    and f: "\<And>r. op_turn_id (f r) = op_turn_id r \<and> op_session_id (f r) = op_session_id r \<and> op_seq (f r) = op_seq r"
    and up: "upsert_op pid x f db = Some db'"
  shows "touches h sid {tid} db db'"
proof (cases "ids_ok h db")
  case True
  define r where "r = (case map_of (ops db) pid of None \<Rightarrow> x | Some r \<Rightarrow> f r)"
  have db': "db' = db\<lparr>ops := alist_put pid r (ops db)\<rparr>" and fk: "op_turn_id r \<in> keys (turns db)"
    using up by (auto simp: upsert_op_def r_def Let_def op_fk_ok_def has_key_iff split: if_splits)
  have "op_turn_id r = tid" "op_session_id r = sid" "op_seq r = m"
    using x f op_row_of [OF inj True _ tid pid] by (auto simp: r_def split: option.splits)
  then show ?thesis unfolding db' using touches_op [OF inj tid pid] fk by simp
qed (simp add: touches_def)

lemma update_op_touches:
  assumes inj: "inj h" and tid: "tid = canonicalTurnID h sid n" and pid: "pid = canonicalOpID h tid m"
    and f: "\<And>r. op_turn_id (f r) = op_turn_id r \<and> op_session_id (f r) = op_session_id r \<and> op_seq (f r) = op_seq r"
  shows "touches h sid {tid} db (db\<lparr>ops := update_row pid f (ops db)\<rparr>)"
proof (cases "\<exists>r. map_of (ops db) pid = Some r \<and> ids_ok h db")
  case True
  then obtain r where r: "map_of (ops db) pid = Some r" and ok: "ids_ok h db" by blast
  show ?thesis
    using touches_op [OF inj tid pid, of "f r"] f op_row_of [OF inj ok r tid pid] by (simp add: update_row_def r)
qed (auto simp: touches_def update_row_def split: option.splits)

section \<open>Marked changes\<close>

text \<open>The writer keeps its ids and only adds marks.\<close>

definition keeps :: "'c writer \<Rightarrow> 'c writer \<Rightarrow> bool" where
  "keeps w w' \<longleftrightarrow> hash w' = hash w \<and> set (dirtyTurnIDs w) \<subseteq> set (dirtyTurnIDs w') \<and>
     set (dirtySessionIDs w) \<subseteq> set (dirtySessionIDs w')"

lemma keeps_refl [simp]: "keeps w w"
  by (simp add: keeps_def)

lemma keeps_trans: "keeps w w' \<Longrightarrow> keeps w' w'' \<Longrightarrow> keeps w w''"
  unfolding keeps_def by auto

lemma marks_simps [simp]:
  "hash (markDirtySession x w) = hash w" "hash (markDirtyTurn x w) = hash w" "hash (markDirtyOp x w) = hash w"
  "hash (markDirtyRollupBucket ts w) = hash w"
  "set (dirtyTurnIDs (markDirtySession x w)) = set (dirtyTurnIDs w)"
  "set (dirtyTurnIDs (markDirtyTurn x w)) = insert x (set (dirtyTurnIDs w))"
  "dirtyTurnIDs (markDirtyOp x w) = dirtyTurnIDs w" "dirtyTurnIDs (markDirtyRollupBucket ts w) = dirtyTurnIDs w"
  "set (dirtySessionIDs (markDirtySession x w)) = insert x (set (dirtySessionIDs w))"
  "dirtySessionIDs (markDirtyTurn x w) = dirtySessionIDs w"
  "dirtySessionIDs (markDirtyOp x w) = dirtySessionIDs w" "dirtySessionIDs (markDirtyRollupBucket ts w) = dirtySessionIDs w"
  by (auto simp: markDirtySession_def markDirtyTurn_def markDirtyOp_def markDirtyRollupBucket_def)

lemma marks_fold [simp]:
  "hash (fold markDirtyRollupBucket tss w) = hash w"
  "dirtyTurnIDs (fold markDirtyRollupBucket tss w) = dirtyTurnIDs w"
  "dirtySessionIDs (fold markDirtyRollupBucket tss w) = dirtySessionIDs w"
  by (induction tss arbitrary: w) simp_all

lemma marks_buckets [simp]:
  "hash (markSessionRollupBucketsDirty sid db w) = hash w"
  "dirtyTurnIDs (markSessionRollupBucketsDirty sid db w) = dirtyTurnIDs w"
  "dirtySessionIDs (markSessionRollupBucketsDirty sid db w) = dirtySessionIDs w"
  by (simp_all add: markSessionRollupBucketsDirty_def split: option.splits)

text \<open>All that changed is marked.\<close>

definition tracked :: "(string \<Rightarrow> string) \<Rightarrow> 'c wstate \<Rightarrow> 'c wstate \<Rightarrow> bool" where
  "tracked h st st' \<longleftrightarrow> keeps (fst st) (fst st') \<and> (ids_ok h (snd st) \<longrightarrow> ids_ok h (snd st') \<and>
     (\<forall>tid. turn_view tid (snd st') = turn_view tid (snd st) \<or> tid \<in> set (dirtyTurnIDs (fst st')) \<and>
        (\<exists>sid\<in>set (dirtySessionIDs (fst st')). \<exists>n. tid = canonicalTurnID h sid n)) \<and>
     (\<forall>s. session_view s (snd st') = session_view s (snd st) \<or> s \<in> set (dirtySessionIDs (fst st'))))"

lemma tracked_trans: "tracked h st st' \<Longrightarrow> tracked h st' st'' \<Longrightarrow> tracked h st st''"
  unfolding tracked_def using keeps_trans by (smt (verit) keeps_def subset_iff)

lemma trackedI:
  assumes "touches h sid T db db'" "keeps w w'" "sid \<in> set (dirtySessionIDs w')" "T \<subseteq> set (dirtyTurnIDs w')"
    "\<And>t. t \<in> T \<Longrightarrow> \<exists>n. t = canonicalTurnID h sid n"
  shows "tracked h (w, db) (w', db')"
proof -
  have "ids_ok h db' \<and> (\<forall>tid. turn_view tid db' = turn_view tid db \<or> tid \<in> set (dirtyTurnIDs w') \<and>
        (\<exists>sid\<in>set (dirtySessionIDs w'). \<exists>n. tid = canonicalTurnID h sid n)) \<and>
     (\<forall>s. session_view s db' = session_view s db \<or> s \<in> set (dirtySessionIDs w'))" if "ids_ok h db"
  proof -
    have t: "ids_ok h db'" "\<And>tid. tid \<notin> T \<Longrightarrow> turn_view tid db' = turn_view tid db"
      "\<And>s. s \<noteq> sid \<Longrightarrow> session_view s db' = session_view s db"
      using assms(1) that unfolding touches_def by auto
    have "turn_view tid db' = turn_view tid db \<or> tid \<in> set (dirtyTurnIDs w') \<and>
        (\<exists>sid\<in>set (dirtySessionIDs w'). \<exists>n. tid = canonicalTurnID h sid n)" for tid
      using t(2) [of tid] assms(3,4) assms(5) [of tid] by (cases "tid \<in> T") auto
    moreover have "session_view s db' = session_view s db \<or> s \<in> set (dirtySessionIDs w')" for s
      using t(3) [of s] assms(3) by (cases "s = sid") auto
    ultimately show ?thesis using t(1) by simp
  qed
  then show ?thesis using assms(2) unfolding tracked_def fst_conv snd_conv by simp
qed

lemma tracked_frame:
  assumes "keeps w w'" "turns db' = turns db" "ops db' = ops db" "sessions db' = sessions db"
  shows "tracked h (w, db) (w', db')"
proof -
  have "touches h x {} db db'" for x by (rule touches_frame [OF assms(2-4)])
  moreover have "session_view s db' = session_view s db" for s
    using assms by (simp add: session_view_def turns_of_session_def ops_of_session_def)
  ultimately show ?thesis using assms(1) unfolding tracked_def touches_def fst_conv snd_conv by blast
qed

section \<open>The handlers mark what they change\<close>

lemma requireSessionID_touches:
  assumes "requireSessionID n ts (w, db) = Some (sid, w', db')"
  shows "touches h sid {} db db'" "keeps w w'" "dirtyTurnIDs w' = dirtyTurnIDs w"
  using assms touches_session_ops(2) [of h sid db]
  by (auto simp: requireSessionID_def lookupSessionID_def keeps_def markDirtySession_def Let_def split: if_splits option.splits)

lemma applySessionStarted_tracked:
  assumes "applySessionStarted e (w, db) = Some (w', db')"
  shows "tracked h (w, db) (w', db')"
proof -
  let ?sid = "session_id_of w (sst_NativeID e)" and ?x = "started_session_row e (w, db)"
  have db': "db' = onSessionStarted (sourceFormat w') e (db\<lparr>sessions := upsert_row ?sid ?x (session_on_conflict ?x) (sessions db)\<rparr>)"
    and w': "keeps w w'" "?sid \<in> set (dirtySessionIDs w')"
    using assms by (auto simp: applySessionStarted_def Let_def keeps_def split: if_splits option.splits)
  have "touches h ?sid {} db db'"
    by (rule touches_then_frame [OF touches_session_ops(1)]) (simp_all add: db')
  then show ?thesis by (rule trackedI) (use w' in simp_all)
qed

lemma session_tracked:
  assumes r: "requireSessionID n ts (w, db) = Some (sid, w1, db1)" and w': "keeps w1 w'" "sid \<in> set (dirtySessionIDs w')"
  shows "tracked h (w, db) (w', db1\<lparr>sessions := update_row sid f (sessions db1)\<rparr>)"
proof -
  have "touches h sid {} db (db1\<lparr>sessions := update_row sid f (sessions db1)\<rparr>)"
    using touches_trans [OF requireSessionID_touches(1) [OF r] touches_session_ops(3)] by simp
  then show ?thesis by (rule trackedI) (use w' keeps_trans [OF requireSessionID_touches(2) [OF r]] in simp_all)
qed

lemma applySessionUpdated_tracked:
  assumes "applySessionUpdated e (w, db) = Some (w', db')"
  shows "tracked h (w, db) (w', db')"
proof -
  obtain sid w1 db1 where r: "requireSessionID (su_NativeID e) (Ts e) (w, db) = Some (sid, w1, db1)"
    using assms unfolding applySessionUpdated_def bind_eq_Some_conv by auto
  show ?thesis
    using assms by (auto simp: applySessionUpdated_def r Let_def keeps_def intro!: session_tracked [OF r] split: if_splits)
qed

lemma applySessionFinalized_tracked:
  assumes "applySessionFinalized e (w, db) = Some (w', db')"
  shows "tracked h (w, db) (w', db')"
proof -
  obtain sid w1 db1 where r: "requireSessionID (sf_NativeID e) (Ts e) (w, db) = Some (sid, w1, db1)"
    using assms unfolding applySessionFinalized_def bind_eq_Some_conv by auto
  show ?thesis
    using assms by (auto simp: applySessionFinalized_def r Let_def keeps_def intro!: session_tracked [OF r])
qed

text \<open>The two handlers of turns end alike.\<close>

lemma turn_tracked:
  assumes inj: "inj h" "hash w = h" and r: "requireSessionID n ts (w, db) = Some (sid, w1, db1)"
    and up: "upsert_turn (turn_id_of w1 sid m) x f db1 = Some db'" and x: "t_session_id x = sid" "t_seq x = m"
    and f: "\<And>r. t_session_id (f r) = t_session_id r \<and> t_seq (f r) = t_seq r"
  shows "tracked h (w, db) (markDirtySession sid (markDirtyTurn (turn_id_of w1 sid m) w1), db')"
proof -
  have h: "hash w1 = h" using requireSessionID_touches(2) [OF r] inj(2) by (simp add: keeps_def)
  have "touches h sid ({} \<union> {turn_id_of w1 sid m}) db db'"
    by (rule touches_trans [OF requireSessionID_touches(1) [OF r]], rule upsert_turn_touches [OF inj(1) _ x f up]) (simp add: h)
  then show ?thesis
    by (rule trackedI) (use requireSessionID_touches(2) [OF r] h in \<open>auto simp: keeps_def\<close>)
qed

lemma applyTurnStarted_tracked:
  assumes "inj h" "hash w = h" "applyTurnStarted e (w, db) = Some (w', db')"
  shows "tracked h (w, db) (w', db')"
proof -
  obtain sid w1 db1 where r: "requireSessionID (ts_SessionNativeID e) (Ts e) (w, db) = Some (sid, w1, db1)"
    using assms(3) unfolding applyTurnStarted_def bind_eq_Some_conv by auto
  show ?thesis
    using assms(3)
    by (auto simp: applyTurnStarted_def r Let_def bind_eq_Some_conv new_turn_row_def intro!: turn_tracked [OF assms(1,2) r])
qed

lemma applyTurnFinalized_tracked:
  assumes "inj h" "hash w = h" "applyTurnFinalized e (w, db) = Some (w', db')"
  shows "tracked h (w, db) (w', db')"
proof -
  obtain sid w1 db1 where r: "requireSessionID (tf_SessionNativeID e) (Ts e) (w, db) = Some (sid, w1, db1)"
    using assms(3) unfolding applyTurnFinalized_def bind_eq_Some_conv by auto
  show ?thesis
    using assms(3)
    by (auto simp: applyTurnFinalized_def r Let_def bind_eq_Some_conv new_turn_row_def intro!: turn_tracked [OF assms(1,2) r])
qed

lemma applyOpStarted_tracked:
  assumes inj: "inj h" "hash w = h" and run: "applyOpStarted e (w, db) = Some (w', db')"
  shows "tracked h (w, db) (w', db')"
proof -
  obtain sid w1 db1 where r1: "requireSessionID (os_SessionNativeID e) (Ts e) (w, db) = Some (sid, w1, db1)"
    using run unfolding applyOpStarted_def bind_eq_Some_conv by auto
  let ?tid = "turn_id_of w1 sid (os_TurnSeq e)"
  obtain w2 db2 where r2: "synthesize_turn ?tid sid (os_TurnSeq e) (Ts e) (w1, db1) = Some (w2, db2)"
    using run
    by (cases "synthesize_turn ?tid sid (os_TurnSeq e) (Ts e) (w1, db1)") (auto simp: applyOpStarted_def r1 Let_def)
  let ?opid = "op_id_of w2 ?tid (os_Seq e)"
  obtain child extras where ce: "resolveOpStartedChild e (w2, db2) = (child, extras)" by fastforce
  let ?x = "started_op_row e sid ?tid (resolveOpStartedParent w2 ?tid (os_ParentOpSeq e)) child (marshalExtras extras)"
  obtain db3 where r3: "upsert_op ?opid ?x (op_on_conflict ?x) db2 = Some db3"
    using run by (auto simp: applyOpStarted_def r1 r2 ce bind_eq_Some_conv Let_def)
  have w': "w' = markDirtyOp ?opid (markDirtyRollupBucket (Ts e) (markDirtySession sid (markDirtyTurn ?tid w2)))"
    and db': "turns db' = turns db3" "ops db' = ops db3" "sessions db' = sessions db3"
    using run by (auto simp: applyOpStarted_def r1 r2 r3 ce Let_def)
  have h: "hash w1 = h" using requireSessionID_touches(2) [OF r1] inj(2) by (simp add: keeps_def)
  have w2: "keeps w1 w2" and t2: "touches h sid {?tid} db1 db2"
  proof -
    have "w2 = w1 \<and> db2 = db1 \<or> keeps w1 w2 \<and> upsert_turn ?tid (new_turn_row sid (os_TurnSeq e) (Ts e)) (\<lambda>r. r) db1 = Some db2"
      using r2 by (auto simp: synthesize_turn_def bind_eq_Some_conv keeps_def split: if_splits)
    moreover have "touches h sid {?tid} db1 db1" using touches_refl [of h sid db1] by (simp add: touches_def)
    moreover have "touches h sid {?tid} db1 db2" if "upsert_turn ?tid (new_turn_row sid (os_TurnSeq e) (Ts e)) (\<lambda>r. r) db1 = Some db2"
      by (rule upsert_turn_touches [OF inj(1) _ _ _ _ that]) (simp_all add: h new_turn_row_def)
    ultimately show "keeps w1 w2" "touches h sid {?tid} db1 db2" by auto
  qed
  have "touches h sid {?tid} db2 db3"
    by (rule upsert_op_touches [OF inj(1) _ _ _ _ _ _ r3])
      (use w2 in \<open>auto simp: h keeps_def started_op_row_def op_on_conflict_def\<close>)
  then have "touches h sid ({} \<union> {?tid} \<union> {?tid}) db db3"
    using touches_trans [OF touches_trans [OF requireSessionID_touches(1) [OF r1] t2]] by blast
  then have "touches h sid {?tid} db db'" using touches_then_frame [OF _ db'] by simp
  then show ?thesis
    by (rule trackedI) (use w2 h requireSessionID_touches(2) [OF r1] in \<open>auto simp: keeps_def w'\<close>)
qed

text \<open>Steps that leave the rows alone.\<close>

definition quiet :: "'c wstate \<Rightarrow> 'c wstate \<Rightarrow> bool" where
  "quiet st st' \<longleftrightarrow> keeps (fst st) (fst st') \<and> turns (snd st') = turns (snd st) \<and> ops (snd st') = ops (snd st) \<and>
     sessions (snd st') = sessions (snd st)"

lemma quiet_refl [simp]: "quiet st st"
  by (simp add: quiet_def)

lemma quiet_trans: "quiet st st' \<Longrightarrow> quiet st' st'' \<Longrightarrow> quiet st st''"
  unfolding quiet_def using keeps_trans by metis

lemma quiet_tracked: "quiet st st' \<Longrightarrow> tracked h st st'"
  using tracked_frame [of "fst st" "fst st'" "snd st'" "snd st"] by (simp add: quiet_def)

lemma bump_quiet: "quiet st (bumpSourceErrorCounter ts st)"
  by (cases st) (simp add: bumpSourceErrorCounter_def quiet_def keeps_def)

lemma insert_log_quiet: "insert_log r db = Some (i, db') \<Longrightarrow> quiet (w, db) (w, db')"
  by (auto simp: insert_log_def quiet_def split: if_splits)

lemma emitPricingMiss_quiet: "quiet st (emitPricingMiss p m k ts st)"
proof -
  obtain w1 db1 where b: "bumpSourceErrorCounter ts st = (w1, db1)" by fastforce
  have q: "quiet st (w1, db1)" using bump_quiet [of st ts] by (simp add: b)
  show ?thesis
  proof (cases "emitPricingMiss p m k ts st = st")
    case False
    then obtain r key where run: "emitPricingMiss p m k ts st =
        (case insert_log r db1 of
           None \<Rightarrow> (w1\<lparr>batchObservabilityErrs := batchObservabilityErrs w1 + 1\<rparr>, db1)
         | Some (_, db) \<Rightarrow> (w1\<lparr>pendingMissDedup := List.insert key (pendingMissDedup w1)\<rparr>, db))"
      by (simp add: emitPricingMiss_def b Let_def split: if_splits)
    then show ?thesis
      using q insert_log_quiet [of r db1 _ _ w1]
      by (cases "insert_log r db1") (auto simp: quiet_def keeps_def split: prod.splits)
  qed simp
qed

lemma resolveFinalizedOpCost_quiet:
  assumes "resolveFinalizedOpCost ev row st = (cost, st')"
  shows "quiet st st'"
proof -
  have "st' = st \<or> (\<exists>p m k ts. st' = emitPricingMiss p m k ts st)"
    using assms by (auto simp: resolveFinalizedOpCost_def priceOp_def Let_def split: option.splits if_splits prod.splits)
      (metis+)?
  then show ?thesis by (metis emitPricingMiss_quiet quiet_refl)
qed

lemma applyOpFinalized_tracked:
  assumes inj: "inj h" "hash w = h" and run: "applyOpFinalized e (w, db) = Some (w', db')"
  shows "tracked h (w, db) (w', db')"
proof -
  obtain sid w1 db1 where r1: "requireSessionID (of_SessionNativeID e) (Ts e) (w, db) = Some (sid, w1, db1)"
    using run unfolding applyOpFinalized_def bind_eq_Some_conv by auto
  let ?tid = "turn_id_of w1 sid (of_TurnSeq e)"
  let ?opid = "op_id_of w1 ?tid (of_Seq e)"
  obtain cost w2 db2 where c: "resolveFinalizedOpCost e (map_of (ops db1) ?opid) (w1, db1) = (cost, w2, db2)"
    by (metis prod_cases3)
  note q = resolveFinalizedOpCost_quiet [OF c]
  define f where "f = updateFinalizedOp e (resolveFinalizedOpTiming e (map_option op_start_ts (map_of (ops db1) ?opid))) cost"
  have w': "w' = markOpFinalizedDirty ?tid sid ?opid (map_option op_start_ts (map_of (ops db1) ?opid)) w2"
    and db': "turns db' = turns db2" "ops db' = update_row ?opid f (ops db2)" "sessions db' = sessions db2"
    using run by (auto simp: applyOpFinalized_def r1 c f_def Let_def)
  have h: "hash w1 = h" using requireSessionID_touches(2) [OF r1] inj(2) by (simp add: keeps_def)
  have t2: "touches h sid {} db1 db2" using q touches_frame [of db2 db1] by (simp add: quiet_def)
  have "touches h sid {?tid} db2 (db2\<lparr>ops := update_row ?opid f (ops db2)\<rparr>)"
    by (rule update_op_touches [OF inj(1)]) (simp_all add: h f_def updateFinalizedOp_def)
  then have "touches h sid ({} \<union> {} \<union> {?tid}) db (db2\<lparr>ops := update_row ?opid f (ops db2)\<rparr>)"
    using touches_trans [OF touches_trans [OF requireSessionID_touches(1) [OF r1] t2]] by blast
  then have "touches h sid {?tid} db (db2\<lparr>ops := update_row ?opid f (ops db2)\<rparr>)" by simp
  from touches_then_frame [OF this] have "touches h sid {?tid} db db'" by (simp add: db')
  then show ?thesis
    by (rule trackedI)
      (use q h requireSessionID_touches(2) [OF r1] in \<open>auto simp: keeps_def quiet_def w' markOpFinalizedDirty_def Let_def split: option.splits\<close>)
qed

lemma requireSessionID_tracked:
  assumes "requireSessionID n ts (w, db) = Some (sid, w', db')"
  shows "tracked h (w, db) (w', db')"
proof (cases "db' = db")
  case True
  then show ?thesis using tracked_frame [OF requireSessionID_touches(2) [OF assms]] by simp
next
  case False
  then have "sid \<in> set (dirtySessionIDs w')"
    using assms by (auto simp: requireSessionID_def Let_def split: if_splits option.splits)
  then show ?thesis using trackedI [OF requireSessionID_touches(1,2) [OF assms]] by simp
qed

lemma applyLogEntry_tracked:
  assumes "applyLogEntry e (w, db) = Some (w', db')"
  shows "tracked h (w, db) (w', db')"
proof -
  obtain sid w1 db1 where r: "requireSessionID (le_SessionNativeID e) (Ts e) (w, db) = Some (sid, w1, db1)"
    using assms unfolding applyLogEntry_def bind_eq_Some_conv by auto
  obtain i db2 where i: "insert_log (session_log e w1 sid) db1 = Some (i, db2)"
    using assms by (auto simp: applyLogEntry_def r bind_eq_Some_conv Let_def)
  have "quiet (w1, db1) (w', db')"
    using assms insert_log_quiet [OF i, of w1]
    by (auto simp: applyLogEntry_def r i Let_def quiet_def keeps_def indexLogEntryFTS_def split: if_splits)
  then show ?thesis using tracked_trans [OF requireSessionID_tracked [OF r] quiet_tracked] by blast
qed

lemma source_error_quiet:
  assumes "bumpSourceErrorCounter ts st = (w1, db1)" "insert_log r db1 = Some (i, db2)"
  shows "quiet st (w1, db2)"
  using quiet_trans [OF _ insert_log_quiet [OF assms(2)]] bump_quiet [of st ts] by (simp add: assms(1))

lemma applyPayloadRef_tracked:
  assumes "applyPayloadRef e (w, db) = Some (w', db')"
  shows "tracked h (w, db) (w', db')"
proof -
  obtain sid w1 db1 where r: "requireSessionID (pr_SessionNativeID e) (Ts e) (w, db) = Some (sid, w1, db1)"
    using assms unfolding applyPayloadRef_def bind_eq_Some_conv by auto
  have "quiet (w1, db1) (w', db')"
  proof (cases "has_key (op_id_of w1 (turn_id_of w1 sid (pr_TurnSeq e)) (pr_OpSeq e)) (ops db1)")
    case True
    then show ?thesis
      using assms by (auto simp: applyPayloadRef_def r Let_def quiet_def keeps_def insert_payload_ref_def)
  next
    case False
    then show ?thesis
      using assms source_error_quiet [of "Ts e" "(w1, db1)"]
      by (auto simp: applyPayloadRef_def r Let_def reportOrphanPayloadRef_def bind_eq_Some_conv split: prod.splits)
  qed
  then show ?thesis using tracked_trans [OF requireSessionID_tracked [OF r] quiet_tracked] by blast
qed

lemma applySourceError_quiet: "applySourceError e st = Some st' \<Longrightarrow> quiet st st'"
  using source_error_quiet [of "Ts e" st] by (auto simp: applySourceError_def bind_eq_Some_conv split: prod.splits)

lemma applySourceProgress_quiet: "applySourceProgress e st = st' \<Longrightarrow> quiet st st'"
  by (auto simp: applySourceProgress_def quiet_def keeps_def split: prod.splits)

theorem apply_event_tracked:
  assumes inj: "inj h" "hash w = h" and run: "apply_event ev (w, db) = Some (w', db')"
  shows "tracked h (w, db) (w', db')"
proof -
  obtain w0 where w0: "w0 = (if batchMaxSeq w < EventSourceSeq ev then w\<lparr>batchMaxSeq := EventSourceSeq ev\<rparr> else w)"
    and d: "dispatchEvent ev (w0, db) = Some (w', db')"
    using run by (simp add: apply_event_def)
  have q: "quiet (w, db) (w0, db)" and h: "hash w0 = h" using w0 inj(2) by (simp_all add: quiet_def keeps_def)
  have "tracked h (w0, db) (w', db')"
    using d by (cases ev) (auto intro: applySessionStarted_tracked applySessionUpdated_tracked applySessionFinalized_tracked
        applyTurnStarted_tracked [OF inj(1) h] applyTurnFinalized_tracked [OF inj(1) h] applyOpStarted_tracked [OF inj(1) h]
        applyOpFinalized_tracked [OF inj(1) h] applyPayloadRef_tracked applyLogEntry_tracked
        quiet_tracked [OF applySourceError_quiet] quiet_tracked [OF applySourceProgress_quiet])
  then show ?thesis using tracked_trans [OF quiet_tracked [OF q]] by blast
qed

lemma apply_all_tracked:
  assumes "inj h" "hash w = h" "apply_all evs (w, db) = Some (w', db')"
  shows "tracked h (w, db) (w', db')"
  using assms(2,3)
proof (induction evs arbitrary: w db)
  case Nil
  then show ?case using quiet_tracked [OF quiet_refl] by simp
next
  case (Cons ev evs)
  then obtain w1 db1 where e: "apply_event ev (w, db) = Some (w1, db1)" and r: "apply_all evs (w1, db1) = Some (w', db')"
    by (auto simp: bind_eq_Some_conv)
  note t = apply_event_tracked [OF assms(1) Cons.prems(1) e]
  then have "hash w1 = h" using Cons.prems(1) by (simp add: tracked_def keeps_def)
  then show ?case using tracked_trans [OF t Cons.IH [OF _ r]] by blast
qed

lemma writeBatchRows_tracked:
  assumes "inj h" "hash w = h" "writeBatchRows location metaJSON evs (w, db) = Some (w', db')"
  shows "tracked h (w, db) (w', db')"
proof -
  let ?db = "ensureSourceRow (sourceID w) (sourceFormat w) location (fts5IndexLogs w) metaJSON db"
  have "quiet (w, db) (w, ?db)" by (simp add: quiet_def ensureSourceRow_def)
  moreover have "tracked h (w, ?db) (w', db')"
    by (rule apply_all_tracked [OF assms(1,2)]) (use assms(3) in \<open>simp add: writeBatchRows_def\<close>)
  ultimately show ?thesis using tracked_trans [OF quiet_tracked] by blast
qed

section \<open>The other steps of a flush\<close>

lemma recomputeBucket_rows_same [simp]:
  fixes db :: "('c :: {zero,plus}) db"
  shows "turns (recomputeBucket ord w b e bucket db) = turns db" "ops (recomputeBucket ord w b e bucket db) = ops db"
    "sessions (recomputeBucket ord w b e bucket db) = sessions db"
  by (cases bucket; simp add: recomputeBucket_def upsertRollups_def deleteBucketRows_def Let_def)+

lemma materialize_quiet:
  assumes "p = hourPass x \<or> p = dayPass x"
  shows "quiet st (materialize ord p b st)"
  using assms by (auto simp: materialize_def quiet_def keeps_def hourPass_def dayPass_def split: prod.splits)

lemma fold_quiet: "(\<And>b st. quiet st (f b st)) \<Longrightarrow> quiet st (fold f bs st)"
proof (induction bs arbitrary: st)
  case (Cons b bs)
  show ?case using quiet_trans [OF Cons.prems(1) [of st b] Cons.IH [OF Cons.prems]] by simp
qed simp

lemma refreshRollups_quiet: "quiet st (refreshRollups ord now st)"
  unfolding refreshRollups_def refreshRollupBucketPass_def
  by (auto intro!: quiet_trans [OF fold_quiet fold_quiet] materialize_quiet)

lemma refreshFTS_quiet: "quiet st (refreshFTS ord st)"
proof -
  have "quiet (w, db) (w, fold reindexOp ids db)" for w and db :: "'a db" and ids
    using fold_quiet [of "\<lambda>i st. (fst st, reindexOp i (snd st))" "(w, db)" ids]
  proof -
    have "fold (\<lambda>i st. (fst st, reindexOp i (snd st))) ids (w, db) = (w, fold reindexOp ids db)"
      by (induction ids arbitrary: db) simp_all
    moreover have "quiet st (fst st, reindexOp i (snd st))" for i and st :: "'a wstate"
      by (simp add: quiet_def reindexOp_def split: option.splits)
    ultimately show ?thesis using fold_quiet [of "\<lambda>i st. (fst st, reindexOp i (snd st))" "(w, db)" ids] by simp
  qed
  then show ?thesis by (simp add: refreshFTS_def split: prod.splits)
qed

lemma markReadModelRepairPending_quiet: "quiet st (markReadModelRepairPending ts st)"
  by (auto simp: markReadModelRepairPending_def quiet_def keeps_def Let_def split: prod.splits)

lemma emitSessionChangedNotify_quiet: "emitSessionChangedNotify ts sids db = Some db' \<Longrightarrow> quiet (w, db) (w, db')"
  by (induction sids arbitrary: db) (auto simp: bind_eq_Some_conv quiet_def insert_notify_def)

lemma emitNotifyAndPrune_quiet: "emitNotifyAndPrune ord ts (w, db) = Some db' \<Longrightarrow> quiet (w, db) (w, db')"
  using emitSessionChangedNotify_quiet [of ts "ord_ids ord (affectedSessionIDs w)" db _ w]
  by (auto simp: emitNotifyAndPrune_def emitNotify_def bind_eq_Some_conv quiet_def pruneNotify_def insert_notify_def
      emitSourceStatusChangedNotify_def emitStatsInvalidatedNotify_def)

end
