(* ===== verification/Resolver.thy ===== *)
theory Resolver
  imports Flush
begin

text \<open>
  The background pass that links sessions and ops (\<open>internal/ingest/resolver.go\<close>): children to
  parents that landed after them, sessions to their root, ops to the child sessions they
  started; and the loop that decides when it runs. An \<open>UPDATE ... RETURNING\<close> is a function from a
  row to its new value, if the \<open>WHERE\<close> clause selects it.

  \<open>None\<close> of the recursive query is a query that never ends. The stashed join keys are strings, as
  the writer stashes them; a key that is not a string is taken for an absent one.
\<close>

section \<open>Updates that return rows\<close>

definition update_rows :: "('k \<Rightarrow> 'r \<Rightarrow> 'r option) \<Rightarrow> ('k \<times> 'r) list \<Rightarrow> ('k \<times> 'r) list" where
  "update_rows f tab = map (\<lambda>(k, r). (k, case f k r of None \<Rightarrow> r | Some r' \<Rightarrow> r')) tab"

definition returning :: "('k \<Rightarrow> 'r \<Rightarrow> 'r option) \<Rightarrow> ('k \<times> 'r) list \<Rightarrow> ('k \<times> 'r) list" where
  "returning f tab = List.map_filter (\<lambda>(k, r). map_option (Pair k) (f k r)) tab"

text \<open>The affected sessions: a changed one and the related ones.\<close>

definition scanLinkedRows :: "(string \<times> string option list) list \<Rightarrow> string list \<Rightarrow> string list" where
  "scanLinkedRows rows affected = fold (\<lambda>(changed, related) affected.
     fold (\<lambda>rel affected. if nullableString rel = [] then affected else List.insert (nullableString rel) affected)
       related (List.insert changed affected)) rows affected"

section \<open>The join keys\<close>

definition stash_text :: "string \<Rightarrow> json option \<Rightarrow> string option" where
  "stash_text key extras = (case json_extract extras (ai_path key) of Some (JStr s) \<Rightarrow> Some s | _ \<Rightarrow> None)"

definition stashed :: "string \<Rightarrow> json option \<Rightarrow> string option" where
  "stashed key extras = (case stash_text key extras of None \<Rightarrow> None | Some s \<Rightarrow> nullIfEmpty s)"

text \<open>The session of a source with a native id, of which there is at most one.\<close>

definition find_session :: "string \<Rightarrow> string \<Rightarrow> 'c db \<Rightarrow> string option" where
  "find_session src nativeID db =
     map_option fst (find (\<lambda>e. s_source_id (snd e) = src \<and> s_native_id (snd e) = nativeID) (sessions db))"

section \<open>Parents and roots\<close>

definition parent_row :: "'c db \<Rightarrow> string \<Rightarrow> 'c session_row \<Rightarrow> 'c session_row option" where
  "parent_row db sid r =
     (if s_parent_session_id r \<noteq> None then None
      else do {
        nativeID \<leftarrow> stashed ''parentNativeId'' (s_extras_json r);
        p \<leftarrow> find_session (s_source_id r) nativeID db;
        Some (r\<lparr>s_parent_session_id := Some p\<rparr>) })"

definition linkParents :: "'c db \<Rightarrow> string list \<Rightarrow> 'c db \<times> string list" where
  "linkParents db affected =
     (db\<lparr>sessions := update_rows (parent_row db) (sessions db)\<rparr>,
      scanLinkedRows (map (\<lambda>(sid, r). (sid, [s_parent_session_id r, Some (s_root_session_id r)]))
        (returning (parent_row db) (sessions db))) affected)"

definition explicit_root_row :: "'c db \<Rightarrow> string \<Rightarrow> 'c session_row \<Rightarrow> 'c session_row option" where
  "explicit_root_row db sid r =
     (if s_root_session_id r \<noteq> sid then None
      else do {
        nativeID \<leftarrow> stashed ''rootNativeId'' (s_extras_json r);
        if nativeID = s_native_id r then None
        else do {
          root \<leftarrow> find_session (s_source_id r) nativeID db;
          Some (r\<lparr>s_root_session_id := root\<rparr>) } })"

text \<open>
  \<open>WITH RECURSIVE session_roots\<close>: the queue starts with the sessions without a parent, each its
  own root, and every row that leaves it queues the children of its session.
\<close>

partial_function (option) session_roots_loop ::
    "(string \<times> 'c session_row) list \<Rightarrow> (string \<times> string) list \<Rightarrow> (string \<times> string) list \<Rightarrow> (string \<times> string) list option" where
  "session_roots_loop tab queue rows = (case queue of
       [] \<Rightarrow> Some (rev rows)
     | x # queue \<Rightarrow> session_roots_loop tab
         (queue @ map (\<lambda>e. (fst e, snd x)) (filter (\<lambda>e. s_parent_session_id (snd e) = Some (fst x)) tab)) (x # rows))"

lemma session_roots_loop_steps [code]:
  "session_roots_loop tab [] rows = Some (rev rows)"
  "session_roots_loop tab (x # queue) rows = session_roots_loop tab
     (queue @ map (\<lambda>e. (fst e, snd x)) (filter (\<lambda>e. s_parent_session_id (snd e) = Some (fst x)) tab)) (x # rows)"
  by (simp_all add: session_roots_loop.simps)

definition session_roots :: "'c db \<Rightarrow> (string \<times> string) list option" where
  "session_roots db = session_roots_loop (sessions db)
     (map (\<lambda>e. (fst e, fst e)) (filter (\<lambda>e. s_parent_session_id (snd e) = None) (sessions db))) []"

definition transitive_root_row :: "(string \<times> string) list \<Rightarrow> string \<Rightarrow> 'c session_row \<Rightarrow> 'c session_row option" where
  "transitive_root_row roots sid r =
     (if list_ex (\<lambda>x. fst x = sid \<and> snd x \<noteq> s_root_session_id r) roots
      then map_option (\<lambda>root. r\<lparr>s_root_session_id := root\<rparr>) (map_of roots sid) else None)"

definition linkRoots :: "'c db \<Rightarrow> string list \<Rightarrow> ('c db \<times> string list) option" where
  "linkRoots db affected =
     (let affected = scanLinkedRows (map (\<lambda>(sid, r). (sid, [Some (s_root_session_id r)]))
            (returning (explicit_root_row db) (sessions db))) affected;
          db = db\<lparr>sessions := update_rows (explicit_root_row db) (sessions db)\<rparr>
      in do {
        roots \<leftarrow> session_roots db;
        Some (db\<lparr>sessions := update_rows (transitive_root_row roots) (sessions db)\<rparr>,
          scanLinkedRows (map (\<lambda>(sid, r). (sid, [s_parent_session_id r, Some (s_root_session_id r)]))
            (returning (transitive_root_row roots) (sessions db))) affected) })"

section \<open>Children of ops\<close>

definition op_child_row :: "'c db \<Rightarrow> string \<Rightarrow> 'c op_row \<Rightarrow> 'c op_row option" where
  "op_child_row db pid r =
     (if op_child_session_id r \<noteq> None then None
      else do {
        nativeID \<leftarrow> stashed ''childNativeId'' (op_extras_json r);
        parent \<leftarrow> map_of (sessions db) (op_session_id r);
        c \<leftarrow> find_session (s_source_id parent) nativeID db;
        Some (r\<lparr>op_child_session_id := Some c\<rparr>) })"

text \<open>Of several matches SQL may take any: \<open>order\<close> is the order in which it reads the sessions.\<close>

definition op_tool_child_row ::
    "((string \<times> 'c session_row) list \<Rightarrow> (string \<times> 'c session_row) list) \<Rightarrow> 'c db \<Rightarrow> string \<Rightarrow> 'c op_row \<Rightarrow> 'c op_row option" where
  "op_tool_child_row order db pid r =
     (if op_child_session_id r \<noteq> None then None
      else do {
        tool \<leftarrow> stashed ''toolUseId'' (op_extras_json r);
        parent \<leftarrow> map_of (sessions db) (op_session_id r);
        c \<leftarrow> find (\<lambda>c. s_source_id (snd c) = s_source_id parent \<and> fst c \<noteq> op_session_id r \<and>
            stash_text ''toolUseId'' (s_extras_json (snd c)) = Some tool \<and>
            (s_parent_session_id (snd c) = Some (op_session_id r) \<or>
             stash_text ''parentNativeId'' (s_extras_json (snd c)) = Some (s_native_id parent))) (order (sessions db));
        Some (r\<lparr>op_child_session_id := Some (fst c)\<rparr>) })"

definition link_ops :: "(string \<Rightarrow> 'c op_row \<Rightarrow> 'c op_row option) \<Rightarrow> 'c db \<Rightarrow> string list \<Rightarrow> 'c db \<times> string list" where
  "link_ops f db affected = (db\<lparr>ops := update_rows f (ops db)\<rparr>,
     scanLinkedRows (map (\<lambda>(pid, r). (op_session_id r, [])) (returning f (ops db))) affected)"

definition linkOpChildren :: "'c db \<Rightarrow> string list \<Rightarrow> 'c db \<times> string list" where
  "linkOpChildren db affected = link_ops (op_child_row db) db affected"

definition linkOpChildrenByToolUse ::
    "((string \<times> 'c session_row) list \<Rightarrow> (string \<times> 'c session_row) list) \<Rightarrow> 'c db \<Rightarrow> string list \<Rightarrow> 'c db \<times> string list" where
  "linkOpChildrenByToolUse order db affected = link_ops (op_tool_child_row order db) db affected"

section \<open>Notifications\<close>

fun emit_affected :: "i64 \<Rightarrow> string list \<Rightarrow> 'c db \<Rightarrow> 'c db option" where
  "emit_affected tsUS [] db = Some db"
| "emit_affected tsUS (sid # sids) db = do {
     root \<leftarrow> lookupRootSessionID sid db;
     emit_affected tsUS sids
       (insert_notify ((notify_of tsUS ''session_changed'')\<lparr>nt_session_id := Some sid, nt_root_session_id := Some root\<rparr>) db) }"

definition emitResolverNotify :: "i64 \<Rightarrow> string list \<Rightarrow> 'c db \<Rightarrow> 'c db option" where
  "emitResolverNotify tsUS affected db =
     (if affected = [] then Some db
      else map_option (insert_notify (notify_of tsUS ''stats_invalidated'')) (emit_affected tsUS affected db))"

section \<open>A pass and the loop\<close>

record resolver =
  lastSeenGen :: i64
  lastSeenSession :: i64
  lastRootsGen :: i64

definition newResolver :: resolver where
  "newResolver = \<lparr>lastSeenGen = - 1, lastSeenSession = - 1, lastRootsGen = - 1\<rparr>"

text \<open>
  What a tick meets: whether passes are deferred, the two readings of the generation counter
  (\<open>None\<close> without a counter), the reading of the session watermark (absent, failed, or a value),
  whether the transaction begins and commits, the clock and the orders left open.
\<close>

record 'c tick_env =
  te_deferred :: bool
  te_gen :: "i64 option"
  te_gen_roots :: "i64 option"
  te_watermark :: "i64 option option"
  te_begins :: bool
  te_commits :: bool
  te_now :: i64
  te_order :: "(string \<times> 'c session_row) list \<Rightarrow> (string \<times> 'c session_row) list"
  te_ids :: "string list \<Rightarrow> string list"

text \<open>
  The result of a pass: the resolver, whose marks outlive a rollback, and the database after
  the commit, or nothing when the transaction was rolled back.
\<close>

definition linkOrphansGated :: "'c tick_env \<Rightarrow> bool \<Rightarrow> resolver \<Rightarrow> 'c db \<Rightarrow> (resolver \<times> 'c db option) option" where
  "linkOrphansGated env sessionsChanged rs db =
     (if \<not> te_begins env then Some (rs, None)
      else do {
        (rs, db, affected) \<leftarrow>
          (if \<not> sessionsChanged then Some (rs, db, [])
           else let (db, affected) = linkParents db [];
                    genNow = (case te_gen_roots env of None \<Rightarrow> 0 | Some g \<Rightarrow> g)
                in if genNow = lastRootsGen rs then Some (rs, db, affected)
                   else do {
                     (db, affected) \<leftarrow> linkRoots db affected;
                     Some (rs\<lparr>lastRootsGen := genNow\<rparr>, db, affected) });
        let (db, affected) = linkOpChildren db affected;
        let (db, affected) = linkOpChildrenByToolUse (te_order env) db affected;
        Some (rs, if te_commits env then emitResolverNotify (te_now env) (te_ids env affected) db else None) })"

text \<open>\<open>ResolveOrphans\<close> and the tests run a pass of their own.\<close>

definition linkOrphans :: "'c tick_env \<Rightarrow> resolver \<Rightarrow> 'c db \<Rightarrow> (resolver \<times> 'c db option) option" where
  "linkOrphans env rs db = linkOrphansGated env True rs db"

text \<open>One tick of \<open>loop\<close>.\<close>

definition resolver_tick :: "'c tick_env \<Rightarrow> resolver \<Rightarrow> 'c db \<Rightarrow> (resolver \<times> 'c db) option" where
  "resolver_tick env rs db =
     (if te_deferred env then Some (rs, db)
      else if te_gen env = Some (lastSeenGen rs) then Some (rs, db)
      else let (sessionsChanged, wmAdvanced) = (case te_watermark env of
               None \<Rightarrow> (True, None)
             | Some None \<Rightarrow> (True, None)
             | Some (Some wm) \<Rightarrow> if wm = lastSeenSession rs then (False, None) else (True, Some wm))
      in do {
        (rs, committed) \<leftarrow> linkOrphansGated env sessionsChanged rs db;
        case committed of
          None \<Rightarrow> Some (rs, db)
        | Some db \<Rightarrow>
            (let rs = (case te_gen env of None \<Rightarrow> rs | Some g \<Rightarrow> rs\<lparr>lastSeenGen := g\<rparr>);
                 rs = (case wmAdvanced of None \<Rightarrow> rs | Some wm \<Rightarrow> rs\<lparr>lastSeenSession := wm\<rparr>)
             in Some (rs, db)) })"

text \<open>The watermark that the ingester wires to the loop (\<open>ingester.go\<close>).\<close>

definition sessionLinkWatermark :: "'c db \<Rightarrow> i64" where
  "sessionLinkWatermark db = (case map (\<lambda>e. s_last_activity_ts (snd e)) (sessions db) of
     [] \<Rightarrow> 0 | t # ts \<Rightarrow> fold max64 ts t)"

end
