(* ===== verification/Resolver_Props.thy ===== *)
theory Resolver_Props
  imports Resolver Writer_Props
begin

text \<open>
  The resolver's passes: the recursive query ends and finds the top ancestors, a pass sets the
  roots to them, and what the gates of the loop leave undone.
\<close>

section \<open>Tables under an update\<close>

lemma map_of_update_rows [simp]:
  "map_of (update_rows f tab) k = map_option (\<lambda>r. case f k r of None \<Rightarrow> r | Some r' \<Rightarrow> r') (map_of tab k)"
  unfolding update_rows_def by (rule map_of_map_val)

lemma fst_update_rows [simp]: "map fst (update_rows f tab) = map fst tab"
  by (simp add: update_rows_def case_prod_beta comp_def)

lemma set_update_rows: "set (update_rows f tab) = (\<lambda>(k, r). (k, case f k r of None \<Rightarrow> r | Some r' \<Rightarrow> r')) ` set tab"
  by (simp add: update_rows_def)

section \<open>The recursive query\<close>

text \<open>The topmost ancestor of a session, if the chain of its parents ends.\<close>

inductive top_of :: "(string \<times> 'c session_row) list \<Rightarrow> string \<Rightarrow> string \<Rightarrow> bool" for tab where
  top: "map_of tab i = Some r \<Longrightarrow> s_parent_session_id r = None \<Longrightarrow> top_of tab i i"
| up: "map_of tab i = Some r \<Longrightarrow> s_parent_session_id r = Some p \<Longrightarrow> top_of tab p t \<Longrightarrow> top_of tab i t"

lemma top_of_unique: "top_of tab i t \<Longrightarrow> top_of tab i t' \<Longrightarrow> t = t'"
proof (induction arbitrary: t' rule: top_of.induct)
  case (top i r)
  from top.prems show ?case by (cases rule: top_of.cases) (use top.hyps in simp_all)
next
  case (up i r p t)
  from up.prems show ?case
  proof (cases rule: top_of.cases)
    case (up r' p')
    then show ?thesis using up.IH [of t'] \<open>map_of tab i = Some r\<close> \<open>s_parent_session_id r = Some p\<close> by simp
  qed (use up.hyps in simp)
qed

lemma top_of_mono:
  assumes "top_of tab i t" "\<And>i. map_option s_parent_session_id (map_of tab' i) = map_option s_parent_session_id (map_of tab i)"
  shows "top_of tab' i t"
  using assms(1)
proof (induction rule: top_of.induct)
  case (top i r)
  then show ?case using assms(2) [of i] by (auto intro: top_of.top)
next
  case (up i r p t)
  then show ?case using assms(2) [of i] by (auto intro: top_of.up)
qed

lemma top_of_cong:
  assumes "\<And>i. map_option s_parent_session_id (map_of tab' i) = map_option s_parent_session_id (map_of tab i)"
  shows "top_of tab' i t \<longleftrightarrow> top_of tab i t"
  using top_of_mono [of tab i t tab'] top_of_mono [of tab' i t tab] assms by metis

definition parent_in :: "(string \<times> 'c session_row) list \<Rightarrow> string \<Rightarrow> string option" where
  "parent_in tab i = Option.bind (map_of tab i) s_parent_session_id"

text \<open>
  The loop's invariant: a session is in the queue or in the rows exactly when it has no parent
  or its parent is in the rows, with its topmost ancestor.
\<close>

definition roots_inv :: "(string \<times> 'c session_row) list \<Rightarrow> (string \<times> string) list \<Rightarrow> (string \<times> string) list \<Rightarrow> bool" where
  "roots_inv tab queue rows \<longleftrightarrow> distinct (map fst (queue @ rows)) \<and>
     (\<forall>x\<in>set (queue @ rows). top_of tab (fst x) (snd x)) \<and>
     fst ` set (queue @ rows) = {i \<in> keys tab. case parent_in tab i of None \<Rightarrow> True | Some p \<Rightarrow> p \<in> fst ` set rows}"

lemma parent_in_row: "distinct (map fst tab) \<Longrightarrow> (i, r) \<in> set tab \<Longrightarrow> parent_in tab i = s_parent_session_id r"
  by (simp add: parent_in_def)

lemma children_of:
  assumes "distinct (map fst tab)"
  shows "i \<in> fst ` set (filter (\<lambda>e. s_parent_session_id (snd e) = p) tab) \<longleftrightarrow> i \<in> keys tab \<and> parent_in tab i = p"
  using parent_in_row [OF assms] by (force simp: image_iff)

lemma roots_inv_start:
  assumes "distinct (map fst tab)"
  shows "roots_inv tab (map (\<lambda>e. (fst e, fst e)) (filter (\<lambda>e. s_parent_session_id (snd e) = None) tab)) []"
proof -
  let ?es = "filter (\<lambda>e. s_parent_session_id (snd e) = None) tab"
  have "distinct (map fst (map (\<lambda>e. (fst e, fst e)) ?es))" using distinct_map_filter [OF assms] by (simp add: comp_def)
  moreover have "top_of tab (fst x) (snd x)" if "x \<in> set (map (\<lambda>e. (fst e, fst e)) ?es)" for x
    using that by (auto intro: top_of.top [OF map_of_is_SomeI [OF assms]])
  moreover have "fst ` set (map (\<lambda>e. (fst e, fst e)) ?es) = {i \<in> keys tab. case parent_in tab i of None \<Rightarrow> True | Some p \<Rightarrow> p \<in> fst ` set ([] :: (string \<times> string) list)}"
    using children_of [OF assms, of _ None] by (auto simp: image_image split: option.splits)
  ultimately show ?thesis by (simp add: roots_inv_def)
qed

lemma roots_inv_step:
  assumes d: "distinct (map fst tab)" and inv: "roots_inv tab (x # queue) rows"
  shows "roots_inv tab (queue @ map (\<lambda>e. (fst e, snd x)) (filter (\<lambda>e. s_parent_session_id (snd e) = Some (fst x)) tab)) (x # rows)"
proof -
  let ?ch = "filter (\<lambda>e. s_parent_session_id (snd e) = Some (fst x)) tab"
  have m: "map_of tab i = Some r \<longleftrightarrow> (i, r) \<in> set tab" for i r using d by simp
  have in_ch: "i \<in> fst ` set ?ch \<longleftrightarrow> i \<in> keys tab \<and> parent_in tab i = Some (fst x)" for i
    by (rule children_of [OF d])
  have dist: "distinct (map fst ((x # queue) @ rows))" and
    tops: "\<And>y. y \<in> set ((x # queue) @ rows) \<Longrightarrow> top_of tab (fst y) (snd y)" and
    all: "fst ` set ((x # queue) @ rows) = {i \<in> keys tab. case parent_in tab i of None \<Rightarrow> True | Some p \<Rightarrow> p \<in> fst ` set rows}"
    using inv unfolding roots_inv_def by blast+
  have new: "fst ` set ?ch \<inter> fst ` set ((x # queue) @ rows) = {}"
  proof (rule equals0I, elim IntE)
    fix i assume "i \<in> fst ` set ?ch" "i \<in> fst ` set ((x # queue) @ rows)"
    then have "fst x \<in> fst ` set rows" unfolding in_ch all by simp
    then show False using dist by auto
  qed
  have keys_ch: "fst ` set ?ch \<subseteq> keys tab" by auto
  have "distinct (map fst ?ch)" using d by (rule distinct_map_filter)
  then have "distinct (map fst (queue @ map (\<lambda>e. (fst e, snd x)) ?ch @ x # rows))"
    using dist new by (auto simp: comp_def)
  moreover have "top_of tab (fst y) (snd y)" if "y \<in> set (queue @ map (\<lambda>e. (fst e, snd x)) ?ch @ x # rows)" for y
    using that tops [of x] tops m by (auto intro: top_of.up)
  moreover have "fst ` set (queue @ map (\<lambda>e. (fst e, snd x)) ?ch @ x # rows) =
      {i \<in> keys tab. case parent_in tab i of None \<Rightarrow> True | Some p \<Rightarrow> p \<in> fst ` set (x # rows)}"
  proof -
    have "fst ` set (queue @ map (\<lambda>e. (fst e, snd x)) ?ch @ x # rows) = fst ` set ((x # queue) @ rows) \<union> fst ` set ?ch"
      by (simp add: image_Un image_image) blast
    also have "\<dots> = {i \<in> keys tab. case parent_in tab i of None \<Rightarrow> True | Some p \<Rightarrow> p \<in> fst ` set (x # rows)}"
    proof -
      have "fst ` set ?ch = {i \<in> keys tab. parent_in tab i = Some (fst x)}" using in_ch by blast
      then show ?thesis unfolding all by (auto split: option.splits)
    qed
    finally show ?thesis .
  qed
  ultimately show ?thesis by (simp add: roots_inv_def)
qed

lemma session_roots_loop_ends:
  assumes "distinct (map fst tab)" "roots_inv tab queue rows"
  shows "\<exists>roots. session_roots_loop tab queue rows = Some roots \<and> roots_inv tab [] (rev roots)"
  using assms(2)
proof (induction "card (keys tab - fst ` set rows)" arbitrary: queue rows rule: less_induct)
  case less
  show ?case
  proof (cases queue)
    case Nil
    then show ?thesis using less.prems by (simp add: session_roots_loop.simps)
  next
    case (Cons x q)
    have "fst x \<in> keys tab" "fst x \<notin> fst ` set rows" "finite (keys tab)"
      using less.prems unfolding Cons roots_inv_def by auto
    then have "card (keys tab - fst ` set (x # rows)) < card (keys tab - fst ` set rows)"
      by (intro psubset_card_mono) auto
    from less.hyps [OF this roots_inv_step [OF assms(1) less.prems [unfolded Cons]]]
    show ?thesis by (simp add: Cons session_roots_loop.simps [of tab "x # q"])
  qed
qed

lemma roots_inv_end:
  assumes "roots_inv tab [] rows"
  shows "distinct (map fst rows)" "(i, t) \<in> set rows \<longleftrightarrow> top_of tab i t"
proof -
  show "distinct (map fst rows)" using assms by (simp add: roots_inv_def)
  have tops: "top_of tab i t" if "(i, t) \<in> set rows" for i t using assms that by (force simp: roots_inv_def)
  have all: "i \<in> fst ` set rows \<longleftrightarrow> i \<in> keys tab \<and> (case parent_in tab i of None \<Rightarrow> True | Some p \<Rightarrow> p \<in> fst ` set rows)" for i
    using assms by (auto simp: roots_inv_def)
  have "i \<in> fst ` set rows" if "top_of tab i t" for i t
    using that
  proof (induction rule: top_of.induct)
    case (top i r)
    then have "i \<in> keys tab" by (force dest: map_of_SomeD)
    then show ?case using all [of i] top by (simp add: parent_in_def)
  next
    case (up i r p t)
    then have "i \<in> keys tab" by (force dest: map_of_SomeD)
    then show ?case using all [of i] up by (simp add: parent_in_def)
  qed
  then show "(i, t) \<in> set rows \<longleftrightarrow> top_of tab i t" using tops top_of_unique by fastforce
qed

lemma session_roots_total:
  assumes "distinct (map fst (sessions db))"
  obtains roots where "session_roots db = Some roots" "distinct (map fst roots)"
    "\<And>i t. (i, t) \<in> set roots \<longleftrightarrow> top_of (sessions db) i t"
proof -
  obtain roots where r: "session_roots db = Some roots" and inv: "roots_inv (sessions db) [] (rev roots)"
    using session_roots_loop_ends [OF assms roots_inv_start [OF assms]] by (auto simp: session_roots_def)
  have "distinct (map fst roots)" using roots_inv_end(1) [OF inv] by (simp add: rev_map [symmetric])
  then show ?thesis using that r roots_inv_end(2) [OF inv] by simp
qed

text \<open>
  C36. The recursive query that looks for roots ends, whatever the parents are, cycles included.
  It delivers one row for every session whose chain of parents ends, with the last session of
  the chain, and none for a session on or below a cycle. It needs that ids are unique.
\<close>

theorem session_roots_ends:
  assumes "distinct (map fst (sessions db))"
  shows "\<exists>roots. session_roots db = Some roots \<and> distinct (map fst roots) \<and>
    set roots = {(i, t). top_of (sessions db) i t}"
  by (rule session_roots_total [OF assms]) (intro exI conjI, assumption+, auto)

text \<open>A chain of three sessions beside a cycle of two.\<close>

definition node :: "string \<Rightarrow> string option \<Rightarrow> string \<Rightarrow> json option \<Rightarrow> string \<times> int session_row" where
  "node sid parent root extras =
     (sid, (new_session_row ''src'' sid root 5000)\<lparr>s_parent_session_id := parent, s_extras_json := extras\<rparr>)"

definition demo_tree :: "int db" where
  "demo_tree = empty_db\<lparr>sessions := [node ''d'' (Some ''c'') ''c'' None, node ''c'' (Some ''r'') ''c'' None,
     node ''r'' None ''r'' None, node ''x'' (Some ''y'') ''x'' None, node ''y'' (Some ''x'') ''y'' None]\<rparr>"

lemma demo_tree_ids: "distinct (map fst (sessions demo_tree))"
  by (simp add: demo_tree_def node_def)

lemma demo_tree_roots: "session_roots demo_tree = Some [(''r'', ''r''), (''c'', ''r''), (''d'', ''r'')]"
  by code_simp

lemma session_roots_ends_witness:
  "top_of (sessions demo_tree) ''d'' ''r'' \<and> (\<nexists>t. top_of (sessions demo_tree) ''x'' t)"
proof -
  have "(i, t) \<in> set [(''r'', ''r''), (''c'', ''r''), (''d'', ''r'')] \<longleftrightarrow> top_of (sessions demo_tree) i t" for i t
    using session_roots_ends [OF demo_tree_ids] by (simp add: demo_tree_roots set_eq_iff)
  from this [of "''d''" "''r''"] this [of "''x''"] show ?thesis by simp
qed

section \<open>A pass over parents and roots\<close>

lemma parent_update_rows:
  assumes "\<And>sid r r'. f sid r = Some r' \<Longrightarrow> s_parent_session_id r' = s_parent_session_id r"
  shows "map_option s_parent_session_id (map_of (update_rows f tab) i) = map_option s_parent_session_id (map_of tab i)"
  using assms by (cases "map_of tab i") (auto split: option.splits)

lemma explicit_root_row_Some:
  "explicit_root_row db sid r = Some r' \<Longrightarrow> s_root_session_id r = sid \<and> (\<exists>root. r' = r\<lparr>s_root_session_id := root\<rparr>)"
  by (auto simp: explicit_root_row_def bind_eq_Some_conv split: if_splits)

lemma scan_inner: "set aff \<subseteq> set (fold (\<lambda>rel aff. if nullableString rel = [] then aff else List.insert (nullableString rel) aff) rels aff)"
proof (induction rels arbitrary: aff)
  case (Cons rel rels)
  show ?case using Cons [of "if nullableString rel = [] then aff else List.insert (nullableString rel) aff"]
    by (cases "nullableString rel = []") (simp_all add: fold_Cons)
qed simp

lemma scanLinkedRows_affected: "set aff \<union> fst ` set rows \<subseteq> set (scanLinkedRows rows aff)"
proof (induction rows arbitrary: aff)
  case (Cons x rows)
  obtain c rels where x: "x = (c, rels)" by fastforce
  let ?aff = "fold (\<lambda>rel aff. if nullableString rel = [] then aff else List.insert (nullableString rel) aff) rels (List.insert c aff)"
  have "insert c (set aff) \<subseteq> set ?aff" using scan_inner [of "List.insert c aff" rels] by simp
  moreover have "set ?aff \<union> fst ` set rows \<subseteq> set (scanLinkedRows rows ?aff)" by (rule Cons)
  moreover have "scanLinkedRows (x # rows) aff = scanLinkedRows rows ?aff" by (simp add: scanLinkedRows_def x)
  ultimately show ?case using x by auto
qed (simp add: scanLinkedRows_def)

lemma set_returning: "(k, r') \<in> set (returning f tab) \<longleftrightarrow> (\<exists>r. (k, r) \<in> set tab \<and> f k r = Some r')"
  by (force simp: returning_def List.map_filter_def)

lemma linkRoots_run:
  fixes db :: "'c db"
  assumes d: "distinct (map fst (sessions db))"
  obtains roots aff' where "linkRoots db aff = Some (db\<lparr>sessions := update_rows (transitive_root_row roots)
      (update_rows (explicit_root_row db) (sessions db))\<rparr>, aff')"
    and "distinct (map fst roots)" "\<And>i t. (i, t) \<in> set roots \<longleftrightarrow> top_of (sessions db) i t"
    and "\<And>sid r r'. map_of (sessions db) sid = Some r \<Longrightarrow> explicit_root_row db sid r = Some r' \<Longrightarrow> sid \<in> set aff'"
proof -
  let ?t1 = "update_rows (explicit_root_row db) (sessions db)"
  have d1: "distinct (map fst (sessions (db\<lparr>sessions := ?t1\<rparr>)))" using d by simp
  obtain roots where roots: "session_roots (db\<lparr>sessions := ?t1\<rparr>) = Some roots" "distinct (map fst roots)"
    "\<And>i t. (i, t) \<in> set roots \<longleftrightarrow> top_of (sessions (db\<lparr>sessions := ?t1\<rparr>)) i t"
    by (rule session_roots_total [OF d1]) (rule that)
  have top: "top_of ?t1 i t \<longleftrightarrow> top_of (sessions db) i t" for i t
    by (rule top_of_cong, rule parent_update_rows) (auto dest: explicit_root_row_Some)
  define aff1 where "aff1 = scanLinkedRows (map (\<lambda>(sid, r). (sid, [Some (s_root_session_id r)]))
    (returning (explicit_root_row db) (sessions db))) aff"
  define aff2 where "aff2 = scanLinkedRows (map (\<lambda>(sid, r). (sid, [s_parent_session_id r, Some (s_root_session_id r)]))
    (returning (transitive_root_row roots) ?t1)) aff1"
  have run: "linkRoots db aff = Some (db\<lparr>sessions := update_rows (transitive_root_row roots) ?t1\<rparr>, aff2)"
    using roots(1) by (simp add: linkRoots_def Let_def aff1_def aff2_def)
  have rows: "(i, t) \<in> set roots \<longleftrightarrow> top_of (sessions db) i t" for i t by (simp add: roots(3) top)
  have aff: "sid \<in> set aff2" if "map_of (sessions db) sid = Some r" "explicit_root_row db sid r = Some r'" for sid r r'
  proof -
    let ?xs = "map (\<lambda>(sid, r). (sid, [Some (s_root_session_id r)])) (returning (explicit_root_row db) (sessions db))"
    have "(sid, r') \<in> set (returning (explicit_root_row db) (sessions db))"
      unfolding set_returning using map_of_SomeD [OF that(1)] that(2) by blast
    then have "sid \<in> fst ` set ?xs" by force
    then have "sid \<in> set aff1" using scanLinkedRows_affected [of aff ?xs] unfolding aff1_def by blast
    then show ?thesis unfolding aff2_def using scanLinkedRows_affected [of aff1] by blast
  qed
  show ?thesis by (rule that [OF run roots(2) rows aff])
qed

text \<open>The row of a session after both updates.\<close>

lemma root_after:
  assumes "distinct (map fst roots)" "map_of tab sid = Some r"
  shows "map_of (update_rows (transitive_root_row roots) (update_rows f tab)) sid =
    Some (let r1 = (case f sid r of None \<Rightarrow> r | Some r' \<Rightarrow> r') in
      case map_of roots sid of None \<Rightarrow> r1 | Some t \<Rightarrow> r1\<lparr>s_root_session_id := t\<rparr>)"
proof -
  have "transitive_root_row roots sid r1 = None" if "map_of roots sid = None" for r1 :: "'a session_row"
    using that by (auto simp: transitive_root_row_def list_ex_iff map_of_eq_None_iff)
  moreover have "(case transitive_root_row roots sid r1 of None \<Rightarrow> r1 | Some r' \<Rightarrow> r') = r1\<lparr>s_root_session_id := t\<rparr>"
    if "map_of roots sid = Some t" for r1 :: "'a session_row" and t
  proof (cases "s_root_session_id r1 = t")
    case True
    then have "\<not> list_ex (\<lambda>x. fst x = sid \<and> snd x \<noteq> s_root_session_id r1) roots"
      using that assms(1) by (auto simp: list_ex_iff dest: eq_key_imp_eq_value)
    then have "transitive_root_row roots sid r1 = None" unfolding transitive_root_row_def by (rule if_not_P)
    then show ?thesis using True by simp
  next
    case False
    then have "list_ex (\<lambda>x. fst x = sid \<and> snd x \<noteq> s_root_session_id r1) roots"
      using that assms(1) by (force simp: list_ex_iff)
    then have "transitive_root_row roots sid r1 = Some (r1\<lparr>s_root_session_id := t\<rparr>)"
      using that by (simp add: transitive_root_row_def)
    then show ?thesis by simp
  qed
  ultimately show ?thesis using assms(2) by (auto simp: Let_def split: option.split)
qed

text \<open>The pass over the roots, row by row.\<close>

lemma linkRoots_rows:
  fixes db :: "'c db"
  assumes d: "distinct (map fst (sessions db))"
  obtains db' aff' where "linkRoots db aff = Some (db', aff')"
    and "\<And>sid r t. map_of (sessions db) sid = Some r \<Longrightarrow> top_of (sessions db) sid t \<Longrightarrow>
      map_of (sessions db') sid = Some (r\<lparr>s_root_session_id := t\<rparr>)"
    and "\<And>sid r. map_of (sessions db) sid = Some r \<Longrightarrow> \<nexists>t. top_of (sessions db) sid t \<Longrightarrow>
      map_of (sessions db') sid = Some (case explicit_root_row db sid r of None \<Rightarrow> r | Some r' \<Rightarrow> r')"
    and "\<And>sid r r'. map_of (sessions db) sid = Some r \<Longrightarrow> explicit_root_row db sid r = Some r' \<Longrightarrow> sid \<in> set aff'"
    and "notify db' = notify db"
proof (rule linkRoots_run [OF d, of aff])
  fix roots aff'
  let ?db = "db\<lparr>sessions := update_rows (transitive_root_row roots) (update_rows (explicit_root_row db) (sessions db))\<rparr>"
  assume run: "linkRoots db aff = Some (?db, aff')" and d: "distinct (map fst roots)"
    and top: "\<And>i t. (i, t) \<in> set roots \<longleftrightarrow> top_of (sessions db) i t"
    and aff: "\<And>sid r r'. map_of (sessions db) sid = Some r \<Longrightarrow> explicit_root_row db sid r = Some r' \<Longrightarrow> sid \<in> set aff'"
  have ended: "map_of (sessions ?db) sid = Some (r\<lparr>s_root_session_id := t\<rparr>)"
    if "map_of (sessions db) sid = Some r" "top_of (sessions db) sid t" for sid r t
  proof -
    have "map_of roots sid = Some t" using that(2) top d by simp
    then have "map_of (sessions ?db) sid = Some ((case explicit_root_row db sid r of None \<Rightarrow> r | Some r' \<Rightarrow> r')\<lparr>s_root_session_id := t\<rparr>)"
      by (simp add: root_after [OF d that(1)] Let_def del: map_of_update_rows)
    then show ?thesis
      by (cases "explicit_root_row db sid r") (auto dest: explicit_root_row_Some simp del: map_of_update_rows)
  qed
  have cyclic: "map_of (sessions ?db) sid = Some (case explicit_root_row db sid r of None \<Rightarrow> r | Some r' \<Rightarrow> r')"
    if "map_of (sessions db) sid = Some r" "\<nexists>t. top_of (sessions db) sid t" for sid r
  proof -
    have "map_of roots sid = None" using that(2) top by (meson not_None_eq map_of_SomeD)
    then show ?thesis by (simp add: root_after [OF d that(1)] del: map_of_update_rows)
  qed
  show ?thesis by (rule that [OF run ended cyclic aff]) simp_all
qed

text \<open>
  C37. The pass over the roots: it ends, and afterwards every session whose chain of parents ends
  has the last session of the chain as its root, whatever root was stored or stashed before. A
  stashed root counts only for a session on or below a cycle of parents.
\<close>

theorem roots_resolved:
  fixes db :: "'c db"
  assumes "distinct (map fst (sessions db))"
  shows "\<exists>db' aff'. linkRoots db aff = Some (db', aff') \<and>
    (\<forall>sid r. map_of (sessions db) sid = Some r \<longrightarrow>
      (\<forall>t. top_of (sessions db) sid t \<longrightarrow> map_of (sessions db') sid = Some (r\<lparr>s_root_session_id := t\<rparr>)) \<and>
      ((\<nexists>t. top_of (sessions db) sid t) \<longrightarrow> map_of (sessions db') sid =
         Some (case explicit_root_row db sid r of None \<Rightarrow> r | Some r' \<Rightarrow> r')))"
  by (rule linkRoots_rows [OF assms, of aff]) blast

lemma roots_resolved_witness:
  "\<exists>db' aff. linkRoots demo_tree [] = Some (db', aff) \<and> map_option s_root_session_id (map_of (sessions db') ''d'') = Some ''r''"
proof -
  obtain r where r: "map_of (sessions demo_tree) ''d'' = Some r" by (simp add: demo_tree_def node_def)
  have "top_of (sessions demo_tree) ''d'' ''r''"
    by (rule session_roots_total [OF demo_tree_ids]) (simp add: demo_tree_roots, blast)
  with roots_resolved [OF demo_tree_ids, of "[]"] r show ?thesis by fastforce
qed

section \<open>Only links change\<close>

definition bare_session :: "'c session_row \<Rightarrow> 'c session_row" where
  "bare_session r = r\<lparr>s_parent_session_id := None, s_root_session_id := []\<rparr>"

definition bare_op :: "'c op_row \<Rightarrow> 'c op_row" where
  "bare_op r = r\<lparr>op_child_session_id := None\<rparr>"

definition relinked :: "'c db \<Rightarrow> 'c db \<Rightarrow> bool" where
  "relinked db db' \<longleftrightarrow> turns db' = turns db \<and>
     map (map_prod id bare_session) (sessions db') = map (map_prod id bare_session) (sessions db) \<and>
     map (map_prod id bare_op) (ops db') = map (map_prod id bare_op) (ops db)"

lemma relinked_same: "turns db' = turns db \<Longrightarrow> sessions db' = sessions db \<Longrightarrow> ops db' = ops db \<Longrightarrow> relinked db db'"
  by (simp add: relinked_def)

lemma relinked_trans: "relinked db db' \<Longrightarrow> relinked db' db'' \<Longrightarrow> relinked db db''"
  by (simp add: relinked_def)

lemma update_rows_bare:
  assumes "\<And>k r r'. f k r = Some r' \<Longrightarrow> g r' = g r"
  shows "map (map_prod id g) (update_rows f tab) = map (map_prod id g) tab"
  using assms by (induction tab) (auto simp: update_rows_def split: option.split)

lemma bare_rows:
  "parent_row db sid r = Some r' \<Longrightarrow> bare_session r' = bare_session r"
  "explicit_root_row db sid r = Some r' \<Longrightarrow> bare_session r' = bare_session r"
  "transitive_root_row roots sid r = Some r' \<Longrightarrow> bare_session r' = bare_session r"
  "op_child_row db pid q = Some q' \<Longrightarrow> bare_op q' = bare_op q"
  "op_tool_child_row order db pid q = Some q' \<Longrightarrow> bare_op q' = bare_op q"
  by (auto simp: parent_row_def explicit_root_row_def transitive_root_row_def op_child_row_def op_tool_child_row_def
      bare_session_def bare_op_def bind_eq_Some_conv split: if_splits)

lemma relinked_sessions:
  assumes "\<And>k r r'. f k r = Some r' \<Longrightarrow> bare_session r' = bare_session r"
  shows "relinked db (db\<lparr>sessions := update_rows f (sessions db)\<rparr>)"
  using update_rows_bare [OF assms] by (simp add: relinked_def)

lemma relinked_ops:
  assumes "\<And>k r r'. f k r = Some r' \<Longrightarrow> bare_op r' = bare_op r"
  shows "relinked db (fst (link_ops f db aff))"
  using update_rows_bare [OF assms] by (simp add: relinked_def link_ops_def)

lemma linkParents_relinked: "relinked db (fst (linkParents db aff))"
  unfolding linkParents_def fst_conv by (rule relinked_sessions) (rule bare_rows(1))

lemma linkRoots_relinked:
  assumes "linkRoots db aff = Some (db', aff')"
  shows "relinked db db'"
proof -
  let ?db1 = "db\<lparr>sessions := update_rows (explicit_root_row db) (sessions db)\<rparr>"
  obtain roots where "db' = ?db1\<lparr>sessions := update_rows (transitive_root_row roots) (sessions ?db1)\<rparr>"
    using assms by (auto simp: linkRoots_def Let_def bind_eq_Some_conv)
  moreover have "relinked db ?db1" by (rule relinked_sessions) (rule bare_rows(2))
  moreover have "relinked ?db1 (?db1\<lparr>sessions := update_rows (transitive_root_row roots) (sessions ?db1)\<rparr>)"
    by (rule relinked_sessions) (rule bare_rows(3))
  ultimately show ?thesis using relinked_trans by simp
qed

lemma link_op_passes_relinked:
  "relinked db (fst (linkOpChildren db aff))" "relinked db (fst (linkOpChildrenByToolUse order db aff))"
  unfolding linkOpChildren_def linkOpChildrenByToolUse_def by (rule relinked_ops, erule bare_rows)+

lemma link_ops_frame [simp]:
  "sessions (fst (link_ops f db aff)) = sessions db" "notify (fst (link_ops f db aff)) = notify db"
  by (simp_all add: link_ops_def)

lemma link_ops_affected: "set aff \<subseteq> set (snd (link_ops f db aff))"
  using scanLinkedRows_affected [of aff] by (simp add: link_ops_def)

lemma op_passes_frame:
  "sessions (fst (linkOpChildren db aff)) = sessions db" "notify (fst (linkOpChildren db aff)) = notify db"
  "sessions (fst (linkOpChildrenByToolUse order db aff)) = sessions db"
  "notify (fst (linkOpChildrenByToolUse order db aff)) = notify db"
  by (simp_all add: linkOpChildren_def linkOpChildrenByToolUse_def)

lemma op_passes_affected:
  "set aff \<subseteq> set (snd (linkOpChildren db aff))" "set aff \<subseteq> set (snd (linkOpChildrenByToolUse order db aff))"
  by (simp_all add: linkOpChildren_def linkOpChildrenByToolUse_def link_ops_affected)

lemma emit_affected_rows:
  assumes "emit_affected ts ids db = Some db'"
  shows "sessions db' = sessions db \<and> turns db' = turns db \<and> ops db' = ops db \<and> (\<exists>new. notify db' = notify db @ new \<and>
    (\<forall>sid\<in>set ids. \<exists>n\<in>set new. nt_kind n = ''session_changed'' \<and> nt_session_id n = Some sid \<and>
      nt_root_session_id n = lookupRootSessionID sid db))"
  using assms
proof (induction ids arbitrary: db)
  case (Cons sid ids)
  let ?n = "\<lambda>root. (notify_of ts ''session_changed'')\<lparr>nt_session_id := Some sid, nt_root_session_id := Some root\<rparr>"
  obtain root where root: "lookupRootSessionID sid db = Some root"
    and run: "emit_affected ts ids (insert_notify (?n root) db) = Some db'"
    using Cons.prems by (auto simp: bind_eq_Some_conv)
  obtain new where new: "notify db' = (notify db @ [?n root]) @ new"
    "\<And>s. s \<in> set ids \<Longrightarrow> \<exists>n\<in>set new. nt_kind n = ''session_changed'' \<and> nt_session_id n = Some s \<and>
      nt_root_session_id n = lookupRootSessionID s db"
    and rest: "sessions db' = sessions db" "turns db' = turns db" "ops db' = ops db"
    using Cons.IH [OF run] by (auto simp: insert_notify_def lookupRootSessionID_def)
  have "\<exists>n\<in>set ([?n root] @ new). nt_kind n = ''session_changed'' \<and> nt_session_id n = Some s \<and>
      nt_root_session_id n = lookupRootSessionID s db" if "s \<in> set (sid # ids)" for s
    using that new(2) [of s] root by (auto simp: notify_of_def)
  then show ?case using new(1) rest by (intro conjI exI [of _ "[?n root] @ new"]) simp_all
qed simp

lemma emitResolverNotify_rows:
  assumes "emitResolverNotify ts ids db = Some db'"
  shows "sessions db' = sessions db" "turns db' = turns db" "ops db' = ops db" "\<exists>new. notify db' = notify db @ new \<and>
    (\<forall>sid\<in>set ids. \<exists>n\<in>set new. nt_kind n = ''session_changed'' \<and> nt_session_id n = Some sid \<and>
      nt_root_session_id n = lookupRootSessionID sid db)"
proof -
  have "sessions db' = sessions db \<and> turns db' = turns db \<and> ops db' = ops db \<and> (\<exists>new. notify db' = notify db @ new \<and>
    (\<forall>sid\<in>set ids. \<exists>n\<in>set new. nt_kind n = ''session_changed'' \<and> nt_session_id n = Some sid \<and>
      nt_root_session_id n = lookupRootSessionID sid db))"
  proof (cases "ids = []")
    case False
    then obtain db1 where e: "emit_affected ts ids db = Some db1" and db': "db' = insert_notify (notify_of ts ''stats_invalidated'') db1"
      using assms by (auto simp: emitResolverNotify_def)
    obtain new where "notify db1 = notify db @ new" "\<forall>sid\<in>set ids. \<exists>n\<in>set new. nt_kind n = ''session_changed'' \<and>
        nt_session_id n = Some sid \<and> nt_root_session_id n = lookupRootSessionID sid db"
      using emit_affected_rows [OF e] by blast
    then show ?thesis
      using emit_affected_rows [OF e]
      by (intro conjI exI [of _ "new @ [notify_of ts ''stats_invalidated'']"]) (auto simp: db' insert_notify_def)
  qed (use assms in \<open>simp add: emitResolverNotify_def\<close>)
  then show "sessions db' = sessions db" "turns db' = turns db" "ops db' = ops db" "\<exists>new. notify db' = notify db @ new \<and>
    (\<forall>sid\<in>set ids. \<exists>n\<in>set new. nt_kind n = ''session_changed'' \<and> nt_session_id n = Some sid \<and>
      nt_root_session_id n = lookupRootSessionID sid db)" by blast+
qed

lemma emit_relinked: "emitResolverNotify ts ids db = Some db' \<Longrightarrow> relinked db db'"
  using emitResolverNotify_rows [of ts ids db db'] by (simp add: relinked_same)

text \<open>A pass, cut into its session part and the rest.\<close>

abbreviation roots_gen :: "'c tick_env \<Rightarrow> i64" where
  "roots_gen env \<equiv> (case te_gen_roots env of None \<Rightarrow> 0 | Some g \<Rightarrow> g)"

definition session_part :: "'c tick_env \<Rightarrow> bool \<Rightarrow> resolver \<Rightarrow> 'c db \<Rightarrow> (resolver \<times> 'c db \<times> string list) option" where
  "session_part env sessionsChanged rs db =
     (if \<not> sessionsChanged then Some (rs, db, [])
      else let (db, affected) = linkParents db []
           in if roots_gen env = lastRootsGen rs then Some (rs, db, affected)
              else do {
                (db, affected) \<leftarrow> linkRoots db affected;
                Some (rs\<lparr>lastRootsGen := roots_gen env\<rparr>, db, affected) })"

lemma linkOrphansGated_parts:
  assumes "linkOrphansGated env ch rs db = Some (rs', r)" "te_begins env"
  obtains db1 aff db3 aff3 where "session_part env ch rs db = Some (rs', db1, aff)"
    and "sessions db3 = sessions db1" "notify db3 = notify db1" "relinked db1 db3" "set aff \<subseteq> set aff3"
    and "r = (if te_commits env then emitResolverNotify (te_now env) (te_ids env aff3) db3 else None)"
proof -
  define finish where "finish = (\<lambda>db affected. let (db, affected) = linkOpChildren db affected;
        (db, affected) = linkOpChildrenByToolUse (te_order env) db affected
      in if te_commits env then emitResolverNotify (te_now env) (te_ids env affected) db else None)"
  have "linkOrphansGated env ch rs db = Option.bind (session_part env ch rs db) (\<lambda>(rs, db, affected). Some (rs, finish db affected))"
    using assms(2) by (simp add: linkOrphansGated_def session_part_def finish_def Let_def case_prod_beta)
  then obtain db1 aff where part: "session_part env ch rs db = Some (rs', db1, aff)" and r: "r = finish db1 aff"
    using assms(1) by (cases "session_part env ch rs db") (auto split: prod.splits)
  obtain db2 aff2 where 2: "linkOpChildren db1 aff = (db2, aff2)" by fastforce
  obtain db3 aff3 where 3: "linkOpChildrenByToolUse (te_order env) db2 aff2 = (db3, aff3)" by fastforce
  show ?thesis
  proof (rule that [OF part])
    show "sessions db3 = sessions db1" "notify db3 = notify db1"
      using op_passes_frame(1,2) [of db1 aff] op_passes_frame(3,4) [of "te_order env" db2 aff2] by (simp_all add: 2 3)
    show "relinked db1 db3"
      using relinked_trans [OF link_op_passes_relinked(1) [of db1 aff]] link_op_passes_relinked(2) [of db2 "te_order env" aff2]
      by (simp add: 2 3)
    show "set aff \<subseteq> set aff3"
      using op_passes_affected(1) [of aff db1] op_passes_affected(2) [of aff2 "te_order env" db2] by (simp add: 2 3)
    show "r = (if te_commits env then emitResolverNotify (te_now env) (te_ids env aff3) db3 else None)"
      using r by (simp add: finish_def 2 3)
  qed
qed

lemma session_part_relinked:
  assumes "session_part env ch rs db = Some (rs', db', aff)"
  shows "relinked db db'"
proof -
  have p: "relinked db (fst (linkParents db []))" by (rule linkParents_relinked)
  then show ?thesis
    using assms relinked_trans [OF p linkRoots_relinked] relinked_same [of db db]
    by (auto simp: session_part_def bind_eq_Some_conv Let_def split: if_splits prod.splits)
qed

lemma resolver_pass_relinked:
  assumes "linkOrphansGated env ch rs db = Some (rs', Some db')"
  shows "relinked db db'"
proof -
  have b: "te_begins env" using assms by (auto simp: linkOrphansGated_def split: if_splits)
  obtain db1 aff db3 aff3 where "session_part env ch rs db = Some (rs', db1, aff)" "relinked db1 db3"
    "Some db' = (if te_commits env then emitResolverNotify (te_now env) (te_ids env aff3) db3 else None)"
    by (rule linkOrphansGated_parts [OF assms b])
  then show ?thesis
    using session_part_relinked relinked_trans emit_relinked by (metis option.distinct(1))
qed

lemma resolver_tick_relinked:
  assumes "resolver_tick env rs db = Some (rs', db')"
  shows "relinked db db'"
  using assms resolver_pass_relinked [of env _ rs db] relinked_same [of db db]
  by (auto simp: resolver_tick_def bind_eq_Some_conv Let_def split: if_splits option.splits prod.splits)

section \<open>What the pass and its gates leave undone\<close>

lemma find_session_update:
  assumes "\<And>sid r r'. f sid r = Some r' \<Longrightarrow> s_source_id r' = s_source_id r \<and> s_native_id r' = s_native_id r"
  shows "find_session src n (db\<lparr>sessions := update_rows f (sessions db)\<rparr>) = find_session src n db"
proof -
  have "map_option fst (find (\<lambda>e. s_source_id (snd e) = src \<and> s_native_id (snd e) = n) (update_rows f tab)) =
      map_option fst (find (\<lambda>e. s_source_id (snd e) = src \<and> s_native_id (snd e) = n) tab)" for tab
  proof (induction tab)
    case (Cons e tab)
    obtain k r where e: "e = (k, r)" by fastforce
    show ?case
    proof (cases "f k r")
      case (Some r')
      then show ?thesis using Cons assms [OF Some] by (simp add: update_rows_def e)
    qed (use Cons in \<open>simp add: update_rows_def e\<close>)
  qed (simp add: update_rows_def)
  then show ?thesis by (simp add: find_session_def)
qed

lemma parent_row_Some: "parent_row db sid r = Some r' \<Longrightarrow> s_parent_session_id r = None \<and> (\<exists>p. r' = r\<lparr>s_parent_session_id := Some p\<rparr>)"
  by (auto simp: parent_row_def bind_eq_Some_conv split: if_splits)

lemma find_session_linkParents: "find_session src n (fst (linkParents db aff)) = find_session src n db"
  unfolding linkParents_def fst_conv by (rule find_session_update) (auto dest: parent_row_Some)

text \<open>
  C38. An orphan whose parent is unknown but whose stashed root is stored is never settled. Every
  pass that looks at the roots first gives it that root and then, being without a parent, makes
  it its own root again: the row stays as it was, and yet every such pass announces it as
  changed.
\<close>

theorem orphan_rewritten_every_pass:
  fixes db db' :: "'c db"
  assumes d: "distinct (map fst (sessions db))" and r: "map_of (sessions db) sid = Some r"
    and own: "s_root_session_id r = sid" and orphan: "s_parent_session_id r = None" "parent_row db sid r = None"
    and root: "explicit_root_row db sid r \<noteq> None" and gen: "roots_gen env \<noteq> lastRootsGen rs"
    and ids: "\<And>xs. set (te_ids env xs) = set xs"
    and run: "linkOrphansGated env True rs db = Some (rs', Some db')"
  shows "map_of (sessions db') sid = Some r \<and> (\<exists>new. notify db' = notify db @ new \<and>
    (\<exists>n\<in>set new. nt_kind n = ''session_changed'' \<and> nt_session_id n = Some sid \<and> nt_root_session_id n = Some sid))"
proof -
  have "te_begins env" using run by (auto simp: linkOrphansGated_def split: if_splits)
  from linkOrphansGated_parts [OF run this] obtain db2 aff db3 aff3 where part: "session_part env True rs db = Some (rs', db2, aff)"
    and 3: "sessions db3 = sessions db2" "notify db3 = notify db2" "set aff \<subseteq> set aff3"
    and e: "Some db' = (if te_commits env then emitResolverNotify (te_now env) (te_ids env aff3) db3 else None)" by metis
  obtain db1 aff1 where 1: "linkParents db [] = (db1, aff1)" by fastforce
  have r1: "map_of (sessions db1) sid = Some r" and d1: "distinct (map fst (sessions db1))" and n1: "notify db1 = notify db"
    using 1 r orphan(2) d by (auto simp: linkParents_def)
  have "find_session src n db1 = find_session src n db" for src n using find_session_linkParents [of src n db "[]"] by (simp add: 1)
  then have root1: "explicit_root_row db1 sid r = explicit_root_row db sid r"
    by (cases "stashed ''rootNativeId'' (s_extras_json r)") (simp_all add: explicit_root_row_def)
  have top: "top_of (sessions db1) sid sid" by (rule top_of.top [OF r1 orphan(1)])
  obtain dbx affx where x: "linkRoots db1 aff1 = Some (dbx, affx)" "map_of (sessions dbx) sid = Some (r\<lparr>s_root_session_id := sid\<rparr>)"
    "sid \<in> set affx" "notify dbx = notify db1"
  proof (rule linkRoots_rows [OF d1, of aff1])
    fix dbx affx
    assume run: "linkRoots db1 aff1 = Some (dbx, affx)" and n: "notify dbx = notify db1"
      and a: "\<And>sid r t. map_of (sessions db1) sid = Some r \<Longrightarrow> top_of (sessions db1) sid t \<Longrightarrow>
        map_of (sessions dbx) sid = Some (r\<lparr>s_root_session_id := t\<rparr>)"
      and b: "\<And>sid r r'. map_of (sessions db1) sid = Some r \<Longrightarrow> explicit_root_row db1 sid r = Some r' \<Longrightarrow> sid \<in> set affx"
    have "sid \<in> set affx" using b [OF r1] root root1 by auto
    then show thesis using that [OF run a [OF r1 top]] n by blast
  qed
  have db2: "db2 = dbx" "aff = affx" using part gen by (simp_all add: session_part_def 1 x(1))
  have same: "r\<lparr>s_root_session_id := sid\<rparr> = r" using own by (cases r) simp
  have e: "emitResolverNotify (te_now env) (te_ids env aff3) db3 = Some db'" using e by (simp split: if_splits)
  from emitResolverNotify_rows(4) [OF e] obtain new where new: "notify db' = notify db3 @ new"
    "\<forall>s\<in>set (te_ids env aff3). \<exists>n\<in>set new. nt_kind n = ''session_changed'' \<and> nt_session_id n = Some s \<and>
      nt_root_session_id n = lookupRootSessionID s db3" by blast
  have row: "map_of (sessions db3) sid = Some r" using x(2) same 3(1) db2 by simp
  have "sid \<in> set (te_ids env aff3)" using ids 3(3) x(3) db2 by auto
  then obtain n where "n \<in> set new" "nt_kind n = ''session_changed''" "nt_session_id n = Some sid"
    "nt_root_session_id n = lookupRootSessionID sid db3" using new(2) by blast
  then show ?thesis
    using new(1) row emitResolverNotify_rows(1) [OF e] own 3(2) db2 x(4) n1 by (auto simp: lookupRootSessionID_def)
qed

definition stash :: "(string \<times> json) list \<Rightarrow> json option" where
  "stash kvs = Some (JObj [(''aiViewer'', JObj kvs)])"

definition demo_orphan :: "int db" where
  "demo_orphan = ensureSourceRow ''src'' ''codex'' ''/tmp'' True []
     (empty_db\<lparr>sessions := [node ''r'' None ''r'' None,
       node ''o'' None ''o'' (stash [(''parentNativeId'', JStr ''p''), (''rootNativeId'', JStr ''r'')])]\<rparr>)"

definition demo_tick :: "bool \<Rightarrow> i64 option option \<Rightarrow> int tick_env" where
  "demo_tick commits wm = \<lparr>te_deferred = False, te_gen = Some 2, te_gen_roots = Some 2, te_watermark = wm, te_begins = True,
     te_commits = commits, te_now = 9000, te_order = rev, te_ids = rev\<rparr>"

lemma demo_orphan_pass:
  "case linkOrphansGated (demo_tick True None) True newResolver demo_orphan of Some (_, Some _) \<Rightarrow> True | _ \<Rightarrow> False"
  by code_simp

lemma demo_orphan_row:
  "case map_of (sessions demo_orphan) ''o'' of None \<Rightarrow> False
   | Some r \<Rightarrow> s_root_session_id r = ''o'' \<and> s_parent_session_id r = None \<and> parent_row demo_orphan ''o'' r = None \<and>
       explicit_root_row demo_orphan ''o'' r \<noteq> None"
  by code_simp

lemma orphan_rewritten_every_pass_witness:
  "\<exists>rs db'. linkOrphansGated (demo_tick True None) True newResolver demo_orphan = Some (rs, Some db') \<and>
     map_option s_root_session_id (map_of (sessions db') ''o'') = Some ''o'' \<and>
     Some ''o'' \<in> set (map nt_session_id (notify db'))"
proof -
  obtain rs db' where run: "linkOrphansGated (demo_tick True None) True newResolver demo_orphan = Some (rs, Some db')"
    using demo_orphan_pass by (auto split: option.splits)
  obtain r where r: "map_of (sessions demo_orphan) ''o'' = Some r" "s_root_session_id r = ''o''" "s_parent_session_id r = None"
      "parent_row demo_orphan ''o'' r = None" "explicit_root_row demo_orphan ''o'' r \<noteq> None"
    using demo_orphan_row by (auto split: option.splits)
  have d: "distinct (map fst (sessions demo_orphan))" by (simp add: demo_orphan_def ensureSourceRow_def node_def)
  have "roots_gen (demo_tick True None) \<noteq> lastRootsGen newResolver" by (simp add: demo_tick_def newResolver_def)
  moreover have "set (te_ids (demo_tick True None) xs) = set xs" for xs by (simp add: demo_tick_def)
  ultimately have "map_of (sessions db') ''o'' = Some r" "Some ''o'' \<in> set (map nt_session_id (notify db'))"
    using orphan_rewritten_every_pass [OF d r(1-5) _ _ run] by force+
  then show ?thesis using run r(2) by auto
qed

text \<open>The watermark is the latest activity.\<close>

lemma fold_max64_mem: "fold max64 ts t \<in> set (t # ts)"
proof (induction ts arbitrary: t)
  case (Cons a ts)
  have "max64 a t \<in> {a, t}" by (simp add: max64_def)
  then show ?case using Cons [of "max64 a t"] by auto
qed simp

definition latest :: "(string \<times> 'c session_row) list \<Rightarrow> int \<Rightarrow> bool" where
  "latest tab m \<longleftrightarrow> (\<exists>e\<in>set tab. sint (s_last_activity_ts (snd e)) = m) \<and> (\<forall>e\<in>set tab. sint (s_last_activity_ts (snd e)) \<le> m)"

lemma latest_watermark:
  assumes "sessions db \<noteq> []" shows "latest (sessions db) (sint (sessionLinkWatermark db))"
proof -
  let ?ts = "map (\<lambda>e. s_last_activity_ts (snd e)) (sessions db)"
  obtain t ts where ts: "?ts = t # ts" using assms by (cases "sessions db") simp_all
  then have wm: "sessionLinkWatermark db = fold max64 ts t" by (simp add: sessionLinkWatermark_def)
  have "sessionLinkWatermark db \<in> set ?ts" unfolding wm ts by (rule fold_max64_mem)
  then obtain e where e: "e \<in> set (sessions db)" "sessionLinkWatermark db = s_last_activity_ts (snd e)"
    unfolding set_map by (rule imageE)
  have "sint x \<le> sint (sessionLinkWatermark db)" if "x \<in> set ?ts" for x
    using that fold_max64_ge [of x ts t] fold_max64_from [of t ts] unfolding wm ts by auto
  then have "sint (s_last_activity_ts (snd x)) \<le> sint (sessionLinkWatermark db)" if "x \<in> set (sessions db)" for x
    using imageI [OF that, of "\<lambda>e. s_last_activity_ts (snd e)"] unfolding set_map by blast
  then show ?thesis unfolding latest_def using e by (intro conjI bexI [OF _ e(1)] ballI) simp_all
qed

lemma latest_unique: "latest tab m \<Longrightarrow> latest tab m' \<Longrightarrow> m = m'"
  unfolding latest_def by (metis order_antisym)

lemma latest_put:
  assumes "distinct (map fst tab)" "latest tab m" "sint (s_last_activity_ts x) \<le> m"
    and "\<And>r. map_of tab k = Some r \<Longrightarrow> sint (s_last_activity_ts r) \<le> sint (s_last_activity_ts x)"
  shows "latest (alist_put k x tab) m"
proof -
  have d: "distinct (map fst (alist_put k x tab))" using assms(1) by simp
  have mem: "(i, r) \<in> set (alist_put k x tab) \<longleftrightarrow> (if i = k then r = x else (i, r) \<in> set tab)" for i r
    using map_of_eq_Some_iff [OF d, of i r] map_of_eq_Some_iff [OF assms(1), of i r] by auto
  obtain i r where e: "(i, r) \<in> set tab" "sint (s_last_activity_ts r) = m" using assms(2) by (auto simp: latest_def)
  have "\<exists>e\<in>set (alist_put k x tab). sint (s_last_activity_ts (snd e)) = m"
  proof (cases "i = k")
    case True
    then have "sint (s_last_activity_ts x) = m" using assms(3,4) e assms(1) by force
    then show ?thesis using mem [of k x] by force
  qed (use e mem [of i r] in force)
  moreover have "\<forall>e\<in>set (alist_put k x tab). sint (s_last_activity_ts (snd e)) \<le> m"
    using assms(2,3) by (auto simp: mem latest_def split: if_splits)
  ultimately show ?thesis by (simp add: latest_def)
qed

lemma watermark_late_start:
  assumes d: "distinct (map fst (sessions db))" and ne: "sessions db \<noteq> []"
    and run: "applySessionStarted e (w, db) = Some (w', db')" and late: "sint (Ts e) \<le> sint (sessionLinkWatermark db)"
  shows "sessionLinkWatermark db' = sessionLinkWatermark db"
proof -
  let ?sid = "session_id_of w (sst_NativeID e)" and ?x = "started_session_row e (w, db)"
  define x where "x = (case map_of (sessions db) ?sid of None \<Rightarrow> ?x | Some r \<Rightarrow> session_on_conflict ?x r)"
  have s: "sessions db' = alist_put ?sid x (sessions db)"
    using run by (auto simp: applySessionStarted_def Let_def upsert_row_def x_def split: if_splits)
  note old = latest_watermark [OF ne]
  have new: "s_last_activity_ts ?x = Ts e" by (simp add: started_session_row_def new_session_row_def Let_def)
  have conf: "s_last_activity_ts (session_on_conflict ?x r) = max64 (s_last_activity_ts r) (Ts e)" for r
    by (simp add: session_on_conflict_def Let_def new)
  have bound: "sint (s_last_activity_ts r) \<le> sint (sessionLinkWatermark db)" if "map_of (sessions db) ?sid = Some r" for r
    using old map_of_SomeD [OF that] by (force simp: latest_def)
  have "latest (sessions db') (sint (sessionLinkWatermark db))"
    unfolding s
  proof (rule latest_put [OF d old])
    show "sint (s_last_activity_ts x) \<le> sint (sessionLinkWatermark db)"
      using late bound by (auto simp: x_def conf new max64_def split: option.split)
    show "sint (s_last_activity_ts r) \<le> sint (s_last_activity_ts x)" if "map_of (sessions db) ?sid = Some r" for r
      using that max64_ge(1) [of "s_last_activity_ts r"] by (simp add: x_def conf)
  qed
  moreover have "sessions db' \<noteq> []" unfolding s by (cases "sessions db") (auto split: if_splits)
  ultimately show ?thesis using latest_watermark latest_unique by (metis sint_eq_iff)
qed

lemma tick_without_sessions:
  assumes "te_watermark env = Some (Some (lastSeenSession rs))" "resolver_tick env rs db = Some (rs', db')"
  shows "sessions db' = sessions db" "lastSeenSession rs' = lastSeenSession rs"
proof -
  have pass: "rs1 = rs \<and> (case r of None \<Rightarrow> True | Some db1 \<Rightarrow> sessions db1 = sessions db)"
    if "linkOrphansGated env False rs db = Some (rs1, r)" for rs1 r
  proof (cases "te_begins env")
    case True
    from linkOrphansGated_parts [OF that True] obtain db1 aff db3 aff3
      where "session_part env False rs db = Some (rs1, db1, aff)" "sessions db3 = sessions db1"
        "r = (if te_commits env then emitResolverNotify (te_now env) (te_ids env aff3) db3 else None)" by metis
    then show ?thesis
      using emitResolverNotify_rows(1) [of "te_now env" "te_ids env aff3" db3]
      by (auto simp: session_part_def split: option.split)
  qed (use that in \<open>simp add: linkOrphansGated_def\<close>)
  show "sessions db' = sessions db" "lastSeenSession rs' = lastSeenSession rs"
    using assms pass
    by (auto simp: resolver_tick_def bind_eq_Some_conv Let_def split: if_splits option.splits)
qed

text \<open>
  C39. The watermark misses parents. When a session starts that is not younger than the latest
  activity known, as a parent that is read after its busy child, the watermark does not move
  and the next tick leaves every session as it is: the waiting children stay without their
  parent, until some session shows a later activity.
\<close>

theorem late_parent_missed:
  assumes "distinct (map fst (sessions db))" and "sessions db \<noteq> []"
    and "applySessionStarted e (w, db) = Some (w', db1)" and "sint (Ts e) \<le> sint (sessionLinkWatermark db)"
    and "lastSeenSession rs = sessionLinkWatermark db" and "te_watermark env = Some (Some (sessionLinkWatermark db1))"
    and "resolver_tick env rs db1 = Some (rs', db2)"
  shows "sessions db2 = sessions db1 \<and> lastSeenSession rs' = lastSeenSession rs"
  using tick_without_sessions [OF _ assms(7)] watermark_late_start [OF assms(1-4)] assms(5,6) by simp

definition demo_late :: SessionStartedEvent where
  "demo_late = \<lparr>SourceID = ''src'', SourceSeq = 3, Ts = 1000, sst_NativeID = ''p'', sst_RootNativeID = [], sst_ParentNativeID = [],
     sst_ParentOpKey = [], sst_Kind = KindRoot, sst_AgentName = [], sst_Model = [], sst_Cwd = [], sst_CallPath = [],
     sst_Provider = [], sst_ProviderAlias = [], sst_Extras = []\<rparr>"

definition demo_seen :: resolver where
  "demo_seen = \<lparr>lastSeenGen = 1, lastSeenSession = 5000, lastRootsGen = 1\<rparr>"

lemma demo_late_run:
  "case applySessionStarted demo_late (demo_writer, demo_orphan) of None \<Rightarrow> False
   | Some (w, db1) \<Rightarrow> (case map_of (sessions db1) ''o'' of None \<Rightarrow> False
      | Some r \<Rightarrow> s_parent_session_id r = None \<and> parent_row db1 ''o'' r \<noteq> None \<and>
          resolver_tick (demo_tick True (Some (Some (sessionLinkWatermark db1)))) demo_seen db1 \<noteq> None)"
  by code_simp

lemma late_parent_missed_witness:
  "\<exists>w db1 rs db2 r. applySessionStarted demo_late (demo_writer, demo_orphan) = Some (w, db1) \<and>
     resolver_tick (demo_tick True (Some (Some (sessionLinkWatermark db1)))) demo_seen db1 = Some (rs, db2) \<and>
     map_of (sessions db2) ''o'' = Some r \<and> s_parent_session_id r = None \<and> parent_row db1 ''o'' r \<noteq> None"
proof -
  obtain w db1 r where start: "applySessionStarted demo_late (demo_writer, demo_orphan) = Some (w, db1)"
    and r: "map_of (sessions db1) ''o'' = Some r" "s_parent_session_id r = None" "parent_row db1 ''o'' r \<noteq> None"
    and tick: "resolver_tick (demo_tick True (Some (Some (sessionLinkWatermark db1)))) demo_seen db1 \<noteq> None"
    using demo_late_run by (fastforce split: option.splits prod.splits)
  obtain rs db2 where tick: "resolver_tick (demo_tick True (Some (Some (sessionLinkWatermark db1)))) demo_seen db1 = Some (rs, db2)"
    using tick by auto
  have "distinct (map fst (sessions demo_orphan))" "sessions demo_orphan \<noteq> []"
    by (simp_all add: demo_orphan_def ensureSourceRow_def node_def)
  moreover have "sint (Ts demo_late) \<le> sint (sessionLinkWatermark demo_orphan)" "lastSeenSession demo_seen = sessionLinkWatermark demo_orphan"
    by code_simp+
  ultimately have "sessions db2 = sessions db1"
    using late_parent_missed [OF _ _ start _ _ _ tick] by (simp add: demo_tick_def)
  then show ?thesis using start tick r by auto
qed

text \<open>The gate of the roots outlives a rollback.\<close>

lemma session_part_gates:
  assumes "session_part env ch rs db = Some (rs', db', aff)"
  shows "lastSeenGen rs' = lastSeenGen rs" "ch \<Longrightarrow> lastRootsGen rs' = roots_gen env"
  using assms by (auto simp: session_part_def Let_def bind_eq_Some_conv split: if_splits prod.splits)

lemma session_part_keeps_roots:
  assumes "session_part env ch rs db = Some (rs', db', aff)" "roots_gen env = lastRootsGen rs"
  shows "map_option s_root_session_id (map_of (sessions db') sid) = map_option s_root_session_id (map_of (sessions db) sid)"
proof -
  have "db' = db \<or> db' = fst (linkParents db [])"
    using assms by (auto simp: session_part_def Let_def split: if_splits prod.splits)
  then show ?thesis
    by (cases "map_of (sessions db) sid") (auto simp: linkParents_def dest!: parent_row_Some split: option.split)
qed

lemma tick_keeps_roots:
  assumes "roots_gen env = lastRootsGen rs" "resolver_tick env rs db = Some (rs', db')"
  shows "map_option s_root_session_id (map_of (sessions db') sid) = map_option s_root_session_id (map_of (sessions db) sid)"
proof -
  have pass: "map_option s_root_session_id (map_of (sessions db1) sid) = map_option s_root_session_id (map_of (sessions db) sid)"
    if run: "linkOrphansGated env ch rs db = Some (rs1, Some db1)" for ch rs1 db1
  proof -
    have b: "te_begins env" using run by (auto simp: linkOrphansGated_def split: if_splits)
    from linkOrphansGated_parts [OF run b] obtain dbx aff db3 aff3
      where part: "session_part env ch rs db = Some (rs1, dbx, aff)" and 3: "sessions db3 = sessions dbx"
        and e: "Some db1 = (if te_commits env then emitResolverNotify (te_now env) (te_ids env aff3) db3 else None)" by metis
    have "sessions db1 = sessions dbx" using e 3 emitResolverNotify_rows(1) by (metis option.distinct(1))
    then show ?thesis using session_part_keeps_roots [OF part assms(1)] by simp
  qed
  then show ?thesis
    using assms(2) by (auto simp: resolver_tick_def bind_eq_Some_conv Let_def split: if_splits option.splits)
qed

text \<open>
  The ticks that follow while the generation is \<open>g\<close>: each on whatever the tables hold by then, with
  passes deferred, failing or committed.
\<close>

inductive ticks_of_gen :: "'c itself \<Rightarrow> i64 \<Rightarrow> resolver \<Rightarrow> resolver \<Rightarrow> bool" for T :: "'c itself" and g where
  none: "ticks_of_gen T g rs rs"
| more: "ticks_of_gen T g rs rs1 \<Longrightarrow> te_gen_roots env = Some g \<Longrightarrow>
    resolver_tick env rs1 (db :: 'c db) = Some (rs2, db') \<Longrightarrow> ticks_of_gen T g rs rs2"

lemma session_part_roots_gate:
  assumes "session_part env ch rs db = Some (rs', db', aff)" "roots_gen env = lastRootsGen rs"
  shows "lastRootsGen rs' = lastRootsGen rs"
  using assms by (auto simp: session_part_def Let_def bind_eq_Some_conv split: if_splits prod.splits)

lemma tick_keeps_roots_gate:
  assumes "roots_gen env = lastRootsGen rs" "resolver_tick env rs db = Some (rs', db')"
  shows "lastRootsGen rs' = lastRootsGen rs"
proof -
  have pass: "lastRootsGen rs1 = lastRootsGen rs" if run: "linkOrphansGated env ch rs db = Some (rs1, r)" for ch rs1 r
  proof (cases "te_begins env")
    case True
    from linkOrphansGated_parts [OF run True] obtain dbx aff where "session_part env ch rs db = Some (rs1, dbx, aff)" by metis
    then show ?thesis by (rule session_part_roots_gate [OF _ assms(1)])
  qed (use run in \<open>simp add: linkOrphansGated_def\<close>)
  show ?thesis
    using assms(2) pass by (auto simp: resolver_tick_def bind_eq_Some_conv Let_def split: if_splits option.splits)
qed

lemma ticks_keep_roots_gate:
  "ticks_of_gen T g rs rs' \<Longrightarrow> lastRootsGen rs = g \<Longrightarrow> lastRootsGen rs' = g"
proof (induction rule: ticks_of_gen.induct)
  case (more rs rs1 env db rs2 db')
  have "roots_gen env = lastRootsGen rs1" using more by simp
  from tick_keeps_roots_gate [OF this more.hyps(3)] show ?case using more by simp
qed simp

text \<open>
  C40. A pass that fails at its commit gives up on the roots. The transaction is rolled back, but
  the mark that the roots of this generation are done stays, over any number of later ticks of the
  same generation and whatever the writers have stored meanwhile: each of these ticks leaves the
  root of every session as it finds it.
\<close>

theorem failed_pass_loses_roots:
  assumes "\<not> te_deferred env" and "te_gen env = Some g" and "te_gen_roots env = Some g" and "g \<noteq> lastSeenGen rs"
    and "te_watermark env \<noteq> Some (Some (lastSeenSession rs))" and "te_begins env" and "\<not> te_commits env"
    and "resolver_tick env rs (db :: 'c db) = Some (rs1, db1)"
    and "ticks_of_gen TYPE('c) g rs1 rs2"
    and "te_gen_roots env' = Some g" and "resolver_tick env' rs2 (db2 :: 'c db) = Some (rs3, db3)"
  shows "db1 = db \<and> lastSeenGen rs1 = lastSeenGen rs \<and> lastRootsGen rs2 = g \<and>
    map_option s_root_session_id (map_of (sessions db3) sid) = map_option s_root_session_id (map_of (sessions db2) sid)"
proof -
  have tick: "\<exists>r. linkOrphansGated env True rs db = Some r"
    using assms(1-8)
    by (cases "linkOrphansGated env True rs db") (auto simp: resolver_tick_def Let_def split: if_splits option.splits)
  then obtain rs' r where run: "linkOrphansGated env True rs db = Some (rs', r)" by fastforce
  from linkOrphansGated_parts [OF run assms(6)] obtain dbx aff
    where part: "session_part env True rs db = Some (rs', dbx, aff)" and r: "r = None" using assms(7) by metis
  have 1: "rs1 = rs'" "db1 = db"
    using assms(1-8) run r by (auto simp: resolver_tick_def Let_def split: if_splits option.splits)
  have "lastRootsGen rs1 = g" using session_part_gates(2) [OF part] assms(3) by (simp add: 1)
  then have 2: "lastRootsGen rs2 = g" by (rule ticks_keep_roots_gate [OF assms(9)])
  then have "roots_gen env' = lastRootsGen rs2" using assms(10) by simp
  from tick_keeps_roots [OF this assms(11), of sid] show ?thesis
    using session_part_gates(1) [OF part] 2 by (simp add: 1)
qed

text \<open>A failed pass, a committed one, and one more, all of the same generation.\<close>

lemma demo_failed_run:
  "case resolver_tick (demo_tick False None) demo_seen demo_tree of None \<Rightarrow> False
   | Some (rs1, db1) \<Rightarrow> (case resolver_tick (demo_tick True None) rs1 db1 of None \<Rightarrow> False
      | Some (rs2, db2) \<Rightarrow> resolver_tick (demo_tick True None) rs2 db2 \<noteq> None \<and>
          map_option s_root_session_id (map_of (sessions db2) ''d'') = Some ''c'')"
  by code_simp

lemma failed_pass_loses_roots_witness:
  "\<exists>rs1 rs2 db2 rs3 db3. resolver_tick (demo_tick False None) demo_seen demo_tree = Some (rs1, demo_tree) \<and>
     resolver_tick (demo_tick True None) rs1 demo_tree = Some (rs2, db2) \<and>
     resolver_tick (demo_tick True None) rs2 db2 = Some (rs3, db3) \<and> lastRootsGen rs2 = 2 \<and>
     map_option s_root_session_id (map_of (sessions db3) ''d'') = Some ''c''"
proof -
  obtain rs1 db1 where 1: "resolver_tick (demo_tick False None) demo_seen demo_tree = Some (rs1, db1)"
    using demo_failed_run by (auto split: option.splits)
  obtain rs2 db2 where 2: "resolver_tick (demo_tick True None) rs1 db1 = Some (rs2, db2)"
    and more: "resolver_tick (demo_tick True None) rs2 db2 \<noteq> None"
    and d: "map_option s_root_session_id (map_of (sessions db2) ''d'') = Some ''c''"
    using demo_failed_run 1 by (auto split: option.splits prod.splits)
  obtain rs3 db3 where 3: "resolver_tick (demo_tick True None) rs2 db2 = Some (rs3, db3)" using more by auto
  have g: "te_gen_roots (demo_tick True None) = Some 2" by (simp add: demo_tick_def)
  have "db1 = demo_tree \<and> lastRootsGen rs2 = 2 \<and> map_option s_root_session_id (map_of (sessions db3) ''d'') =
      map_option s_root_session_id (map_of (sessions db2) ''d'')"
    using failed_pass_loses_roots [OF _ _ _ _ _ _ _ 1 ticks_of_gen.more [OF ticks_of_gen.none g 2] g 3, of "''d''"]
    by (simp add: demo_tick_def demo_seen_def)
  then show ?thesis using 1 2 3 d by auto
qed

end
