(* ===== verification/Aggregates.thy ===== *)
theory Aggregates
  imports Flush_Marks Resolver_Props
begin

text \<open>
  The aggregates of turns and sessions (\<open>aggregates.go\<close>) are what the ops say: the batch writer
  marks the turn and the session of everything it changes, and the refresh recomputes what is
  marked.
\<close>

section \<open>Recomputed aggregates\<close>

definition current_turn :: "string \<Rightarrow> ('c :: comm_monoid_add) db \<Rightarrow> bool" where
  "current_turn tid db \<longleftrightarrow> (\<forall>r. map_of (turns db) tid = Some r \<longrightarrow> turn_aggregates (ops_of_turn tid db) r = r)"

definition current_session :: "string \<Rightarrow> ('c :: comm_monoid_add) db \<Rightarrow> bool" where
  "current_session sid db \<longleftrightarrow> (\<forall>r. map_of (sessions db) sid = Some r \<longrightarrow>
     session_aggregates (turns_of_session sid db) (ops_of_session sid db) r = r)"

lemma map_part: "map F xs = map F ys \<Longrightarrow> map (\<lambda>e. G (F e)) xs = map (\<lambda>e. G (F e)) ys"
  by (metis (no_types, lifting) comp_apply list.map_cong0 list.map_comp)

lemma turn_aggregates_cols:
  assumes "map (\<lambda>e. op_cols (snd e)) es = map (\<lambda>e. op_cols (snd e)) es'"
  shows "turn_cols (turn_aggregates es r) = turn_cols (turn_aggregates es' r')"
  using map_part [OF assms, of fst] map_part [OF assms, of "fst \<circ> snd"] map_part [OF assms, of "fst \<circ> snd \<circ> snd"]
    map_part [OF assms, of "fst \<circ> snd \<circ> snd \<circ> snd"] map_part [OF assms, of "snd \<circ> snd \<circ> snd \<circ> snd"] map_eq_imp_length_eq [OF assms]
  by (simp add: turn_cols_def turn_aggregates_def op_cols_def)

lemma map_filter_map: "List.map_filter f (map g xs) = List.map_filter (\<lambda>x. f (g x)) xs"
  by (induction xs) (simp_all add: List.map_filter_simps split: option.split)

lemma filter_length_map: "length (filter (\<lambda>x. P (g x)) xs) = length (filter P (map g xs))"
  by (simp add: filter_map comp_def)

lemma session_aggregates_cols:
  assumes t: "map (\<lambda>e. turn_cols (snd e)) ts = map (\<lambda>e. turn_cols (snd e)) ts'"
    and o: "map (\<lambda>e. (op_status (snd e), op_end_ts (snd e))) es = map (\<lambda>e. (op_status (snd e), op_end_ts (snd e))) es'"
    and r: "s_last_activity_ts r = s_last_activity_ts r'"
  shows "session_cols (session_aggregates ts es r) = session_cols (session_aggregates ts' es' r')"
proof -
  have "max_end es = max_end es'"
    using arg_cong [OF o, of "List.map_filter snd"] by (simp add: max_end_def map_filter_map)
  moreover have "length (filter (\<lambda>e. op_status (snd e) = ''failed'') es) = length (filter (\<lambda>e. op_status (snd e) = ''failed'') es')"
    using arg_cong [OF map_part [OF o, of fst], of "\<lambda>l. length (filter (\<lambda>s. s = ''failed'') l)"] by (simp add: filter_map comp_def)
  ultimately show ?thesis
    using map_part [OF t, of fst] map_part [OF t, of "fst \<circ> snd"] map_part [OF t, of "fst \<circ> snd \<circ> snd"]
      map_part [OF t, of "fst \<circ> snd \<circ> snd \<circ> snd"] map_part [OF t, of "fst \<circ> snd \<circ> snd \<circ> snd \<circ> snd"]
      map_part [OF t, of "snd \<circ> snd \<circ> snd \<circ> snd \<circ> snd"] map_eq_imp_length_eq [OF t] r
    by (simp add: session_cols_def session_aggregates_def turn_cols_def)
qed

lemma turn_aggregates_eq: "turn_aggregates es r = r \<longleftrightarrow> turn_cols (turn_aggregates es r) = turn_cols r"
  by (cases r) (auto simp: turn_aggregates_def turn_cols_def)

lemma session_aggregates_eq: "session_aggregates ts es r = r \<longleftrightarrow> session_cols (session_aggregates ts es r) = session_cols r"
  by (cases r) (auto simp: session_aggregates_def session_cols_def)

lemma current_turn_view:
  assumes "turn_view tid db' = turn_view tid db"
  shows "current_turn tid db' \<longleftrightarrow> current_turn tid db"
proof -
  have es: "map (\<lambda>e. op_cols (snd e)) (ops_of_turn tid db') = map (\<lambda>e. op_cols (snd e)) (ops_of_turn tid db)"
    and r: "map_option turn_cols (map_of (turns db') tid) = map_option turn_cols (map_of (turns db) tid)"
    using assms by (simp_all add: turn_view_def)
  show ?thesis
  proof (cases "map_of (turns db) tid")
    case (Some a)
    then obtain b where b: "map_of (turns db') tid = Some b" "turn_cols b = turn_cols a" using r by auto
    then show ?thesis
      using Some turn_aggregates_cols [OF es, of b a] by (simp add: current_turn_def turn_aggregates_eq)
  qed (use r in \<open>simp add: current_turn_def\<close>)
qed

lemma turns_of_session_cols:
  assumes "distinct (map fst (turns db))"
  shows "map (\<lambda>e. turn_cols (snd e)) (turns_of_session sid db) =
    map (\<lambda>tid. the (snd (turn_view tid db))) (map fst (turns_of_session sid db))"
  using assms by (auto simp: turns_of_session_def turn_view_def)

lemma current_session_view:
  assumes "session_view sid db' = session_view sid db"
    and "distinct (map fst (turns db))" "distinct (map fst (turns db'))"
    and "\<And>tid. tid \<in> set (map fst (turns_of_session sid db)) \<Longrightarrow> snd (turn_view tid db') = snd (turn_view tid db)"
  shows "current_session sid db' \<longleftrightarrow> current_session sid db"
proof -
  have ts: "map fst (turns_of_session sid db') = map fst (turns_of_session sid db)"
    and es: "map (\<lambda>e. (op_status (snd e), op_end_ts (snd e))) (ops_of_session sid db') =
      map (\<lambda>e. (op_status (snd e), op_end_ts (snd e))) (ops_of_session sid db)"
    and r: "map_option session_cols (map_of (sessions db') sid) = map_option session_cols (map_of (sessions db) sid)"
    using assms(1) by (simp_all add: session_view_def)
  have t: "map (\<lambda>e. turn_cols (snd e)) (turns_of_session sid db') = map (\<lambda>e. turn_cols (snd e)) (turns_of_session sid db)"
    unfolding turns_of_session_cols [OF assms(2)] turns_of_session_cols [OF assms(3)] ts by (rule map_cong) (use assms(4) in simp_all)
  show ?thesis
  proof (cases "map_of (sessions db) sid")
    case (Some a)
    then obtain b where b: "map_of (sessions db') sid = Some b" "session_cols b = session_cols a" using r by auto
    then have "s_last_activity_ts b = s_last_activity_ts a" by (simp add: session_cols_def)
    then show ?thesis
      using Some b session_aggregates_cols [OF t es, of b a] by (simp add: current_session_def session_aggregates_eq)
  qed (use r in \<open>simp add: current_session_def\<close>)
qed

section \<open>Every flush leaves current aggregates\<close>

definition current :: "(string \<Rightarrow> string) \<Rightarrow> ('c :: comm_monoid_add) db \<Rightarrow> bool" where
  "current h db \<longleftrightarrow> ids_ok h db \<and> (\<forall>tid. current_turn tid db) \<and> (\<forall>sid. current_session sid db)"

lemma current_cong:
  assumes "turns db' = turns db" "ops db' = ops db" "sessions db' = sessions db"
  shows "current h db' \<longleftrightarrow> current h db"
  using assms by (simp add: current_def ids_ok_def op_ok_def current_turn_def current_session_def ops_of_turn_def
      ops_of_session_def turns_of_session_def)

lemma refresh_turns_rows [simp]:
  fixes db :: "('c :: comm_monoid_add) db"
  shows "ops (refreshTurnAggregates T db) = ops db" "sessions (refreshTurnAggregates T db) = sessions db"
    "map_of (turns (refreshTurnAggregates T db)) tid =
       map_option (\<lambda>r. if tid \<in> set T then turn_aggregates (ops_of_turn tid db) r else r) (map_of (turns db) tid)"
    "map fst (turns (refreshTurnAggregates T db)) = map fst (turns db)"
  by (simp_all add: refreshTurnAggregates_def map_of_map_val [of "\<lambda>tid r. if tid \<in> set T then turn_aggregates (ops_of_turn tid db) r else r"])
     (simp add: case_prod_beta comp_def)

lemma refresh_sessions_rows [simp]:
  fixes db :: "('c :: comm_monoid_add) db"
  shows "ops (refreshSessionAggregates S db) = ops db" "turns (refreshSessionAggregates S db) = turns db"
    "map_of (sessions (refreshSessionAggregates S db)) sid = map_option (\<lambda>r. if sid \<in> set S
       then session_aggregates (turns_of_session sid db) (ops_of_session sid db) r else r) (map_of (sessions db) sid)"
    "map fst (sessions (refreshSessionAggregates S db)) = map fst (sessions db)"
  by (simp_all add: refreshSessionAggregates_def map_of_map_val [of "\<lambda>sid r. if sid \<in> set S
       then session_aggregates (turns_of_session sid db) (ops_of_session sid db) r else r"])
     (simp add: case_prod_beta comp_def)

lemma aggregates_keep [simp]:
  "t_session_id (turn_aggregates es r) = t_session_id r" "t_seq (turn_aggregates es r) = t_seq r"
  "turn_aggregates es (turn_aggregates es r) = turn_aggregates es r"
  "session_aggregates ts es (session_aggregates ts es x) = session_aggregates ts es x"
  by (simp_all add: turn_aggregates_def session_aggregates_def max64_def)

lemma refresh_turns_keys [simp]: "keys (turns (refreshTurnAggregates T db)) = keys (turns db)"
  by (metis list.set_map refresh_turns_rows(4))

lemma refresh_ids: "ids_ok h db \<Longrightarrow> ids_ok h (refreshAggregates T S db)"
  by (auto simp: ids_ok_def refreshAggregates_def turn_ok_def op_ok_def)

lemma refresh_turns_of_session [simp]:
  "map fst (turns_of_session sid (refreshTurnAggregates T db)) = map fst (turns_of_session sid db)"
  using filter_map_val [of "\<lambda>r. t_session_id r = sid" "\<lambda>tid r. if tid \<in> set T then turn_aggregates (ops_of_turn tid db) r else r" "turns db"]
  by (simp add: refreshTurnAggregates_def turns_of_session_def)

lemma refresh_current:
  assumes inj: "inj h" and cur: "current h db" and tr: "tracked h (w0, db) (w, db1)"
  shows "current h (refreshAggregates (dirtyTurnIDs w) (dirtySessionIDs w) db1)"
proof -
  let ?T = "dirtyTurnIDs w" and ?S = "dirtySessionIDs w"
  let ?db2 = "refreshTurnAggregates ?T db1" and ?db3 = "refreshAggregates ?T ?S db1"
  have ok: "ids_ok h db" and turns: "\<And>tid. current_turn tid db" and sessions: "\<And>sid. current_session sid db"
    using cur by (simp_all add: current_def)
  have ok1: "ids_ok h db1"
    and tv: "\<And>tid. turn_view tid db1 = turn_view tid db \<or>
      tid \<in> set ?T \<and> (\<exists>sid\<in>set ?S. \<exists>n. tid = canonicalTurnID h sid n)"
    and sv: "\<And>sid. session_view sid db1 = session_view sid db \<or> sid \<in> set ?S"
    using tr ok unfolding tracked_def by simp_all
  have d1: "distinct (map fst (turns db1))" "distinct (map fst (turns db))"
    using ids_okD(2) [OF ok1] ids_okD(2) [OF ok] by blast+
  have "current_turn tid ?db3" for tid
  proof (cases "tid \<in> set ?T")
    case True
    then show ?thesis
      by (auto simp: current_turn_def refreshAggregates_def ops_of_turn_def)
  next
    case False
    then have "current_turn tid db1" using tv [of tid] current_turn_view turns by blast
    then show ?thesis using False by (auto simp: current_turn_def refreshAggregates_def ops_of_turn_def)
  qed
  moreover have "current_session sid ?db3" for sid
  proof (cases "sid \<in> set ?S")
    case True
    then show ?thesis by (auto simp: current_session_def refreshAggregates_def ops_of_session_def turns_of_session_def)
  next
    case False
    then have view: "session_view sid db1 = session_view sid db" using sv [of sid] by blast
    have kept: "snd (turn_view tid ?db2) = snd (turn_view tid db)" if "tid \<in> set (map fst (turns_of_session sid db))" for tid
    proof -
      have "tid \<in> set (map fst (turns_of_session sid db1))" using that view by (simp add: session_view_def)
      then obtain r where r: "map_of (turns db1) tid = Some r" "t_session_id r = sid"
        using d1(1) by (auto simp: turns_of_session_def)
      then have tid: "tid = canonicalTurnID h sid (t_seq r)" using ids_okD(4) [OF ok1 r(1)] by (simp add: turn_ok_def)
      have same: "turn_view tid db1 = turn_view tid db"
        using tv [of tid] False unfolding tid turn_id_inject [OF inj] by blast
      then have "current_turn tid db1" using current_turn_view turns by blast
      then have "turn_aggregates (ops_of_turn tid db1) r = r" using r(1) by (simp add: current_turn_def)
      then show ?thesis unfolding same [symmetric] by (simp add: turn_view_def r(1))
    qed
    have "session_view sid ?db2 = session_view sid db"
      unfolding view [symmetric] by (simp add: session_view_def ops_of_session_def)
    then have "current_session sid ?db2"
      using current_session_view [OF _ d1(2) _ kept] d1(1) sessions by simp
    then show ?thesis
      using False by (auto simp: current_session_def refreshAggregates_def ops_of_session_def turns_of_session_def)
  qed
  ultimately show ?thesis using refresh_ids [OF ok1] by (simp add: current_def)
qed

lemma flushBody_current:
  assumes inj: "inj h" "hash w = h" and cur: "current h db" and run: "flushBody env evs (w, db) = Some (w', db')"
  shows "current h db'"
proof -
  obtain w1 db1 where rows: "writeBatchRows (fe_location env) (fe_metaJSON env) evs (w, db) = Some (w1, db1)"
    and rest: "writeBatchProgressAndNotify env evs (refreshBatchReadModels env (w1, db1)) = Some (w', db')"
    using run by (auto simp: flushBody_def bind_eq_Some_conv)
  obtain w2 db2 where q: "quiet (w1, db1) (w2, db2)"
    and r: "refreshBatchReadModels env (w1, db1) = (w2, refreshAggregates (dirtyTurnIDs w2) (dirtySessionIDs w2) db2)"
  proof (cases "fe_deferReadModels env \<or> fe_readModelRebuildActive env")
    case True
    then show ?thesis
      using markReadModelRepairPending_quiet [of "(w1, db1)" "fe_now env"] that
      by (cases "markReadModelRepairPending (fe_now env) (w1, db1)") (simp add: refreshBatchReadModels_def)
  next
    case False
    have "quiet (w1, db1) (refreshFTS (fe_orders env) (refreshRollups (fe_orders env) (fe_now env) (w1, db1)))"
      by (rule quiet_trans [OF refreshRollups_quiet refreshFTS_quiet])
    then show ?thesis
      using False that
      by (cases "refreshFTS (fe_orders env) (refreshRollups (fe_orders env) (fe_now env) (w1, db1))")
        (simp add: refreshBatchReadModels_def)
  qed
  let ?db = "refreshAggregates (dirtyTurnIDs w2) (dirtySessionIDs w2) db2"
  have "tracked h (w, db) (w2, db2)"
    by (rule tracked_trans [OF writeBatchRows_tracked [OF inj rows] quiet_tracked [OF q]])
  then have "current h ?db" by (rule refresh_current [OF inj(1) cur])
  moreover define db3 where "db3 = upsertSourceProgress (fe_updatedAt env) (sourceID w2) (batchMaxSeq w2) (batchMaxTs evs)
    (lastCursor w2) (hasCursor w2) ?db"
  moreover have "turns db3 = turns ?db" "ops db3 = ops ?db" "sessions db3 = sessions ?db"
    by (simp_all add: db3_def upsertSourceProgress_def)
  moreover have "emitNotifyAndPrune (fe_orders env) (fe_commitTS env) (w2, db3) = Some db'"
    using rest by (auto simp: writeBatchProgressAndNotify_def r Let_def db3_def)
  ultimately show ?thesis
    using emitNotifyAndPrune_quiet [of "fe_orders env" "fe_commitTS env" w2 db3 db'] current_cong [of db' ?db h]
    by (simp add: quiet_def)
qed

text \<open>The resolver's links do not matter to the aggregates.\<close>

lemma map_of_bare: "map_of (map (map_prod id g) xs) k = map_option g (map_of xs k)"
  by (induction xs) auto

lemma filter_bare:
  assumes "\<And>r. P (g r) = P r" "\<And>r. F (g r) = F r"
  shows "map (\<lambda>e. F (snd e)) (filter (\<lambda>e. P (snd e)) xs) =
    map (\<lambda>e. F (snd e)) (filter (\<lambda>e. P (snd e)) (map (map_prod id g) xs))"
  using assms by (induction xs) auto

lemma relinked_ids:
  assumes "relinked db db'" "ids_ok h db" shows "ids_ok h db'"
proof -
  have t: "turns db' = turns db" and s: "map (map_prod id bare_session) (sessions db') = map (map_prod id bare_session) (sessions db)"
    and p: "map (map_prod id bare_op) (ops db') = map (map_prod id bare_op) (ops db)"
    using assms(1) by (simp_all add: relinked_def)
  have "map fst (sessions db') = map fst (sessions db)" "map fst (ops db') = map fst (ops db)"
    using arg_cong [OF s, of "map fst"] arg_cong [OF p, of "map fst"] by simp_all
  moreover have "op_ok h db' pid r'" if "map_of (ops db') pid = Some r'" for pid r'
  proof -
    have "map_option bare_op (map_of (ops db) pid) = Some (bare_op r')"
      using arg_cong [OF p, of "\<lambda>xs. map_of xs pid"] that by (simp add: map_of_bare)
    then obtain r where r: "map_of (ops db) pid = Some r" "bare_op r = bare_op r'" by auto
    have "op_turn_id (bare_op q) = op_turn_id q" "op_session_id (bare_op q) = op_session_id q" "op_seq (bare_op q) = op_seq q" for q :: "'a op_row"
      by (simp_all add: bare_op_def)
    then have "op_turn_id r' = op_turn_id r" "op_session_id r' = op_session_id r" "op_seq r' = op_seq r" using r(2) by metis+
    then show ?thesis using ids_okD(5) [OF assms(2) r(1)] by (simp add: op_ok_def t)
  qed
  ultimately show ?thesis using assms(2) by (simp add: ids_ok_def t)
qed

lemma relinked_views:
  assumes "relinked db db'"
  shows "turn_view tid db' = turn_view tid db" "session_view sid db' = session_view sid db"
proof -
  have t: "turns db' = turns db" and s: "map (map_prod id bare_session) (sessions db') = map (map_prod id bare_session) (sessions db)"
    and p: "map (map_prod id bare_op) (ops db') = map (map_prod id bare_op) (ops db)"
    using assms by (simp_all add: relinked_def)
  have "map (\<lambda>e. op_cols (snd e)) (ops_of_turn tid db') = map (\<lambda>e. op_cols (snd e)) (ops_of_turn tid db)"
    using filter_bare [of "\<lambda>r. op_turn_id r = tid" bare_op op_cols "ops db'"]
      filter_bare [of "\<lambda>r. op_turn_id r = tid" bare_op op_cols "ops db"] p
    by (simp add: ops_of_turn_def bare_op_def op_cols_def)
  then show "turn_view tid db' = turn_view tid db" by (simp add: turn_view_def t)
  have "map (\<lambda>e. (op_status (snd e), op_end_ts (snd e))) (ops_of_session sid db') =
      map (\<lambda>e. (op_status (snd e), op_end_ts (snd e))) (ops_of_session sid db)"
    using filter_bare [of "\<lambda>r. op_session_id r = sid" bare_op "\<lambda>r. (op_status r, op_end_ts r)" "ops db'"]
      filter_bare [of "\<lambda>r. op_session_id r = sid" bare_op "\<lambda>r. (op_status r, op_end_ts r)" "ops db"] p
    by (simp add: ops_of_session_def bare_op_def)
  moreover have "map_option bare_session (map_of (sessions db') sid) = map_option bare_session (map_of (sessions db) sid)"
    using arg_cong [OF s, of "\<lambda>xs. map_of xs sid"] by (simp add: map_of_bare)
  then have "map_option session_cols (map_of (sessions db') sid) = map_option session_cols (map_of (sessions db) sid)"
  proof -
    have "session_cols (bare_session r) = session_cols r" for r :: "'a session_row" by (simp add: bare_session_def session_cols_def)
    then show ?thesis
      using arg_cong [OF \<open>map_option bare_session (map_of (sessions db') sid) = map_option bare_session (map_of (sessions db) sid)\<close>,
        of "map_option session_cols"] by (simp add: option.map_comp comp_def)
  qed
  ultimately show "session_view sid db' = session_view sid db" by (simp add: session_view_def turns_of_session_def t)
qed

lemma relinked_current:
  assumes "relinked db db'" "current h db" shows "current h db'"
proof -
  have ok: "ids_ok h db" "ids_ok h db'" using assms relinked_ids by (auto simp: current_def)
  have "current_turn tid db'" for tid
    using assms(2) current_turn_view [OF relinked_views(1) [OF assms(1)]] by (simp add: current_def)
  moreover have "current_session sid db'" for sid
    using assms(2) current_session_view [OF relinked_views(2) [OF assms(1)] ids_okD(2) [OF ok(1)] ids_okD(2) [OF ok(2)]]
      relinked_views(1) [OF assms(1)] by (simp add: current_def)
  ultimately show ?thesis using ok by (simp add: current_def)
qed

text \<open>
  The databases that flushes of sources, in any number and interleaving and with writers in any
  state, idle refreshes, rebuilds of the rollups and ticks of the resolver can make.
\<close>

inductive flushed :: "(string \<Rightarrow> string) \<Rightarrow> ('c :: ab_group_add) db \<Rightarrow> bool" for h where
  empty: "flushed h empty_db"
| batch: "flushed h db \<Longrightarrow> hash w = h \<Longrightarrow> flushBody env evs (w, db) = Some (w', db') \<Longrightarrow> flushed h db'"
| idle: "flushed h db \<Longrightarrow> refreshRollupsOnly env commits (w, db) = (ok, w', db') \<Longrightarrow> flushed h db'"
| resolve: "flushed h db \<Longrightarrow> resolver_tick te rs db = Some (rs', db') \<Longrightarrow> flushed h db'"
| rebuild: "flushed h db \<Longrightarrow> BackfillRollups ord cap yield now db = (ok, db') \<Longrightarrow> flushed h db'"

lemma refreshRollupsOnly_quiet:
  assumes "refreshRollupsOnly env commits (w, db) = (ok, w', db')"
  shows "turns db' = turns db \<and> ops db' = ops db \<and> sessions db' = sessions db"
proof -
  let ?st = "refreshRollups (fe_orders env) (fe_now env) (clearRollupNotifySignals w, db)"
  have "quiet (clearRollupNotifySignals w, db) ?st" by (rule refreshRollups_quiet)
  then show ?thesis
    using assms emitNotifyAndPrune_quiet [of "fe_orders env" "fe_commitTS env" "fst ?st" "snd ?st" db']
    by (auto simp: refreshRollupsOnly_def quiet_def Let_def split: if_splits prod.splits option.splits)
qed

lemma flushDay_rows [simp]:
  fixes db :: "('c :: {zero,plus}) db"
  shows "turns (flushDay ord cap a b starts day db) = turns db" "ops (flushDay ord cap a b starts day db) = ops db"
    "sessions (flushDay ord cap a b starts day db) = sessions db"
  by (simp_all add: flushDay_def upsertRollups_def Let_def)

lemma runBackfillDays_rows:
  assumes "\<And>day db. turns (f day db) = turns db \<and> ops (f day db) = ops db \<and> sessions (f day db) = sessions db"
    "runBackfillDays yield n f days db = (ok, db')"
  shows "turns db' = turns db \<and> ops db' = ops db \<and> sessions db' = sessions db"
  using assms(2) by (induction days arbitrary: n db) (auto simp: assms(1) split: if_splits)

lemma BackfillRollups_rows_same:
  assumes "BackfillRollups ord cap yield now db = (ok, db')"
  shows "turns db' = turns db \<and> ops db' = ops db \<and> sessions db' = sessions db"
  using assms runBackfillDays_rows [of "flushDay ord cap (BucketTS now Hourly) (BucketTS now Daily) _" yield 3 _ "truncateRollups db" ok db']
  by (auto simp: BackfillRollups_def Let_def truncateRollups_def split: if_splits)

lemma empty_current: "current h empty_db"
  by (simp add: current_def ids_ok_def current_turn_def current_session_def empty_db_def)

lemma flushed_current:
  assumes "inj h" "flushed h db" shows "current h db"
  using assms(2)
proof (induction rule: flushed.induct)
  case (idle db env commits w ok w' db')
  then show ?case using current_cong refreshRollupsOnly_quiet by metis
next
  case (resolve db te rs rs' db')
  then show ?case using relinked_current resolver_tick_relinked by blast
next
  case (rebuild db ord cap yield now ok db')
  then show ?case using current_cong BackfillRollups_rows_same by metis
qed (use assms(1) empty_current flushBody_current in blast)+

text \<open>The sums over the turns of a session are sums over its ops.\<close>

lemma sum_by_key:
  fixes f :: "'a \<Rightarrow> 'm :: comm_monoid_add"
  assumes "distinct ks"
  shows "(\<Sum>k\<leftarrow>ks. \<Sum>x\<leftarrow>filter (\<lambda>x. g x = k) xs. f x) = (\<Sum>x\<leftarrow>filter (\<lambda>x. g x \<in> set ks) xs. f x)"
  using assms
proof (induction ks)
  case (Cons k ks)
  then have "k \<notin> set ks" by simp
  then have "(\<Sum>x\<leftarrow>filter (\<lambda>x. g x \<in> set (k # ks)) xs. f x) =
      (\<Sum>x\<leftarrow>filter (\<lambda>x. g x = k) xs. f x) + (\<Sum>x\<leftarrow>filter (\<lambda>x. g x \<in> set ks) xs. f x)"
    by (induction xs) (auto simp: add_ac)
  then show ?case using Cons by simp
qed simp

lemma turn_of_op:
  assumes inj: "inj h" and ok: "ids_ok h db" and e: "e \<in> set (ops db)"
  shows "op_turn_id (snd e) \<in> set (map fst (turns_of_session sid db)) \<longleftrightarrow> op_session_id (snd e) = sid"
proof -
  have "map_of (ops db) (fst e) = Some (snd e)" using e ids_okD(3) [OF ok] by simp
  from ids_okD(5) [OF ok this] obtain n
    where n: "op_turn_id (snd e) = canonicalTurnID h (op_session_id (snd e)) n" "op_turn_id (snd e) \<in> keys (turns db)"
    unfolding op_ok_def by blast
  then obtain t where t: "map_of (turns db) (op_turn_id (snd e)) = Some t" by (metis has_key_iff has_key_def option.exhaust)
  then have s: "t_session_id t = op_session_id (snd e)"
    using ids_okD(4) [OF ok t] n(1) by (simp add: turn_ok_def turn_id_inject [OF inj])
  have "op_turn_id (snd e) \<in> set (map fst (turns_of_session sid db)) \<longleftrightarrow> t_session_id t = sid"
  proof -
    have "(op_turn_id (snd e), u) \<in> set (turns db) \<longleftrightarrow> u = t" for u
      using t ids_okD(2) [OF ok] by (metis map_of_eq_Some_iff option.inject)
    then show ?thesis by (force simp: turns_of_session_def)
  qed
  then show ?thesis by (simp add: s)
qed

lemma sum_turns_of_session:
  fixes f :: "'c op_row \<Rightarrow> 'm :: comm_monoid_add"
  assumes inj: "inj h" and ok: "ids_ok h db"
    and col: "\<And>e. e \<in> set (turns_of_session sid db) \<Longrightarrow> col (snd e) = sum_col f (ops_of_turn (fst e) db)"
  shows "sum_col col (turns_of_session sid db) = sum_col f (ops_of_session sid db)"
proof -
  have d: "distinct (map fst (turns_of_session sid db))"
    using ids_okD(2) [OF ok] by (simp add: turns_of_session_def distinct_map_filter)
  have "sum_col col (turns_of_session sid db) = (\<Sum>e\<leftarrow>turns_of_session sid db. sum_col f (ops_of_turn (fst e) db))"
    by (rule arg_cong [of _ _ sum_list], rule map_cong [OF refl col])
  also have "\<dots> = (\<Sum>k\<leftarrow>map fst (turns_of_session sid db). \<Sum>x\<leftarrow>filter (\<lambda>e. op_turn_id (snd e) = k) (ops db). f (snd x))"
    by (simp add: ops_of_turn_def comp_def)
  also have "\<dots> = (\<Sum>x\<leftarrow>filter (\<lambda>e. op_turn_id (snd e) \<in> set (map fst (turns_of_session sid db))) (ops db). f (snd x))"
    by (rule sum_by_key [OF d])
  also have "filter (\<lambda>e. op_turn_id (snd e) \<in> set (map fst (turns_of_session sid db))) (ops db) = ops_of_session sid db"
    unfolding ops_of_session_def by (rule filter_cong [OF refl turn_of_op [OF inj ok]])
  finally show ?thesis .
qed

lemma max_end_ge:
  assumes "e \<in> set es" "op_end_ts (snd e) = Some t" shows "sint t \<le> sint (max_end es)"
proof -
  have "t \<in> set (List.map_filter (\<lambda>e. op_end_ts (snd e)) es)"
    using assms by (force simp: List.map_filter_def)
  then show ?thesis using fold_max64_ge fold_max64_from by (cases "List.map_filter (\<lambda>e. op_end_ts (snd e)) es") (auto simp: max_end_def)
qed

lemma turn_row_current:
  assumes "current h db" "e \<in> set (turns db)"
  shows "turn_aggregates (ops_of_turn (fst e) db) (snd e) = snd e"
  using assms ids_okD(2) [of h db] by (auto simp: current_def current_turn_def)

lemma session_row_current:
  assumes "current h db" "e \<in> set (sessions db)"
  shows "session_aggregates (turns_of_session (fst e) db) (ops_of_session (fst e) db) (snd e) = snd e"
  using assms ids_okD(1) [of h db] by (auto simp: current_def current_session_def)

lemma turn_aggregates_fixed:
  assumes "turn_aggregates es r = r"
  shows "t_op_count r = (\<Sum>e\<leftarrow>es. 1)" "t_tokens_in r = sum_col op_tokens_in es" "t_tokens_out r = sum_col op_tokens_out es"
    "t_tokens_cache_read r = sum_col op_tokens_cache_read es" "t_tokens_cache_write r = sum_col op_tokens_cache_write es"
    "t_cost_usd r = sum_col op_cost_usd es"
  by (subst assms [symmetric], simp add: turn_aggregates_def sum_list_triv)+

lemma session_aggregates_fixed:
  assumes "session_aggregates ts es r = r"
  shows "s_turn_count r = of_nat (length ts)" "s_op_count r = sum_col t_op_count ts"
    "s_tokens_in r = sum_col t_tokens_in ts" "s_tokens_out r = sum_col t_tokens_out ts"
    "s_tokens_cache_read r = sum_col t_tokens_cache_read ts" "s_tokens_cache_write r = sum_col t_tokens_cache_write ts"
    "s_cost_usd r = sum_col t_cost_usd ts" "s_failure_count r = of_nat (length (filter (\<lambda>e. op_status (snd e) = ''failed'') es))"
    "sint (max_end es) \<le> sint (s_last_activity_ts r)"
  by (subst assms [symmetric], simp add: session_aggregates_def max64_def)+

text \<open>
  C35. The totals shown for turns and sessions are those of their ops. In every database that
  flushes of sources and the resolver can make, with whatever batches, unspecified orders and stale writers, every
  turn holds the number of its ops and the sums of their tokens and costs; every session
  holds the number of its turns and, although it is computed from the turns' totals, the
  number, the failures and the sums of its own ops, and its last activity is not before the
  end of any of them. It rests on distinct ids for distinct natural keys.
\<close>

theorem aggregates_current:
  fixes db :: "('c :: ab_group_add) db"
  assumes "inj h" and "flushed h db"
  shows "(\<forall>(tid, r)\<in>set (turns db). let es = ops_of_turn tid db in
      t_op_count r = of_nat (length es) \<and> t_tokens_in r = sum_col op_tokens_in es \<and> t_tokens_out r = sum_col op_tokens_out es \<and>
      t_tokens_cache_read r = sum_col op_tokens_cache_read es \<and> t_tokens_cache_write r = sum_col op_tokens_cache_write es \<and>
      t_cost_usd r = sum_col op_cost_usd es) \<and>
    (\<forall>(sid, r)\<in>set (sessions db). let es = ops_of_session sid db in
      s_turn_count r = of_nat (length (turns_of_session sid db)) \<and> s_op_count r = of_nat (length es) \<and>
      s_failure_count r = of_nat (length (filter (\<lambda>e. op_status (snd e) = ''failed'') es)) \<and>
      s_tokens_in r = sum_col op_tokens_in es \<and> s_tokens_out r = sum_col op_tokens_out es \<and>
      s_tokens_cache_read r = sum_col op_tokens_cache_read es \<and> s_tokens_cache_write r = sum_col op_tokens_cache_write es \<and>
      s_cost_usd r = sum_col op_cost_usd es \<and>
      (\<forall>e\<in>set es. case op_end_ts (snd e) of None \<Rightarrow> True | Some t \<Rightarrow> sint t \<le> sint (s_last_activity_ts r)))"
proof -
  note cur = flushed_current [OF assms]
  then have ok: "ids_ok h db" by (simp add: current_def)
  note turn = turn_aggregates_fixed [OF turn_row_current [OF cur]]
  have one: "(\<Sum>e\<leftarrow>es. 1) = of_nat (length es)" for es :: "(string \<times> 'c op_row) list" by (simp add: sum_list_triv)
  have sub: "e \<in> set (turns_of_session sid db) \<Longrightarrow> e \<in> set (turns db)" for e sid by (simp add: turns_of_session_def)
  note sums = sum_turns_of_session [OF assms(1) ok turn(1) [OF sub]] sum_turns_of_session [OF assms(1) ok turn(2) [OF sub]]
    sum_turns_of_session [OF assms(1) ok turn(3) [OF sub]] sum_turns_of_session [OF assms(1) ok turn(4) [OF sub]]
    sum_turns_of_session [OF assms(1) ok turn(5) [OF sub]] sum_turns_of_session [OF assms(1) ok turn(6) [OF sub]]
  note session = session_aggregates_fixed [OF session_row_current [OF cur]]
  have "case op_end_ts (snd e) of None \<Rightarrow> True | Some t \<Rightarrow> sint t \<le> sint (s_last_activity_ts r)"
    if "(sid, r) \<in> set (sessions db)" "e \<in> set (ops_of_session sid db)" for sid r e
    using session(9) [OF that(1)] max_end_ge [OF that(2)] by (auto split: option.splits intro: order_trans)
  then show ?thesis
    using turn session(1-8) sums one by (auto simp: Let_def)
qed

definition demo_env :: "int flush_env" where
  "demo_env = \<lparr>fe_location = ''/tmp'', fe_metaJSON = [], fe_deferReadModels = True, fe_readModelRebuildActive = False,
     fe_now = 3000, fe_updatedAt = 3000, fe_commitTS = 3000,
     fe_orders = \<lparr>ord_acc = rev, ord_groups = (\<lambda>xs. xs), ord_starts = rev, ord_buckets = rev, ord_ids = rev\<rparr>\<rparr>"

lemma demo_flush:
  "case flushBody demo_env demo_events (demo_writer, empty_db) of None \<Rightarrow> False
   | Some (_, db) \<Rightarrow> map (\<lambda>e. (fst e, length (ops_of_session (fst e) db), sum_col op_tokens_in (ops_of_session (fst e) db)))
       (sessions db) = [(''src|s'', 1, 7)]"
  by code_simp

lemma aggregates_current_witness:
  "\<exists>db :: int db. flushed (\<lambda>s. s) db \<and> map (\<lambda>e. (fst e, s_op_count (snd e), s_tokens_in (snd e))) (sessions db) = [(''src|s'', 1, 7)]"
proof -
  obtain w db where run: "flushBody demo_env demo_events (demo_writer, empty_db) = Some (w, db)"
    and rows: "map (\<lambda>e. (fst e, length (ops_of_session (fst e) db), sum_col op_tokens_in (ops_of_session (fst e) db)))
       (sessions db) = [(''src|s'', 1, 7)]"
    using demo_flush by (auto split: option.splits prod.splits)
  have f: "flushed (\<lambda>s. s) db"
    by (rule flushed.batch [OF flushed.empty _ run]) (simp add: demo_writer_def newWriter_def)
  have "inj (\<lambda>s :: string. s)" by (simp add: inj_def)
  from aggregates_current [OF this f] rows f show ?thesis by (auto simp: Let_def intro!: exI [of _ db])
qed

end
