(* ===== verification/Spec2Isabelle.thy ===== *)
theory Spec2Isabelle
  imports Notify Rollup_Props Pricing_Props Parity_Props Lifecycle_Props Tail_Props Supervisor_Props Repair Coalescer Writer_Props Flush_Rollups Aggregates Resolver_Props
begin

text \<open>
  Verification development for ai-viewer: the logs of AI agents, read by one adapter per source
  format, become canonical events (sessions, turns, ops), which a daemon writes to SQLite with
  derived read models; a server shows them and tells its clients what changed; a parity gate
  compares what was stored with what the source holds. Paths are relative to \<open>src/\<close>.

  \<^bold>\<open>The parts and how they interact.\<close> A supervisor per source (\<open>cmd/ai-viewer-ingest\<close>) runs the
  scan and the tail of an adapter, which send events; the coalescer collects the events of all
  sources and flushes them in batches; a flush runs the writer of each source over its events
  and then refreshes rollups, search index and aggregates of the rows the batch has marked,
  stores the checkpoint and adds rows to the notify table. The resolver links sessions in the
  background. Lifecycle, heartbeats and repairs of read models keep the state of a source in its
  \<open>source_progress\<close> row. The hub of the server fans notifications out to its SSE subscribers.

  \<^bold>\<open>Which theory models what.\<close>
  \<^item> \<open>Prelude\<close>: machine integers (\<open>i64\<close>, \<open>u64\<close> are words of 64 bits that wrap), decimal printing
    and parsing, channels, association lists \<open>alist_put\<close>, iteration orders.
  \<^item> \<open>Notify_Ring\<close>, \<open>Notify_Sub\<close>, \<open>Notify_Hub\<close> (\<open>internal/notify\<close>): event ids, ring buffer,
    subscription and hub, one function per method, pointers as indices of a heap. \<open>Notify_Inv\<close>
    holds the invariant over all interleavings, \<open>Notify\<close> the properties.
  \<^item> \<open>Rollups\<close> (\<open>internal/rollups\<close>): buckets, fan-out of an op to dimensions, fold, collapse to
    \<open>__other__\<close> and sort. \<open>Rollup_Facts\<close> proves each metric additive in the locale
    \<open>additive_metric\<close>; \<open>Rollup_Props\<close> has additivity, unique keys, independence of map order.
  \<^item> \<open>Pricing\<close> (\<open>internal/pricing\<close>): the loader with its validations, alias routing, tiers, the
    cost functions and their counters; \<open>Pricing_Facts\<close>, \<open>Pricing_Props\<close>.
  \<^item> \<open>Parity_Manifest\<close>, \<open>Parity_Diff\<close> (\<open>internal/parity\<close>): artifacts, manifests, adapter matrices
    and the two diff engines. \<open>Parity_Facts\<close>, \<open>Parity_Engines\<close> and \<open>Parity_Stream\<close> show that both
    engines report the findings of one specification; \<open>Parity_Props\<close> has the properties.
  \<^item> \<open>Lifecycle\<close> (\<open>internal/ingest/source_lifecycle.go\<close>): updates of the durable state of a source
    and the reconciliation at startup; \<open>Tail_Liveness\<close> (\<open>tail_liveness.go\<close>): heartbeats and
    watchdog; \<open>Supervisor\<close> (\<open>source_supervisor.go\<close>, \<open>source_backoff.go\<close>): the supervisor as a
    state machine whose surroundings are a script; \<open>Repair\<close> (\<open>read_model_repair_request.go\<close>).
  \<^item> \<open>Coalescer\<close> (\<open>coalescer.go\<close>): the goroutines as a step relation over channels, and the flush
    of a batch, over an abstract transaction body per source.
  \<^item> \<open>Canonical\<close> (\<open>internal/canonical/events.go\<close>), \<open>Ingest_Store\<close> (tables, ids, SQL row
    operations), \<open>Extras\<close> (join keys in JSON), \<open>Catalog\<close> and \<open>Catalog_Facts\<close>
    (\<open>catalog*.go\<close>; the locale \<open>ledger\<close> is the contract of a catalog), \<open>Writer\<close> (\<open>writer.go\<close>, one
    function per handler), \<open>Writer_Facts\<close>, \<open>Writer_Props\<close>.
  \<^item> \<open>Flush\<close> (\<open>worker.go\<close>, \<open>rollup_refresh.go\<close>, \<open>rollup_backfill.go\<close>, \<open>aggregates.go\<close>,
    \<open>fts_refresh.go\<close>, \<open>notify_producer.go\<close>, \<open>dedup.go\<close>): the transaction of a source.
    \<open>Flush_Rollups\<close> compares refresh and rebuild; \<open>Flush_Marks\<close> shows that the handlers mark what
    they change; \<open>Aggregates\<close> that therefore every total is current.
  \<^item> \<open>Resolver\<close> (\<open>resolver.go\<close>): the link passes, the recursive query and the loop's gates;
    \<open>Resolver_Props\<close>.

  \<^bold>\<open>What the lemmas show.\<close> Invariants of all reachable states: of the hub and its subscribers, of
  heartbeats, of repairs, of the event order in the coalescer, of catalogs and aggregates under
  any flushes and resolver ticks. Equivalences: the two diff engines, rollup refresh and
  rebuild, rollups under any map order. A refinement: the supervisor against an automaton of
  legal lifecycles. Termination of the recursive root query. Exact error behaviour: rejected events,
  alias collisions, interrupted diffs, atomic updates. Some theorems prove defects of the code
  (the findings of the manifest): a retry after a rollback with stale caches, lost repair
  requests, a deadlock at shutdown, orphans that are announced for ever, links missed by the
  resolver's gates.

  \<^bold>\<open>Conventions.\<close> An error is a value: \<open>option\<close> or a sum. SQL statements are modelled by their
  effect on the rows, with the primary and foreign keys they rely on; a transaction that fails
  leaves the database as it was. Hashes, prices, clocks, Unicode case and the outcome of commits
  are arguments; hypotheses on them are those of their documentation (distinct ids hash
  differently, an iteration order is a permutation). Costs are elements of an abelian group
  instead of floats; where the code promises equal sums bit for bit the theorem needs no law
  of addition. Counters wrap at 64 bits.

  \<^bold>\<open>Bounds and fuel.\<close> The hub's properties hold for the first \<open>2 ^ 64 - 1\<close> steps, the range of
  its event counter. The supervisor's loops consume a script of what its surroundings do; a run
  ends with its script, so the properties hold for every finite prefix of a run. The recursive
  query is a partial function, shown to end. All other functions are total.

  \<^bold>\<open>Not modelled.\<close> The adapters, the parity projections and payload extraction (parsers of foreign
  log formats), the server's HTTP handlers (rendered SQL results), the store's opening and
  migrations (SQLite), the one-shot backfills of search index and prices, the parity
  command, configuration, authentication, frontend and scripts. Nothing here speaks of the
  durability or isolation of SQLite, of timing, or of memory.
\<close>

end
